(* ===== verification/Go_Prelude.thy ===== *)
theory Go_Prelude
  imports Main "HOL-Library.AList"
begin

text \<open>
  Shared vocabulary of the development: Go's 64-bit signed arithmetic, Go maps as
  association lists with distinct keys, byte strings, and the generic lemmas on lists and
  maps that the component theories use.

  A Go \<^verbatim>\<open>map[K]V\<close> is an association list: \<^const>\<open>map_of\<close> looks a key up,
  \<^const>\<open>AList.update\<close> stores a value, \<^const>\<open>AList.delete\<close> removes a key and the
  list itself is the order in which a \<^verbatim>\<open>range\<close> loop visits the entries. Go leaves that
  order unspecified; every routine of the program that ranges over a map either sorts what
  it collects or does not depend on the order.
\<close>

named_theorems store_defs \<open>definitions of the store's operations\<close>
named_theorems inv_intros \<open>preservation of the store invariant by single updates\<close>

section \<open>Types\<close>

type_synonym bytes = string
type_synonym time = int   \<comment> \<open>nanoseconds since Go's zero time; 0 is the zero \<^verbatim>\<open>time.Time\<close>\<close>
type_synonym duration = int \<comment> \<open>nanoseconds\<close>
type_synonym ('k, 'v) gomap = "('k \<times> 'v) list"

definition isZeroTime :: "time \<Rightarrow> bool" where
  "isZeroTime t \<longleftrightarrow> t = 0"

section \<open>Signed 64-bit integers\<close>

definition maxInt64 :: int where "maxInt64 = 2 ^ 63 - 1"
definition minInt64 :: int where "minInt64 = - (2 ^ 63)"

definition int64 :: "int \<Rightarrow> bool" where
  "int64 x \<longleftrightarrow> minInt64 \<le> x \<and> x \<le> maxInt64"

definition wrap64 :: "int \<Rightarrow> int" where
  "wrap64 x = (x + 2 ^ 63) mod 2 ^ 64 - 2 ^ 63"

definition add64 :: "int \<Rightarrow> int \<Rightarrow> int" where
  "add64 a b = wrap64 (a + b)"

definition mul64 :: "int \<Rightarrow> int \<Rightarrow> int" where
  "mul64 a b = wrap64 (a * b)"

definition inc_uint64 :: "nat \<Rightarrow> nat" where
  "inc_uint64 n = (n + 1) mod 2 ^ 64"

lemma inc_uint64_code [code]: "inc_uint64 n = nat ((int n + 1) mod 18446744073709551616)"
  by (simp add: inc_uint64_def nat_mod_distrib nat_add_distrib)

lemma wrap64_id [simp]: "int64 x \<Longrightarrow> wrap64 x = x"
  by (simp add: wrap64_def int64_def minInt64_def maxInt64_def)

lemma int64_wrap64 [simp]: "int64 (wrap64 x)"
  by (simp add: wrap64_def int64_def minInt64_def maxInt64_def)

lemma add64_exact: "int64 (a + b) \<Longrightarrow> add64 a b = a + b"
  by (simp add: add64_def)

lemma mul64_exact: "int64 (a * b) \<Longrightarrow> mul64 a b = a * b"
  by (simp add: mul64_def)

lemma int64_between: "int64 a \<Longrightarrow> int64 b \<Longrightarrow> a \<le> x \<Longrightarrow> x \<le> b \<Longrightarrow> int64 x"
  by (simp add: int64_def)

lemma int64_small: "0 \<le> x \<Longrightarrow> x \<le> maxInt64 \<Longrightarrow> int64 x"
  by (simp add: int64_def maxInt64_def minInt64_def)

lemma add64_succ: "0 \<le> x \<Longrightarrow> x < maxInt64 \<Longrightarrow> add64 x 1 = x + 1"
  by (rule add64_exact) (simp add: int64_def maxInt64_def minInt64_def)

lemma add64_succ_max: "add64 maxInt64 1 = minInt64"
  by (simp add: add64_def wrap64_def maxInt64_def minInt64_def)

section \<open>Maps\<close>

definition gomap_ok :: "('k, 'v) gomap \<Rightarrow> bool" where
  "gomap_ok m \<longleftrightarrow> distinct (map fst m)"

lemma gomap_ok_Nil [simp]: "gomap_ok []"
  by (simp add: gomap_ok_def)

lemma gomap_ok_update [simp, intro]: "gomap_ok m \<Longrightarrow> gomap_ok (AList.update k v m)"
  by (simp add: gomap_ok_def distinct_update)

lemma gomap_ok_delete [simp, intro]: "gomap_ok m \<Longrightarrow> gomap_ok (AList.delete k m)"
  by (simp add: gomap_ok_def AList.distinct_delete)

lemma map_of_update [simp]: "map_of (AList.update k v m) = (map_of m)(k \<mapsto> v)"
  by (rule update_conv')

lemma map_of_delete [simp]: "map_of (AList.delete k m) = (map_of m)(k := None)"
  by (rule delete_conv')

lemma gomap_mem_iff: "gomap_ok m \<Longrightarrow> (k, v) \<in> set m \<longleftrightarrow> map_of m k = Some v"
  by (auto simp: gomap_ok_def map_of_eq_Some_iff)

lemma gomap_values: "gomap_ok m \<Longrightarrow> v \<in> snd ` set m \<longleftrightarrow> (\<exists>k. map_of m k = Some v)"
  by (auto simp: image_iff gomap_mem_iff Bex_def)

lemma gomap_empty_iff: "m = [] \<longleftrightarrow> (\<forall>k. map_of m k = None)"
  by (cases m) (auto simp: map_of_eq_None_iff)

lemma update_fresh: "map_of m k = None \<Longrightarrow> AList.update k v m = m @ [(k, v)]"
  by (induction m) (auto split: if_splits)

lemma delete_absent: "map_of m k = None \<Longrightarrow> AList.delete k m = m"
  by (induction m) (auto simp: AList.delete_eq split: if_splits)

lemma delete_update_fresh:
  "map_of m k = None \<Longrightarrow> AList.delete k (AList.update k v m) = m"
  by (induction m) (auto split: if_splits)

section \<open>Sums over maps\<close>

definition gosum :: "('k, int) gomap \<Rightarrow> int" where
  "gosum m = sum_list (map snd m)"

lemma gosum_Nil [simp]: "gosum [] = 0"
  by (simp add: gosum_def)

lemma gosum_update_fresh: "map_of m k = None \<Longrightarrow> gosum (AList.update k v m) = gosum m + v"
  by (simp add: update_fresh gosum_def)

lemma gosum_delete:
  "gomap_ok m \<Longrightarrow> map_of m k = Some v \<Longrightarrow> gosum (AList.delete k m) = gosum m - v"
proof (induction m)
  case (Cons p m)
  obtain k' v' where p: "p = (k', v')" by (cases p)
  from Cons.prems(1) have dist: "gomap_ok m" and k': "map_of m k' = None"
    by (auto simp: p gomap_ok_def map_of_eq_None_iff)
  show ?case
  proof (cases "k' = k")
    case True
    with Cons.prems(2) k' show ?thesis
      by (simp add: p gosum_def delete_absent)
  next
    case False
    with Cons.IH [OF dist] Cons.prems(2) show ?thesis
      by (simp add: p gosum_def)
  qed
qed simp

lemma length_delete:
  "gomap_ok m \<Longrightarrow> map_of m k = Some v \<Longrightarrow> length (AList.delete k m) = length m - 1"
proof (induction m)
  case (Cons p m)
  obtain k' v' where p: "p = (k', v')" by (cases p)
  from Cons.prems(1) have dist: "gomap_ok m" and k': "map_of m k' = None"
    by (auto simp: p gomap_ok_def map_of_eq_None_iff)
  show ?case
  proof (cases "k' = k")
    case True
    with k' show ?thesis by (simp add: p delete_absent)
  next
    case False
    with Cons.prems(2) have "m \<noteq> []" by (auto simp: p)
    with False Cons.IH [OF dist] Cons.prems(2) show ?thesis
      by (simp add: p)
  qed
qed simp

lemma gosum_nonneg: "(\<And>v. v \<in> snd ` set m \<Longrightarrow> 0 \<le> v) \<Longrightarrow> 0 \<le> gosum m"
  by (induction m) (auto simp: gosum_def)

end
