(* ===== verification/Store_Errors.thy ===== *)
theory Store_Errors
  imports Go_Prelude
begin

text \<open>
  The error values of the runtime (\<^verbatim>\<open>runtime_store_errors.go\<close>, \<^verbatim>\<open>error.go\<close>) and
  Go's \<^verbatim>\<open>errors.Is\<close> and \<^verbatim>\<open>errors.As\<close> on the chains the program builds. A sentinel
  is a constructor without arguments; \<open>WrapError\<close> is \<^verbatim>\<open>fmt.Errorf("%w: ...")\<close>; the
  operating system's errors are \<open>IOError\<close>.
\<close>

datatype go_error =
    ErrDataDirLocked
  | ErrRuntimeStoreClosed
  | ErrRuntimeStorePoisoned
  | ErrRuntimeIdentityMissing
  | ErrRuntimeIdentityCorrupt
  | ErrRuntimeSpoolKeyMissing
  | ErrRuntimeSpoolKeyInvalid
  | ErrRuntimeRecordCorrupt
  | ErrAssignmentNotFound
  | ErrAssignmentAlreadyExists
  | ErrAttemptAlreadyExists
  | ErrAssignmentBranchConflict
  | ErrAssignmentStateRegression
  | ErrAssignmentTransition
  | ErrAssignmentCleanup
  | ErrSpoolRecordConflict
  | ErrSpoolRecordNotFound
  | ErrEventSequence
  | ErrResultAlreadyExists
  | ErrRuntimeMessageTooLarge
  | ErrRuntimeProtocolMismatch
  | ErrRuntimeSpoolBackpressure
  | ErrRuntimeSpoolFull
  | ErrRuntimeTransportSwitching
  | ContextCanceled
  | ContextDeadlineExceeded
  | TextError string                    \<comment> \<open>\<^verbatim>\<open>errors.New\<close>\<close>
  | IOError string                      \<comment> \<open>an error of the operating system\<close>
  | WrapError go_error string           \<comment> \<open>\<^verbatim>\<open>fmt.Errorf\<close> with \<^verbatim>\<open>%w\<close>\<close>
  | RuntimeRecordError string go_error  \<comment> \<open>kind and reason\<close>
  | ApiError int string string "(int \<times> int) list option"
      \<comment> \<open>\<^verbatim>\<open>*Error\<close>: StatusCode, Code, Message and the missing event ranges of Details\<close>
  | WSCloseError int string             \<comment> \<open>\<^verbatim>\<open>*websocket.CloseError\<close>: Code and Text\<close>
  | PolicyRecoveryError go_error        \<comment> \<open>\<^verbatim>\<open>*runtimePolicyRecoveryError\<close>: its cause\<close>

fun unwrapError :: "go_error \<Rightarrow> go_error option" where
  "unwrapError (WrapError e m) = Some e"
| "unwrapError (RuntimeRecordError k e) = Some e"
| "unwrapError (PolicyRecoveryError e) = Some e"
| "unwrapError _ = None"

text \<open>The chain \<^verbatim>\<open>errors.Is\<close> and \<^verbatim>\<open>errors.As\<close> walk, outermost first.\<close>

fun errorChain :: "go_error \<Rightarrow> go_error list" where
  "errorChain (WrapError e m) = WrapError e m # errorChain e"
| "errorChain (RuntimeRecordError k e) = RuntimeRecordError k e # errorChain e"
| "errorChain (PolicyRecoveryError e) = PolicyRecoveryError e # errorChain e"
| "errorChain e = [e]"

definition errorIs :: "go_error \<Rightarrow> go_error \<Rightarrow> bool" where
  "errorIs e target \<longleftrightarrow> target \<in> set (errorChain e)"

definition fatalSentinels :: "go_error list" where
  "fatalSentinels =
     [ErrRuntimeStoreClosed, ErrRuntimeStorePoisoned, ErrRuntimeRecordCorrupt,
      ErrAssignmentNotFound, ErrAssignmentAlreadyExists, ErrAttemptAlreadyExists,
      ErrAssignmentBranchConflict, ErrAssignmentStateRegression, ErrAssignmentTransition,
      ErrAssignmentCleanup, ErrSpoolRecordConflict, ErrEventSequence, ErrResultAlreadyExists,
      ErrRuntimeProtocolMismatch]"

fun errorIsAny :: "go_error \<Rightarrow> go_error list \<Rightarrow> bool" where
  "errorIsAny e [] = False"
| "errorIsAny e (t # ts) = (if errorIs e t then True else errorIsAny e ts)"

definition durableRuntimeErrorIsFatal :: "go_error \<Rightarrow> bool" where
  "durableRuntimeErrorIsFatal e = errorIsAny e fatalSentinels"

lemma errorChain_self [simp]: "e \<in> set (errorChain e)"
  by (cases e) simp_all

lemma errorIs_refl [simp]: "errorIs e e"
  by (simp add: errorIs_def)

lemma errorIs_wrap [simp]:
  "errorIs (WrapError e m) t \<longleftrightarrow> t = WrapError e m \<or> errorIs e t"
  "errorIs (RuntimeRecordError k e) t \<longleftrightarrow> t = RuntimeRecordError k e \<or> errorIs e t"
  "errorIs (PolicyRecoveryError e) t \<longleftrightarrow> t = PolicyRecoveryError e \<or> errorIs e t"
  by (auto simp: errorIs_def)

lemma errorIsAny_iff: "errorIsAny e ts \<longleftrightarrow> (\<exists>t \<in> set ts. errorIs e t)"
  by (induction ts) auto

text \<open>Wrapping never hides a fatal cause: the classification follows the whole chain.\<close>

lemma durable_fatal_wrap:
  "durableRuntimeErrorIsFatal (RuntimeRecordError k e) \<longleftrightarrow> durableRuntimeErrorIsFatal e"
  "durableRuntimeErrorIsFatal (WrapError e m) \<longleftrightarrow> durableRuntimeErrorIsFatal e"
  by (auto simp: durableRuntimeErrorIsFatal_def errorIsAny_iff fatalSentinels_def)

end
