(* ===== verification/Store_Types.thy ===== *)
theory Store_Types
  imports Store_Errors "HOL-Library.Word"
begin

text \<open>
  The identities and records of the durable store and their validation:
  \<^verbatim>\<open>AttemptIdentity\<close>, the journal, event, result and payload records
  (\<^verbatim>\<open>runtime_store_journal.go\<close>, \<^verbatim>\<open>runtime_store_spool.go\<close>,
  \<^verbatim>\<open>runtime_store_assignment.go\<close>), the header that authenticates a record
  (\<^verbatim>\<open>runtime_store_crypto.go\<close>), runtime identifiers, SHA-256 digests in hexadecimal and
  the UUIDs of \<^verbatim>\<open>runtime_store_identity.go\<close>.
\<close>

unbundle bit_operations_syntax

section \<open>Identifiers\<close>

definition code :: "char \<Rightarrow> nat" where
  "code c = of_char c"

definition validRuntimeID :: "string \<Rightarrow> bool" where
  "validRuntimeID v \<longleftrightarrow> v \<noteq> [] \<and> length v \<le> 255 \<and> CHR 0x00 \<notin> set v"

section \<open>Hexadecimal\<close>

definition hexDigits :: string where "hexDigits = ''0123456789abcdef''"

definition hexChar :: "nat \<Rightarrow> char" where
  "hexChar n = hexDigits ! (n mod 16)"

definition hexVal :: "char \<Rightarrow> nat option" where
  "hexVal c =
     (if 48 \<le> code c \<and> code c \<le> 57 then Some (code c - 48)
      else if 97 \<le> code c \<and> code c \<le> 102 then Some (code c - 87)
      else if 65 \<le> code c \<and> code c \<le> 70 then Some (code c - 55)
      else None)"

fun hexEncode :: "bytes \<Rightarrow> string" where
  "hexEncode [] = []"
| "hexEncode (b # bs) = hexChar (code b div 16) # hexChar (code b mod 16) # hexEncode bs"

fun hexDecode :: "string \<Rightarrow> bytes option" where
  "hexDecode [] = Some []"
| "hexDecode [x] = None"
| "hexDecode (x # y # rest) =
     (case (hexVal x, hexVal y, hexDecode rest) of
        (Some h, Some l, Some bs) \<Rightarrow> Some (char_of (16 * h + l) # bs)
      | _ \<Rightarrow> None)"

definition sha256_Size :: nat where "sha256_Size = 32"

definition validSHA256Digest :: "string \<Rightarrow> bool" where
  "validSHA256Digest v =
     (case hexDecode v of
        None \<Rightarrow> False
      | Some decoded \<Rightarrow> length decoded = sha256_Size \<and> v = hexEncode decoded)"

section \<open>UUIDs\<close>

text \<open>
  \<^verbatim>\<open>newRuntimeUUID\<close>: sixteen random bytes (\<open>None\<close> when the random source fails), the
  version and variant bits set, printed in five hexadecimal groups.
\<close>

definition formatUUID :: "bytes \<Rightarrow> string" where
  "formatUUID v =
     hexEncode (take 4 v) @ ''-'' @ hexEncode (take 2 (drop 4 v)) @ ''-'' @
     hexEncode (take 2 (drop 6 v)) @ ''-'' @ hexEncode (take 2 (drop 8 v)) @ ''-'' @
     hexEncode (take 6 (drop 10 v))"

definition setUUIDBits :: "nat \<Rightarrow> bytes \<Rightarrow> bytes" where
  "setUUIDBits version v =
     (let v1 = v[6 := char_of ((code (v ! 6) AND 0x0f) OR version)]
      in v1[8 := char_of ((code (v1 ! 8) AND 0x3f) OR 0x80)])"

definition newRuntimeUUID :: "bytes option \<Rightarrow> go_error + string" where
  "newRuntimeUUID random =
     (case random of
        None \<Rightarrow> Inl (IOError ''rand'')
      | Some v \<Rightarrow> Inr (formatUUID (setUUIDBits 0x40 v)))"

definition zeroUUID :: string where
  "zeroUUID = ''00000000-0000-0000-0000-000000000000''"

definition uuidHexAt :: "string \<Rightarrow> nat \<Rightarrow> bool" where
  "uuidHexAt v i =
     (if i = 8 \<or> i = 13 \<or> i = 18 \<or> i = 23 then True
      else (48 \<le> code (v ! i) \<and> code (v ! i) \<le> 57) \<or> (97 \<le> code (v ! i) \<and> code (v ! i) \<le> 102))"

definition validRuntimeUUID :: "string \<Rightarrow> bool" where
  "validRuntimeUUID v =
     (if length v \<noteq> 36 \<or> v = zeroUUID \<or> v ! 8 \<noteq> CHR ''-'' \<or> v ! 13 \<noteq> CHR ''-''
         \<or> v ! 18 \<noteq> CHR ''-'' \<or> v ! 23 \<noteq> CHR ''-'' then False
      else list_all (uuidHexAt v) [0..<length v])"

section \<open>Records\<close>

record attempt_identity =
  ai_NodeID :: string
  ai_AgentID :: string
  ai_WorkerID :: string
  ai_RuntimeSessionID :: string
  ai_SessionEpoch :: int
  ai_AssignmentMessageID :: string
  ai_RunID :: string
  ai_AttemptID :: string
  ai_OfferID :: string
  ai_LeaseID :: string
  ai_FencingToken :: int

record runtime_identity =
  ri_WorkerID :: string
  ri_RuntimeSessionID :: string
  ri_SessionEpoch :: int

fun firstInvalidID :: "string list \<Rightarrow> bool" where
  "firstInvalidID [] = False"
| "firstInvalidID (v # vs) = (if \<not> validRuntimeID v then True else firstInvalidID vs)"

definition identity_validate :: "attempt_identity \<Rightarrow> go_error option" where
  "identity_validate i =
     (let values = [ai_NodeID i, ai_AgentID i, ai_WorkerID i, ai_RuntimeSessionID i,
                    ai_AssignmentMessageID i, ai_RunID i, ai_AttemptID i, ai_OfferID i, ai_LeaseID i]
      in if firstInvalidID values then Some ErrRuntimeRecordCorrupt
         else if ai_SessionEpoch i \<le> 0 \<or> ai_FencingToken i \<le> 0 then Some ErrRuntimeRecordCorrupt
         else None)"

datatype assignment_state =
    AssignmentStateReceived
  | AssignmentStateACKSent
  | AssignmentStateConfirmed
  | AssignmentStateStarted
  | AssignmentStateFinished
  | AssignmentStateResultACKed
  | AssignmentStateRejectSent
  | AssignmentStateRejected
  | AssignmentStateRevoked
  | AssignmentStateOther string  \<comment> \<open>any other string; \<open>AssignmentStateOther []\<close> is the zero value\<close>

record journal_record =
  jr_Identity :: attempt_identity
  jr_InputDigest :: string
  jr_SignedContextDigest :: string
  jr_State :: assignment_state
  jr_LastClientEventSeq :: int
  jr_AckedClientEventSeq :: int
  jr_AckedOutOfOrderEventSeqs :: "int list"
  jr_ResultID :: string
  jr_FinalClientEventSeq :: int
  jr_UpdatedAt :: time

record journal_entry =
  je_Record :: journal_record
  je_Deleted :: bool

record event_spool_record =
  ev_Version :: int
  ev_Identity :: attempt_identity
  ev_ClientEventID :: string
  ev_ClientEventSeq :: int
  ev_EventType :: string
  ev_Payload :: bytes
  ev_CreatedAt :: time

record result_spool_record =
  rs_Version :: int
  rs_Identity :: attempt_identity
  rs_ResultID :: string
  rs_FinalClientEventSeq :: int
  rs_Status :: string
  rs_Payload :: bytes
  rs_CreatedAt :: time

record assignment_payload =
  pl_Version :: int
  pl_Identity :: attempt_identity
  pl_Input :: bytes
  pl_Metadata :: bytes
  pl_NodeEnvelope :: string
  pl_AgentInvocationToken :: string
  pl_OfferExpiresAt :: time
  pl_AttemptDeadlineAt :: time
  pl_RunDeadlineAt :: time
  pl_CreatedAt :: time

section \<open>Record headers\<close>

record disk_record_header =
  hd_Version :: int
  hd_Kind :: string
  hd_NodeID :: string
  hd_AgentID :: string
  hd_WorkerID :: string
  hd_RuntimeSessionID :: string
  hd_SessionEpoch :: int
  hd_AssignmentMessageID :: string
  hd_RunID :: string
  hd_AttemptID :: string
  hd_OfferID :: string
  hd_LeaseID :: string
  hd_FencingToken :: int
  hd_MessageID :: string

definition runtimeCryptoVersion :: int where "runtimeCryptoVersion = 1"

definition headerForAttempt :: "string \<Rightarrow> string \<Rightarrow> attempt_identity \<Rightarrow> disk_record_header" where
  "headerForAttempt kind messageID i =
     \<lparr>hd_Version = runtimeCryptoVersion, hd_Kind = kind, hd_NodeID = ai_NodeID i,
      hd_AgentID = ai_AgentID i, hd_WorkerID = ai_WorkerID i,
      hd_RuntimeSessionID = ai_RuntimeSessionID i, hd_SessionEpoch = ai_SessionEpoch i,
      hd_AssignmentMessageID = ai_AssignmentMessageID i, hd_RunID = ai_RunID i,
      hd_AttemptID = ai_AttemptID i, hd_OfferID = ai_OfferID i, hd_LeaseID = ai_LeaseID i,
      hd_FencingToken = ai_FencingToken i, hd_MessageID = messageID\<rparr>"

definition headerMatchesAttempt ::
  "disk_record_header \<Rightarrow> string \<Rightarrow> string \<Rightarrow> attempt_identity \<Rightarrow> bool" where
  "headerMatchesAttempt h kind messageID i \<longleftrightarrow> h = headerForAttempt kind messageID i"

section \<open>Lemmas\<close>

lemma firstInvalidID_iff: "firstInvalidID vs \<longleftrightarrow> (\<exists>v \<in> set vs. \<not> validRuntimeID v)"
  by (induction vs) auto

lemma identity_validate_None:
  "identity_validate i = None \<longleftrightarrow>
     (\<forall>v \<in> {ai_NodeID i, ai_AgentID i, ai_WorkerID i, ai_RuntimeSessionID i,
            ai_AssignmentMessageID i, ai_RunID i, ai_AttemptID i, ai_OfferID i, ai_LeaseID i}.
        validRuntimeID v) \<and> 0 < ai_SessionEpoch i \<and> 0 < ai_FencingToken i"
  by (auto simp: identity_validate_def Let_def firstInvalidID_iff)

lemma identity_validate_ids:
  assumes "identity_validate i = None"
  shows "validRuntimeID (ai_AttemptID i)" and "validRuntimeID (ai_AssignmentMessageID i)"
    and "validRuntimeID (ai_WorkerID i)"
  using assms by (simp_all add: identity_validate_None)

lemma headerForAttempt_inj:
  "headerForAttempt k m i = headerForAttempt k' m' i' \<longleftrightarrow> k = k' \<and> m = m' \<and> i = i'"
  by (cases i, cases i') (auto simp: headerForAttempt_def)

definition lowerHex :: "char \<Rightarrow> bool" where
  "lowerHex c \<longleftrightarrow> (48 \<le> code c \<and> code c \<le> 57) \<or> (97 \<le> code c \<and> code c \<le> 102)"

lemma code_less_256 [simp]: "code c < 256"
  by (simp add: code_def)

lemma char_of_code [simp]: "char_of (code c) = c"
  by (simp add: code_def)

lemma code_char_of [simp]: "code (char_of n) = n mod 256"
  by (simp add: code_def)

lemma nibble_cases:
  "(n::nat) < 16 \<Longrightarrow> n = 15 \<or> n = 14 \<or> n = 13 \<or> n = 12 \<or> n = 11 \<or> n = 10 \<or> n = 9 \<or> n = 8
     \<or> n = 7 \<or> n = 6 \<or> n = 5 \<or> n = 4 \<or> n = 3 \<or> n = 2 \<or> n = 1 \<or> n = 0"
  by presburger

lemma hexVal_hexChar [simp]: "hexVal (hexChar n) = Some (n mod 16)"
proof -
  have "n mod 16 < 16" by simp
  from nibble_cases [OF this] show ?thesis
    by (elim disjE) (simp_all add: hexChar_def hexDigits_def hexVal_def code_def)
qed

lemma lowerHex_hexChar [simp]: "lowerHex (hexChar n)"
proof -
  have "n mod 16 < 16" by simp
  from nibble_cases [OF this] show ?thesis
    by (elim disjE) (simp_all add: hexChar_def hexDigits_def lowerHex_def code_def)
qed

lemma hexVal_less: "hexVal c = Some n \<Longrightarrow> n < 16"
  by (auto simp: hexVal_def split: if_splits)

lemma hexChar_hexVal: "lowerHex c \<Longrightarrow> \<exists>n. hexVal c = Some n \<and> n < 16 \<and> hexChar n = c"
proof -
  assume low: "lowerHex c"
  then obtain n where n: "hexVal c = Some n"
    by (auto simp: hexVal_def lowerHex_def)
  then have lt: "n < 16" by (rule hexVal_less)
  from nibble_cases [OF lt] have "code (hexChar n) = code c"
    using n low by (elim disjE)
      (auto simp: hexChar_def hexDigits_def code_def lowerHex_def hexVal_def split: if_splits)
  then have "hexChar n = c" by (metis char_of_code)
  with n lt show ?thesis by blast
qed

lemma length_hexEncode [simp]: "length (hexEncode bs) = 2 * length bs"
  by (induction bs) auto

lemma lowerHex_hexEncode: "c \<in> set (hexEncode bs) \<Longrightarrow> lowerHex c"
  by (induction bs) auto

lemma hexDecode_hexEncode [simp]: "hexDecode (hexEncode bs) = Some bs"
proof (induction bs)
  case (Cons b bs)
  have "code b div 16 < 16" using code_less_256 [of b] by linarith
  with Cons show ?case by simp
qed simp

lemma hexEncode_hexDecode:
  "even (length v) \<Longrightarrow> (\<And>c. c \<in> set v \<Longrightarrow> lowerHex c) \<Longrightarrow>
     \<exists>bs. hexDecode v = Some bs \<and> hexEncode bs = v"
proof (induction v rule: hexDecode.induct)
  case (3 x y rest)
  then obtain bs where bs: "hexDecode rest = Some bs" "hexEncode bs = rest" by auto
  from "3.prems"(2) obtain h l where h: "hexVal x = Some h" "h < 16" "hexChar h = x"
    and l: "hexVal y = Some l" "l < 16" "hexChar l = y"
    using hexChar_hexVal [of x] hexChar_hexVal [of y] by auto
  have "(16 * h + l) div 16 = h" "(16 * h + l) mod 16 = l" "16 * h + l < 256"
    using h(2) l(2) by auto
  with bs h l show ?case by simp
qed simp_all

theorem validSHA256Digest_iff:
  "validSHA256Digest v \<longleftrightarrow> length v = 64 \<and> list_all lowerHex v"
proof
  assume "validSHA256Digest v"
  then obtain bs where "length bs = 32" "v = hexEncode bs"
    by (auto simp: validSHA256Digest_def sha256_Size_def split: option.splits)
  then show "length v = 64 \<and> list_all lowerHex v"
    by (auto simp: list_all_iff intro: lowerHex_hexEncode)
next
  assume v: "length v = 64 \<and> list_all lowerHex v"
  then obtain bs where "hexDecode v = Some bs" "hexEncode bs = v"
    using hexEncode_hexDecode [of v] by (auto simp: list_all_iff)
  with v show "validSHA256Digest v"
    using length_hexEncode [of bs] by (auto simp: validSHA256Digest_def sha256_Size_def)
qed

lemma version_nibble: "(((b::nat) AND 15) OR 64) div 16 = 4" "((b AND 15) OR 64) < 256"
proof -
  have "b AND 15 = take_bit 4 b" by (simp add: take_bit_eq_mask mask_eq_exp_minus_1)
  then have "b AND 15 < 16" by (simp add: take_bit_eq_mod)
  from nibble_cases [OF this]
  show "((b AND 15) OR 64) div 16 = 4" and "((b AND 15) OR 64) < 256"
    by (elim disjE; simp)+
qed

lemma uuid_shape:
  assumes "length a = 8" "length b = 4" "length c = 4" "length d = 4" "length e = 12"
    and "\<And>x. x \<in> set (a @ b @ c @ d @ e) \<Longrightarrow> lowerHex x"
    and "u = a @ ''-'' @ b @ ''-'' @ c @ ''-'' @ d @ ''-'' @ e" and "u \<noteq> zeroUUID"
  shows "validRuntimeUUID u"
proof -
  have "lowerHex (u ! i)" if i: "i < 36" "i \<noteq> 8" "i \<noteq> 13" "i \<noteq> 18" "i \<noteq> 23" for i
  proof -
    consider "i < 8" | "8 < i" "i < 13" | "13 < i" "i < 18" | "18 < i" "i < 23" | "23 < i"
      using i by arith
    then show ?thesis
      using i(1) by cases (auto simp: assms(1-5,7) nth_append intro!: assms(6) nth_mem
        split: nat_diff_split)
  qed
  then have "uuidHexAt u i" if "i < 36" for i
    using that by (auto simp: uuidHexAt_def lowerHex_def)
  then show ?thesis
    using assms by (auto simp: validRuntimeUUID_def nth_append list_all_iff)
qed

theorem newRuntimeUUID_valid:
  assumes "length random = 16" and "newRuntimeUUID (Some random) = Inr u"
  shows "validRuntimeUUID u"
proof -
  let ?w = "setUUIDBits 0x40 random"
  have len: "length ?w = 16" using assms(1) by (simp add: setUUIDBits_def Let_def)
  have u: "u = formatUUID ?w" using assms(2) by (simp add: newRuntimeUUID_def)
  have "?w ! 6 = char_of ((code (random ! 6) AND 15) OR 64)"
    using assms(1) by (simp add: setUUIDBits_def Let_def)
  then have nib: "code (?w ! 6) div 16 = 4" using version_nibble by simp
  have "take 2 (drop 6 ?w) = [?w ! 6, ?w ! 7]"
    using len by (simp add: list_eq_iff_nth_eq less_Suc_eq numeral_eq_Suc)
  with nib have "u ! 14 = hexChar 4"
    using len by (simp add: u formatUUID_def nth_append)
  then have nz: "u \<noteq> zeroUUID"
    by (auto simp: zeroUUID_def hexChar_def hexDigits_def)
  show ?thesis
    by (rule uuid_shape [OF _ _ _ _ _ _ u [unfolded formatUUID_def] nz])
       (use len in \<open>auto dest: lowerHex_hexEncode\<close>)
qed

lemma hexEncode_append: "hexEncode (xs @ ys) = hexEncode xs @ hexEncode ys"
  by (induction xs) auto

end
