(* ===== verification/Journal_Machine.thy ===== *)
theory Journal_Machine
  imports Store_Types
begin

text \<open>
  The assignment state machine of \<^verbatim>\<open>runtime_store_journal.go\<close> (the transition table, its
  branches and ranks, the check that a journal record only makes progress) and the event
  acknowledgement window of \<^verbatim>\<open>runtime_store_spool.go\<close> (a contiguous prefix and a sorted
  list of sequences acknowledged out of order).
\<close>

section \<open>The state machine\<close>

definition assignmentStateBranch :: "assignment_state \<Rightarrow> string" where
  "assignmentStateBranch s =
     (case s of
        AssignmentStateACKSent \<Rightarrow> ''accept'' | AssignmentStateConfirmed \<Rightarrow> ''accept''
      | AssignmentStateStarted \<Rightarrow> ''accept'' | AssignmentStateFinished \<Rightarrow> ''accept''
      | AssignmentStateResultACKed \<Rightarrow> ''accept''
      | AssignmentStateRejectSent \<Rightarrow> ''reject'' | AssignmentStateRejected \<Rightarrow> ''reject''
      | AssignmentStateReceived \<Rightarrow> ''open''
      | AssignmentStateRevoked \<Rightarrow> ''revoked''
      | AssignmentStateOther _ \<Rightarrow> ''invalid'')"

definition assignmentStateRank :: "assignment_state \<Rightarrow> int" where
  "assignmentStateRank s =
     (case s of
        AssignmentStateReceived \<Rightarrow> 1
      | AssignmentStateACKSent \<Rightarrow> 2 | AssignmentStateRejectSent \<Rightarrow> 2
      | AssignmentStateConfirmed \<Rightarrow> 3 | AssignmentStateRejected \<Rightarrow> 3
      | AssignmentStateStarted \<Rightarrow> 4
      | AssignmentStateFinished \<Rightarrow> 5
      | AssignmentStateResultACKed \<Rightarrow> 6 | AssignmentStateRevoked \<Rightarrow> 6
      | AssignmentStateOther _ \<Rightarrow> -1)"

definition validateAssignmentStateTransition ::
  "assignment_state \<Rightarrow> assignment_state \<Rightarrow> go_error option" where
  "validateAssignmentStateTransition current next =
     (let allowed =
        (case current of
           AssignmentStateReceived \<Rightarrow>
             next = AssignmentStateACKSent \<or> next = AssignmentStateRejectSent \<or> next = AssignmentStateRevoked
         | AssignmentStateACKSent \<Rightarrow> next = AssignmentStateConfirmed \<or> next = AssignmentStateRevoked
         | AssignmentStateConfirmed \<Rightarrow> next = AssignmentStateStarted \<or> next = AssignmentStateRevoked
         | AssignmentStateStarted \<Rightarrow> next = AssignmentStateFinished \<or> next = AssignmentStateRevoked
         | AssignmentStateFinished \<Rightarrow> next = AssignmentStateResultACKed \<or> next = AssignmentStateRevoked
         | AssignmentStateRejectSent \<Rightarrow> next = AssignmentStateRejected \<or> next = AssignmentStateRevoked
         | _ \<Rightarrow> False)
      in if allowed then None
         else if assignmentStateBranch current \<noteq> assignmentStateBranch next
                 \<and> assignmentStateBranch current \<noteq> ''open'' \<and> next \<noteq> AssignmentStateRevoked
              then Some ErrAssignmentBranchConflict
         else if assignmentStateRank next \<le> assignmentStateRank current
              then Some ErrAssignmentStateRegression
         else Some ErrAssignmentTransition)"

definition isAssignmentTerminal :: "assignment_state \<Rightarrow> bool" where
  "isAssignmentTerminal s \<longleftrightarrow>
     s = AssignmentStateResultACKed \<or> s = AssignmentStateRejected \<or> s = AssignmentStateRevoked"

section \<open>Acknowledged event sequences\<close>

text \<open>\<^verbatim>\<open>sort.Search\<close>: the least index of \<open>[i, j)\<close> where the monotone predicate holds.\<close>

function goSearch :: "(nat \<Rightarrow> bool) \<Rightarrow> nat \<Rightarrow> nat \<Rightarrow> nat" where
  "goSearch f i j =
     (if i < j then (let h = (i + j) div 2 in if \<not> f h then goSearch f (h + 1) j else goSearch f i h)
      else i)"
  by pat_completeness auto
termination
  by (relation "measure (\<lambda>(f, i, j). j - i)") auto

declare goSearch.simps [simp del]

definition eventSequenceACKed :: "journal_record \<Rightarrow> int \<Rightarrow> bool" where
  "eventSequenceACKed r sequence =
     (if sequence \<le> jr_AckedClientEventSeq r then True
      else let xs = jr_AckedOutOfOrderEventSeqs r;
               index = goSearch (\<lambda>i. xs ! i \<ge> sequence) 0 (length xs)
           in index < length xs \<and> xs ! index = sequence)"

fun compactLoop :: "int list \<Rightarrow> int list \<Rightarrow> int list" where
  "compactLoop out [] = out"
| "compactLoop out (v # vs) =
     (if out \<noteq> [] \<and> last out = v then compactLoop out vs else compactLoop (out @ [v]) vs)"

definition sortedUniqueSequences :: "int list \<Rightarrow> int list" where
  "sortedUniqueSequences values = compactLoop [] (sort values)"

fun absorbLoop :: "int \<Rightarrow> int list \<Rightarrow> int list \<Rightarrow> int \<times> int list" where
  "absorbLoop acked remaining [] = (acked, remaining)"
| "absorbLoop acked remaining (candidate # rest) =
     (if candidate = add64 acked 1 then absorbLoop candidate remaining rest
      else absorbLoop acked (remaining @ [candidate]) rest)"

definition applyEventACK :: "journal_record \<Rightarrow> int \<Rightarrow> journal_record" where
  "applyEventACK r sequence =
     (if sequence = add64 (jr_AckedClientEventSeq r) 1 then
        (case absorbLoop sequence [] (jr_AckedOutOfOrderEventSeqs r) of
           (acked, remaining) \<Rightarrow>
             r\<lparr>jr_AckedClientEventSeq := acked, jr_AckedOutOfOrderEventSeqs := remaining\<rparr>)
      else r\<lparr>jr_AckedOutOfOrderEventSeqs :=
                sortedUniqueSequences (jr_AckedOutOfOrderEventSeqs r @ [sequence])\<rparr>)"

section \<open>Progress of a journal record\<close>

text \<open>The first loop of \<^verbatim>\<open>validateJournalProgress\<close>: the set it has seen, or an error.\<close>

fun progressSeen :: "int \<Rightarrow> int \<Rightarrow> int list \<Rightarrow> int \<Rightarrow> int list \<Rightarrow> int list option" where
  "progressSeen acked lastSeq seen prev [] = Some seen"
| "progressSeen acked lastSeq seen prev (sequence # rest) =
     (if sequence \<le> acked \<or> sequence > lastSeq \<or> sequence \<le> prev then None
      else if sequence \<in> set seen then None
      else progressSeen acked lastSeq (sequence # seen) sequence rest)"

fun progressKept :: "int \<Rightarrow> int list \<Rightarrow> int list \<Rightarrow> bool" where
  "progressKept acked seen [] = True"
| "progressKept acked seen (sequence # rest) =
     (if sequence \<le> acked then progressKept acked seen rest
      else if sequence \<notin> set seen then False
      else progressKept acked seen rest)"

definition validateJournalProgress :: "journal_record \<Rightarrow> journal_record \<Rightarrow> go_error option" where
  "validateJournalProgress previous next =
     (if isZeroTime (jr_UpdatedAt next) then Some ErrRuntimeRecordCorrupt
      else if jr_LastClientEventSeq next < 0 \<or> jr_AckedClientEventSeq next < 0
              \<or> jr_FinalClientEventSeq next < 0
              \<or> jr_LastClientEventSeq next < jr_LastClientEventSeq previous
              \<or> jr_AckedClientEventSeq next < jr_AckedClientEventSeq previous
              \<or> jr_AckedClientEventSeq next > jr_LastClientEventSeq next
           then Some ErrEventSequence
      else if jr_ResultID next \<noteq> jr_ResultID previous \<and> jr_ResultID previous \<noteq> []
           then Some ErrSpoolRecordConflict
      else if jr_FinalClientEventSeq next \<noteq> jr_FinalClientEventSeq previous \<and> jr_ResultID previous \<noteq> []
           then Some ErrSpoolRecordConflict
      else if jr_ResultID next \<noteq> []
              \<and> (\<not> validRuntimeID (jr_ResultID next)
                 \<or> jr_FinalClientEventSeq next \<noteq> jr_LastClientEventSeq next)
           then Some ErrRuntimeRecordCorrupt
      else
        (let bad =
           (case jr_State next of
              AssignmentStateFinished \<Rightarrow> jr_ResultID next = []
            | AssignmentStateResultACKed \<Rightarrow> jr_ResultID next = []
            | AssignmentStateRevoked \<Rightarrow> False
            | AssignmentStateOther _ \<Rightarrow> True
            | _ \<Rightarrow> jr_ResultID next \<noteq> [] \<or> jr_FinalClientEventSeq next \<noteq> 0)
         in if bad then Some ErrRuntimeRecordCorrupt
            else
              (case progressSeen (jr_AckedClientEventSeq next) (jr_LastClientEventSeq next) [] 0
                      (jr_AckedOutOfOrderEventSeqs next) of
                 None \<Rightarrow> Some ErrEventSequence
               | Some seen \<Rightarrow>
                   if progressKept (jr_AckedClientEventSeq next) seen
                        (jr_AckedOutOfOrderEventSeqs previous) then None
                   else Some ErrEventSequence)))"

section \<open>Lemmas: the state machine\<close>

text \<open>The edges of the machine as a relation.\<close>

inductive assignment_step :: "assignment_state \<Rightarrow> assignment_state \<Rightarrow> bool" where
  ack_sent: "assignment_step AssignmentStateReceived AssignmentStateACKSent"
| reject_sent: "assignment_step AssignmentStateReceived AssignmentStateRejectSent"
| confirmed: "assignment_step AssignmentStateACKSent AssignmentStateConfirmed"
| started: "assignment_step AssignmentStateConfirmed AssignmentStateStarted"
| finished: "assignment_step AssignmentStateStarted AssignmentStateFinished"
| result_acked: "assignment_step AssignmentStateFinished AssignmentStateResultACKed"
| rejected: "assignment_step AssignmentStateRejectSent AssignmentStateRejected"
| revoked: "s \<in> {AssignmentStateReceived, AssignmentStateACKSent, AssignmentStateConfirmed,
     AssignmentStateStarted, AssignmentStateFinished, AssignmentStateRejectSent} \<Longrightarrow>
     assignment_step s AssignmentStateRevoked"

inductive_cases assignment_stepE: "assignment_step a b"

lemma transition_iff_step:
  "validateAssignmentStateTransition a b = None \<longleftrightarrow> assignment_step a b"
  by (cases a) (auto simp: validateAssignmentStateTransition_def Let_def
      intro: assignment_step.intros elim!: assignment_stepE)

lemma assignment_step_rank:
  "assignment_step a b \<Longrightarrow> assignmentStateRank a < assignmentStateRank b"
  by (auto simp: assignmentStateRank_def elim!: assignment_step.cases)

lemma assignment_step_terminal: "assignment_step a b \<Longrightarrow> \<not> isAssignmentTerminal a"
  by (auto simp: isAssignmentTerminal_def elim!: assignment_step.cases)

lemma assignment_steps_rank:
  "assignment_step\<^sup>+\<^sup>+ a b \<Longrightarrow> assignmentStateRank a < assignmentStateRank b"
  by (induction rule: tranclp_induct) (auto dest: assignment_step_rank)

section \<open>Lemmas: the acknowledgement window\<close>

definition ackedSet :: "journal_record \<Rightarrow> int set" where
  "ackedSet r = {1 .. jr_AckedClientEventSeq r} \<union> set (jr_AckedOutOfOrderEventSeqs r)"

text \<open>
  The window is canonical: the prefix is maximal, the sequences above it are strictly
  ascending and none of them exceeds the last allocated sequence.
\<close>

definition ack_wf :: "journal_record \<Rightarrow> bool" where
  "ack_wf r \<longleftrightarrow>
     0 \<le> jr_AckedClientEventSeq r \<and> jr_AckedClientEventSeq r \<le> jr_LastClientEventSeq r
     \<and> jr_LastClientEventSeq r \<le> maxInt64
     \<and> sorted_wrt (<) (jr_AckedOutOfOrderEventSeqs r)
     \<and> (\<forall>x \<in> set (jr_AckedOutOfOrderEventSeqs r).
          jr_AckedClientEventSeq r + 1 < x \<and> x \<le> jr_LastClientEventSeq r)"

lemma goSearch_stop: "\<not> i < j \<Longrightarrow> goSearch f i j = i"
  by (simp add: goSearch.simps [of f i j])

lemma goSearch_bounds: "i \<le> j \<Longrightarrow> i \<le> goSearch f i j \<and> goSearch f i j \<le> j"
proof (induction f i j rule: goSearch.induct)
  case (1 f i j)
  let ?h = "(i + j) div 2"
  show ?case
  proof (cases "i < j")
    case True
    then have "?h < j" "i \<le> ?h" by simp_all
    with True "1.IH"(1) [OF True refl] "1.IH"(2) [OF True refl] show ?thesis
      by (auto simp: goSearch.simps [of f i j] Let_def)
  next
    case False
    with "1.prems" show ?thesis by (simp add: goSearch_stop)
  qed
qed

lemma goSearch_spec:
  assumes "\<And>a b. i \<le> a \<Longrightarrow> a \<le> b \<Longrightarrow> b < j \<Longrightarrow> f a \<Longrightarrow> f b" and "i \<le> j"
  shows "(\<forall>k. i \<le> k \<and> k < goSearch f i j \<longrightarrow> \<not> f k) \<and> (goSearch f i j < j \<longrightarrow> f (goSearch f i j))"
  using assms
proof (induction f i j rule: goSearch.induct)
  case (1 f i j)
  let ?h = "(i + j) div 2"
  show ?case
  proof (cases "i < j")
    case False
    with "1.prems" show ?thesis by (auto simp: goSearch_stop)
  next
    case True
    then have h: "?h < j" "i \<le> ?h" by simp_all
    show ?thesis
    proof (cases "f ?h")
      case False
      then have eq: "goSearch f i j = goSearch f (?h + 1) j"
        using True by (simp add: goSearch.simps [of f i j] Let_def)
      have low: "\<not> f k" if "i \<le> k" "k \<le> ?h" for k
        using that False h "1.prems"(1) [of k ?h] by auto
      have mono: "f b" if "?h + 1 \<le> a" "a \<le> b" "b < j" "f a" for a b
        using "1.prems"(1) [of a b] that h by simp
      have "(\<forall>k. ?h + 1 \<le> k \<and> k < goSearch f (?h + 1) j \<longrightarrow> \<not> f k)
          \<and> (goSearch f (?h + 1) j < j \<longrightarrow> f (goSearch f (?h + 1) j))"
        using "1.IH"(1) [OF True refl False mono] h by simp
      with eq low show ?thesis by (metis Suc_eq_plus1 not_less_eq_eq)
    next
      case fh: True
      then have eq: "goSearch f i j = goSearch f i ?h"
        using True by (simp add: goSearch.simps [of f i j] Let_def)
      have mono: "f b" if "i \<le> a" "a \<le> b" "b < ?h" "f a" for a b
        using "1.prems"(1) [of a b] that h by simp
      have "(\<forall>k. i \<le> k \<and> k < goSearch f i ?h \<longrightarrow> \<not> f k)
          \<and> (goSearch f i ?h < ?h \<longrightarrow> f (goSearch f i ?h))"
        using "1.IH"(2) [OF True refl _ mono] fh h by simp
      moreover have "goSearch f i ?h \<le> ?h" using goSearch_bounds [of i ?h f] h by simp
      ultimately show ?thesis using eq fh by (metis le_neq_implies_less)
    qed
  qed
qed

lemma sorted_search_mem:
  fixes x :: int
  assumes "sorted_wrt (<) xs"
  defines "k \<equiv> goSearch (\<lambda>i. xs ! i \<ge> x) 0 (length xs)"
  shows "k < length xs \<and> xs ! k = x \<longleftrightarrow> x \<in> set xs"
proof
  assume "k < length xs \<and> xs ! k = x"
  then show "x \<in> set xs" by auto
next
  assume "x \<in> set xs"
  then obtain m where m: "m < length xs" "xs ! m = x" by (auto simp: in_set_conv_nth)
  have mono: "xs ! a \<le> xs ! b" if "a \<le> b" "b < length xs" for a b
    using sorted_nth_mono [OF strict_sorted_imp_sorted [OF assms(1)]] that by simp
  have spec: "(\<forall>i. i < k \<longrightarrow> \<not> x \<le> xs ! i) \<and> (k < length xs \<longrightarrow> x \<le> xs ! k)"
    unfolding k_def using goSearch_spec [of 0 "length xs" "\<lambda>i. x \<le> xs ! i"] mono
    by (meson dual_order.trans le0)
  have "k \<le> m" using spec m by (metis linorder_not_le order.refl)
  then have "k < length xs" using m by simp
  moreover have "xs ! k \<le> x" using mono [OF \<open>k \<le> m\<close>] m by simp
  ultimately show "k < length xs \<and> xs ! k = x" using spec by auto
qed

lemma eventSequenceACKed_iff:
  assumes "ack_wf r" and "1 \<le> s"
  shows "eventSequenceACKed r s \<longleftrightarrow> s \<in> ackedSet r"
  using assms sorted_search_mem [of "jr_AckedOutOfOrderEventSeqs r" s]
  by (auto simp: eventSequenceACKed_def ackedSet_def ack_wf_def Let_def)

lemma compactLoop_spec:
  "sorted (out @ vs) \<Longrightarrow> sorted_wrt (<) out \<Longrightarrow>
     sorted_wrt (<) (compactLoop out vs) \<and> set (compactLoop out vs) = set out \<union> set vs"
proof (induction out vs rule: compactLoop.induct)
  case (2 out v vs)
  show ?case
  proof (cases "out \<noteq> [] \<and> last out = v")
    case True
    with 2 show ?thesis by (auto simp: sorted_append)
  next
    case False
    have "x < v" if "x \<in> set out" for x
    proof -
      have "sorted_wrt (<) (butlast out @ [last out])" "x \<in> set (butlast out @ [last out])"
        using that "2.prems"(2) append_butlast_last_id [of out] by (metis empty_iff list.set(1))+
      then have "x \<le> last out" by (auto simp: sorted_wrt_append)
      moreover have "last out \<in> set out" using that by (metis empty_iff last_in_set list.set(1))
      then have "last out \<le> v" using "2.prems"(1) by (auto simp: sorted_append)
      ultimately show ?thesis using False that by fastforce
    qed
    with 2 False show ?thesis by (auto simp: sorted_wrt_append)
  qed
qed simp

lemma sortedUniqueSequences_sorted: "sorted_wrt (<) (sortedUniqueSequences xs)"
  and set_sortedUniqueSequences [simp]: "set (sortedUniqueSequences xs) = set xs"
  using compactLoop_spec [of "[]" "sort xs"] by (simp_all add: sortedUniqueSequences_def)

lemma absorbLoop_spec:
  assumes "sorted_wrt (<) (remaining @ rest)"
    and "\<forall>x \<in> set remaining. acked + 1 < x" and "\<forall>x \<in> set rest. acked < x"
    and "0 \<le> acked" and "\<forall>x \<in> set rest. x \<le> maxInt64"
    and "absorbLoop acked remaining rest = (a', rem')"
  shows "{1 .. a'} \<union> set rem' = {1 .. acked} \<union> set remaining \<union> set rest
    \<and> sorted_wrt (<) rem' \<and> (\<forall>x \<in> set rem'. a' + 1 < x)
    \<and> acked \<le> a' \<and> a' \<in> insert acked (set rest)"
  using assms
proof (induction acked remaining rest rule: absorbLoop.induct)
  case (2 acked remaining c rest)
  have succ: "add64 acked 1 = acked + 1"
    using "2.prems" by (intro add64_succ) (auto simp: maxInt64_def)
  show ?case
  proof (cases "c = acked + 1")
    case True
    then have nil: "remaining = []"
      using "2.prems"(1,2) by (cases remaining) (auto simp: sorted_wrt_append)
    have "{1 .. a'} \<union> set rem' = {1 .. c} \<union> set remaining \<union> set rest
        \<and> sorted_wrt (<) rem' \<and> (\<forall>x \<in> set rem'. a' + 1 < x) \<and> c \<le> a' \<and> a' \<in> insert c (set rest)"
      by (rule "2.IH"(1)) (use "2.prems" True nil succ in auto)
    moreover have "{1 .. c} = insert c {1 .. acked}" using True "2.prems"(4) by auto
    ultimately show ?thesis using True nil by auto
  next
    case False
    have "{1 .. a'} \<union> set rem' = {1 .. acked} \<union> set (remaining @ [c]) \<union> set rest
        \<and> sorted_wrt (<) rem' \<and> (\<forall>x \<in> set rem'. a' + 1 < x) \<and> acked \<le> a'
        \<and> a' \<in> insert acked (set rest)"
      by (rule "2.IH"(2)) (use "2.prems" False succ in auto)
    then show ?thesis by auto
  qed
qed auto

lemma applyEventACK_frame [simp]:
  "jr_Identity (applyEventACK r s) = jr_Identity r"
  "jr_InputDigest (applyEventACK r s) = jr_InputDigest r"
  "jr_SignedContextDigest (applyEventACK r s) = jr_SignedContextDigest r"
  "jr_State (applyEventACK r s) = jr_State r"
  "jr_LastClientEventSeq (applyEventACK r s) = jr_LastClientEventSeq r"
  "jr_ResultID (applyEventACK r s) = jr_ResultID r"
  "jr_FinalClientEventSeq (applyEventACK r s) = jr_FinalClientEventSeq r"
  "jr_UpdatedAt (applyEventACK r s) = jr_UpdatedAt r"
  by (auto simp: applyEventACK_def split: prod.splits)

lemma applyEventACK_spec:
  assumes wf: "ack_wf r" and s: "1 \<le> s" "s \<le> jr_LastClientEventSeq r" "s \<notin> ackedSet r"
  shows "ackedSet (applyEventACK r s) = insert s (ackedSet r) \<and> ack_wf (applyEventACK r s)
    \<and> jr_AckedClientEventSeq r \<le> jr_AckedClientEventSeq (applyEventACK r s)"
proof (cases "s = jr_AckedClientEventSeq r + 1")
  case True
  let ?xs = "jr_AckedOutOfOrderEventSeqs r"
  have succ: "add64 (jr_AckedClientEventSeq r) 1 = s"
    using wf s True by (simp add: ack_wf_def add64_succ maxInt64_def)
  obtain a' rem' where loop: "absorbLoop s [] ?xs = (a', rem')" by (cases "absorbLoop s [] ?xs")
  have spec: "{1 .. a'} \<union> set rem' = {1 .. s} \<union> set [] \<union> set ?xs
      \<and> sorted_wrt (<) rem' \<and> (\<forall>x \<in> set rem'. a' + 1 < x) \<and> s \<le> a' \<and> a' \<in> insert s (set ?xs)"
    by (rule absorbLoop_spec [OF _ _ _ _ _ loop]) (use wf True s in \<open>auto simp: ack_wf_def\<close>)
  have sets: "{1 .. s} = insert s {1 .. jr_AckedClientEventSeq r}" using True s by auto
  have sub: "x \<in> set ?xs" if "x \<in> set rem'" for x
    using that spec by (metis UnE UnI2 add.commute atLeastAtMost_iff empty_iff list.set(1) not_less
        order.strict_trans1 order_trans zless_add1_eq less_irrefl order_less_le)
  show ?thesis
    using spec sets succ loop wf s sub True
    by (auto simp: applyEventACK_def ackedSet_def ack_wf_def)
next
  case False
  have lt: "jr_AckedClientEventSeq r + 1 < s"
    using s wf False by (auto simp: ackedSet_def ack_wf_def)
  then have succ: "add64 (jr_AckedClientEventSeq r) 1 \<noteq> s"
    using wf s by (simp add: ack_wf_def add64_succ)
  show ?thesis
    using wf s lt succ
    by (auto simp: applyEventACK_def ackedSet_def ack_wf_def sortedUniqueSequences_sorted)
qed

lemma ack_canonical:
  assumes "ack_wf r" "ack_wf r'" and eq: "ackedSet r = ackedSet r'"
  shows "jr_AckedClientEventSeq r = jr_AckedClientEventSeq r'"
    and "jr_AckedOutOfOrderEventSeqs r = jr_AckedOutOfOrderEventSeqs r'"
proof -
  have le: "jr_AckedClientEventSeq p \<le> jr_AckedClientEventSeq q"
    if wf: "ack_wf p" "ack_wf q" and e: "ackedSet p = ackedSet q" for p q
  proof (rule ccontr)
    assume "\<not> ?thesis"
    then have "jr_AckedClientEventSeq q + 1 \<in> ackedSet p"
      using wf by (auto simp: ackedSet_def ack_wf_def)
    then have "jr_AckedClientEventSeq q + 1 \<in> ackedSet q" using e by simp
    then show False using wf by (auto simp: ackedSet_def ack_wf_def)
  qed
  show acked: "jr_AckedClientEventSeq r = jr_AckedClientEventSeq r'"
    using le [OF assms] le [OF assms(2,1) eq [symmetric]] by simp
  have "set (jr_AckedOutOfOrderEventSeqs p) = ackedSet p - {1 .. jr_AckedClientEventSeq p}"
    if "ack_wf p" for p
    using that by (auto simp: ackedSet_def ack_wf_def)
  then have "set (jr_AckedOutOfOrderEventSeqs r) = set (jr_AckedOutOfOrderEventSeqs r')"
    using assms acked by metis
  then show "jr_AckedOutOfOrderEventSeqs r = jr_AckedOutOfOrderEventSeqs r'"
    using assms by (metis ack_wf_def strict_sorted_equal)
qed

section \<open>The acknowledgement window as an interface\<close>

text \<open>
  What the spool relies on: acknowledging an allocated, unacknowledged sequence adds
  exactly that sequence to the acknowledged set and moves no limit.
\<close>

locale ack_window =
  fixes acked :: "'r \<Rightarrow> int set"
    and ack :: "'r \<Rightarrow> int \<Rightarrow> 'r"
    and limit :: "'r \<Rightarrow> int"
    and invar :: "'r \<Rightarrow> bool"
  assumes acked_ack: "invar r \<Longrightarrow> s \<in> {1 .. limit r} - acked r \<Longrightarrow> acked (ack r s) = insert s (acked r)"
    and invar_ack: "invar r \<Longrightarrow> s \<in> {1 .. limit r} - acked r \<Longrightarrow> invar (ack r s)"
    and limit_ack: "limit (ack r s) = limit r"
begin

lemma ack_all:
  "invar r \<Longrightarrow> distinct xs \<Longrightarrow> set xs \<subseteq> {1 .. limit r} - acked r \<Longrightarrow>
     acked (foldl ack r xs) = acked r \<union> set xs \<and> invar (foldl ack r xs)
     \<and> limit (foldl ack r xs) = limit r"
proof (induction xs arbitrary: r)
  case (Cons x xs)
  then have "x \<in> {1 .. limit r} - acked r" by simp
  with Cons.prems acked_ack [of r x] invar_ack [of r x] limit_ack [of r x]
  have "invar (ack r x)" "set xs \<subseteq> {1 .. limit (ack r x)} - acked (ack r x)"
    and eq: "acked (ack r x) = insert x (acked r)" by auto
  with Cons.IH [of "ack r x"] Cons.prems limit_ack [of r x] show ?case by auto
qed simp

lemma ack_all_covers:
  assumes "invar r" and "distinct xs" and "set xs = {1 .. limit r} - acked r"
  shows "{1 .. limit r} \<subseteq> acked (foldl ack r xs)"
  using ack_all [of r xs] assms by auto

end

interpretation ackw: ack_window ackedSet applyEventACK jr_LastClientEventSeq ack_wf
  by unfold_locales (auto dest: applyEventACK_spec)

lemma foldl_ack_frame [simp]:
  "jr_Identity (foldl applyEventACK r xs) = jr_Identity r"
  "jr_InputDigest (foldl applyEventACK r xs) = jr_InputDigest r"
  "jr_SignedContextDigest (foldl applyEventACK r xs) = jr_SignedContextDigest r"
  "jr_State (foldl applyEventACK r xs) = jr_State r"
  "jr_LastClientEventSeq (foldl applyEventACK r xs) = jr_LastClientEventSeq r"
  "jr_ResultID (foldl applyEventACK r xs) = jr_ResultID r"
  "jr_FinalClientEventSeq (foldl applyEventACK r xs) = jr_FinalClientEventSeq r"
  "jr_UpdatedAt (foldl applyEventACK r xs) = jr_UpdatedAt r"
  by (induction xs arbitrary: r) simp_all

section \<open>Lemmas: progress\<close>

definition jr_state_ok :: "journal_record \<Rightarrow> bool" where
  "jr_state_ok r =
     (case jr_State r of
        AssignmentStateStarted \<Rightarrow> jr_ResultID r = [] \<and> jr_FinalClientEventSeq r = 0
      | AssignmentStateFinished \<Rightarrow>
          validRuntimeID (jr_ResultID r) \<and> jr_FinalClientEventSeq r = jr_LastClientEventSeq r
      | AssignmentStateResultACKed \<Rightarrow>
          validRuntimeID (jr_ResultID r) \<and> jr_FinalClientEventSeq r = jr_LastClientEventSeq r
      | AssignmentStateRevoked \<Rightarrow>
          (jr_ResultID r = [] \<and> jr_FinalClientEventSeq r = 0)
          \<or> (validRuntimeID (jr_ResultID r) \<and> jr_FinalClientEventSeq r = jr_LastClientEventSeq r)
      | AssignmentStateOther _ \<Rightarrow> False
      | _ \<Rightarrow> jr_ResultID r = [] \<and> jr_FinalClientEventSeq r = 0 \<and> jr_LastClientEventSeq r = 0)"

definition jr_wf :: "journal_record \<Rightarrow> bool" where
  "jr_wf r \<longleftrightarrow> ack_wf r \<and> jr_state_ok r"

lemma validRuntimeID_nonempty: "validRuntimeID v \<Longrightarrow> v \<noteq> []"
  by (simp add: validRuntimeID_def)

lemma progressSeen_Some:
  "sorted_wrt (<) xs \<Longrightarrow> \<forall>x \<in> set xs. acked < x \<and> x \<le> lastSeq \<and> prev < x \<Longrightarrow> \<forall>y \<in> set seen. y \<le> prev \<Longrightarrow>
     \<exists>seen'. progressSeen acked lastSeq seen prev xs = Some seen' \<and> set seen' = set seen \<union> set xs"
proof (induction xs arbitrary: seen prev)
  case (Cons x xs)
  have "\<exists>seen'. progressSeen acked lastSeq (x # seen) x xs = Some seen'
      \<and> set seen' = set (x # seen) \<union> set xs"
    by (rule Cons.IH) (use Cons.prems in auto)
  moreover have "x \<notin> set seen" using Cons.prems(2,3) by force
  ultimately show ?case using Cons.prems(2) by auto
qed simp

lemma progressSeen_set:
  "progressSeen acked lastSeq seen prev xs = Some seen' \<Longrightarrow>
     set seen' = set seen \<union> set xs \<and> sorted_wrt (<) (prev # xs)
     \<and> (\<forall>x \<in> set xs. acked < x \<and> x \<le> lastSeq)"
  by (induction xs arbitrary: seen prev) (fastforce split: if_splits)+

lemma progressKept_iff: "progressKept acked seen xs \<longleftrightarrow> (\<forall>x \<in> set xs. x \<le> acked \<or> x \<in> set seen)"
  by (induction xs) auto

lemma progress_accepts:
  assumes "jr_wf n" and "jr_UpdatedAt n \<noteq> 0"
    and "jr_LastClientEventSeq p \<le> jr_LastClientEventSeq n"
    and "jr_AckedClientEventSeq p \<le> jr_AckedClientEventSeq n"
    and kept: "\<forall>x \<in> set (jr_AckedOutOfOrderEventSeqs p).
      x \<le> jr_AckedClientEventSeq n \<or> x \<in> set (jr_AckedOutOfOrderEventSeqs n)"
    and "jr_ResultID p \<noteq> [] \<Longrightarrow>
      jr_ResultID n = jr_ResultID p \<and> jr_FinalClientEventSeq n = jr_FinalClientEventSeq p"
  shows "validateJournalProgress p n = None"
proof -
  have aw: "ack_wf n" and so: "jr_state_ok n" using assms(1) by (auto simp: jr_wf_def)
  obtain seen where seen: "progressSeen (jr_AckedClientEventSeq n) (jr_LastClientEventSeq n) [] 0
      (jr_AckedOutOfOrderEventSeqs n) = Some seen" "set seen = set (jr_AckedOutOfOrderEventSeqs n)"
    using progressSeen_Some [of "jr_AckedOutOfOrderEventSeqs n" "jr_AckedClientEventSeq n"
        "jr_LastClientEventSeq n" 0 "[]"] aw
    by (fastforce simp: ack_wf_def)
  have final: "0 \<le> jr_FinalClientEventSeq n"
    and res: "jr_ResultID n \<noteq> [] \<Longrightarrow>
      validRuntimeID (jr_ResultID n) \<and> jr_FinalClientEventSeq n = jr_LastClientEventSeq n"
    using so aw by (auto simp: jr_state_ok_def ack_wf_def split: assignment_state.splits)
  show ?thesis
    using assms(2-6) aw so seen final res
    by (auto simp: validateJournalProgress_def Let_def isZeroTime_def ack_wf_def progressKept_iff
        jr_state_ok_def validRuntimeID_nonempty split: assignment_state.splits)
qed

text \<open>
  The other direction, the reason the check exists: what it accepts never loses a sequence,
  an acknowledgement or a result.
\<close>

lemma progress_monotone:
  assumes "validateJournalProgress p n = None"
  shows "jr_LastClientEventSeq p \<le> jr_LastClientEventSeq n"
    and "ackedSet p \<inter> {1 ..} \<subseteq> ackedSet n"
    and "jr_ResultID p \<noteq> [] \<Longrightarrow>
      jr_ResultID n = jr_ResultID p \<and> jr_FinalClientEventSeq n = jr_FinalClientEventSeq p"
    and "ackedSet n \<subseteq> {1 .. jr_LastClientEventSeq n}"
proof -
  from assms obtain seen where
    seen: "progressSeen (jr_AckedClientEventSeq n) (jr_LastClientEventSeq n) [] 0
             (jr_AckedOutOfOrderEventSeqs n) = Some seen"
    and kept: "progressKept (jr_AckedClientEventSeq n) seen (jr_AckedOutOfOrderEventSeqs p)"
    and le: "jr_LastClientEventSeq p \<le> jr_LastClientEventSeq n"
      "jr_AckedClientEventSeq p \<le> jr_AckedClientEventSeq n"
      "jr_AckedClientEventSeq n \<le> jr_LastClientEventSeq n" "0 \<le> jr_AckedClientEventSeq n"
    and res: "jr_ResultID p \<noteq> [] \<Longrightarrow>
      jr_ResultID n = jr_ResultID p \<and> jr_FinalClientEventSeq n = jr_FinalClientEventSeq p"
    by (auto simp: validateJournalProgress_def Let_def split: if_splits option.splits)
  from progressSeen_set [OF seen] have set: "set seen = set (jr_AckedOutOfOrderEventSeqs n)"
    and pos: "\<forall>x \<in> set (jr_AckedOutOfOrderEventSeqs n). 0 < x \<and> x \<le> jr_LastClientEventSeq n"
    by auto
  show "jr_LastClientEventSeq p \<le> jr_LastClientEventSeq n" by (rule le)
  show "jr_ResultID p \<noteq> [] \<Longrightarrow>
      jr_ResultID n = jr_ResultID p \<and> jr_FinalClientEventSeq n = jr_FinalClientEventSeq p"
    by (rule res)
  show "ackedSet n \<subseteq> {1 .. jr_LastClientEventSeq n}"
    using le pos by (auto simp: ackedSet_def)
  show "ackedSet p \<inter> {1 ..} \<subseteq> ackedSet n"
  proof
    fix x assume x: "x \<in> ackedSet p \<inter> {1 ..}"
    show "x \<in> ackedSet n"
    proof (cases "1 \<le> x \<and> x \<le> jr_AckedClientEventSeq n")
      case True then show ?thesis by (simp add: ackedSet_def)
    next
      case False
      then show ?thesis using x kept set le by (auto simp: ackedSet_def progressKept_iff)
    qed
  qed
qed

section \<open>Properties\<close>

text \<open>A history of states in which every step is one the code accepts.\<close>

fun accepted_history :: "assignment_state \<Rightarrow> assignment_state list \<Rightarrow> bool" where
  "accepted_history s [] = True"
| "accepted_history s (t # ts) =
     (validateAssignmentStateTransition s t = None \<and> accepted_history t ts)"

lemma accepted_history_rank:
  "accepted_history s ts \<Longrightarrow> t \<in> set ts \<Longrightarrow> assignmentStateRank s < assignmentStateRank t"
proof (induction ts arbitrary: s)
  case (Cons u ts)
  then have "assignmentStateRank s < assignmentStateRank u"
    by (simp add: transition_iff_step assignment_step_rank)
  with Cons show ?case by fastforce
qed simp

lemma accepted_history_length:
  "accepted_history s ts \<Longrightarrow> int (length ts) \<le> 6 - assignmentStateRank s \<or> ts = []"
proof (induction ts arbitrary: s)
  case (Cons u ts)
  then have "assignmentStateRank s < assignmentStateRank u"
    by (simp add: transition_iff_step assignment_step_rank)
  moreover have "assignmentStateRank u \<le> 6"
    by (simp add: assignmentStateRank_def split: assignment_state.splits)
  ultimately show ?case using Cons by fastforce
qed simp

lemma accepted_history_distinct: "accepted_history s us \<Longrightarrow> distinct (s # us)"
proof (induction us arbitrary: s)
  case (Cons u us)
  have "s \<notin> set (u # us)" using accepted_history_rank [OF Cons.prems] by blast
  with Cons.IH [of u] Cons.prems show ?case by simp
qed simp

lemma accepted_history_terminal:
  "accepted_history s us \<Longrightarrow> \<forall>i < length us. isAssignmentTerminal (us ! i) \<longrightarrow> i = length us - 1"
proof (induction us arbitrary: s)
  case (Cons u us)
  then have tail: "accepted_history u us" by simp
  have "us = []" if "isAssignmentTerminal u"
    using that tail by (cases us) (auto simp: transition_iff_step dest: assignment_step_terminal)
  with Cons.IH [OF tail] show ?case by (auto simp: nth_Cons split: nat.splits)
qed simp

lemma transition_branch:
  "validateAssignmentStateTransition a b = None \<Longrightarrow>
     (assignmentStateBranch a = ''reject'' \<longrightarrow> b = AssignmentStateRejected \<or> b = AssignmentStateRevoked)
     \<and> (assignmentStateBranch a = ''accept'' \<longrightarrow>
          assignmentStateBranch b = ''accept'' \<or> b = AssignmentStateRevoked)
     \<and> a \<noteq> AssignmentStateRevoked"
  unfolding transition_iff_step
  by (auto simp: assignmentStateBranch_def elim!: assignment_stepE)

text \<open>
  C26. The lifecycle of an assignment ends: a history the transition check accepts visits no
  state twice, is at most five steps long from \<^verbatim>\<open>received\<close>, and stops at a terminal state
  (\<^verbatim>\<open>result_acked\<close>, \<^verbatim>\<open>rejected\<close>, \<^verbatim>\<open>revoked\<close>), which has no successor.
\<close>

theorem assignment_history_bounded:
  assumes "accepted_history AssignmentStateReceived ts"
  shows "distinct (AssignmentStateReceived # ts) \<and> length ts \<le> 5
    \<and> (\<forall>i < length ts. isAssignmentTerminal (ts ! i) \<longrightarrow> i = length ts - 1)"
  using accepted_history_distinct [OF assms] accepted_history_length [OF assms]
    accepted_history_terminal [OF assms]
  by (auto simp: assignmentStateRank_def)

theorem assignment_history_bounded_witness:
  "accepted_history AssignmentStateReceived
     [AssignmentStateACKSent, AssignmentStateConfirmed, AssignmentStateStarted,
      AssignmentStateFinished, AssignmentStateResultACKed]
   \<and> distinct (AssignmentStateReceived # [AssignmentStateACKSent, AssignmentStateConfirmed,
      AssignmentStateStarted, AssignmentStateFinished, AssignmentStateResultACKed])"
proof -
  let ?ts = "[AssignmentStateACKSent, AssignmentStateConfirmed, AssignmentStateStarted,
      AssignmentStateFinished, AssignmentStateResultACKed]"
  have h: "accepted_history AssignmentStateReceived ?ts"
    by (simp add: validateAssignmentStateTransition_def)
  show ?thesis using h assignment_history_bounded [OF h] by blast
qed

text \<open>
  A branch is final: once an assignment is on the reject branch, no accepted history
  leads to an executing state, and once it was acknowledged none leads to the reject branch.
\<close>

lemma assignment_branches_exclusive:
  assumes "accepted_history s ts" and "t \<in> set ts"
  shows "(assignmentStateBranch s = ''reject'' \<longrightarrow> t = AssignmentStateRejected \<or> t = AssignmentStateRevoked)
    \<and> (assignmentStateBranch s = ''accept'' \<longrightarrow> assignmentStateBranch t \<noteq> ''reject'')"
proof -
  have "(assignmentStateBranch s = ''reject'' \<longrightarrow> t = AssignmentStateRejected \<or> t = AssignmentStateRevoked)
      \<and> (assignmentStateBranch s = ''accept'' \<longrightarrow> assignmentStateBranch t \<noteq> ''reject'')
      \<and> s \<noteq> AssignmentStateRevoked"
    using assms
  proof (induction ts arbitrary: s)
    case (Cons u us)
    from Cons.prems(1) have su: "validateAssignmentStateTransition s u = None"
      and tail: "accepted_history u us" by auto
    show ?case
    proof (cases "t = u")
      case True
      with transition_branch [OF su] show ?thesis by (auto simp: assignmentStateBranch_def)
    next
      case False
      with Cons.prems(2) have "t \<in> set us" by simp
      from Cons.IH [OF tail this] transition_branch [OF su] show ?thesis
        by (auto simp: assignmentStateBranch_def)
    qed
  qed simp
  then show ?thesis by blast
qed

text \<open>
  C27. The acknowledgement window refines a set: starting from a canonical window,
  acknowledging distinct allocated sequences in any order records exactly those sequences,
  the binary search of \<^verbatim>\<open>eventSequenceACKed\<close> reads that set back, and two orders give the
  same journal record.
\<close>

theorem ack_order_irrelevant:
  assumes wf: "ack_wf r" and xs: "distinct xs" "set xs \<subseteq> {1 .. jr_LastClientEventSeq r} - ackedSet r"
    and ys: "distinct ys" "set ys = set xs"
  shows "foldl applyEventACK r xs = foldl applyEventACK r ys
    \<and> (\<forall>s \<ge> 1. eventSequenceACKed (foldl applyEventACK r xs) s \<longleftrightarrow> s \<in> ackedSet r \<or> s \<in> set xs)"
proof -
  let ?x = "foldl applyEventACK r xs" and ?y = "foldl applyEventACK r ys"
  have x: "ackedSet ?x = ackedSet r \<union> set xs" "ack_wf ?x"
    using ackw.ack_all [OF wf xs] by auto
  have y: "ackedSet ?y = ackedSet r \<union> set xs" "ack_wf ?y"
    using ackw.ack_all [OF wf ys(1)] xs ys by auto
  have "?x = ?y"
    by (rule journal_record.equality) (simp_all add: ack_canonical [OF x(2) y(2)] x(1) y(1))
  moreover have "\<forall>s \<ge> 1. eventSequenceACKed ?x s \<longleftrightarrow> s \<in> ackedSet r \<or> s \<in> set xs"
    using eventSequenceACKed_iff [OF x(2)] x(1) by auto
  ultimately show ?thesis by blast
qed

definition sample_identity :: attempt_identity where
  "sample_identity =
     \<lparr>ai_NodeID = ''node'', ai_AgentID = ''agent'', ai_WorkerID = ''worker'',
      ai_RuntimeSessionID = ''session'', ai_SessionEpoch = 1, ai_AssignmentMessageID = ''message'',
      ai_RunID = ''run'', ai_AttemptID = ''attempt'', ai_OfferID = ''offer'', ai_LeaseID = ''lease'',
      ai_FencingToken = 1\<rparr>"

definition sample_record :: journal_record where
  "sample_record =
     \<lparr>jr_Identity = sample_identity, jr_InputDigest = replicate 64 (CHR ''a''),
      jr_SignedContextDigest = replicate 64 (CHR ''b''), jr_State = AssignmentStateStarted,
      jr_LastClientEventSeq = 5, jr_AckedClientEventSeq = 1, jr_AckedOutOfOrderEventSeqs = [3],
      jr_ResultID = [], jr_FinalClientEventSeq = 0, jr_UpdatedAt = 7\<rparr>"

theorem ack_order_irrelevant_witness:
  "foldl applyEventACK sample_record [5, 2] = foldl applyEventACK sample_record [2, 5]
     \<and> jr_AckedClientEventSeq (foldl applyEventACK sample_record [5, 2]) = 3"
proof -
  have "ack_wf sample_record" "set [5, 2] \<subseteq> {1 .. jr_LastClientEventSeq sample_record} - ackedSet sample_record"
    by (auto simp: ack_wf_def sample_record_def ackedSet_def maxInt64_def)
  from ack_order_irrelevant [OF this(1) _ this(2), of "[2, 5]"]
  have "foldl applyEventACK sample_record [5, 2] = foldl applyEventACK sample_record [2, 5]"
    by (simp add: insert_commute)
  moreover have "jr_AckedClientEventSeq (foldl applyEventACK sample_record [5, 2]) = 3"
    by code_simp
  ultimately show ?thesis ..
qed

text \<open>
  What \<^verbatim>\<open>validateJournalProgress\<close> accepts never moves backwards: the allocated sequence
  does not shrink, no acknowledged sequence is forgotten, every acknowledged sequence was
  allocated, and a result that is recorded stays the same.
\<close>

lemma journal_progress_is_monotone:
  assumes "validateJournalProgress p n = None"
  shows "jr_LastClientEventSeq p \<le> jr_LastClientEventSeq n \<and>
    ackedSet p \<inter> {1 ..} \<subseteq> ackedSet n \<and> ackedSet n \<subseteq> {1 .. jr_LastClientEventSeq n} \<and>
    (jr_ResultID p \<noteq> [] \<longrightarrow>
       jr_ResultID n = jr_ResultID p \<and> jr_FinalClientEventSeq n = jr_FinalClientEventSeq p)"
  using progress_monotone [OF assms] by blast

end
