(* ===== verification/Go_Json.thy ===== *)
theory Go_Json
  imports Store_Types
begin

text \<open>
  Go's \<^verbatim>\<open>json.Valid\<close>: the push-down scanner of \<^verbatim>\<open>encoding/json\<close>, one step per byte. The
  store refuses payloads this scanner does not accept.
\<close>

datatype json_parse = ParseObjectKey | ParseObjectValue | ParseArrayValue

datatype json_step =
    BeginValueOrEmpty | BeginValue | BeginStringOrEmpty | BeginString | EndValue | EndTop
  | InString | InStringEsc | InStringEscU nat   \<comment> \<open>hexadecimal digits still to read\<close>
  | Neg | Int1 | Int0 | Dot | Dot0 | Exp | ExpSign | Exp0
  | Literal string                             \<comment> \<open>the rest of \<^verbatim>\<open>true\<close>, \<^verbatim>\<open>false\<close> or \<^verbatim>\<open>null\<close>\<close>

record json_scanner =
  js_step :: json_step
  js_stack :: "json_parse list"  \<comment> \<open>innermost first\<close>
  js_endTop :: bool

definition jsonMaxNestingDepth :: nat where "jsonMaxNestingDepth = 10000"

definition jsonSpace :: "char \<Rightarrow> bool" where
  "jsonSpace c \<longleftrightarrow> code c = 32 \<or> code c = 9 \<or> code c = 13 \<or> code c = 10"

definition jsonDigit :: "char \<Rightarrow> bool" where
  "jsonDigit c \<longleftrightarrow> 48 \<le> code c \<and> code c \<le> 57"

definition jsonPush :: "json_parse \<Rightarrow> json_step \<Rightarrow> json_scanner \<Rightarrow> json_scanner option" where
  "jsonPush p st s =
     (if length (js_stack s) + 1 \<le> jsonMaxNestingDepth
      then Some (s\<lparr>js_step := st, js_stack := p # js_stack s\<rparr>) else None)"

definition jsonPop :: "json_scanner \<Rightarrow> json_scanner" where
  "jsonPop s =
     (let rest = tl (js_stack s)
      in if rest = [] then s\<lparr>js_stack := rest, js_step := EndTop, js_endTop := True\<rparr>
         else s\<lparr>js_stack := rest, js_step := EndValue\<rparr>)"

definition jsonEndValue :: "json_scanner \<Rightarrow> char \<Rightarrow> json_scanner option" where
  "jsonEndValue s c =
     (case js_stack s of
        [] \<Rightarrow> (if jsonSpace c then Some (s\<lparr>js_step := EndTop, js_endTop := True\<rparr>) else None)
      | p # ps \<Rightarrow>
          if jsonSpace c then Some (s\<lparr>js_step := EndValue\<rparr>)
          else (case p of
             ParseObjectKey \<Rightarrow>
               (if c = CHR '':'' then Some (s\<lparr>js_stack := ParseObjectValue # ps, js_step := BeginValue\<rparr>)
                else None)
           | ParseObjectValue \<Rightarrow>
               (if c = CHR '','' then Some (s\<lparr>js_stack := ParseObjectKey # ps, js_step := BeginString\<rparr>)
                else if c = CHR ''}'' then Some (jsonPop s) else None)
           | ParseArrayValue \<Rightarrow>
               (if c = CHR '','' then Some (s\<lparr>js_step := BeginValue\<rparr>)
                else if c = CHR '']'' then Some (jsonPop s) else None)))"

definition jsonBeginValue :: "json_scanner \<Rightarrow> char \<Rightarrow> json_scanner option" where
  "jsonBeginValue s c =
     (if jsonSpace c then Some s
      else if c = CHR ''{'' then jsonPush ParseObjectKey BeginStringOrEmpty s
      else if c = CHR ''['' then jsonPush ParseArrayValue BeginValueOrEmpty s
      else if c = CHR 0x22 then Some (s\<lparr>js_step := InString\<rparr>)
      else if c = CHR ''-'' then Some (s\<lparr>js_step := Neg\<rparr>)
      else if c = CHR ''0'' then Some (s\<lparr>js_step := Int0\<rparr>)
      else if c = CHR ''t'' then Some (s\<lparr>js_step := Literal ''rue''\<rparr>)
      else if c = CHR ''f'' then Some (s\<lparr>js_step := Literal ''alse''\<rparr>)
      else if c = CHR ''n'' then Some (s\<lparr>js_step := Literal ''ull''\<rparr>)
      else if jsonDigit c then Some (s\<lparr>js_step := Int1\<rparr>)
      else None)"

definition jsonBeginString :: "json_scanner \<Rightarrow> char \<Rightarrow> json_scanner option" where
  "jsonBeginString s c =
     (if jsonSpace c then Some s
      else if c = CHR 0x22 then Some (s\<lparr>js_step := InString\<rparr>) else None)"

definition jsonFraction :: "json_scanner \<Rightarrow> char \<Rightarrow> json_scanner option" where
  "jsonFraction s c =
     (if c = CHR ''.'' then Some (s\<lparr>js_step := Dot\<rparr>)
      else if c = CHR ''e'' \<or> c = CHR ''E'' then Some (s\<lparr>js_step := Exp\<rparr>)
      else jsonEndValue s c)"

definition jsonExpSign :: "json_scanner \<Rightarrow> char \<Rightarrow> json_scanner option" where
  "jsonExpSign s c = (if jsonDigit c then Some (s\<lparr>js_step := Exp0\<rparr>) else None)"

fun jsonStep :: "json_step \<Rightarrow> json_scanner \<Rightarrow> char \<Rightarrow> json_scanner option" where
  "jsonStep BeginValue s c = jsonBeginValue s c"
| "jsonStep BeginValueOrEmpty s c =
     (if jsonSpace c then Some s
      else if c = CHR '']'' then jsonEndValue s c
      else jsonBeginValue (s\<lparr>js_step := BeginValue\<rparr>) c)"
| "jsonStep BeginStringOrEmpty s c =
     (if jsonSpace c then Some s
      else if c = CHR ''}'' then jsonEndValue (s\<lparr>js_stack := ParseObjectValue # tl (js_stack s)\<rparr>) c
      else jsonBeginString s c)"
| "jsonStep BeginString s c = jsonBeginString s c"
| "jsonStep EndValue s c = jsonEndValue s c"
| "jsonStep EndTop s c = (if jsonSpace c then Some s else None)"
| "jsonStep InString s c =
     (if c = CHR 0x22 then Some (s\<lparr>js_step := EndValue\<rparr>)
      else if c = CHR 0x5C then Some (s\<lparr>js_step := InStringEsc\<rparr>)
      else if code c < 32 then None else Some s)"
| "jsonStep InStringEsc s c =
     (if c \<in> set (''bfnrt/'' @ [CHR 0x5C, CHR 0x22]) then Some (s\<lparr>js_step := InString\<rparr>)
      else if c = CHR ''u'' then Some (s\<lparr>js_step := InStringEscU 4\<rparr>) else None)"
| "jsonStep (InStringEscU n) s c =
     (if hexVal c = None then None
      else if n \<le> 1 then Some (s\<lparr>js_step := InString\<rparr>)
      else Some (s\<lparr>js_step := InStringEscU (n - 1)\<rparr>))"
| "jsonStep Neg s c =
     (if c = CHR ''0'' then Some (s\<lparr>js_step := Int0\<rparr>)
      else if jsonDigit c then Some (s\<lparr>js_step := Int1\<rparr>) else None)"
| "jsonStep Int1 s c = (if jsonDigit c then Some s else jsonFraction s c)"
| "jsonStep Int0 s c = jsonFraction s c"
| "jsonStep Dot s c = (if jsonDigit c then Some (s\<lparr>js_step := Dot0\<rparr>) else None)"
| "jsonStep Dot0 s c =
     (if jsonDigit c then Some s
      else if c = CHR ''e'' \<or> c = CHR ''E'' then Some (s\<lparr>js_step := Exp\<rparr>)
      else jsonEndValue s c)"
| "jsonStep Exp s c =
     (if c = CHR ''+'' \<or> c = CHR ''-'' then Some (s\<lparr>js_step := ExpSign\<rparr>) else jsonExpSign s c)"
| "jsonStep ExpSign s c = jsonExpSign s c"
| "jsonStep Exp0 s c = (if jsonDigit c then Some s else jsonEndValue s c)"
| "jsonStep (Literal w) s c =
     (case w of
        [] \<Rightarrow> None
      | x # rest \<Rightarrow>
          if c \<noteq> x then None
          else if rest = [] then Some (s\<lparr>js_step := EndValue\<rparr>)
          else Some (s\<lparr>js_step := Literal rest\<rparr>))"

fun jsonScan :: "json_scanner \<Rightarrow> bytes \<Rightarrow> json_scanner option" where
  "jsonScan s [] = Some s"
| "jsonScan s (c # cs) =
     (case jsonStep (js_step s) s c of None \<Rightarrow> None | Some s' \<Rightarrow> jsonScan s' cs)"

definition jsonEOF :: "json_scanner \<Rightarrow> bool" where
  "jsonEOF s =
     (if js_endTop s then True
      else case jsonStep (js_step s) s (CHR '' '') of None \<Rightarrow> False | Some s' \<Rightarrow> js_endTop s')"

definition jsonInit :: json_scanner where
  "jsonInit = \<lparr>js_step = BeginValue, js_stack = [], js_endTop = False\<rparr>"

definition jsonValid :: "bytes \<Rightarrow> bool" where
  "jsonValid raw = (case jsonScan jsonInit raw of None \<Rightarrow> False | Some s \<Rightarrow> jsonEOF s)"

lemma jsonValid_Nil [simp]: "\<not> jsonValid []"
  by (simp add: jsonValid_def jsonEOF_def jsonInit_def jsonBeginValue_def jsonSpace_def code_def)

lemma jsonValid_null [simp]: "jsonValid ''null''"
  by (simp add: jsonValid_def jsonEOF_def jsonInit_def jsonBeginValue_def jsonSpace_def code_def
      jsonEndValue_def)

lemma jsonValid_empty_object [simp]: "jsonValid ''{}''"
  by code_simp

end
