(* ===== verification/Store_State.thy ===== *)
theory Store_State
  imports Journal_Machine Go_Json "HOL-Library.List_Lexorder" "HOL-Library.Char_ord"
begin

text \<open>
  The state of \<^verbatim>\<open>FileRuntimeStore\<close> and of the data directory under it, and the parts of
  the store every operation shares: sealed records (\<^verbatim>\<open>runtime_store_crypto.go\<close>), the path of
  a spool file, the spool limits (\<^verbatim>\<open>runtime_store_limits.go\<close>) and the append-only journal
  (\<^verbatim>\<open>appendJournalLocked\<close>, \<^verbatim>\<open>applyJournalEntryLocked\<close>, \<^verbatim>\<open>writeJournalSnapshotLocked\<close>).

  Every method of the store holds \<^verbatim>\<open>store.mu\<close> from its first to its last line, so a method
  is one atomic function of the store. What the operating system, the clock and the random
  source answer during a call is the argument \<open>io\<close>; a failed write or fsync says whether the
  bytes reached the disk all the same, so that a theorem about every \<open>io\<close> covers a crash at
  every point of the call.

  A sealed record is symbolic: the AES-GCM envelope is the term \<open>Sealed key header body
  length\<close>, which opens under the key that sealed it and under no other, and the SHA-256 name
  of a spool file is represented by the string that is hashed.
\<close>

section \<open>Sealed records\<close>

datatype 'b disk_blob =
    Sealed (blobKey: bytes) (blobHeader: disk_record_header) (blobBody: 'b) (blobSize: int)
  | Garbage (blobSize: int)

datatype seal_outcome = SealFails go_error | SealLength int

definition runtimeSpoolKeyBytes :: nat where "runtimeSpoolKeyBytes = 32"

definition sealRuntimeRecord ::
  "bytes \<Rightarrow> disk_record_header \<Rightarrow> 'b \<Rightarrow> seal_outcome \<Rightarrow> go_error + 'b disk_blob" where
  "sealRuntimeRecord key header body outcome =
     (if length key \<noteq> runtimeSpoolKeyBytes then Inl ErrRuntimeSpoolKeyInvalid
      else (case outcome of
              SealFails e \<Rightarrow> Inl e
            | SealLength n \<Rightarrow> Inr (Sealed key (header\<lparr>hd_Version := runtimeCryptoVersion\<rparr>) body n)))"

definition openRuntimeRecord ::
  "bytes \<Rightarrow> 'b disk_blob \<Rightarrow> string \<Rightarrow> go_error + (disk_record_header \<times> 'b)" where
  "openRuntimeRecord key raw expectedKind =
     (case raw of
        Garbage _ \<Rightarrow> Inl ErrRuntimeRecordCorrupt
      | Sealed k header body n \<Rightarrow>
          if hd_Version header \<noteq> runtimeCryptoVersion \<or> hd_Kind header \<noteq> expectedKind
          then Inl ErrRuntimeRecordCorrupt
          else if k \<noteq> key then Inl ErrRuntimeRecordCorrupt
          else Inr (header, body))"

section \<open>The journal on disk\<close>

record journal_wal_record =
  wr_Version :: int
  wr_Sequence :: nat
  wr_Entry :: journal_entry

record journal_snapshot =
  sn_Version :: int
  sn_WorkerID :: string
  sn_LastSequence :: nat
  sn_Entries :: "journal_entry list"

datatype wal_item =
    WalFrame "journal_wal_record disk_blob"
  | WalTorn   \<comment> \<open>the bytes of a frame whose write did not complete\<close>

type_synonym spool_path = "string \<times> string"  \<comment> \<open>directory and the string whose digest is the name\<close>

record runtime_identity_disk =
  id_Version :: int
  id_WorkerID :: string
  id_SessionEpoch :: int
  id_Checksum :: string  \<comment> \<open>represented by the string whose SHA-256 it is\<close>

datatype identity_file = IdentityFile runtime_identity_disk | IdentityUnreadable

record disk =
  dk_identity :: "identity_file option"
  dk_spoolKey :: "bytes option"
  dk_wal :: "wal_item list"
  dk_snapshot :: "journal_snapshot disk_blob option"
  dk_assignments :: "(spool_path, assignment_payload disk_blob) gomap"
  dk_events :: "(spool_path, event_spool_record disk_blob) gomap"
  dk_results :: "(spool_path, result_spool_record disk_blob) gomap"

section \<open>The environment's answers\<close>

datatype wal_outcome =
    WalOk
  | WalSeekFails go_error
  | WalHookFails go_error
  | WalWriteFails go_error bool   \<comment> \<open>whether a torn frame is left behind\<close>
  | WalSyncFails go_error bool    \<comment> \<open>whether the frame reached the disk\<close>
  | WalAfterSyncFails go_error

datatype write_outcome = WriteOk | WriteFails go_error bool    \<comment> \<open>whether the rename happened\<close>
datatype remove_outcome = RemoveOk | RemoveFails go_error bool \<comment> \<open>whether the file is gone\<close>

record io =
  io_now :: time
  io_random :: "bytes option"
  io_diskAvailable :: "go_error + int"
  io_seal :: seal_outcome
  io_write :: write_outcome
  io_remove :: "spool_path \<Rightarrow> remove_outcome"
  io_jnow :: "nat \<Rightarrow> time"                \<comment> \<open>indexed by the journal sequence being written\<close>
  io_jseal :: "nat \<Rightarrow> seal_outcome"
  io_wal :: "nat \<Rightarrow> wal_outcome"
  io_snapSeal :: "nat \<Rightarrow> seal_outcome"
  io_snapWrite :: "nat \<Rightarrow> write_outcome"

section \<open>The store\<close>

record store =
  st_disk :: disk
  st_key :: bytes
  st_workerID :: string
  st_identity :: runtime_identity
  st_sequence :: nat
  st_entries :: "(string, journal_entry) gomap"
  st_attempts :: "(string, string) gomap"
  st_events :: "(string, event_spool_record) gomap"
  st_eventSeqs :: "(string, (int, string) gomap) gomap"
  st_results :: "(string, result_spool_record) gomap"
  st_payloads :: "(string, assignment_payload) gomap"
  st_spoolSizes :: "(spool_path, int) gomap"
  st_spoolBytes :: int
  st_spoolRecords :: int
  st_spoolMaxBytes :: int
  st_spoolMaxRecords :: int
  st_spoolReserveBytes :: int
  st_closed :: bool
  st_poisoned :: "go_error option"

definition readyLocked :: "store \<Rightarrow> go_error option" where
  "readyLocked s =
     (if st_closed s then Some ErrRuntimeStoreClosed
      else case st_poisoned s of
             Some cause \<Rightarrow> Some (WrapError ErrRuntimeStorePoisoned ''store requires reopen'')
           | None \<Rightarrow> None)"

definition Close :: "store \<Rightarrow> store" where
  "Close s = (if st_closed s then s else s\<lparr>st_closed := True, st_key := []\<rparr>)"

section \<open>Spool paths\<close>

definition assignmentSpoolDirectory :: string where "assignmentSpoolDirectory = ''assignment-spool''"
definition eventSpoolDirectory :: string where "eventSpoolDirectory = ''event-spool''"
definition resultSpoolDirectory :: string where "resultSpoolDirectory = ''result-spool''"
definition assignmentSpoolKind :: string where "assignmentSpoolKind = ''runtime_assignment''"
definition eventSpoolKind :: string where "eventSpoolKind = ''run_event''"
definition resultSpoolKind :: string where "resultSpoolKind = ''run_result''"
definition journalEntryKind :: string where "journalEntryKind = ''assignment_journal_entry''"
definition journalSnapshotKind :: string where "journalSnapshotKind = ''assignment_journal_snapshot''"

definition spoolRecordPath :: "string \<Rightarrow> string \<Rightarrow> string \<Rightarrow> spool_path" where
  "spoolRecordPath kind attemptID messageID =
     (let hashed = kind @ [CHR 0x00] @ attemptID @ [CHR 0x00] @ messageID;
          directory = (if kind = assignmentSpoolKind then assignmentSpoolDirectory
                       else if kind = resultSpoolKind then resultSpoolDirectory
                       else eventSpoolDirectory)
      in (directory, hashed))"

section \<open>Spool limits\<close>

definition spoolDiskRecordMax :: int where "spoolDiskRecordMax = 8 * 2 ^ 20"
definition spoolPayloadMax :: int where "spoolPayloadMax = 4 * 2 ^ 20"
definition runtimeSpoolMaximumBytes :: int where "runtimeSpoolMaximumBytes = 512 * 2 ^ 20"
definition runtimeSpoolMaximumRecords :: int where "runtimeSpoolMaximumRecords = 10000"
definition runtimeSpoolControlReserveBytes :: int where "runtimeSpoolControlReserveBytes = 16 * 2 ^ 20"
definition runtimeSpoolBackpressurePercent :: int where "runtimeSpoolBackpressurePercent = 80"

definition acceptsNewRunsLocked :: "io \<Rightarrow> store \<Rightarrow> bool" where
  "acceptsNewRunsLocked io s =
     (if st_spoolMaxBytes s \<le> 0 \<or> st_spoolMaxRecords s \<le> 0 \<or> st_spoolReserveBytes s < 0
         \<or> st_spoolReserveBytes s \<ge> st_spoolMaxBytes s then False
      else if mul64 (st_spoolBytes s) 100 \<ge> mul64 (st_spoolMaxBytes s) runtimeSpoolBackpressurePercent
              \<or> mul64 (st_spoolRecords s) 100 \<ge> mul64 (st_spoolMaxRecords s) runtimeSpoolBackpressurePercent
           then False
      else case io_diskAvailable io of
             Inl e \<Rightarrow> False
           | Inr available \<Rightarrow> available > add64 (st_spoolReserveBytes s) spoolDiskRecordMax)"

definition AcceptsNewRuns :: "io \<Rightarrow> store \<Rightarrow> bool" where
  "AcceptsNewRuns io s = (if readyLocked s \<noteq> None then False else acceptsNewRunsLocked io s)"

record spool_usage =
  su_Bytes :: int
  su_Records :: int
  su_MaximumBytes :: int
  su_MaximumRecords :: int
  su_ReserveBytes :: int
  su_AcceptingRuns :: bool

definition spoolUsageLocked :: "io \<Rightarrow> store \<Rightarrow> spool_usage" where
  "spoolUsageLocked io s =
     \<lparr>su_Bytes = st_spoolBytes s, su_Records = st_spoolRecords s,
      su_MaximumBytes = st_spoolMaxBytes s, su_MaximumRecords = st_spoolMaxRecords s,
      su_ReserveBytes = st_spoolReserveBytes s, su_AcceptingRuns = acceptsNewRunsLocked io s\<rparr>"

definition SpoolUsage :: "io \<Rightarrow> store \<Rightarrow> go_error + spool_usage" where
  "SpoolUsage io s = (case readyLocked s of Some e \<Rightarrow> Inl e | None \<Rightarrow> Inr (spoolUsageLocked io s))"

record spool_status =
  ss_Assignments :: nat
  ss_Events :: nat
  ss_Results :: nat
  ss_Empty :: bool

definition SpoolStatus :: "store \<Rightarrow> go_error + spool_status" where
  "SpoolStatus s =
     (case readyLocked s of
        Some e \<Rightarrow> Inl e
      | None \<Rightarrow>
          let assignments = length (filter (\<lambda>(k, entry). \<not> je_Deleted entry) (st_entries s));
              events = length (st_events s); results = length (st_results s)
          in Inr \<lparr>ss_Assignments = assignments, ss_Events = events, ss_Results = results,
                  ss_Empty = (assignments = 0 \<and> events = 0 \<and> results = 0)\<rparr>)"

definition ensureSpoolWriteLocked :: "io \<Rightarrow> spool_path \<Rightarrow> int \<Rightarrow> store \<Rightarrow> go_error option" where
  "ensureSpoolWriteLocked io path sz s =
     (if sz \<le> 0 \<or> sz > spoolDiskRecordMax then Some ErrRuntimeMessageTooLarge
      else if map_of (st_spoolSizes s) path \<noteq> None then Some ErrSpoolRecordConflict
      else let dataLimit = add64 (st_spoolMaxBytes s) (- st_spoolReserveBytes s)
           in if dataLimit \<le> 0 \<or> add64 (st_spoolBytes s) sz > dataLimit
                 \<or> add64 (st_spoolRecords s) 1 > st_spoolMaxRecords s
              then Some ErrRuntimeSpoolFull
              else case io_diskAvailable io of
                     Inl e \<Rightarrow> Some (WrapError e ''inspect runtime spool capacity'')
                   | Inr available \<Rightarrow>
                       if available < add64 sz (st_spoolReserveBytes s) then Some ErrRuntimeSpoolFull
                       else None)"

definition trackSpoolFileLocked :: "spool_path \<Rightarrow> int \<Rightarrow> store \<Rightarrow> go_error option \<times> store" where
  "trackSpoolFileLocked path sz s =
     (if sz \<le> 0 then (Some ErrRuntimeRecordCorrupt, s)
      else case map_of (st_spoolSizes s) path of
             Some existing \<Rightarrow>
               (if existing = sz then (None, s) else (Some ErrSpoolRecordConflict, s))
           | None \<Rightarrow>
               (None, s\<lparr>st_spoolSizes := AList.update path sz (st_spoolSizes s),
                        st_spoolBytes := add64 (st_spoolBytes s) sz,
                        st_spoolRecords := add64 (st_spoolRecords s) 1\<rparr>))"

text \<open>\<^verbatim>\<open>durableRemove\<close>: a missing file is not an error.\<close>

definition diskRemove :: "spool_path \<Rightarrow> disk \<Rightarrow> disk" where
  "diskRemove path d =
     d\<lparr>dk_assignments := AList.delete path (dk_assignments d),
       dk_events := AList.delete path (dk_events d),
       dk_results := AList.delete path (dk_results d)\<rparr>"

definition diskHas :: "spool_path \<Rightarrow> disk \<Rightarrow> bool" where
  "diskHas path d \<longleftrightarrow>
     map_of (dk_assignments d) path \<noteq> None \<or> map_of (dk_events d) path \<noteq> None
     \<or> map_of (dk_results d) path \<noteq> None"

definition durableRemove :: "io \<Rightarrow> spool_path \<Rightarrow> store \<Rightarrow> go_error option \<times> store" where
  "durableRemove io path s =
     (if \<not> diskHas path (st_disk s) then (None, s)
      else case io_remove io path of
             RemoveOk \<Rightarrow> (None, s\<lparr>st_disk := diskRemove path (st_disk s)\<rparr>)
           | RemoveFails e gone \<Rightarrow>
               (Some e, if gone then s\<lparr>st_disk := diskRemove path (st_disk s)\<rparr> else s))"

definition removeSpoolFileLocked :: "io \<Rightarrow> spool_path \<Rightarrow> store \<Rightarrow> go_error option \<times> store" where
  "removeSpoolFileLocked io path s =
     (case durableRemove io path s of
        (Some e, s1) \<Rightarrow> (Some e, s1)
      | (None, s1) \<Rightarrow>
          (case map_of (st_spoolSizes s1) path of
             None \<Rightarrow> (None, s1)
           | Some sz \<Rightarrow>
               let s2 = s1\<lparr>st_spoolSizes := AList.delete path (st_spoolSizes s1),
                           st_spoolBytes := add64 (st_spoolBytes s1) (- sz),
                           st_spoolRecords := add64 (st_spoolRecords s1) (- 1)\<rparr>
               in if st_spoolBytes s2 < 0 \<or> st_spoolRecords s2 < 0
                  then (Some ErrRuntimeRecordCorrupt, s2) else (None, s2)))"

section \<open>The journal\<close>

definition assignmentJournalVersion :: int where "assignmentJournalVersion = 1"
definition assignmentJournalFrameMax :: int where "assignmentJournalFrameMax = 4 * 2 ^ 20"

abbreviation messageID_of :: "journal_record \<Rightarrow> string" where
  "messageID_of r \<equiv> ai_AssignmentMessageID (jr_Identity r)"

abbreviation attemptID_of :: "journal_record \<Rightarrow> string" where
  "attemptID_of r \<equiv> ai_AttemptID (jr_Identity r)"

definition assignmentForAttemptLocked :: "string \<Rightarrow> store \<Rightarrow> go_error + journal_entry" where
  "assignmentForAttemptLocked attemptID s =
     (case map_of (st_attempts s) attemptID of
        None \<Rightarrow> Inl ErrAssignmentNotFound
      | Some messageID \<Rightarrow>
          (case map_of (st_entries s) messageID of
             None \<Rightarrow> Inl ErrAssignmentNotFound
           | Some entry \<Rightarrow> if je_Deleted entry then Inl ErrAssignmentNotFound else Inr entry))"

definition putEntry :: "journal_entry \<Rightarrow> store \<Rightarrow> store" where
  "putEntry entry s =
     s\<lparr>st_entries := AList.update (messageID_of (je_Record entry)) entry (st_entries s)\<rparr>"

definition applyJournalEntryLocked :: "journal_entry \<Rightarrow> store \<Rightarrow> go_error option \<times> store" where
  "applyJournalEntryLocked entry s =
     (let record = je_Record entry; messageID = messageID_of record in
      case identity_validate (jr_Identity record) of
        Some e \<Rightarrow> (Some e, s)
      | None \<Rightarrow>
      if ai_WorkerID (jr_Identity record) \<noteq> st_workerID s
         \<or> \<not> validSHA256Digest (jr_InputDigest record)
         \<or> \<not> validSHA256Digest (jr_SignedContextDigest record)
      then (Some ErrRuntimeRecordCorrupt, s)
      else case map_of (st_entries s) messageID of
        None \<Rightarrow>
          if je_Deleted entry \<or> isZeroTime (jr_UpdatedAt record)
             \<or> jr_State record \<noteq> AssignmentStateReceived \<or> jr_LastClientEventSeq record \<noteq> 0
             \<or> jr_AckedClientEventSeq record \<noteq> 0 \<or> jr_AckedOutOfOrderEventSeqs record \<noteq> []
             \<or> jr_ResultID record \<noteq> [] \<or> jr_FinalClientEventSeq record \<noteq> 0
          then (Some ErrRuntimeRecordCorrupt, s)
          else (case map_of (st_attempts s) (attemptID_of record) of
                  Some other \<Rightarrow>
                    (if other \<noteq> messageID then (Some ErrAttemptAlreadyExists, s)
                     else (None, (putEntry entry s)\<lparr>st_attempts :=
                             AList.update (attemptID_of record) messageID (st_attempts s)\<rparr>))
                | None \<Rightarrow>
                    (None, (putEntry entry s)\<lparr>st_attempts :=
                             AList.update (attemptID_of record) messageID (st_attempts s)\<rparr>))
      | Some existing \<Rightarrow>
          if je_Deleted existing then (Some ErrRuntimeRecordCorrupt, s)
          else if jr_Identity (je_Record existing) \<noteq> jr_Identity record
                  \<or> jr_InputDigest (je_Record existing) \<noteq> jr_InputDigest record
                  \<or> jr_SignedContextDigest (je_Record existing) \<noteq> jr_SignedContextDigest record
               then (Some ErrSpoolRecordConflict, s)
          else if je_Deleted entry then
            (if \<not> isAssignmentTerminal (jr_State (je_Record existing)) then (Some ErrAssignmentCleanup, s)
             else (None, putEntry entry s))
          else
            (case (if jr_State record \<noteq> jr_State (je_Record existing)
                   then validateAssignmentStateTransition (jr_State (je_Record existing)) (jr_State record)
                   else None) of
               Some e \<Rightarrow> (Some e, s)
             | None \<Rightarrow>
                 (case validateJournalProgress (je_Record existing) record of
                    Some e \<Rightarrow> (Some e, s)
                  | None \<Rightarrow> (None, putEntry entry s))))"

definition journalSnapshotOf :: "store \<Rightarrow> journal_snapshot" where
  "journalSnapshotOf s =
     \<lparr>sn_Version = assignmentJournalVersion, sn_WorkerID = st_workerID s,
      sn_LastSequence = st_sequence s,
      sn_Entries = sort_key (\<lambda>e. messageID_of (je_Record e)) (map snd (st_entries s))\<rparr>"

text \<open>\<^verbatim>\<open>strconv.FormatUint\<close> in base 10, most significant digit first.\<close>

fun formatUint :: "nat \<Rightarrow> string" where
  "formatUint n =
     (if n < 10 then [char_of (48 + n)] else formatUint (n div 10) @ [char_of (48 + n mod 10)])"

declare formatUint.simps [simp del]

definition snapshotHeader :: "string \<Rightarrow> nat \<Rightarrow> disk_record_header" where
  "snapshotHeader workerID sequence =
     \<lparr>hd_Version = runtimeCryptoVersion, hd_Kind = journalSnapshotKind, hd_NodeID = [],
      hd_AgentID = [], hd_WorkerID = workerID, hd_RuntimeSessionID = [], hd_SessionEpoch = 0,
      hd_AssignmentMessageID = [], hd_RunID = [], hd_AttemptID = [], hd_OfferID = [],
      hd_LeaseID = [], hd_FencingToken = 0, hd_MessageID = formatUint sequence\<rparr>"

definition writeJournalSnapshotLocked :: "io \<Rightarrow> store \<Rightarrow> go_error option \<times> store" where
  "writeJournalSnapshotLocked io s =
     (case sealRuntimeRecord (st_key s) (snapshotHeader (st_workerID s) (st_sequence s))
             (journalSnapshotOf s) (io_snapSeal io (st_sequence s)) of
        Inl e \<Rightarrow> (Some e, s)
      | Inr raw \<Rightarrow>
          (case io_snapWrite io (st_sequence s) of
             WriteOk \<Rightarrow> (None, s\<lparr>st_disk := (st_disk s)\<lparr>dk_snapshot := Some raw\<rparr>\<rparr>)
           | WriteFails e renamed \<Rightarrow>
               (Some e, if renamed then s\<lparr>st_disk := (st_disk s)\<lparr>dk_snapshot := Some raw\<rparr>\<rparr> else s)))"

definition appendWal :: "wal_item list \<Rightarrow> store \<Rightarrow> store" where
  "appendWal items s = s\<lparr>st_disk := (st_disk s)\<lparr>dk_wal := dk_wal (st_disk s) @ items\<rparr>\<rparr>"

definition poison :: "go_error \<Rightarrow> store \<Rightarrow> store" where
  "poison e s = s\<lparr>st_poisoned := Some e\<rparr>"

definition appendJournalLocked :: "io \<Rightarrow> journal_entry \<Rightarrow> store \<Rightarrow> go_error option \<times> store" where
  "appendJournalLocked io entry s =
     (case readyLocked s of
        Some e \<Rightarrow> (Some e, s)
      | None \<Rightarrow>
      let sequence = inc_uint64 (st_sequence s);
          walRecord = \<lparr>wr_Version = assignmentJournalVersion, wr_Sequence = sequence, wr_Entry = entry\<rparr>
      in case sealRuntimeRecord (st_key s)
                (headerForAttempt journalEntryKind (messageID_of (je_Record entry))
                   (jr_Identity (je_Record entry)))
                walRecord (io_jseal io sequence) of
           Inl e \<Rightarrow> (Some e, s)
         | Inr encrypted \<Rightarrow>
           if blobSize encrypted > assignmentJournalFrameMax
           then (Some (TextError ''assignment journal frame exceeds durable limit''), s)
           else (case io_wal io sequence of
             WalSeekFails e \<Rightarrow> (Some e, s)
           | WalHookFails e \<Rightarrow> (Some e, poison e s)
           | WalWriteFails e torn \<Rightarrow>
               (Some e, poison e (appendWal (if torn then [WalTorn] else []) s))
           | WalSyncFails e kept \<Rightarrow>
               (Some e, poison e (appendWal (if kept then [WalFrame encrypted] else []) s))
           | WalAfterSyncFails e \<Rightarrow> (Some e, poison e (appendWal [WalFrame encrypted] s))
           | WalOk \<Rightarrow>
               (case applyJournalEntryLocked entry (appendWal [WalFrame encrypted] s) of
                  (Some e, s1) \<Rightarrow> (Some e, poison e s1)
                | (None, s1) \<Rightarrow>
                    (None, snd (writeJournalSnapshotLocked io (s1\<lparr>st_sequence := sequence\<rparr>))))))"

end
