(* ===== verification/Store_Ops.thy ===== *)
theory Store_Ops
  imports Store_State
begin

text \<open>
  The public operations of \<^verbatim>\<open>FileRuntimeStore\<close> on an open store: the assignment journal
  (\<^verbatim>\<open>CreateAssignment\<close>, \<^verbatim>\<open>AdvanceAssignment\<close>, \<^verbatim>\<open>DeleteAssignment\<close> and the readers), the event
  and result spool (\<^verbatim>\<open>AppendEvent\<close> to \<^verbatim>\<open>ClearTerminalEvents\<close>) and the durable assignment
  payloads. Every definition keeps the order of the guards of the source.
\<close>

section \<open>Validation\<close>

definition validateNewAssignment :: "journal_record \<Rightarrow> runtime_identity \<Rightarrow> go_error option" where
  "validateNewAssignment r identity =
     (case identity_validate (jr_Identity r) of
        Some e \<Rightarrow> Some e
      | None \<Rightarrow>
          if ai_WorkerID (jr_Identity r) \<noteq> ri_WorkerID identity
             \<or> ai_RuntimeSessionID (jr_Identity r) \<noteq> ri_RuntimeSessionID identity
             \<or> ai_SessionEpoch (jr_Identity r) \<noteq> ri_SessionEpoch identity
          then Some ErrSpoolRecordConflict
          else if \<not> validSHA256Digest (jr_InputDigest r) \<or> \<not> validSHA256Digest (jr_SignedContextDigest r)
          then Some ErrRuntimeRecordCorrupt
          else if jr_State r \<noteq> AssignmentStateOther [] \<and> jr_State r \<noteq> AssignmentStateReceived
          then Some ErrAssignmentTransition
          else if jr_LastClientEventSeq r \<noteq> 0 \<or> jr_AckedClientEventSeq r \<noteq> 0
                  \<or> jr_AckedOutOfOrderEventSeqs r \<noteq> [] \<or> jr_ResultID r \<noteq> []
                  \<or> jr_FinalClientEventSeq r \<noteq> 0
          then Some ErrRuntimeRecordCorrupt
          else None)"

definition spoolRecordVersion :: int where "spoolRecordVersion = 1"
definition assignmentPayloadVersion :: int where "assignmentPayloadVersion = 1"

definition validateEventSpoolRecord :: "event_spool_record \<Rightarrow> go_error option" where
  "validateEventSpoolRecord r =
     (if ev_Version r \<noteq> spoolRecordVersion \<or> identity_validate (ev_Identity r) \<noteq> None
         \<or> \<not> validRuntimeID (ev_ClientEventID r) \<or> ev_ClientEventSeq r \<le> 0
         \<or> \<not> validRuntimeID (ev_EventType r) \<or> isZeroTime (ev_CreatedAt r)
      then Some ErrRuntimeRecordCorrupt
      else if int (length (ev_Payload r)) > spoolPayloadMax \<or> \<not> jsonValid (ev_Payload r)
      then Some ErrRuntimeRecordCorrupt
      else None)"

definition validateResultSpoolRecord :: "result_spool_record \<Rightarrow> go_error option" where
  "validateResultSpoolRecord r =
     (if rs_Version r \<noteq> spoolRecordVersion \<or> identity_validate (rs_Identity r) \<noteq> None
         \<or> \<not> validRuntimeID (rs_ResultID r) \<or> rs_FinalClientEventSeq r < 0
         \<or> \<not> validRuntimeID (rs_Status r) \<or> isZeroTime (rs_CreatedAt r)
      then Some ErrRuntimeRecordCorrupt
      else if int (length (rs_Payload r)) > spoolPayloadMax \<or> \<not> jsonValid (rs_Payload r)
      then Some ErrRuntimeRecordCorrupt
      else None)"

definition hasPrefix :: "string \<Rightarrow> string \<Rightarrow> bool" where
  "hasPrefix s p \<longleftrightarrow> take (length p) s = p"

definition validateAssignmentPayload :: "assignment_payload \<Rightarrow> go_error option" where
  "validateAssignmentPayload p =
     (if pl_Version p \<noteq> assignmentPayloadVersion \<or> identity_validate (pl_Identity p) \<noteq> None
         \<or> \<not> jsonValid (pl_Input p) \<or> \<not> jsonValid (pl_Metadata p)
         \<or> int (length (pl_Input p) + length (pl_Metadata p)) > spoolPayloadMax
         \<or> \<not> hasPrefix (pl_NodeEnvelope p) ''ol_ctx_v2.'' \<or> length (pl_NodeEnvelope p) > 8192
         \<or> \<not> hasPrefix (pl_AgentInvocationToken p) ''ol_inv_v2.''
         \<or> length (pl_AgentInvocationToken p) > 8192
         \<or> isZeroTime (pl_OfferExpiresAt p) \<or> isZeroTime (pl_AttemptDeadlineAt p)
         \<or> isZeroTime (pl_RunDeadlineAt p) \<or> isZeroTime (pl_CreatedAt p)
      then Some ErrRuntimeRecordCorrupt else None)"

definition normalizeRawMessage :: "bytes \<Rightarrow> bytes" where
  "normalizeRawMessage v = (if length v = 0 then ''null'' else v)"

section \<open>The assignment journal\<close>

definition liveEntry :: "journal_record \<Rightarrow> journal_entry" where
  "liveEntry r = \<lparr>je_Record = r, je_Deleted = False\<rparr>"

abbreviation nextNow :: "io \<Rightarrow> store \<Rightarrow> time" where
  "nextNow io s \<equiv> io_jnow io (inc_uint64 (st_sequence s))"

definition CreateAssignment :: "io \<Rightarrow> journal_record \<Rightarrow> store \<Rightarrow> go_error option \<times> store" where
  "CreateAssignment io r s =
     (case readyLocked s of
        Some e \<Rightarrow> (Some e, s)
      | None \<Rightarrow>
      case validateNewAssignment r (st_identity s) of
        Some e \<Rightarrow> (Some e, s)
      | None \<Rightarrow>
      let messageID = messageID_of r in
      case map_of (st_entries s) messageID of
        Some existing \<Rightarrow>
          if \<not> je_Deleted existing \<and> jr_Identity (je_Record existing) = jr_Identity r
             \<and> jr_InputDigest (je_Record existing) = jr_InputDigest r
             \<and> jr_SignedContextDigest (je_Record existing) = jr_SignedContextDigest r
          then (None, s)
          else (Some ErrAssignmentAlreadyExists, s)
      | None \<Rightarrow>
          if (case map_of (st_attempts s) (attemptID_of r) of
                Some existingMessageID \<Rightarrow> existingMessageID \<noteq> messageID | None \<Rightarrow> False)
          then (Some ErrAttemptAlreadyExists, s)
          else appendJournalLocked io
                 (liveEntry (r\<lparr>jr_State := AssignmentStateReceived, jr_UpdatedAt := nextNow io s,
                               jr_AckedOutOfOrderEventSeqs := []\<rparr>)) s)"

definition AdvanceAssignment ::
  "io \<Rightarrow> string \<Rightarrow> assignment_state \<Rightarrow> store \<Rightarrow> (go_error + journal_record) \<times> store" where
  "AdvanceAssignment io messageID next s =
     (case readyLocked s of
        Some e \<Rightarrow> (Inl e, s)
      | None \<Rightarrow>
      case map_of (st_entries s) messageID of
        None \<Rightarrow> (Inl ErrAssignmentNotFound, s)
      | Some entry \<Rightarrow>
          if je_Deleted entry then (Inl ErrAssignmentNotFound, s)
          else if next = AssignmentStateFinished \<or> next = AssignmentStateResultACKed
          then (Inl ErrAssignmentTransition, s)
          else if jr_State (je_Record entry) = next then (Inr (je_Record entry), s)
          else (case validateAssignmentStateTransition (jr_State (je_Record entry)) next of
                  Some e \<Rightarrow> (Inl e, s)
                | None \<Rightarrow>
                    let nextRecord = (je_Record entry)\<lparr>jr_State := next, jr_UpdatedAt := nextNow io s\<rparr>
                    in case appendJournalLocked io (liveEntry nextRecord) s of
                         (Some e, s1) \<Rightarrow> (Inl e, s1)
                       | (None, s1) \<Rightarrow> (Inr nextRecord, s1)))"

definition Assignment :: "string \<Rightarrow> store \<Rightarrow> go_error + journal_record" where
  "Assignment messageID s =
     (case readyLocked s of
        Some e \<Rightarrow> Inl e
      | None \<Rightarrow>
      case map_of (st_entries s) messageID of
        None \<Rightarrow> Inl ErrAssignmentNotFound
      | Some entry \<Rightarrow> if je_Deleted entry then Inl ErrAssignmentNotFound else Inr (je_Record entry))"

definition Assignments :: "store \<Rightarrow> go_error + journal_record list" where
  "Assignments s =
     (case readyLocked s of
        Some e \<Rightarrow> Inl e
      | None \<Rightarrow>
          Inr (sort_key messageID_of
                 (map je_Record (filter (\<lambda>entry. \<not> je_Deleted entry) (map snd (st_entries s))))))"

definition removeAssignmentPayloadLocked ::
  "io \<Rightarrow> assignment_payload \<Rightarrow> store \<Rightarrow> go_error option \<times> store" where
  "removeAssignmentPayloadLocked io payload s =
     (case removeSpoolFileLocked io
             (spoolRecordPath assignmentSpoolKind (ai_AttemptID (pl_Identity payload))
                (ai_AssignmentMessageID (pl_Identity payload))) s of
        (Some e, s1) \<Rightarrow> (Some e, s1)
      | (None, s1) \<Rightarrow>
          (None, s1\<lparr>st_payloads := AList.delete (ai_AttemptID (pl_Identity payload)) (st_payloads s1)\<rparr>))"

definition innerSeqs :: "string \<Rightarrow> store \<Rightarrow> (int, string) gomap" where
  "innerSeqs attemptID s = (case map_of (st_eventSeqs s) attemptID of None \<Rightarrow> [] | Some m \<Rightarrow> m)"

definition DeleteAssignment :: "io \<Rightarrow> string \<Rightarrow> store \<Rightarrow> go_error option \<times> store" where
  "DeleteAssignment io messageID s =
     (case readyLocked s of
        Some e \<Rightarrow> (Some e, s)
      | None \<Rightarrow>
      case map_of (st_entries s) messageID of
        None \<Rightarrow> (Some ErrAssignmentNotFound, s)
      | Some entry \<Rightarrow>
          if je_Deleted entry then (Some ErrAssignmentNotFound, s)
          else if \<not> (jr_State (je_Record entry) = AssignmentStateResultACKed
                     \<or> jr_State (je_Record entry) = AssignmentStateRejected
                     \<or> jr_State (je_Record entry) = AssignmentStateRevoked)
          then (Some ErrAssignmentCleanup, s)
          else let attemptID = attemptID_of (je_Record entry) in
            if length (innerSeqs attemptID s) \<noteq> 0 then (Some ErrAssignmentCleanup, s)
            else if map_of (st_results s) attemptID \<noteq> None then (Some ErrAssignmentCleanup, s)
            else (case appendJournalLocked io
                         (entry\<lparr>je_Deleted := True,
                                je_Record := (je_Record entry)\<lparr>jr_UpdatedAt := nextNow io s\<rparr>\<rparr>) s of
                    (Some e, s1) \<Rightarrow> (Some e, s1)
                  | (None, s1) \<Rightarrow>
                      (case map_of (st_payloads s1) attemptID of
                         Some payload \<Rightarrow> removeAssignmentPayloadLocked io payload s1
                       | None \<Rightarrow> (None, s1))))"

section \<open>Events\<close>

definition zeroIdentity :: attempt_identity where
  "zeroIdentity = \<lparr>ai_NodeID = [], ai_AgentID = [], ai_WorkerID = [], ai_RuntimeSessionID = [],
     ai_SessionEpoch = 0, ai_AssignmentMessageID = [], ai_RunID = [], ai_AttemptID = [],
     ai_OfferID = [], ai_LeaseID = [], ai_FencingToken = 0\<rparr>"

definition zeroEvent :: event_spool_record where
  "zeroEvent = \<lparr>ev_Version = 0, ev_Identity = zeroIdentity, ev_ClientEventID = [],
     ev_ClientEventSeq = 0, ev_EventType = [], ev_Payload = [], ev_CreatedAt = 0\<rparr>"

definition zeroResult :: result_spool_record where
  "zeroResult = \<lparr>rs_Version = 0, rs_Identity = zeroIdentity, rs_ResultID = [],
     rs_FinalClientEventSeq = 0, rs_Status = [], rs_Payload = [], rs_CreatedAt = 0\<rparr>"

definition eventOf :: "string \<Rightarrow> store \<Rightarrow> event_spool_record" where
  "eventOf eventID s = (case map_of (st_events s) eventID of None \<Rightarrow> zeroEvent | Some r \<Rightarrow> r)"

definition indexEvent :: "event_spool_record \<Rightarrow> store \<Rightarrow> store" where
  "indexEvent r s =
     (let a = ai_AttemptID (ev_Identity r) in
      s\<lparr>st_events := AList.update (ev_ClientEventID r) r (st_events s),
        st_eventSeqs := AList.update a
          (AList.update (ev_ClientEventSeq r) (ev_ClientEventID r) (innerSeqs a s)) (st_eventSeqs s)\<rparr>)"

definition writeEventFile :: "spool_path \<Rightarrow> event_spool_record disk_blob \<Rightarrow> store \<Rightarrow> store" where
  "writeEventFile path raw s =
     s\<lparr>st_disk := (st_disk s)\<lparr>dk_events := AList.update path raw (dk_events (st_disk s))\<rparr>\<rparr>"

definition storeEventLocked :: "io \<Rightarrow> event_spool_record \<Rightarrow> store \<Rightarrow> go_error option \<times> store" where
  "storeEventLocked io r s =
     (case validateEventSpoolRecord r of
        Some e \<Rightarrow> (Some e, s)
      | None \<Rightarrow>
      case assignmentForAttemptLocked (ai_AttemptID (ev_Identity r)) s of
        Inl e \<Rightarrow> (Some e, s)
      | Inr entry \<Rightarrow>
      if jr_Identity (je_Record entry) \<noteq> ev_Identity r
         \<or> jr_State (je_Record entry) \<noteq> AssignmentStateStarted
      then (Some ErrAssignmentTransition, s)
      else case map_of (st_events s) (ev_ClientEventID r) of
        Some existing \<Rightarrow> (if existing = r then (None, s) else (Some ErrSpoolRecordConflict, s))
      | None \<Rightarrow>
      if ev_ClientEventSeq r \<noteq> add64 (jr_LastClientEventSeq (je_Record entry)) 1
      then (Some ErrEventSequence, s)
      else if map_of (innerSeqs (ai_AttemptID (ev_Identity r)) s) (ev_ClientEventSeq r) \<noteq> None
      then (Some ErrEventSequence, s)
      else
        let path = spoolRecordPath eventSpoolKind (ai_AttemptID (ev_Identity r)) (ev_ClientEventID r)
        in case sealRuntimeRecord (st_key s)
                  (headerForAttempt eventSpoolKind (ev_ClientEventID r) (ev_Identity r)) r (io_seal io) of
             Inl e \<Rightarrow> (Some e, s)
           | Inr raw \<Rightarrow>
             if blobSize raw > spoolDiskRecordMax
             then (Some (TextError ''event durable record exceeds limit''), s)
             else case ensureSpoolWriteLocked io path (blobSize raw) s of
               Some e \<Rightarrow> (Some e, s)
             | None \<Rightarrow>
               (case io_write io of
                  WriteFails e renamed \<Rightarrow>
                    (Some e, poison e (if renamed then writeEventFile path raw s else s))
                | WriteOk \<Rightarrow>
                    (case trackSpoolFileLocked path (blobSize raw) (writeEventFile path raw s) of
                       (Some e, s1) \<Rightarrow> (Some e, poison e s1)
                     | (None, s1) \<Rightarrow>
                         appendJournalLocked io
                           (liveEntry ((je_Record entry)\<lparr>jr_LastClientEventSeq := ev_ClientEventSeq r,
                                                         jr_UpdatedAt := nextNow io s1\<rparr>))
                           (indexEvent r s1))))"

definition AppendEvent ::
  "io \<Rightarrow> attempt_identity \<Rightarrow> string \<Rightarrow> bytes \<Rightarrow> store
     \<Rightarrow> (event_spool_record \<times> go_error option) \<times> store" where
  "AppendEvent io identity eventType payload s =
     (case readyLocked s of
        Some e \<Rightarrow> ((zeroEvent, Some e), s)
      | None \<Rightarrow>
      case assignmentForAttemptLocked (ai_AttemptID identity) s of
        Inl e \<Rightarrow> ((zeroEvent, Some e), s)
      | Inr entry \<Rightarrow>
      if jr_Identity (je_Record entry) \<noteq> identity \<or> jr_State (je_Record entry) \<noteq> AssignmentStateStarted
      then ((zeroEvent, Some ErrAssignmentTransition), s)
      else if jr_LastClientEventSeq (je_Record entry) = maxInt64
      then ((zeroEvent, Some ErrEventSequence), s)
      else case newRuntimeUUID (io_random io) of
        Inl e \<Rightarrow> ((zeroEvent, Some e), s)
      | Inr eventID \<Rightarrow>
          let r = \<lparr>ev_Version = spoolRecordVersion, ev_Identity = identity, ev_ClientEventID = eventID,
                   ev_ClientEventSeq = add64 (jr_LastClientEventSeq (je_Record entry)) 1,
                   ev_EventType = eventType, ev_Payload = normalizeRawMessage payload,
                   ev_CreatedAt = io_now io\<rparr>
          in case storeEventLocked io r s of (err, s1) \<Rightarrow> ((r, err), s1))"

definition StoreEvent :: "io \<Rightarrow> event_spool_record \<Rightarrow> store \<Rightarrow> go_error option \<times> store" where
  "StoreEvent io r s =
     (case readyLocked s of
        Some e \<Rightarrow> (Some e, s)
      | None \<Rightarrow>
          let r1 = (if ev_Version r = 0 then r\<lparr>ev_Version := spoolRecordVersion\<rparr> else r);
              r2 = (if isZeroTime (ev_CreatedAt r1) then r1\<lparr>ev_CreatedAt := io_now io\<rparr> else r1);
              r3 = r2\<lparr>ev_Payload := normalizeRawMessage (ev_Payload r2)\<rparr>
          in storeEventLocked io r3 s)"

definition PendingEvents :: "string \<Rightarrow> store \<Rightarrow> go_error + event_spool_record list" where
  "PendingEvents attemptID s =
     (case readyLocked s of
        Some e \<Rightarrow> Inl e
      | None \<Rightarrow>
      case assignmentForAttemptLocked attemptID s of
        Inl e \<Rightarrow> Inl e
      | Inr entry \<Rightarrow>
          Inr (sort_key ev_ClientEventSeq
                 (filter (\<lambda>r. \<not> eventSequenceACKed (je_Record entry) (ev_ClientEventSeq r))
                    (map (\<lambda>(sequence, eventID). eventOf eventID s) (innerSeqs attemptID s)))))"

type_synonym event_range = "int \<times> int"  \<comment> \<open>\<^verbatim>\<open>RuntimeEventRange\<close>: Start and End\<close>

fun eventsOfSequences :: "string \<Rightarrow> store \<Rightarrow> int list \<Rightarrow> go_error + event_spool_record list" where
  "eventsOfSequences attemptID s [] = Inr []"
| "eventsOfSequences attemptID s (sequence # rest) =
     (case map_of (innerSeqs attemptID s) sequence of
        None \<Rightarrow> Inl ErrSpoolRecordNotFound
      | Some eventID \<Rightarrow>
          (case eventsOfSequences attemptID s rest of
             Inl e \<Rightarrow> Inl e
           | Inr records \<Rightarrow> Inr (eventOf eventID s # records)))"

text \<open>
  A range that ends at the largest int64 makes the loop variable wrap around to the smallest
  one, which has no event.
\<close>

fun eventsInRangesLoop ::
  "string \<Rightarrow> int \<Rightarrow> int \<Rightarrow> store \<Rightarrow> event_range list \<Rightarrow> go_error + event_spool_record list" where
  "eventsInRangesLoop attemptID lastSeq previous s [] = Inr []"
| "eventsInRangesLoop attemptID lastSeq previous s ((rangeStart, rangeEnd) # rest) =
     (if rangeStart < 1 \<or> rangeEnd < rangeStart \<or> rangeStart \<le> previous \<or> rangeEnd > lastSeq
      then Inl ErrEventSequence
      else case (if rangeEnd = maxInt64 then Inl ErrSpoolRecordNotFound
                 else eventsOfSequences attemptID s [rangeStart .. rangeEnd]) of
             Inl e \<Rightarrow> Inl e
           | Inr records \<Rightarrow>
               (case eventsInRangesLoop attemptID lastSeq rangeEnd s rest of
                  Inl e \<Rightarrow> Inl e
                | Inr others \<Rightarrow> Inr (records @ others)))"

definition EventsInRanges ::
  "string \<Rightarrow> event_range list \<Rightarrow> store \<Rightarrow> go_error + event_spool_record list" where
  "EventsInRanges attemptID ranges s =
     (case readyLocked s of
        Some e \<Rightarrow> Inl e
      | None \<Rightarrow>
      case assignmentForAttemptLocked attemptID s of
        Inl e \<Rightarrow> Inl e
      | Inr entry \<Rightarrow> eventsInRangesLoop attemptID (jr_LastClientEventSeq (je_Record entry)) 0 s ranges)"

definition unindexEvent :: "event_spool_record \<Rightarrow> store \<Rightarrow> store" where
  "unindexEvent r s =
     (let a = ai_AttemptID (ev_Identity r);
          s1 = s\<lparr>st_events := AList.delete (ev_ClientEventID r) (st_events s)\<rparr>
      in case map_of (st_eventSeqs s) a of
           None \<Rightarrow> s1
         | Some bySequence \<Rightarrow>
             let rest = AList.delete (ev_ClientEventSeq r) bySequence
             in if length rest = 0 then s1\<lparr>st_eventSeqs := AList.delete a (st_eventSeqs s1)\<rparr>
                else s1\<lparr>st_eventSeqs := AList.update a rest (st_eventSeqs s1)\<rparr>)"

definition removeEventLocked :: "io \<Rightarrow> event_spool_record \<Rightarrow> store \<Rightarrow> go_error option \<times> store" where
  "removeEventLocked io r s =
     (case removeSpoolFileLocked io
             (spoolRecordPath eventSpoolKind (ai_AttemptID (ev_Identity r)) (ev_ClientEventID r)) s of
        (Some e, s1) \<Rightarrow> (Some e, s1)
      | (None, s1) \<Rightarrow> (None, unindexEvent r s1))"

definition AckEvent :: "io \<Rightarrow> string \<Rightarrow> string \<Rightarrow> int \<Rightarrow> store \<Rightarrow> go_error option \<times> store" where
  "AckEvent io attemptID eventID sequence s =
     (case readyLocked s of
        Some e \<Rightarrow> (Some e, s)
      | None \<Rightarrow>
      if sequence \<le> 0 then (Some ErrEventSequence, s)
      else case assignmentForAttemptLocked attemptID s of
        Inl e \<Rightarrow> (Some e, s)
      | Inr entry \<Rightarrow>
      let terminal = (jr_State (je_Record entry) = AssignmentStateResultACKed
                      \<or> jr_State (je_Record entry) = AssignmentStateRevoked) in
      if eventSequenceACKed (je_Record entry) sequence then
        (case map_of (st_events s) eventID of
           None \<Rightarrow> (None, s)
         | Some r \<Rightarrow>
             if ai_AttemptID (ev_Identity r) \<noteq> attemptID \<or> ev_ClientEventSeq r \<noteq> sequence
             then (Some ErrSpoolRecordConflict, s)
             else if terminal then removeEventLocked io r s
             else (None, s))
      else case map_of (st_events s) eventID of
        None \<Rightarrow> (Some ErrSpoolRecordNotFound, s)
      | Some r \<Rightarrow>
          if ai_AttemptID (ev_Identity r) \<noteq> attemptID \<or> ev_ClientEventSeq r \<noteq> sequence
          then (Some ErrSpoolRecordConflict, s)
          else (case appendJournalLocked io
                       (liveEntry ((applyEventACK (je_Record entry) sequence)\<lparr>jr_UpdatedAt := nextNow io s\<rparr>)) s of
                  (Some e, s1) \<Rightarrow> (Some e, s1)
                | (None, s1) \<Rightarrow> if terminal then removeEventLocked io r s1 else (None, s1)))"

section \<open>Results\<close>

definition writeResultFile :: "spool_path \<Rightarrow> result_spool_record disk_blob \<Rightarrow> store \<Rightarrow> store" where
  "writeResultFile path raw s =
     s\<lparr>st_disk := (st_disk s)\<lparr>dk_results := AList.update path raw (dk_results (st_disk s))\<rparr>\<rparr>"

definition storeResultLocked :: "io \<Rightarrow> result_spool_record \<Rightarrow> store \<Rightarrow> go_error option \<times> store" where
  "storeResultLocked io r s =
     (case validateResultSpoolRecord r of
        Some e \<Rightarrow> (Some e, s)
      | None \<Rightarrow>
      case assignmentForAttemptLocked (ai_AttemptID (rs_Identity r)) s of
        Inl e \<Rightarrow> (Some e, s)
      | Inr entry \<Rightarrow>
      if jr_Identity (je_Record entry) \<noteq> rs_Identity r then (Some ErrSpoolRecordConflict, s)
      else case map_of (st_results s) (ai_AttemptID (rs_Identity r)) of
        Some existing \<Rightarrow> (if existing = r then (None, s) else (Some ErrResultAlreadyExists, s))
      | None \<Rightarrow>
      if jr_State (je_Record entry) \<noteq> AssignmentStateStarted
         \<or> rs_FinalClientEventSeq r \<noteq> jr_LastClientEventSeq (je_Record entry)
      then (Some ErrAssignmentTransition, s)
      else
        let path = spoolRecordPath resultSpoolKind (ai_AttemptID (rs_Identity r)) (rs_ResultID r)
        in case sealRuntimeRecord (st_key s)
                  (headerForAttempt resultSpoolKind (rs_ResultID r) (rs_Identity r)) r (io_seal io) of
             Inl e \<Rightarrow> (Some e, s)
           | Inr raw \<Rightarrow>
             if blobSize raw > spoolDiskRecordMax
             then (Some (TextError ''result durable record exceeds limit''), s)
             else case ensureSpoolWriteLocked io path (blobSize raw) s of
               Some e \<Rightarrow> (Some e, s)
             | None \<Rightarrow>
               (case io_write io of
                  WriteFails e renamed \<Rightarrow>
                    (Some e, poison e (if renamed then writeResultFile path raw s else s))
                | WriteOk \<Rightarrow>
                    (case trackSpoolFileLocked path (blobSize raw) (writeResultFile path raw s) of
                       (Some e, s1) \<Rightarrow> (Some e, poison e s1)
                     | (None, s1) \<Rightarrow>
                         appendJournalLocked io
                           (liveEntry ((je_Record entry)\<lparr>jr_State := AssignmentStateFinished,
                              jr_ResultID := rs_ResultID r,
                              jr_FinalClientEventSeq := rs_FinalClientEventSeq r,
                              jr_UpdatedAt := nextNow io s1\<rparr>))
                           (s1\<lparr>st_results := AList.update (ai_AttemptID (rs_Identity r)) r (st_results s1)\<rparr>))))"

definition AppendResult ::
  "io \<Rightarrow> attempt_identity \<Rightarrow> string \<Rightarrow> bytes \<Rightarrow> store
     \<Rightarrow> (result_spool_record \<times> go_error option) \<times> store" where
  "AppendResult io identity status payload s =
     (case readyLocked s of
        Some e \<Rightarrow> ((zeroResult, Some e), s)
      | None \<Rightarrow>
      case assignmentForAttemptLocked (ai_AttemptID identity) s of
        Inl e \<Rightarrow> ((zeroResult, Some e), s)
      | Inr entry \<Rightarrow>
      if jr_Identity (je_Record entry) \<noteq> identity then ((zeroResult, Some ErrSpoolRecordConflict), s)
      else case map_of (st_results s) (ai_AttemptID identity) of
        Some existing \<Rightarrow> ((existing, None), s)
      | None \<Rightarrow>
      if jr_State (je_Record entry) \<noteq> AssignmentStateStarted
      then ((zeroResult, Some ErrAssignmentTransition), s)
      else case newRuntimeUUID (io_random io) of
        Inl e \<Rightarrow> ((zeroResult, Some e), s)
      | Inr resultID \<Rightarrow>
          let r = \<lparr>rs_Version = spoolRecordVersion, rs_Identity = identity, rs_ResultID = resultID,
                   rs_FinalClientEventSeq = jr_LastClientEventSeq (je_Record entry),
                   rs_Status = status, rs_Payload = normalizeRawMessage payload,
                   rs_CreatedAt = io_now io\<rparr>
          in case storeResultLocked io r s of (err, s1) \<Rightarrow> ((r, err), s1))"

definition StoreResult :: "io \<Rightarrow> result_spool_record \<Rightarrow> store \<Rightarrow> go_error option \<times> store" where
  "StoreResult io r s =
     (case readyLocked s of
        Some e \<Rightarrow> (Some e, s)
      | None \<Rightarrow>
          let r1 = (if rs_Version r = 0 then r\<lparr>rs_Version := spoolRecordVersion\<rparr> else r);
              r2 = (if isZeroTime (rs_CreatedAt r1) then r1\<lparr>rs_CreatedAt := io_now io\<rparr> else r1);
              r3 = r2\<lparr>rs_Payload := normalizeRawMessage (rs_Payload r2)\<rparr>
          in storeResultLocked io r3 s)"

definition PendingResult :: "string \<Rightarrow> store \<Rightarrow> go_error + result_spool_record" where
  "PendingResult attemptID s =
     (case readyLocked s of
        Some e \<Rightarrow> Inl e
      | None \<Rightarrow>
      case assignmentForAttemptLocked attemptID s of
        Inl e \<Rightarrow> Inl e
      | Inr entry \<Rightarrow>
          (case map_of (st_results s) attemptID of
             None \<Rightarrow> Inl ErrSpoolRecordNotFound
           | Some r \<Rightarrow> Inr r))"

definition removeResultLocked :: "io \<Rightarrow> result_spool_record \<Rightarrow> store \<Rightarrow> go_error option \<times> store" where
  "removeResultLocked io r s =
     (case removeSpoolFileLocked io
             (spoolRecordPath resultSpoolKind (ai_AttemptID (rs_Identity r)) (rs_ResultID r)) s of
        (Some e, s1) \<Rightarrow> (Some e, s1)
      | (None, s1) \<Rightarrow>
          (None, s1\<lparr>st_results := AList.delete (ai_AttemptID (rs_Identity r)) (st_results s1)\<rparr>))"

fun removeSequencesLoop :: "io \<Rightarrow> string \<Rightarrow> int list \<Rightarrow> store \<Rightarrow> go_error option \<times> store" where
  "removeSequencesLoop io attemptID [] s = (None, s)"
| "removeSequencesLoop io attemptID (sequence # rest) s =
     (let eventID = (case map_of (innerSeqs attemptID s) sequence of None \<Rightarrow> [] | Some v \<Rightarrow> v)
      in case removeEventLocked io (eventOf eventID s) s of
           (Some e, s1) \<Rightarrow> (Some e, s1)
         | (None, s1) \<Rightarrow> removeSequencesLoop io attemptID rest s1)"

definition removeAttemptEventsLocked :: "io \<Rightarrow> string \<Rightarrow> store \<Rightarrow> go_error option \<times> store" where
  "removeAttemptEventsLocked io attemptID s =
     removeSequencesLoop io attemptID (sort (map fst (innerSeqs attemptID s))) s"

definition AckResult :: "io \<Rightarrow> string \<Rightarrow> string \<Rightarrow> store \<Rightarrow> go_error option \<times> store" where
  "AckResult io attemptID resultID s =
     (case readyLocked s of
        Some e \<Rightarrow> (Some e, s)
      | None \<Rightarrow>
      case assignmentForAttemptLocked attemptID s of
        Inl e \<Rightarrow> (Some e, s)
      | Inr entry \<Rightarrow>
      if jr_State (je_Record entry) = AssignmentStateResultACKed then
        (if jr_ResultID (je_Record entry) \<noteq> resultID then (Some ErrSpoolRecordConflict, s)
         else case (case map_of (st_results s) attemptID of
                      Some existing \<Rightarrow> removeResultLocked io existing s | None \<Rightarrow> (None, s)) of
                (Some e, s1) \<Rightarrow> (Some e, s1)
              | (None, s1) \<Rightarrow> removeAttemptEventsLocked io attemptID s1)
      else case map_of (st_results s) attemptID of
        None \<Rightarrow> (Some ErrSpoolRecordNotFound, s)
      | Some r \<Rightarrow>
      if jr_State (je_Record entry) = AssignmentStateRevoked then
        (if rs_ResultID r \<noteq> resultID \<or> jr_ResultID (je_Record entry) \<noteq> resultID
         then (Some ErrSpoolRecordConflict, s)
         else case removeResultLocked io r s of
                (Some e, s1) \<Rightarrow> (Some e, s1)
              | (None, s1) \<Rightarrow> removeAttemptEventsLocked io attemptID s1)
      else if jr_State (je_Record entry) \<noteq> AssignmentStateFinished \<or> rs_ResultID r \<noteq> resultID
              \<or> jr_ResultID (je_Record entry) \<noteq> resultID
      then (Some ErrSpoolRecordConflict, s)
      else case appendJournalLocked io
                  (liveEntry ((je_Record entry)\<lparr>jr_State := AssignmentStateResultACKed,
                                                jr_UpdatedAt := nextNow io s\<rparr>)) s of
             (Some e, s1) \<Rightarrow> (Some e, s1)
           | (None, s1) \<Rightarrow>
               (case removeResultLocked io r s1 of
                  (Some e, s2) \<Rightarrow> (Some e, s2)
                | (None, s2) \<Rightarrow> removeAttemptEventsLocked io attemptID s2))"

definition ClearTerminalEvents :: "io \<Rightarrow> string \<Rightarrow> store \<Rightarrow> go_error option \<times> store" where
  "ClearTerminalEvents io attemptID s =
     (case readyLocked s of
        Some e \<Rightarrow> (Some e, s)
      | None \<Rightarrow>
      case assignmentForAttemptLocked attemptID s of
        Inl e \<Rightarrow> (Some e, s)
      | Inr entry \<Rightarrow>
          if jr_State (je_Record entry) \<noteq> AssignmentStateResultACKed
             \<and> jr_State (je_Record entry) \<noteq> AssignmentStateRevoked
          then (Some ErrAssignmentCleanup, s)
          else removeAttemptEventsLocked io attemptID s)"

section \<open>Assignment payloads\<close>

definition writePayloadFile :: "spool_path \<Rightarrow> assignment_payload disk_blob \<Rightarrow> store \<Rightarrow> store" where
  "writePayloadFile path raw s =
     s\<lparr>st_disk := (st_disk s)\<lparr>dk_assignments := AList.update path raw (dk_assignments (st_disk s))\<rparr>\<rparr>"

definition storeAssignmentPayloadLocked ::
  "io \<Rightarrow> assignment_payload \<Rightarrow> store \<Rightarrow> go_error option \<times> store" where
  "storeAssignmentPayloadLocked io p s =
     (case validateAssignmentPayload p of
        Some e \<Rightarrow> (Some e, s)
      | None \<Rightarrow>
      case assignmentForAttemptLocked (ai_AttemptID (pl_Identity p)) s of
        Inl e \<Rightarrow> (Some e, s)
      | Inr entry \<Rightarrow>
      if jr_Identity (je_Record entry) \<noteq> pl_Identity p then (Some ErrSpoolRecordConflict, s)
      else if \<not> (jr_State (je_Record entry) \<in> {AssignmentStateReceived, AssignmentStateACKSent,
                  AssignmentStateConfirmed, AssignmentStateStarted, AssignmentStateFinished})
      then (Some ErrAssignmentTransition, s)
      else case map_of (st_payloads s) (ai_AttemptID (pl_Identity p)) of
        Some existing \<Rightarrow>
          (if existing = p\<lparr>pl_CreatedAt := pl_CreatedAt existing\<rparr> then (None, s)
           else (Some ErrSpoolRecordConflict, s))
      | None \<Rightarrow>
        let path = spoolRecordPath assignmentSpoolKind (ai_AttemptID (pl_Identity p))
                     (ai_AssignmentMessageID (pl_Identity p))
        in case sealRuntimeRecord (st_key s)
                  (headerForAttempt assignmentSpoolKind (ai_AssignmentMessageID (pl_Identity p))
                     (pl_Identity p)) p (io_seal io) of
             Inl e \<Rightarrow> (Some e, s)
           | Inr raw \<Rightarrow>
             if blobSize raw > spoolDiskRecordMax then (Some ErrRuntimeMessageTooLarge, s)
             else case ensureSpoolWriteLocked io path (blobSize raw) s of
               Some e \<Rightarrow> (Some e, s)
             | None \<Rightarrow>
               (case io_write io of
                  WriteFails e renamed \<Rightarrow>
                    (Some e, poison e (if renamed then writePayloadFile path raw s else s))
                | WriteOk \<Rightarrow>
                    (case trackSpoolFileLocked path (blobSize raw) (writePayloadFile path raw s) of
                       (Some e, s1) \<Rightarrow> (Some e, poison e s1)
                     | (None, s1) \<Rightarrow>
                         (None, s1\<lparr>st_payloads :=
                            AList.update (ai_AttemptID (pl_Identity p)) p (st_payloads s1)\<rparr>))))"

definition StoreAssignmentPayload ::
  "io \<Rightarrow> assignment_payload \<Rightarrow> store \<Rightarrow> go_error option \<times> store" where
  "StoreAssignmentPayload io p s =
     (case readyLocked s of
        Some e \<Rightarrow> (Some e, s)
      | None \<Rightarrow>
          let p1 = (if pl_Version p = 0 then p\<lparr>pl_Version := assignmentPayloadVersion\<rparr> else p);
              p2 = (if isZeroTime (pl_CreatedAt p1) then p1\<lparr>pl_CreatedAt := io_now io\<rparr> else p1);
              p3 = p2\<lparr>pl_Input := normalizeRawMessage (pl_Input p2),
                      pl_Metadata := normalizeRawMessage (pl_Metadata p2)\<rparr>
          in storeAssignmentPayloadLocked io p3 s)"

definition AssignmentPayload :: "string \<Rightarrow> store \<Rightarrow> go_error + assignment_payload" where
  "AssignmentPayload attemptID s =
     (case readyLocked s of
        Some e \<Rightarrow> Inl e
      | None \<Rightarrow>
          (case map_of (st_payloads s) attemptID of
             None \<Rightarrow> Inl ErrSpoolRecordNotFound
           | Some p \<Rightarrow> Inr p))"

end
