(* ===== verification/Store_Recovery.thy ===== *)
theory Store_Recovery
  imports Store_Ops
begin

text \<open>
  Opening a data directory: \<^verbatim>\<open>openFileRuntimeStore\<close> with the runtime identity
  (\<^verbatim>\<open>runtime_store_identity.go\<close>), the replay of the write-ahead journal against its snapshot
  (\<^verbatim>\<open>openAndReplayJournal\<close>), the load of the three spool directories and the reconciliation of
  spool and journal (\<^verbatim>\<open>reconcileSpoolAndJournalLocked\<close>).

  A \<^verbatim>\<open>range\<close> over a directory or a map visits the association list in its order.
\<close>

section \<open>Identity and key\<close>

definition formatInt :: "int \<Rightarrow> string" where
  "formatInt i = (if i < 0 then ''-'' @ formatUint (nat (- i)) else formatUint (nat i))"

definition runtimeIdentityVersion :: int where "runtimeIdentityVersion = 1"

definition runtimeIdentityChecksum :: "runtime_identity_disk \<Rightarrow> string" where
  "runtimeIdentityChecksum d =
     formatInt (id_Version d) @ [CHR 0x00] @ id_WorkerID d @ [CHR 0x00] @ formatInt (id_SessionEpoch d)"

text \<open>
  \<open>open_io\<close> holds the answers of one call of \<^verbatim>\<open>openFileRuntimeStore\<close>: two random draws,
  the outcomes of the identity and key writes, and the answers of the store operations.
\<close>

record open_io =
  oi_workerRandom :: "bytes option"
  oi_sessionRandom :: "bytes option"
  oi_keyRandom :: "bytes option"
  oi_identityWrite :: write_outcome
  oi_sessionWrite :: write_outcome
  oi_keyWrite :: write_outcome
  oi_store :: io

definition persistRuntimeIdentityDisk ::
  "write_outcome \<Rightarrow> runtime_identity_disk \<Rightarrow> disk \<Rightarrow> go_error option \<times> disk" where
  "persistRuntimeIdentityDisk outcome identity d =
     (let stored = IdentityFile (identity\<lparr>id_Checksum := runtimeIdentityChecksum identity\<rparr>)
      in case outcome of
           WriteOk \<Rightarrow> (None, d\<lparr>dk_identity := Some stored\<rparr>)
         | WriteFails e renamed \<Rightarrow>
             (Some (WrapError e ''persist runtime identity''),
              if renamed then d\<lparr>dk_identity := Some stored\<rparr> else d))"

definition loadRuntimeIdentity ::
  "open_io \<Rightarrow> bool \<Rightarrow> disk \<Rightarrow> (go_error + runtime_identity_disk) \<times> disk" where
  "loadRuntimeIdentity io durableRecordsExist d =
     (case dk_identity d of
        None \<Rightarrow>
          if durableRecordsExist then (Inl ErrRuntimeIdentityMissing, d)
          else (case newRuntimeUUID (oi_workerRandom io) of
                  Inl e \<Rightarrow> (Inl (WrapError e ''generate worker identity''), d)
                | Inr workerID \<Rightarrow>
                    let fresh = \<lparr>id_Version = runtimeIdentityVersion, id_WorkerID = workerID,
                                 id_SessionEpoch = 0, id_Checksum = []\<rparr>
                    in case persistRuntimeIdentityDisk (oi_identityWrite io) fresh d of
                         (Some e, d1) \<Rightarrow> (Inl e, d1)
                       | (None, d1) \<Rightarrow> (Inr fresh, d1))
      | Some IdentityUnreadable \<Rightarrow> (Inl ErrRuntimeIdentityCorrupt, d)
      | Some (IdentityFile identity) \<Rightarrow>
          if id_Version identity \<noteq> runtimeIdentityVersion \<or> \<not> validRuntimeID (id_WorkerID identity)
             \<or> id_SessionEpoch identity < 0 then (Inl ErrRuntimeIdentityCorrupt, d)
          else if id_Checksum identity \<noteq> runtimeIdentityChecksum identity
          then (Inl ErrRuntimeIdentityCorrupt, d)
          else (Inr identity, d))"

definition startRuntimeSession ::
  "open_io \<Rightarrow> runtime_identity_disk \<Rightarrow> disk \<Rightarrow> (go_error + runtime_identity) \<times> disk" where
  "startRuntimeSession io identity d =
     (if id_SessionEpoch identity = maxInt64
      then (Inl (TextError ''runtime session epoch exhausted''), d)
      else case newRuntimeUUID (oi_sessionRandom io) of
             Inl e \<Rightarrow> (Inl (WrapError e ''generate runtime session identity''), d)
           | Inr sessionID \<Rightarrow>
               let identity1 = identity\<lparr>id_Version := runtimeIdentityVersion,
                                        id_SessionEpoch := add64 (id_SessionEpoch identity) 1\<rparr>
               in case persistRuntimeIdentityDisk (oi_sessionWrite io) identity1 d of
                    (Some e, d1) \<Rightarrow> (Inl e, d1)
                  | (None, d1) \<Rightarrow>
                      (Inr \<lparr>ri_WorkerID = id_WorkerID identity1, ri_RuntimeSessionID = sessionID,
                            ri_SessionEpoch = id_SessionEpoch identity1\<rparr>, d1))"

definition loadOrCreateRuntimeSpoolKey ::
  "open_io \<Rightarrow> bool \<Rightarrow> disk \<Rightarrow> (go_error + bytes) \<times> disk" where
  "loadOrCreateRuntimeSpoolKey io durableRecordsExist d =
     (case dk_spoolKey d of
        None \<Rightarrow>
          if durableRecordsExist then (Inl ErrRuntimeSpoolKeyMissing, d)
          else (case oi_keyRandom io of
                  None \<Rightarrow> (Inl (WrapError (IOError ''rand'') ''generate runtime spool key''), d)
                | Some key \<Rightarrow>
                    (case oi_keyWrite io of
                       WriteOk \<Rightarrow> (Inr key, d\<lparr>dk_spoolKey := Some key\<rparr>)
                     | WriteFails e renamed \<Rightarrow>
                         (Inl (WrapError e ''persist runtime spool key''),
                          if renamed then d\<lparr>dk_spoolKey := Some key\<rparr> else d)))
      | Some key \<Rightarrow>
          if length key \<noteq> runtimeSpoolKeyBytes then (Inl ErrRuntimeSpoolKeyInvalid, d) else (Inr key, d))"

text \<open>
  The journal file itself is created on the first open and never removed; \<open>fresh\<close> says that
  it does not exist yet.
\<close>

definition runtimeDurableRecordsExist :: "bool \<Rightarrow> disk \<Rightarrow> bool" where
  "runtimeDurableRecordsExist fresh d \<longleftrightarrow>
     \<not> fresh \<or> dk_snapshot d \<noteq> None \<or> dk_assignments d \<noteq> [] \<or> dk_events d \<noteq> [] \<or> dk_results d \<noteq> []"

section \<open>Journal replay\<close>

fun snapshotEntriesMapLoop ::
  "(string, journal_entry) gomap \<Rightarrow> journal_entry list \<Rightarrow> (string, journal_entry) gomap option" where
  "snapshotEntriesMapLoop result [] = Some result"
| "snapshotEntriesMapLoop result (entry # rest) =
     (let messageID = messageID_of (je_Record entry) in
      if messageID = [] then None
      else if map_of result messageID \<noteq> None then None
      else snapshotEntriesMapLoop (AList.update messageID entry result) rest)"

definition snapshotEntriesMap :: "journal_entry list \<Rightarrow> (string, journal_entry) gomap option" where
  "snapshotEntriesMap entries = snapshotEntriesMapLoop [] entries"

text \<open>\<^verbatim>\<open>reflect.DeepEqual\<close> of two maps.\<close>

definition gomapEqual :: "('k, 'v) gomap \<Rightarrow> ('k, 'v) gomap \<Rightarrow> bool" where
  "gomapEqual m n \<longleftrightarrow>
     list_all (\<lambda>(k, v). map_of n k = map_of m k) m \<and> list_all (\<lambda>(k, v). map_of m k = map_of n k) n"

definition journalCorrupt :: go_error where
  "journalCorrupt = RuntimeRecordError ''assignment journal'' ErrRuntimeRecordCorrupt"

definition snapshotCorrupt :: go_error where
  "snapshotCorrupt = RuntimeRecordError ''assignment journal snapshot'' ErrRuntimeRecordCorrupt"

definition journalSnapshotMax :: int where "journalSnapshotMax = 64 * 2 ^ 20"

definition loadJournalSnapshot :: "store \<Rightarrow> go_error + journal_snapshot option" where
  "loadJournalSnapshot s =
     (case dk_snapshot (st_disk s) of
        None \<Rightarrow> Inr None
      | Some raw \<Rightarrow>
          if blobSize raw \<le> 0 \<or> blobSize raw > journalSnapshotMax then Inl ErrRuntimeRecordCorrupt
          else (case openRuntimeRecord (st_key s) raw journalSnapshotKind of
                  Inl e \<Rightarrow> Inl (RuntimeRecordError ''assignment journal snapshot'' e)
                | Inr (header, snapshot) \<Rightarrow>
                    if sn_Version snapshot \<noteq> assignmentJournalVersion
                       \<or> sn_WorkerID snapshot \<noteq> st_workerID s \<or> hd_WorkerID header \<noteq> st_workerID s
                       \<or> hd_MessageID header \<noteq> formatUint (sn_LastSequence snapshot)
                    then Inl snapshotCorrupt
                    else if snapshotEntriesMap (sn_Entries snapshot) = None then Inl snapshotCorrupt
                    else Inr (Some snapshot)))"

definition replayItem :: "wal_item \<Rightarrow> store \<Rightarrow> go_error option \<times> store" where
  "replayItem item s =
     (case item of
        WalTorn \<Rightarrow> (Some journalCorrupt, s)
      | WalFrame encrypted \<Rightarrow>
          if blobSize encrypted = 0 \<or> blobSize encrypted > assignmentJournalFrameMax
          then (Some journalCorrupt, s)
          else (case openRuntimeRecord (st_key s) encrypted journalEntryKind of
             Inl e \<Rightarrow> (Some (RuntimeRecordError ''assignment journal'' e), s)
           | Inr (header, walRecord) \<Rightarrow>
               let r = je_Record (wr_Entry walRecord) in
               if wr_Version walRecord \<noteq> assignmentJournalVersion
                  \<or> wr_Sequence walRecord \<noteq> inc_uint64 (st_sequence s)
                  \<or> \<not> headerMatchesAttempt header journalEntryKind (messageID_of r) (jr_Identity r)
               then (Some journalCorrupt, s)
               else (case applyJournalEntryLocked (wr_Entry walRecord) s of
                       (Some e, s1) \<Rightarrow> (Some (RuntimeRecordError ''assignment journal'' e), s1)
                     | (None, s1) \<Rightarrow> (None, s1\<lparr>st_sequence := wr_Sequence walRecord\<rparr>))))"

type_synonym captured = "(string, journal_entry) gomap option"

fun replayLoop ::
  "journal_snapshot option \<Rightarrow> wal_item list \<Rightarrow> captured \<Rightarrow> store \<Rightarrow> (go_error + captured) \<times> store" where
  "replayLoop snapshot [] atSnapshot s = (Inr atSnapshot, s)"
| "replayLoop snapshot (item # rest) atSnapshot s =
     (case replayItem item s of
        (Some e, s1) \<Rightarrow> (Inl e, s1)
      | (None, s1) \<Rightarrow>
          let atSnapshot1 =
            (case snapshot of
               Some sn \<Rightarrow> if st_sequence s1 = sn_LastSequence sn then Some (st_entries s1) else atSnapshot
             | None \<Rightarrow> atSnapshot)
          in replayLoop snapshot rest atSnapshot1 s1)"

text \<open>
  The comparison with the snapshot. A map that was never captured is Go's nil map, which
  \<^verbatim>\<open>reflect.DeepEqual\<close> distinguishes from an empty one.
\<close>

definition snapshotMatches :: "journal_snapshot \<Rightarrow> captured \<Rightarrow> bool" where
  "snapshotMatches sn atSnapshot =
     (let captured1 = (if sn_LastSequence sn = 0 then Some [] else atSnapshot)
      in case (snapshotEntriesMap (sn_Entries sn), captured1) of
           (Some m, Some n) \<Rightarrow> gomapEqual m n
         | _ \<Rightarrow> False)"

definition openAndReplayJournal :: "store \<Rightarrow> go_error option \<times> store" where
  "openAndReplayJournal s =
     (case loadJournalSnapshot s of
        Inl e \<Rightarrow> (Some e, s)
      | Inr snapshot \<Rightarrow>
          (case replayLoop snapshot (dk_wal (st_disk s)) None s of
             (Inl e, s1) \<Rightarrow> (Some e, s1)
           | (Inr atSnapshot, s1) \<Rightarrow>
               (case snapshot of
                  None \<Rightarrow> (None, s1)
                | Some sn \<Rightarrow>
                    if sn_LastSequence sn > st_sequence s1 then (Some snapshotCorrupt, s1)
                    else if \<not> snapshotMatches sn atSnapshot then (Some snapshotCorrupt, s1)
                    else (None, s1))))"

section \<open>Spool directories\<close>

definition spoolError :: "string \<Rightarrow> go_error \<Rightarrow> go_error" where
  "spoolError kind reason = RuntimeRecordError kind reason"

fun loadAssignmentSpool ::
  "(spool_path, assignment_payload disk_blob) gomap \<Rightarrow> store \<Rightarrow> go_error option \<times> store" where
  "loadAssignmentSpool [] s = (None, s)"
| "loadAssignmentSpool ((path, raw) # rest) s =
     (if blobSize raw \<le> 0 \<or> blobSize raw > spoolDiskRecordMax
      then (Some (spoolError ''assignment spool'' ErrRuntimeRecordCorrupt), s)
      else case openRuntimeRecord (st_key s) raw assignmentSpoolKind of
        Inl e \<Rightarrow> (Some (spoolError ''assignment spool'' ErrRuntimeRecordCorrupt), s)
      | Inr (header, p) \<Rightarrow>
          if validateAssignmentPayload p \<noteq> None
             \<or> \<not> headerMatchesAttempt header assignmentSpoolKind
                    (ai_AssignmentMessageID (pl_Identity p)) (pl_Identity p)
          then (Some (spoolError ''assignment spool'' ErrRuntimeRecordCorrupt), s)
          else if snd (spoolRecordPath assignmentSpoolKind (ai_AttemptID (pl_Identity p))
                         (ai_AssignmentMessageID (pl_Identity p))) \<noteq> snd path
                  \<or> ai_WorkerID (pl_Identity p) \<noteq> st_workerID s
          then (Some (spoolError ''assignment spool'' ErrRuntimeRecordCorrupt), s)
          else if map_of (st_payloads s) (ai_AttemptID (pl_Identity p)) \<noteq> None
          then (Some (spoolError ''assignment spool'' ErrSpoolRecordConflict), s)
          else (case trackSpoolFileLocked path (blobSize raw) s of
                  (Some e, s1) \<Rightarrow> (Some (spoolError ''assignment spool'' e), s1)
                | (None, s1) \<Rightarrow>
                    loadAssignmentSpool rest
                      (s1\<lparr>st_payloads := AList.update (ai_AttemptID (pl_Identity p)) p (st_payloads s1)\<rparr>)))"

fun loadEventSpool ::
  "(spool_path, event_spool_record disk_blob) gomap \<Rightarrow> store \<Rightarrow> go_error option \<times> store" where
  "loadEventSpool [] s = (None, s)"
| "loadEventSpool ((path, raw) # rest) s =
     (if blobSize raw \<le> 0 \<or> blobSize raw > spoolDiskRecordMax
      then (Some (spoolError ''event spool'' ErrRuntimeRecordCorrupt), s)
      else case openRuntimeRecord (st_key s) raw eventSpoolKind of
        Inl e \<Rightarrow> (Some (spoolError ''event spool'' ErrRuntimeRecordCorrupt), s)
      | Inr (header, r) \<Rightarrow>
          if validateEventSpoolRecord r \<noteq> None
             \<or> \<not> headerMatchesAttempt header eventSpoolKind (ev_ClientEventID r) (ev_Identity r)
          then (Some (spoolError ''event spool'' ErrRuntimeRecordCorrupt), s)
          else if snd (spoolRecordPath eventSpoolKind (ai_AttemptID (ev_Identity r)) (ev_ClientEventID r))
                    \<noteq> snd path
                  \<or> ai_WorkerID (ev_Identity r) \<noteq> st_workerID s
          then (Some (spoolError ''event spool'' ErrRuntimeRecordCorrupt), s)
          else if map_of (st_events s) (ev_ClientEventID r) \<noteq> None
          then (Some (spoolError ''event spool'' ErrSpoolRecordConflict), s)
          else (case trackSpoolFileLocked path (blobSize raw) s of
                  (Some e, s1) \<Rightarrow> (Some (spoolError ''event spool'' e), s1)
                | (None, s1) \<Rightarrow>
                    if map_of (innerSeqs (ai_AttemptID (ev_Identity r)) s1) (ev_ClientEventSeq r) \<noteq> None
                    then (Some (spoolError ''event spool'' ErrEventSequence), s1)
                    else loadEventSpool rest (indexEvent r s1)))"

fun loadResultSpool ::
  "(spool_path, result_spool_record disk_blob) gomap \<Rightarrow> store \<Rightarrow> go_error option \<times> store" where
  "loadResultSpool [] s = (None, s)"
| "loadResultSpool ((path, raw) # rest) s =
     (if blobSize raw \<le> 0 \<or> blobSize raw > spoolDiskRecordMax
      then (Some (spoolError ''result spool'' ErrRuntimeRecordCorrupt), s)
      else case openRuntimeRecord (st_key s) raw resultSpoolKind of
        Inl e \<Rightarrow> (Some (spoolError ''result spool'' ErrRuntimeRecordCorrupt), s)
      | Inr (header, r) \<Rightarrow>
          if validateResultSpoolRecord r \<noteq> None
             \<or> \<not> headerMatchesAttempt header resultSpoolKind (rs_ResultID r) (rs_Identity r)
          then (Some (spoolError ''result spool'' ErrRuntimeRecordCorrupt), s)
          else if snd (spoolRecordPath resultSpoolKind (ai_AttemptID (rs_Identity r)) (rs_ResultID r))
                    \<noteq> snd path
                  \<or> ai_WorkerID (rs_Identity r) \<noteq> st_workerID s
          then (Some (spoolError ''result spool'' ErrRuntimeRecordCorrupt), s)
          else if map_of (st_results s) (ai_AttemptID (rs_Identity r)) \<noteq> None
          then (Some (spoolError ''result spool'' ErrResultAlreadyExists), s)
          else (case trackSpoolFileLocked path (blobSize raw) s of
                  (Some e, s1) \<Rightarrow> (Some (spoolError ''result spool'' e), s1)
                | (None, s1) \<Rightarrow>
                    loadResultSpool rest
                      (s1\<lparr>st_results := AList.update (ai_AttemptID (rs_Identity r)) r (st_results s1)\<rparr>)))"

definition loadSpool :: "store \<Rightarrow> go_error option \<times> store" where
  "loadSpool s =
     (case loadAssignmentSpool (dk_assignments (st_disk s)) s of
        (Some e, s1) \<Rightarrow> (Some e, s1)
      | (None, s1) \<Rightarrow>
          (case loadEventSpool (dk_events (st_disk s)) s1 of
             (Some e, s2) \<Rightarrow> (Some e, s2)
           | (None, s2) \<Rightarrow> loadResultSpool (dk_results (st_disk s)) s2))"

section \<open>Reconciliation\<close>

text \<open>\<^verbatim>\<open>store.entries[messageID]\<close>, the zero entry when there is none.\<close>

definition zeroEntry :: journal_entry where
  "zeroEntry = \<lparr>je_Record = \<lparr>jr_Identity = zeroIdentity, jr_InputDigest = [], jr_SignedContextDigest = [],
     jr_State = AssignmentStateOther [], jr_LastClientEventSeq = 0, jr_AckedClientEventSeq = 0,
     jr_AckedOutOfOrderEventSeqs = [], jr_ResultID = [], jr_FinalClientEventSeq = 0, jr_UpdatedAt = 0\<rparr>,
     je_Deleted = False\<rparr>"

definition entryOf :: "string \<Rightarrow> store \<Rightarrow> journal_entry" where
  "entryOf messageID s = (case map_of (st_entries s) messageID of Some e \<Rightarrow> e | None \<Rightarrow> zeroEntry)"

fun reconcileAssignmentPayloadsLocked ::
  "io \<Rightarrow> (string, assignment_payload) gomap \<Rightarrow> store \<Rightarrow> go_error option \<times> store" where
  "reconcileAssignmentPayloadsLocked io [] s = (None, s)"
| "reconcileAssignmentPayloadsLocked io ((attemptID, p) # rest) s =
     (case map_of (st_attempts s) attemptID of
        None \<Rightarrow> (Some (spoolError ''assignment spool'' ErrAssignmentNotFound), s)
      | Some messageID \<Rightarrow>
          let entry = entryOf messageID s in
          if je_Deleted entry then
            (case removeAssignmentPayloadLocked io p s of
               (Some e, s1) \<Rightarrow> (Some e, s1)
             | (None, s1) \<Rightarrow> reconcileAssignmentPayloadsLocked io rest s1)
          else if jr_Identity (je_Record entry) \<noteq> pl_Identity p
          then (Some (spoolError ''assignment spool'' ErrSpoolRecordConflict), s)
          else reconcileAssignmentPayloadsLocked io rest s)"

fun reconcileSequences ::
  "io \<Rightarrow> journal_record \<Rightarrow> (int, string) gomap \<Rightarrow> store \<Rightarrow> go_error option \<times> store" where
  "reconcileSequences io record [] s = (None, s)"
| "reconcileSequences io record ((sequence, eventID) # rest) s =
     (let r = eventOf eventID s in
      if ev_Identity r \<noteq> jr_Identity record
      then (Some (spoolError ''event spool'' ErrSpoolRecordConflict), s)
      else if eventSequenceACKed record sequence
              \<and> (jr_State record = AssignmentStateResultACKed \<or> jr_State record = AssignmentStateRevoked)
      then (case removeEventLocked io r s of
              (Some e, s1) \<Rightarrow> (Some e, s1)
            | (None, s1) \<Rightarrow> reconcileSequences io record rest s1)
      else reconcileSequences io record rest s)"

fun reconcileEvents ::
  "io \<Rightarrow> (string, (int, string) gomap) gomap \<Rightarrow> store \<Rightarrow> go_error option \<times> store" where
  "reconcileEvents io [] s = (None, s)"
| "reconcileEvents io ((attemptID, bySequence) # rest) s =
     (case assignmentForAttemptLocked attemptID s of
        Inl e \<Rightarrow> (Some (spoolError ''event spool'' e), s)
      | Inr entry \<Rightarrow>
          (case reconcileSequences io (je_Record entry) bySequence s of
             (Some e, s1) \<Rightarrow> (Some e, s1)
           | (None, s1) \<Rightarrow> reconcileEvents io rest s1))"

definition validateEventCoverageLocked :: "journal_record \<Rightarrow> store \<Rightarrow> go_error option" where
  "validateEventCoverageLocked r s =
     (let pending = innerSeqs (attemptID_of r) s in
      if list_all (\<lambda>sequence. sequence \<in> set (jr_AckedOutOfOrderEventSeqs r)
                     \<or> map_of pending sequence \<noteq> None)
           [add64 (jr_AckedClientEventSeq r) 1 .. jr_LastClientEventSeq r]
      then None else Some ErrRuntimeRecordCorrupt)"

definition maxSequence :: "int \<Rightarrow> (int, string) gomap \<Rightarrow> int" where
  "maxSequence start m = fold (\<lambda>(sequence, eventID) acc. if sequence > acc then sequence else acc) m start"

definition reconcileResult :: "io \<Rightarrow> string \<Rightarrow> journal_record \<Rightarrow> store \<Rightarrow> go_error option \<times> store" where
  "reconcileResult io attemptID record s =
     (case jr_State record of
        AssignmentStateStarted \<Rightarrow>
          (case map_of (st_results s) attemptID of
             None \<Rightarrow> (None, s)
           | Some result \<Rightarrow>
               if rs_Identity result \<noteq> jr_Identity record
                  \<or> rs_FinalClientEventSeq result \<noteq> jr_LastClientEventSeq record
               then (Some (spoolError ''result spool'' ErrSpoolRecordConflict), s)
               else appendJournalLocked io
                      (liveEntry (record\<lparr>jr_State := AssignmentStateFinished,
                         jr_ResultID := rs_ResultID result,
                         jr_FinalClientEventSeq := rs_FinalClientEventSeq result,
                         jr_UpdatedAt := nextNow io s\<rparr>)) s)
      | AssignmentStateFinished \<Rightarrow>
          (case map_of (st_results s) attemptID of
             None \<Rightarrow> (Some (spoolError ''result spool'' ErrRuntimeRecordCorrupt), s)
           | Some result \<Rightarrow>
               if rs_Identity result \<noteq> jr_Identity record \<or> rs_ResultID result \<noteq> jr_ResultID record
                  \<or> rs_FinalClientEventSeq result \<noteq> jr_FinalClientEventSeq record
               then (Some (spoolError ''result spool'' ErrRuntimeRecordCorrupt), s)
               else (None, s))
      | AssignmentStateResultACKed \<Rightarrow>
          (case map_of (st_results s) attemptID of
             None \<Rightarrow> (None, s)
           | Some result \<Rightarrow>
               if rs_ResultID result \<noteq> jr_ResultID record \<or> rs_Identity result \<noteq> jr_Identity record
               then (Some (spoolError ''result spool'' ErrSpoolRecordConflict), s)
               else removeResultLocked io result s)
      | AssignmentStateRevoked \<Rightarrow>
          (case map_of (st_results s) attemptID of
             None \<Rightarrow> (None, s)
           | Some result \<Rightarrow>
               if rs_Identity result \<noteq> jr_Identity record \<or> rs_ResultID result \<noteq> jr_ResultID record
                  \<or> rs_FinalClientEventSeq result \<noteq> jr_FinalClientEventSeq record
               then (Some (spoolError ''result spool'' ErrSpoolRecordConflict), s)
               else (None, s))
      | _ \<Rightarrow>
          (case map_of (st_results s) attemptID of
             None \<Rightarrow> (None, s)
           | Some result \<Rightarrow> (Some (spoolError ''result spool'' ErrAssignmentTransition), s)))"

definition reconcileAttempt :: "io \<Rightarrow> string \<Rightarrow> string \<Rightarrow> store \<Rightarrow> go_error option \<times> store" where
  "reconcileAttempt io attemptID messageID s =
     (let entry = entryOf messageID s; record = je_Record entry in
      if je_Deleted entry then (None, s)
      else
        let top = maxSequence (jr_LastClientEventSeq record) (innerSeqs attemptID s);
            advanced =
              (if top > jr_LastClientEventSeq record then
                 (if jr_State record \<noteq> AssignmentStateStarted \<or> jr_ResultID record \<noteq> []
                  then (Some (spoolError ''event spool'' ErrEventSequence), s)
                  else appendJournalLocked io
                         (liveEntry (record\<lparr>jr_LastClientEventSeq := top, jr_UpdatedAt := nextNow io s\<rparr>)) s)
               else (None, s))
        in case advanced of
             (Some e, s1) \<Rightarrow> (Some e, s1)
           | (None, s1) \<Rightarrow>
               let current = je_Record (entryOf messageID s1) in
               (case validateEventCoverageLocked current s1 of
                  Some e \<Rightarrow> (Some (spoolError ''event spool'' e), s1)
                | None \<Rightarrow> reconcileResult io attemptID current s1))"

fun reconcileAttempts :: "io \<Rightarrow> (string, string) gomap \<Rightarrow> store \<Rightarrow> go_error option \<times> store" where
  "reconcileAttempts io [] s = (None, s)"
| "reconcileAttempts io ((attemptID, messageID) # rest) s =
     (case reconcileAttempt io attemptID messageID s of
        (Some e, s1) \<Rightarrow> (Some e, s1)
      | (None, s1) \<Rightarrow> reconcileAttempts io rest s1)"

definition reconcileSpoolAndJournalLocked :: "io \<Rightarrow> store \<Rightarrow> go_error option \<times> store" where
  "reconcileSpoolAndJournalLocked io s =
     (case reconcileAssignmentPayloadsLocked io (st_payloads s) s of
        (Some e, s1) \<Rightarrow> (Some e, s1)
      | (None, s1) \<Rightarrow>
          (case reconcileEvents io (st_eventSeqs s1) s1 of
             (Some e, s2) \<Rightarrow> (Some e, s2)
           | (None, s2) \<Rightarrow> reconcileAttempts io (st_attempts s2) s2))"

section \<open>Opening the store\<close>

definition emptyStore :: "disk \<Rightarrow> bytes \<Rightarrow> string \<Rightarrow> store" where
  "emptyStore d key workerID =
     \<lparr>st_disk = d, st_key = key, st_workerID = workerID,
      st_identity = \<lparr>ri_WorkerID = [], ri_RuntimeSessionID = [], ri_SessionEpoch = 0\<rparr>,
      st_sequence = 0, st_entries = [], st_attempts = [], st_events = [], st_eventSeqs = [],
      st_results = [], st_payloads = [], st_spoolSizes = [], st_spoolBytes = 0, st_spoolRecords = 0,
      st_spoolMaxBytes = runtimeSpoolMaximumBytes, st_spoolMaxRecords = runtimeSpoolMaximumRecords,
      st_spoolReserveBytes = runtimeSpoolControlReserveBytes, st_closed = False, st_poisoned = None\<rparr>"

text \<open>
  \<^verbatim>\<open>openFileRuntimeStore\<close> after the directory lock is taken. An error gives back the data
  directory as the call leaves it.
\<close>

definition openFileRuntimeStore ::
  "open_io \<Rightarrow> bool \<Rightarrow> bool \<Rightarrow> disk \<Rightarrow> (go_error \<times> disk) + store" where
  "openFileRuntimeStore io fresh startSession d =
     (if \<not> startSession \<and> (dk_identity d = None \<or> dk_spoolKey d = None)
      then Inl (ErrRuntimeIdentityMissing, d)
      else let exist = runtimeDurableRecordsExist fresh d in
        case loadRuntimeIdentity io exist d of
          (Inl e, d1) \<Rightarrow> Inl (e, d1)
        | (Inr identity, d1) \<Rightarrow>
          (case loadOrCreateRuntimeSpoolKey io exist d1 of
             (Inl e, d2) \<Rightarrow> Inl (e, d2)
           | (Inr key, d2) \<Rightarrow>
             (case openAndReplayJournal (emptyStore d2 key (id_WorkerID identity)) of
                (Some e, s1) \<Rightarrow> Inl (e, st_disk s1)
              | (None, s1) \<Rightarrow>
                (case loadSpool s1 of
                   (Some e, s2) \<Rightarrow> Inl (e, st_disk s2)
                 | (None, s2) \<Rightarrow>
                   (case reconcileSpoolAndJournalLocked (oi_store io) s2 of
                      (Some e, s3) \<Rightarrow> Inl (e, st_disk s3)
                    | (None, s3) \<Rightarrow>
                      (case (if startSession then startRuntimeSession io identity (st_disk s3)
                             else (Inr \<lparr>ri_WorkerID = id_WorkerID identity, ri_RuntimeSessionID = [],
                                        ri_SessionEpoch = id_SessionEpoch identity\<rparr>, st_disk s3)) of
                         (Inl e, d4) \<Rightarrow> Inl (e, d4)
                       | (Inr session, d4) \<Rightarrow>
                         (case writeJournalSnapshotLocked (oi_store io)
                                 (s3\<lparr>st_disk := d4, st_identity := session\<rparr>) of
                            (Some e, s5) \<Rightarrow>
                              Inl (WrapError e ''persist assignment journal snapshot'', st_disk s5)
                          | (None, s5) \<Rightarrow> Inr s5)))))))"

end
