(* ===== verification/Store_Journal.thy ===== *)
theory Store_Journal
  imports Store_Recovery
begin

text \<open>
  The journal half of the store's invariant: what every entry of the journal satisfies, that
  \<^verbatim>\<open>appendJournalLocked\<close> commits an entry completely or poisons the store, and that the
  write-ahead log on disk replays to the journal in memory.
\<close>

section \<open>What the environment guarantees\<close>

text \<open>
  The wall clock never reads Go's zero time, sealing a journal record succeeds within the
  frame limit, and seeking in the open journal file succeeds. Every write, fsync, rename,
  remove and hook may fail.
\<close>

definition env_ok :: "io \<Rightarrow> bool" where
  "env_ok io \<longleftrightarrow>
     (\<forall>n. io_jnow io n \<noteq> 0) \<and> io_now io \<noteq> 0
     \<and> (\<forall>n. \<exists>k. io_jseal io n = SealLength k \<and> 0 < k \<and> k \<le> assignmentJournalFrameMax)
     \<and> (\<forall>n e. io_wal io n \<noteq> WalSeekFails e)"

lemma env_ok_jnow [simp]: "env_ok io \<Longrightarrow> io_jnow io n \<noteq> 0"
  by (simp add: env_ok_def)

section \<open>The journal invariant\<close>

definition entry_ok :: "string \<Rightarrow> journal_entry \<Rightarrow> bool" where
  "entry_ok workerID e \<longleftrightarrow>
     identity_validate (jr_Identity (je_Record e)) = None
     \<and> ai_WorkerID (jr_Identity (je_Record e)) = workerID
     \<and> validSHA256Digest (jr_InputDigest (je_Record e))
     \<and> validSHA256Digest (jr_SignedContextDigest (je_Record e))
     \<and> jr_wf (je_Record e)
     \<and> (je_Deleted e \<longrightarrow> isAssignmentTerminal (jr_State (je_Record e)))"

definition journal_inv :: "store \<Rightarrow> bool" where
  "journal_inv s \<longleftrightarrow>
     gomap_ok (st_entries s) \<and> gomap_ok (st_attempts s)
     \<and> (\<forall>m e. map_of (st_entries s) m = Some e \<longrightarrow>
          messageID_of (je_Record e) = m \<and> entry_ok (st_workerID s) e
          \<and> map_of (st_attempts s) (attemptID_of (je_Record e)) = Some m)
     \<and> (\<forall>a m. map_of (st_attempts s) a = Some m \<longrightarrow>
          (\<exists>e. map_of (st_entries s) m = Some e \<and> attemptID_of (je_Record e) = a))"

lemma journal_inv_entry:
  assumes "journal_inv s" and "map_of (st_entries s) m = Some e"
  shows "messageID_of (je_Record e) = m" and "entry_ok (st_workerID s) e"
    and "map_of (st_attempts s) (attemptID_of (je_Record e)) = Some m"
  using assms by (auto simp: journal_inv_def)

lemma journal_inv_attempt:
  assumes "journal_inv s" and "map_of (st_attempts s) a = Some m"
  obtains e where "map_of (st_entries s) m = Some e" "attemptID_of (je_Record e) = a"
  using assms unfolding journal_inv_def by blast

lemma journal_invI:
  assumes "gomap_ok (st_entries s)" and "gomap_ok (st_attempts s)"
    and "\<And>m e. map_of (st_entries s) m = Some e \<Longrightarrow>
      messageID_of (je_Record e) = m \<and> entry_ok (st_workerID s) e
      \<and> map_of (st_attempts s) (attemptID_of (je_Record e)) = Some m"
    and "\<And>a m. map_of (st_attempts s) a = Some m \<Longrightarrow>
      \<exists>e. map_of (st_entries s) m = Some e \<and> attemptID_of (je_Record e) = a"
  shows "journal_inv s"
  using assms by (simp add: journal_inv_def)

lemma assignmentForAttempt_live:
  "assignmentForAttemptLocked a s = Inr e \<Longrightarrow> \<not> je_Deleted e"
  by (auto simp: assignmentForAttemptLocked_def split: option.splits if_splits)

lemma assignmentForAttempt_entry:
  assumes "journal_inv s" and "assignmentForAttemptLocked a s = Inr e"
  shows "map_of (st_entries s) (messageID_of (je_Record e)) = Some e"
    and "attemptID_of (je_Record e) = a" and "jr_wf (je_Record e)" and "entry_ok (st_workerID s) e"
proof -
  from assms(2) obtain m where m: "map_of (st_attempts s) a = Some m" "map_of (st_entries s) m = Some e"
    by (auto simp: assignmentForAttemptLocked_def split: option.splits if_splits)
  note e = journal_inv_entry [OF assms(1) m(2)]
  show "map_of (st_entries s) (messageID_of (je_Record e)) = Some e" using e m by simp
  show "entry_ok (st_workerID s) e" by (rule e)
  then show "jr_wf (je_Record e)" by (simp add: entry_ok_def)
  from journal_inv_attempt [OF assms(1) m(1)] m(2) show "attemptID_of (je_Record e) = a" by force
qed

lemma assignmentForAttempt_of_entry:
  assumes "journal_inv s" and "map_of (st_entries s) m = Some e" and "\<not> je_Deleted e"
  shows "assignmentForAttemptLocked (attemptID_of (je_Record e)) s = Inr e"
  using journal_inv_entry [OF assms(1,2)] assms(2,3) by (simp add: assignmentForAttemptLocked_def)

text \<open>Two entries never share an attempt.\<close>

lemma attempt_unique:
  assumes "journal_inv s" "map_of (st_entries s) m = Some e" "map_of (st_entries s) m' = Some e'"
    and "attemptID_of (je_Record e) = attemptID_of (je_Record e')"
  shows "m = m' \<and> e = e'"
  using journal_inv_entry(3) [OF assms(1,2)] journal_inv_entry(3) [OF assms(1,3)] assms by simp

section \<open>Accepted entries\<close>

text \<open>The first entry of an assignment, and the update of a live one.\<close>

definition freshEntry :: "journal_entry \<Rightarrow> store \<Rightarrow> bool" where
  "freshEntry e s \<longleftrightarrow>
     map_of (st_entries s) (messageID_of (je_Record e)) = None
     \<and> map_of (st_attempts s) (attemptID_of (je_Record e)) = None
     \<and> \<not> je_Deleted e \<and> jr_UpdatedAt (je_Record e) \<noteq> 0
     \<and> jr_State (je_Record e) = AssignmentStateReceived
     \<and> jr_LastClientEventSeq (je_Record e) = 0 \<and> jr_AckedClientEventSeq (je_Record e) = 0
     \<and> jr_AckedOutOfOrderEventSeqs (je_Record e) = [] \<and> jr_ResultID (je_Record e) = []
     \<and> jr_FinalClientEventSeq (je_Record e) = 0
     \<and> entry_ok (st_workerID s) e"

definition nextRecord :: "journal_record \<Rightarrow> journal_record \<Rightarrow> bool" where
  "nextRecord p n \<longleftrightarrow>
     jr_Identity n = jr_Identity p \<and> jr_InputDigest n = jr_InputDigest p
     \<and> jr_SignedContextDigest n = jr_SignedContextDigest p
     \<and> (jr_State n = jr_State p \<or> assignment_step (jr_State p) (jr_State n))
     \<and> jr_wf n \<and> jr_UpdatedAt n \<noteq> 0
     \<and> jr_LastClientEventSeq p \<le> jr_LastClientEventSeq n
     \<and> jr_AckedClientEventSeq p \<le> jr_AckedClientEventSeq n
     \<and> (\<forall>x \<in> set (jr_AckedOutOfOrderEventSeqs p).
          x \<le> jr_AckedClientEventSeq n \<or> x \<in> set (jr_AckedOutOfOrderEventSeqs n))
     \<and> (jr_ResultID p \<noteq> [] \<longrightarrow>
          jr_ResultID n = jr_ResultID p \<and> jr_FinalClientEventSeq n = jr_FinalClientEventSeq p)"

definition nextEntry :: "journal_entry \<Rightarrow> store \<Rightarrow> bool" where
  "nextEntry e s \<longleftrightarrow>
     (\<exists>p. map_of (st_entries s) (messageID_of (je_Record e)) = Some p \<and> \<not> je_Deleted p
        \<and> nextRecord (je_Record p) (je_Record e)
        \<and> (je_Deleted e \<longrightarrow> isAssignmentTerminal (jr_State (je_Record p))
              \<and> jr_State (je_Record e) = jr_State (je_Record p)))"

definition applied :: "journal_entry \<Rightarrow> store \<Rightarrow> store" where
  "applied e s =
     s\<lparr>st_entries := AList.update (messageID_of (je_Record e)) e (st_entries s),
       st_attempts := (if map_of (st_entries s) (messageID_of (je_Record e)) = None
                       then AList.update (attemptID_of (je_Record e)) (messageID_of (je_Record e)) (st_attempts s)
                       else st_attempts s)\<rparr>"

lemma apply_fresh:
  "freshEntry e s \<Longrightarrow> applyJournalEntryLocked e s = (None, applied e s)"
  by (simp add: applyJournalEntryLocked_def freshEntry_def entry_ok_def applied_def putEntry_def
      isZeroTime_def Let_def)

lemma apply_next:
  assumes "journal_inv s" and "nextEntry e s"
  shows "applyJournalEntryLocked e s = (None, applied e s)"
proof -
  from assms(2) obtain p where p: "map_of (st_entries s) (messageID_of (je_Record e)) = Some p"
    "\<not> je_Deleted p" "nextRecord (je_Record p) (je_Record e)"
    "je_Deleted e \<Longrightarrow> isAssignmentTerminal (jr_State (je_Record p))"
    by (auto simp: nextEntry_def)
  have ok: "entry_ok (st_workerID s) p" by (rule journal_inv_entry [OF assms(1) p(1)])
  have prog: "validateJournalProgress (je_Record p) (je_Record e) = None"
    by (rule progress_accepts) (use p(3) in \<open>auto simp: nextRecord_def\<close>)
  have step: "(if jr_State (je_Record e) \<noteq> jr_State (je_Record p)
       then validateAssignmentStateTransition (jr_State (je_Record p)) (jr_State (je_Record e))
       else None) = None"
    using p(3) by (auto simp: nextRecord_def transition_iff_step)
  from p(3) have eq: "jr_Identity (je_Record e) = jr_Identity (je_Record p)"
    "jr_InputDigest (je_Record e) = jr_InputDigest (je_Record p)"
    "jr_SignedContextDigest (je_Record e) = jr_SignedContextDigest (je_Record p)"
    by (simp_all add: nextRecord_def)
  show ?thesis
    using ok p step prog eq
    by (auto simp: applyJournalEntryLocked_def Let_def entry_ok_def applied_def putEntry_def)
qed

lemma applied_inv_fresh:
  assumes inv: "journal_inv s" and "freshEntry e s"
  shows "journal_inv (applied e s)"
proof -
  let ?m = "messageID_of (je_Record e)" and ?a = "attemptID_of (je_Record e)"
  from assms(2) have f: "map_of (st_entries s) ?m = None" "map_of (st_attempts s) ?a = None"
    "entry_ok (st_workerID s) e" by (simp_all add: freshEntry_def)
  have sel: "st_entries (applied e s) = AList.update ?m e (st_entries s)"
    "st_attempts (applied e s) = AList.update ?a ?m (st_attempts s)"
    "st_workerID (applied e s) = st_workerID s" using f by (simp_all add: applied_def)
  show ?thesis
  proof (rule journal_invI, unfold sel)
    fix m x assume "map_of (AList.update ?m e (st_entries s)) m = Some x"
    then consider "m = ?m" "x = e" | "m \<noteq> ?m" "map_of (st_entries s) m = Some x"
      by (auto split: if_splits)
    then show "messageID_of (je_Record x) = m \<and> entry_ok (st_workerID s) x
        \<and> map_of (AList.update ?a ?m (st_attempts s)) (attemptID_of (je_Record x)) = Some m"
      using f journal_inv_entry [OF inv, of m x] by cases auto
  next
    fix a m assume "map_of (AList.update ?a ?m (st_attempts s)) a = Some m"
    then consider "a = ?a" "m = ?m" | "map_of (st_attempts s) a = Some m"
      by (cases "a = ?a") simp_all
    then show "\<exists>x. map_of (AList.update ?m e (st_entries s)) m = Some x \<and> attemptID_of (je_Record x) = a"
    proof cases
      case 2
      from journal_inv_attempt [OF inv this] obtain y
        where "map_of (st_entries s) m = Some y" "attemptID_of (je_Record y) = a" .
      with f(1) show ?thesis by auto
    qed auto
  qed (use inv in \<open>simp_all add: journal_inv_def\<close>)
qed

lemma applied_inv_next:
  assumes inv: "journal_inv s" and "nextEntry e s"
  shows "journal_inv (applied e s)"
proof -
  let ?m = "messageID_of (je_Record e)"
  from assms(2) obtain p where p: "map_of (st_entries s) ?m = Some p"
    "nextRecord (je_Record p) (je_Record e)"
    "je_Deleted e \<Longrightarrow> isAssignmentTerminal (jr_State (je_Record e))"
    by (auto simp: nextEntry_def)
  note old = journal_inv_entry [OF inv p(1)]
  from p old(2) have e: "entry_ok (st_workerID s) e" "jr_Identity (je_Record e) = jr_Identity (je_Record p)"
    by (auto simp: entry_ok_def nextRecord_def)
  have sel: "st_entries (applied e s) = AList.update ?m e (st_entries s)"
    "st_attempts (applied e s) = st_attempts s"
    "st_workerID (applied e s) = st_workerID s" using p by (simp_all add: applied_def)
  show ?thesis
  proof (rule journal_invI, unfold sel)
    fix m x assume "map_of (AList.update ?m e (st_entries s)) m = Some x"
    then consider "m = ?m" "x = e" | "m \<noteq> ?m" "map_of (st_entries s) m = Some x"
      by (auto split: if_splits)
    then show "messageID_of (je_Record x) = m \<and> entry_ok (st_workerID s) x
        \<and> map_of (st_attempts s) (attemptID_of (je_Record x)) = Some m"
      using e old journal_inv_entry [OF inv] by cases auto
  next
    fix a m assume "map_of (st_attempts s) a = Some m"
    from journal_inv_attempt [OF inv this] obtain y
      where "map_of (st_entries s) m = Some y" "attemptID_of (je_Record y) = a" .
    with p(1) e(2) show "\<exists>x. map_of (AList.update ?m e (st_entries s)) m = Some x \<and> attemptID_of (je_Record x) = a"
      by (cases "m = ?m") auto
  qed (use inv in \<open>simp_all add: journal_inv_def\<close>)
qed

definition acceptable :: "journal_entry \<Rightarrow> store \<Rightarrow> bool" where
  "acceptable e s \<longleftrightarrow> freshEntry e s \<or> nextEntry e s"

lemma acceptable_apply:
  "journal_inv s \<Longrightarrow> acceptable e s \<Longrightarrow> applyJournalEntryLocked e s = (None, applied e s)"
  by (auto simp: acceptable_def apply_fresh apply_next)

lemma acceptable_inv:
  "journal_inv s \<Longrightarrow> acceptable e s \<Longrightarrow> journal_inv (applied e s)"
  by (auto simp: acceptable_def applied_inv_fresh applied_inv_next)

section \<open>Replay depends on the journal only\<close>

definition same_journal :: "store \<Rightarrow> store \<Rightarrow> bool" where
  "same_journal s t \<longleftrightarrow>
     st_key s = st_key t \<and> st_workerID s = st_workerID t \<and> st_sequence s = st_sequence t
     \<and> st_entries s = st_entries t \<and> st_attempts s = st_attempts t"

definition withJournal :: "store \<Rightarrow> store \<Rightarrow> store" where
  "withJournal s t =
     t\<lparr>st_entries := st_entries s, st_attempts := st_attempts s, st_sequence := st_sequence s\<rparr>"

lemma same_journal_refl [simp, intro]: "same_journal s s"
  by (simp add: same_journal_def)

lemma same_journal_sym: "same_journal s t \<Longrightarrow> same_journal t s"
  by (simp add: same_journal_def)

lemma same_journal_trans: "same_journal s t \<Longrightarrow> same_journal t u \<Longrightarrow> same_journal s u"
  by (simp add: same_journal_def)

lemma withJournal_sel [simp]:
  "st_entries (withJournal s t) = st_entries s" "st_attempts (withJournal s t) = st_attempts s"
  "st_sequence (withJournal s t) = st_sequence s" "st_key (withJournal s t) = st_key t"
  "st_workerID (withJournal s t) = st_workerID t" "st_disk (withJournal s t) = st_disk t"
  "st_events (withJournal s t) = st_events t" "st_eventSeqs (withJournal s t) = st_eventSeqs t"
  "st_results (withJournal s t) = st_results t" "st_payloads (withJournal s t) = st_payloads t"
  "st_closed (withJournal s t) = st_closed t" "st_poisoned (withJournal s t) = st_poisoned t"
  by (simp_all add: withJournal_def)

lemma withJournal_same [simp]:
  "same_journal s t \<Longrightarrow> withJournal s t = t"
  "withJournal (withJournal s u) t = withJournal s t"
  "withJournal s (withJournal u t) = withJournal s t"
  "(withJournal s t)\<lparr>st_sequence := q\<rparr> = withJournal (s\<lparr>st_sequence := q\<rparr>) t"
  by (simp_all add: withJournal_def same_journal_def)

lemma apply_shape:
  "applyJournalEntryLocked e s = (None, applied e s) \<or> (\<exists>x. applyJournalEntryLocked e s = (Some x, s))"
proof (cases "map_of (st_entries s) (messageID_of (je_Record e))")
  case None
  then show ?thesis
    by (cases "identity_validate (jr_Identity (je_Record e))";
        cases "map_of (st_attempts s) (attemptID_of (je_Record e))")
       (simp_all add: applyJournalEntryLocked_def Let_def applied_def putEntry_def)
next
  case (Some p)
  let ?t = "if jr_State (je_Record e) \<noteq> jr_State (je_Record p)
    then validateAssignmentStateTransition (jr_State (je_Record p)) (jr_State (je_Record e)) else None"
  have ap: "applied e s = putEntry e s" using Some by (simp add: applied_def putEntry_def)
  show ?thesis
    unfolding ap
    by (cases "identity_validate (jr_Identity (je_Record e))"; cases ?t;
        cases "validateJournalProgress (je_Record p) (je_Record e)")
       (simp_all only: applyJournalEntryLocked_def Let_def Some option.case if_split
          prod.inject simp_thms option.inject option.distinct ex_simps split: if_split)
qed

lemma apply_decision:
  assumes "same_journal s t"
  shows "fst (applyJournalEntryLocked e t) = fst (applyJournalEntryLocked e s)"
proof -
  have eq: "st_workerID t = st_workerID s" "st_entries t = st_entries s" "st_attempts t = st_attempts s"
    using assms by (simp_all add: same_journal_def)
  show ?thesis
    by (simp only: applyJournalEntryLocked_def Let_def eq option.case_distrib [of fst] if_distrib [of fst]
        fst_conv)
qed

lemma apply_same_journal:
  assumes "same_journal s t"
  shows "applyJournalEntryLocked e t =
    (fst (applyJournalEntryLocked e s), withJournal (snd (applyJournalEntryLocked e s)) t)"
proof -
  have "withJournal (applied e s) t = applied e t"
    using assms by (simp add: withJournal_def applied_def same_journal_def)
  with apply_shape [of e s] apply_shape [of e t] apply_decision [OF assms, of e] assms
  show ?thesis by auto
qed

lemma apply_frame:
  "st_key (snd (applyJournalEntryLocked e s)) = st_key s"
  "st_workerID (snd (applyJournalEntryLocked e s)) = st_workerID s"
  "st_sequence (snd (applyJournalEntryLocked e s)) = st_sequence s"
  using apply_shape [of e s] by (auto simp: applied_def)

section \<open>Replaying a log\<close>

fun replayAll :: "wal_item list \<Rightarrow> store \<Rightarrow> store option" where
  "replayAll [] s = Some s"
| "replayAll (item # rest) s =
     (case replayItem item s of (Some e, s1) \<Rightarrow> None | (None, s1) \<Rightarrow> replayAll rest s1)"

lemma replayAll_append:
  "replayAll (xs @ ys) s = (case replayAll xs s of None \<Rightarrow> None | Some s1 \<Rightarrow> replayAll ys s1)"
  by (induction xs arbitrary: s) (auto split: prod.splits option.splits)

lemma replayLoop_replayAll:
  "(\<exists>captured. replayLoop sn items c s = (Inr captured, s1)) \<longleftrightarrow> replayAll items s = Some s1"
  by (induction items arbitrary: c s) (auto simp: Let_def split: prod.splits option.splits)

lemma replayItem_same_journal:
  assumes "same_journal s t"
  shows "replayItem item t = (fst (replayItem item s), withJournal (snd (replayItem item s)) t)"
proof (cases item)
  case (WalFrame b)
  have eq: "st_key t = st_key s" "st_sequence t = st_sequence s" using assms by (simp_all add: same_journal_def)
  show ?thesis
    using withJournal_same(1) [OF assms] by (auto simp: WalFrame replayItem_def eq Let_def
        apply_same_journal [OF assms] split: sum.split prod.split option.split)
qed (use assms in \<open>simp add: replayItem_def\<close>)

lemma replayItem_frame:
  "st_key (snd (replayItem item s)) = st_key s" "st_workerID (snd (replayItem item s)) = st_workerID s"
  using arg_cong [OF replayItem_same_journal [OF same_journal_refl, of item s], of snd]
  by (metis snd_conv withJournal_sel(4)) (metis snd_conv replayItem_same_journal same_journal_refl withJournal_sel(5))

lemma replayAll_same_journal:
  assumes "same_journal s t" and "replayAll items s = Some s1"
  shows "replayAll items t = Some (withJournal s1 t) \<and> st_key s1 = st_key s \<and> st_workerID s1 = st_workerID s"
  using assms
proof (induction items arbitrary: s t)
  case (Cons item rest)
  obtain u where u: "replayItem item s = (None, u)" "replayAll rest u = Some s1"
    using Cons.prems(2) by (auto split: prod.splits option.splits)
  have t: "replayItem item t = (None, withJournal u t)"
    using replayItem_same_journal [OF Cons.prems(1), of item] u(1) by simp
  have fr: "st_key u = st_key s" "st_workerID u = st_workerID s"
    using replayItem_frame [of item s] u(1) by simp_all
  then have "same_journal u (withJournal u t)"
    using Cons.prems(1) by (simp add: same_journal_def)
  from Cons.IH [OF this u(2)] t fr show ?case by simp
qed simp

section \<open>Committing an entry\<close>

definition frameOf :: "journal_entry \<Rightarrow> store \<Rightarrow> int \<Rightarrow> wal_item" where
  "frameOf e s n =
     WalFrame (Sealed (st_key s)
       (headerForAttempt journalEntryKind (messageID_of (je_Record e)) (jr_Identity (je_Record e)))
       \<lparr>wr_Version = assignmentJournalVersion, wr_Sequence = inc_uint64 (st_sequence s), wr_Entry = e\<rparr> n)"

definition sequenced :: "journal_entry \<Rightarrow> store \<Rightarrow> store" where
  "sequenced e s = (applied e s)\<lparr>st_sequence := inc_uint64 (st_sequence s)\<rparr>"

definition snapshotBlob :: "store \<Rightarrow> int \<Rightarrow> journal_snapshot disk_blob" where
  "snapshotBlob s n = Sealed (st_key s) (snapshotHeader (st_workerID s) (st_sequence s)) (journalSnapshotOf s) n"

definition commit :: "journal_entry \<Rightarrow> int \<Rightarrow> journal_snapshot disk_blob option \<Rightarrow> store \<Rightarrow> store" where
  "commit e n snap s =
     (sequenced e s)\<lparr>st_disk := (st_disk s)\<lparr>dk_wal := dk_wal (st_disk s) @ [frameOf e s n],
                                            dk_snapshot := snap\<rparr>\<rparr>"

lemma seal_ok:
  "length key = runtimeSpoolKeyBytes \<Longrightarrow> hd_Version header = runtimeCryptoVersion \<Longrightarrow>
     sealRuntimeRecord key header body (SealLength n) = Inr (Sealed key header body n)"
  by (simp add: sealRuntimeRecord_def)

lemma headerForAttempt_version [simp]: "hd_Version (headerForAttempt k m i) = runtimeCryptoVersion"
  by (simp add: headerForAttempt_def)

lemma headerForAttempt_kind [simp]: "hd_Kind (headerForAttempt k m i) = k"
  by (simp add: headerForAttempt_def)

lemma writeJournalSnapshot_result:
  assumes "length (st_key s) = runtimeSpoolKeyBytes"
  obtains snap where
    "snd (writeJournalSnapshotLocked io s) = s\<lparr>st_disk := (st_disk s)\<lparr>dk_snapshot := snap\<rparr>\<rparr>"
    "snap = dk_snapshot (st_disk s) \<or>
       (\<exists>n. io_snapSeal io (st_sequence s) = SealLength n \<and> snap = Some (snapshotBlob s n))"
proof (cases "io_snapSeal io (st_sequence s)")
  case (SealFails e)
  then have "snd (writeJournalSnapshotLocked io s) =
      s\<lparr>st_disk := (st_disk s)\<lparr>dk_snapshot := dk_snapshot (st_disk s)\<rparr>\<rparr>"
    using assms by (simp add: writeJournalSnapshotLocked_def sealRuntimeRecord_def)
  then show ?thesis using that by blast
next
  case (SealLength n)
  have "snd (writeJournalSnapshotLocked io s) =
      s\<lparr>st_disk := (st_disk s)\<lparr>dk_snapshot :=
         (if io_snapWrite io (st_sequence s) = WriteOk \<or> (\<exists>e. io_snapWrite io (st_sequence s) = WriteFails e True)
          then Some (snapshotBlob s n) else dk_snapshot (st_disk s))\<rparr>\<rparr>"
    using assms by (simp add: writeJournalSnapshotLocked_def SealLength seal_ok snapshotHeader_def
        snapshotBlob_def split: write_outcome.split)
  then show ?thesis using that SealLength by (auto split: if_splits)
qed

lemma appendJournal_cases:
  assumes "readyLocked s = None" and "length (st_key s) = runtimeSpoolKeyBytes" and "env_ok io"
    and "journal_inv s" and "acceptable e s"
  obtains (commit) n snap where
    "appendJournalLocked io e s = (None, commit e n snap s)"
    "0 < n" "n \<le> assignmentJournalFrameMax"
    "snap = dk_snapshot (st_disk s) \<or>
       (\<exists>k. io_snapSeal io (inc_uint64 (st_sequence s)) = SealLength k
            \<and> snap = Some (snapshotBlob (sequenced e s) k))"
  | (fault) x items n where
    "appendJournalLocked io e s = (Some x, poison x (appendWal items s))"
    "items = [] \<or> items = [WalTorn] \<or> items = [frameOf e s n]"
    "0 < n" "n \<le> assignmentJournalFrameMax"
proof -
  let ?q = "inc_uint64 (st_sequence s)"
  obtain n where n: "io_jseal io ?q = SealLength n" "0 < n" "n \<le> assignmentJournalFrameMax"
    using assms(3) unfolding env_ok_def by blast
  have blob: "WalFrame (Sealed (st_key s)
       (headerForAttempt journalEntryKind (messageID_of (je_Record e)) (jr_Identity (je_Record e)))
       \<lparr>wr_Version = assignmentJournalVersion, wr_Sequence = ?q, wr_Entry = e\<rparr> n) = frameOf e s n"
    by (simp add: frameOf_def)
  let ?w = "appendWal [frameOf e s n] s"
  have same: "same_journal s ?w" by (simp add: same_journal_def appendWal_def)
  have ap: "applyJournalEntryLocked e ?w = (None, withJournal (applied e s) ?w)"
    using apply_same_journal [OF same, of e] acceptable_apply [OF assms(4,5)] by simp
  let ?c = "(withJournal (applied e s) ?w)\<lparr>st_sequence := ?q\<rparr>"
  have c: "?c = commit e n (dk_snapshot (st_disk s)) s"
    by (simp add: commit_def sequenced_def applied_def withJournal_def appendWal_def)
  have key: "length (st_key ?c) = runtimeSpoolKeyBytes" using assms(2) by (simp add: appendWal_def)
  from writeJournalSnapshot_result [OF key, of io] obtain snap where
    snap: "snd (writeJournalSnapshotLocked io ?c) = ?c\<lparr>st_disk := (st_disk ?c)\<lparr>dk_snapshot := snap\<rparr>\<rparr>"
      "snap = dk_snapshot (st_disk ?c) \<or> (\<exists>k. io_snapSeal io (st_sequence ?c) = SealLength k
          \<and> snap = Some (snapshotBlob ?c k))" by blast
  have blob2: "snapshotBlob ?c k = snapshotBlob (sequenced e s) k" for k
    by (simp add: snapshotBlob_def journalSnapshotOf_def sequenced_def applied_def appendWal_def)
  have final: "snd (writeJournalSnapshotLocked io ?c) = commit e n snap s"
    unfolding snap(1) by (simp add: commit_def sequenced_def applied_def withJournal_def appendWal_def)
  have snap': "snap = dk_snapshot (st_disk s) \<or> (\<exists>k. io_snapSeal io ?q = SealLength k
      \<and> snap = Some (snapshotBlob (sequenced e s) k))"
    using snap(2) unfolding blob2 by (simp add: appendWal_def)
  have eq: "appendJournalLocked io e s =
     (case io_wal io ?q of
             WalSeekFails e \<Rightarrow> (Some e, s)
           | WalHookFails e \<Rightarrow> (Some e, poison e s)
           | WalWriteFails e torn \<Rightarrow>
               (Some e, poison e (appendWal (if torn then [WalTorn] else []) s))
           | WalSyncFails x kept \<Rightarrow>
               (Some x, poison x (appendWal (if kept then [frameOf e s n] else []) s))
           | WalAfterSyncFails x \<Rightarrow> (Some x, poison x ?w)
           | WalOk \<Rightarrow> (None, commit e n snap s))"
    using assms(1,2) n ap final
    by (simp add: appendJournalLocked_def seal_ok blob split: wal_outcome.split)
  show ?thesis
  proof (cases "io_wal io ?q")
    case WalOk then show ?thesis using commit [OF _ n(2,3) snap'] eq by simp
  next
    case (WalSeekFails x) then show ?thesis using assms(3) by (simp add: env_ok_def)
  next
    case (WalHookFails x)
    then show ?thesis using fault [of x "[]", OF _ _ n(2,3)] eq by (simp add: appendWal_def)
  next
    case (WalWriteFails x torn)
    then show ?thesis using fault [of x "if torn then [WalTorn] else []", OF _ _ n(2,3)] eq by simp
  next
    case (WalSyncFails x kept)
    then show ?thesis using fault [of x "if kept then [frameOf e s n] else []", OF _ _ n(2,3)] eq by simp
  next
    case (WalAfterSyncFails x)
    then show ?thesis using fault [of x "[frameOf e s n]", OF _ _ n(2,3)] eq by simp
  qed
qed

lemma commit_sel [simp]:
  "st_key (commit e n snap s) = st_key s" "st_workerID (commit e n snap s) = st_workerID s"
  "st_identity (commit e n snap s) = st_identity s"
  "st_sequence (commit e n snap s) = inc_uint64 (st_sequence s)"
  "st_entries (commit e n snap s) = AList.update (messageID_of (je_Record e)) e (st_entries s)"
  "st_attempts (commit e n snap s) = st_attempts (applied e s)"
  "st_events (commit e n snap s) = st_events s" "st_eventSeqs (commit e n snap s) = st_eventSeqs s"
  "st_results (commit e n snap s) = st_results s" "st_payloads (commit e n snap s) = st_payloads s"
  "st_spoolSizes (commit e n snap s) = st_spoolSizes s"
  "st_spoolBytes (commit e n snap s) = st_spoolBytes s"
  "st_spoolRecords (commit e n snap s) = st_spoolRecords s"
  "st_spoolMaxBytes (commit e n snap s) = st_spoolMaxBytes s"
  "st_spoolMaxRecords (commit e n snap s) = st_spoolMaxRecords s"
  "st_spoolReserveBytes (commit e n snap s) = st_spoolReserveBytes s"
  "st_closed (commit e n snap s) = st_closed s" "st_poisoned (commit e n snap s) = st_poisoned s"
  "dk_wal (st_disk (commit e n snap s)) = dk_wal (st_disk s) @ [frameOf e s n]"
  "dk_snapshot (st_disk (commit e n snap s)) = snap"
  "dk_assignments (st_disk (commit e n snap s)) = dk_assignments (st_disk s)"
  "dk_events (st_disk (commit e n snap s)) = dk_events (st_disk s)"
  "dk_results (st_disk (commit e n snap s)) = dk_results (st_disk s)"
  "dk_identity (st_disk (commit e n snap s)) = dk_identity (st_disk s)"
  "dk_spoolKey (st_disk (commit e n snap s)) = dk_spoolKey (st_disk s)"
  by (simp_all add: commit_def sequenced_def applied_def)

lemma readyLocked_commit [simp]: "readyLocked (commit e n snap s) = readyLocked s"
  by (simp add: readyLocked_def)

lemma journal_inv_commit:
  assumes "journal_inv s" and "acceptable e s"
  shows "journal_inv (commit e n snap s)"
  using acceptable_inv [OF assms] by (simp add: journal_inv_def commit_def sequenced_def)

section \<open>The log refines the journal\<close>

definition emptyDisk :: disk where
  "emptyDisk = \<lparr>dk_identity = None, dk_spoolKey = None, dk_wal = [], dk_snapshot = None,
     dk_assignments = [], dk_events = [], dk_results = []\<rparr>"

abbreviation blankStore :: "bytes \<Rightarrow> string \<Rightarrow> store" where
  "blankStore \<equiv> emptyStore emptyDisk"

text \<open>\<open>log_refines items s\<close>: replaying \<open>items\<close> from nothing gives the journal of \<open>s\<close>.\<close>

definition log_refines :: "wal_item list \<Rightarrow> store \<Rightarrow> bool" where
  "log_refines items s \<longleftrightarrow>
     (\<exists>t. replayAll items (blankStore (st_key s) (st_workerID s)) = Some t \<and> same_journal t s)"

definition wal_inv :: "store \<Rightarrow> bool" where
  "wal_inv s \<longleftrightarrow> log_refines (dk_wal (st_disk s)) s"

lemma log_refines_cong: "same_journal s t \<Longrightarrow> log_refines items s \<longleftrightarrow> log_refines items t"
  by (auto simp: log_refines_def same_journal_def)

lemma replayItem_frameOf:
  assumes "journal_inv s" and "acceptable e s" and "0 < n" "n \<le> assignmentJournalFrameMax"
    and "same_journal s t"
  shows "replayItem (frameOf e s n) t = (None, withJournal (sequenced e s) t)"
proof -
  have "replayItem (frameOf e s n) s = (None, sequenced e s)"
    using assms(3,4) acceptable_apply [OF assms(1,2)]
    by (simp add: replayItem_def frameOf_def openRuntimeRecord_def headerMatchesAttempt_def
        sequenced_def Let_def)
  with replayItem_same_journal [OF assms(5), of "frameOf e s n"] show ?thesis by simp
qed

lemma log_refines_frame:
  assumes "journal_inv s" and "acceptable e s" and "0 < n" "n \<le> assignmentJournalFrameMax"
    and "log_refines items s"
  shows "log_refines (items @ [frameOf e s n]) (sequenced e s)"
proof -
  from assms(5) obtain t where t: "replayAll items (blankStore (st_key s) (st_workerID s)) = Some t"
    "same_journal t s" by (auto simp: log_refines_def)
  have "same_journal s t" by (rule same_journal_sym [OF t(2)])
  from replayItem_frameOf [OF assms(1-4) this] t show ?thesis
    by (auto simp: log_refines_def replayAll_append sequenced_def applied_def same_journal_def)
qed

lemma same_journal_commit: "same_journal (sequenced e s) (commit e n snap s)"
  by (simp add: same_journal_def commit_def)

lemma wal_inv_commit:
  assumes "journal_inv s" and "acceptable e s" and "0 < n" "n \<le> assignmentJournalFrameMax"
    and "wal_inv s"
  shows "wal_inv (commit e n snap s)"
  using log_refines_frame [OF assms(1-4)] assms(5) log_refines_cong [OF same_journal_commit]
  by (simp add: wal_inv_def)

end
