(* ===== verification/Store_Spool.thy ===== *)
theory Store_Spool
  imports Store_Journal
begin

text \<open>
  The spool half of the store's invariant: file names are injective, the byte and record
  counters are exact and bounded, the event index is a bijection between sequences and
  records, and every file of the data directory is the sealed form of an indexed record.
\<close>

declare split_paired_All [simp del] split_paired_Ex [simp del]

section \<open>File names\<close>

definition eventPath :: "event_spool_record \<Rightarrow> spool_path" where
  "eventPath r = spoolRecordPath eventSpoolKind (ai_AttemptID (ev_Identity r)) (ev_ClientEventID r)"

definition resultPath :: "result_spool_record \<Rightarrow> spool_path" where
  "resultPath r = spoolRecordPath resultSpoolKind (ai_AttemptID (rs_Identity r)) (rs_ResultID r)"

definition payloadPath :: "assignment_payload \<Rightarrow> spool_path" where
  "payloadPath p = spoolRecordPath assignmentSpoolKind (ai_AttemptID (pl_Identity p))
     (ai_AssignmentMessageID (pl_Identity p))"

lemma split_at_separator:
  "c \<notin> set a \<Longrightarrow> c \<notin> set a' \<Longrightarrow> a @ c # b = a' @ c # b' \<longleftrightarrow> a = a' \<and> b = b'"
  by (induction a arbitrary: a') (case_tac a'; auto)+

lemma spoolRecordPath_inj:
  assumes "k \<in> {assignmentSpoolKind, eventSpoolKind, resultSpoolKind}"
    and "k' \<in> {assignmentSpoolKind, eventSpoolKind, resultSpoolKind}"
    and "validRuntimeID a" "validRuntimeID a'"
  shows "spoolRecordPath k a m = spoolRecordPath k' a' m' \<longleftrightarrow> k = k' \<and> a = a' \<and> m = m'"
proof -
  have k: "k = k'" if "spoolRecordPath k a m = spoolRecordPath k' a' m'"
    using that assms(1,2)
    by (auto simp: spoolRecordPath_def Let_def assignmentSpoolKind_def eventSpoolKind_def
        resultSpoolKind_def assignmentSpoolDirectory_def eventSpoolDirectory_def resultSpoolDirectory_def)
  have "CHR 0x00 \<notin> set a" "CHR 0x00 \<notin> set a'" using assms(3,4) by (simp_all add: validRuntimeID_def)
  then show ?thesis
    using k split_at_separator [of "CHR 0x00" a a' m m'] by (auto simp: spoolRecordPath_def Let_def)
qed

lemma spoolRecordPath_dir:
  "fst (spoolRecordPath assignmentSpoolKind a m) = assignmentSpoolDirectory"
  "fst (spoolRecordPath eventSpoolKind a m) = eventSpoolDirectory"
  "fst (spoolRecordPath resultSpoolKind a m) = resultSpoolDirectory"
  by (simp_all add: spoolRecordPath_def Let_def assignmentSpoolKind_def eventSpoolKind_def
      resultSpoolKind_def)

lemma directories_distinct [simp]:
  "assignmentSpoolDirectory \<noteq> eventSpoolDirectory" "eventSpoolDirectory \<noteq> assignmentSpoolDirectory"
  "assignmentSpoolDirectory \<noteq> resultSpoolDirectory" "resultSpoolDirectory \<noteq> assignmentSpoolDirectory"
  "eventSpoolDirectory \<noteq> resultSpoolDirectory" "resultSpoolDirectory \<noteq> eventSpoolDirectory"
  by (simp_all add: assignmentSpoolDirectory_def eventSpoolDirectory_def resultSpoolDirectory_def)

lemma path_dirs [simp]:
  "fst (eventPath r) = eventSpoolDirectory" "fst (resultPath q) = resultSpoolDirectory"
  "fst (payloadPath p) = assignmentSpoolDirectory"
  by (simp_all add: eventPath_def resultPath_def payloadPath_def spoolRecordPath_dir)

section \<open>Accounting\<close>

definition limits_ok :: "store \<Rightarrow> bool" where
  "limits_ok s \<longleftrightarrow>
     0 \<le> st_spoolReserveBytes s \<and> st_spoolReserveBytes s < st_spoolMaxBytes s
     \<and> 100 * st_spoolMaxBytes s \<le> maxInt64
     \<and> 0 < st_spoolMaxRecords s \<and> 100 * st_spoolMaxRecords s \<le> maxInt64"

definition acct_inv :: "store \<Rightarrow> bool" where
  "acct_inv s \<longleftrightarrow>
     limits_ok s \<and> gomap_ok (st_spoolSizes s)
     \<and> (\<forall>p n. map_of (st_spoolSizes s) p = Some n \<longrightarrow> 0 < n \<and> n \<le> spoolDiskRecordMax)
     \<and> st_spoolBytes s = gosum (st_spoolSizes s)
     \<and> st_spoolRecords s = int (length (st_spoolSizes s))
     \<and> st_spoolBytes s \<le> st_spoolMaxBytes s - st_spoolReserveBytes s
     \<and> st_spoolRecords s \<le> st_spoolMaxRecords s"

lemma acct_inv_nonneg:
  assumes "acct_inv s"
  shows "0 \<le> st_spoolBytes s" and "0 \<le> st_spoolRecords s"
proof -
  have "0 \<le> v" if "v \<in> snd ` set (st_spoolSizes s)" for v
    using that assms gomap_values [of "st_spoolSizes s" v] by (fastforce simp: acct_inv_def)
  then show "0 \<le> st_spoolBytes s" using assms gosum_nonneg by (auto simp: acct_inv_def)
  show "0 \<le> st_spoolRecords s" using assms by (simp add: acct_inv_def)
qed

definition tracked :: "spool_path \<Rightarrow> int \<Rightarrow> store \<Rightarrow> store" where
  "tracked path n s =
     s\<lparr>st_spoolSizes := AList.update path n (st_spoolSizes s),
       st_spoolBytes := st_spoolBytes s + n, st_spoolRecords := st_spoolRecords s + 1\<rparr>"

definition untracked :: "spool_path \<Rightarrow> store \<Rightarrow> store" where
  "untracked path s =
     (case map_of (st_spoolSizes s) path of
        None \<Rightarrow> s
      | Some n \<Rightarrow> s\<lparr>st_spoolSizes := AList.delete path (st_spoolSizes s),
                    st_spoolBytes := st_spoolBytes s - n, st_spoolRecords := st_spoolRecords s - 1\<rparr>)"

lemma ensureSpoolWrite_track:
  assumes "acct_inv s" and "ensureSpoolWriteLocked io path n s = None"
  shows "trackSpoolFileLocked path n s = (None, tracked path n s)"
    and "acct_inv (tracked path n s)" and "map_of (st_spoolSizes s) path = None"
    and "0 < n" "n \<le> spoolDiskRecordMax"
proof -
  note inv = assms(1) [unfolded acct_inv_def limits_ok_def]
  have n: "0 < n" "n \<le> spoolDiskRecordMax" and fresh: "map_of (st_spoolSizes s) path = None"
    using assms(2) by (auto simp: ensureSpoolWriteLocked_def Let_def split: if_splits option.splits)
  have b: "0 \<le> st_spoolBytes s" "0 \<le> st_spoolRecords s" using acct_inv_nonneg [OF assms(1)] by auto
  have e1: "add64 (st_spoolBytes s) n = st_spoolBytes s + n"
    by (rule add64_exact, rule int64_small) (use inv b n in \<open>simp_all add: spoolDiskRecordMax_def maxInt64_def\<close>)
  have e2: "add64 (st_spoolRecords s) 1 = st_spoolRecords s + 1"
    by (rule add64_exact, rule int64_small) (use inv b in \<open>simp_all add: maxInt64_def\<close>)
  have e3: "add64 (st_spoolMaxBytes s) (- st_spoolReserveBytes s) = st_spoolMaxBytes s - st_spoolReserveBytes s"
    using add64_exact [of "st_spoolMaxBytes s" "- st_spoolReserveBytes s"] inv
    by (simp add: int64_def maxInt64_def minInt64_def)
  show "trackSpoolFileLocked path n s = (None, tracked path n s)"
    using n fresh e1 e2 by (simp add: trackSpoolFileLocked_def tracked_def)
  have "st_spoolBytes s + n \<le> st_spoolMaxBytes s - st_spoolReserveBytes s"
    "st_spoolRecords s + 1 \<le> st_spoolMaxRecords s"
    using assms(2) e1 e2 e3 by (auto simp: ensureSpoolWriteLocked_def Let_def split: if_splits)
  then show "acct_inv (tracked path n s)"
    using inv n fresh
    by (auto simp: acct_inv_def limits_ok_def tracked_def gosum_update_fresh update_fresh
        simp del: map_of_update split: if_splits)
       (simp_all add: gomap_ok_def map_of_eq_None_iff gosum_def)
  show "map_of (st_spoolSizes s) path = None" "0 < n" "n \<le> spoolDiskRecordMax" by (rule fresh n)+
qed

lemma acct_inv_untracked:
  assumes "acct_inv s"
  shows "acct_inv (untracked path s)" and "0 \<le> st_spoolBytes (untracked path s)"
    and "0 \<le> st_spoolRecords (untracked path s)"
proof -
  show inv: "acct_inv (untracked path s)"
  proof (cases "map_of (st_spoolSizes s) path")
    case (Some n)
    have "st_spoolSizes s \<noteq> []" using Some by auto
    then have "int (length (AList.delete path (st_spoolSizes s))) = int (length (st_spoolSizes s)) - 1"
      using assms Some length_delete [of "st_spoolSizes s" path n]
      by (cases "st_spoolSizes s") (auto simp: acct_inv_def)
    moreover have "0 < n" using assms Some by (auto simp: acct_inv_def)
    then have "gosum (st_spoolSizes s) - n \<le> st_spoolMaxBytes s - st_spoolReserveBytes s"
      using assms by (simp add: acct_inv_def)
    ultimately show ?thesis
      using assms Some gosum_delete [of "st_spoolSizes s" path n]
      by (auto simp: acct_inv_def limits_ok_def untracked_def split: if_splits)
  qed (simp add: assms untracked_def)
  show "0 \<le> st_spoolBytes (untracked path s)" "0 \<le> st_spoolRecords (untracked path s)"
    by (rule acct_inv_nonneg [OF inv])+
qed

section \<open>Files of one kind\<close>

text \<open>
  The three spool directories share one contract. \<open>live\<close> is the set of indexed records of
  a kind, \<open>files\<close> the directory on disk, \<open>sizes\<close> the table \<^verbatim>\<open>spoolSizes\<close>.
\<close>

locale spool_kind =
  fixes path :: "'b \<Rightarrow> spool_path"
    and header :: "'b \<Rightarrow> disk_record_header"
    and directory :: string
  assumes path_directory: "fst (path r) = directory"
begin

definition files_ok ::
  "bytes \<Rightarrow> (spool_path, int) gomap \<Rightarrow> 'b set \<Rightarrow> (spool_path, 'b disk_blob) gomap \<Rightarrow> bool" where
  "files_ok key sizes live files \<longleftrightarrow>
     gomap_ok files
     \<and> (\<forall>p b. map_of files p = Some b \<longrightarrow>
          (\<exists>r n. r \<in> live \<and> p = path r \<and> b = Sealed key (header r) r n \<and> map_of sizes p = Some n))
     \<and> (\<forall>r \<in> live. map_of sizes (path r) \<noteq> None)
     \<and> inj_on path live"

lemma files_ok_empty: "files_ok key sizes {} []"
  by (simp add: files_ok_def)

lemma files_write:
  assumes "files_ok key sizes live files" and "map_of sizes (path r) = None"
  shows "files_ok key (AList.update (path r) n sizes) (insert r live)
           (AList.update (path r) (Sealed key (header r) r n) files)"
proof -
  have "path r \<notin> path ` live" using assms by (auto simp: files_ok_def)
  then have "inj_on path (insert r live)" using assms(1) by (auto simp: files_ok_def)
  then show ?thesis using assms by (auto simp: files_ok_def split: if_splits) force
qed

lemma files_forget:
  assumes "files_ok key sizes live files" and "r \<in> live"
  shows "files_ok key (AList.delete (path r) sizes) (live - {r}) (AList.delete (path r) files)"
proof -
  have "path q \<noteq> path r" if "q \<in> live - {r}" for q
    using that assms by (auto simp: files_ok_def inj_on_def)
  moreover have "inj_on path (live - {r})"
    using assms(1) by (auto simp: files_ok_def intro: inj_on_diff)
  ultimately show ?thesis
    using assms(1) unfolding files_ok_def by (auto split: if_splits) metis
qed

lemma files_vanish:
  assumes "files_ok key sizes live files"
  shows "files_ok key sizes live (AList.delete p files)"
  using assms by (auto simp: files_ok_def split: if_splits)

lemma files_other_write:
  assumes "files_ok key sizes live files" and "map_of sizes p = None"
  shows "files_ok key (AList.update p n sizes) live files"
  using assms by (auto simp: files_ok_def) force

lemma files_other_forget:
  assumes "files_ok key sizes live files" and "fst p \<noteq> directory"
  shows "files_ok key (AList.delete p sizes) live (AList.delete p files)"
  using assms path_directory by (auto simp: files_ok_def split: if_splits)

lemma files_read_back:
  assumes "files_ok key sizes live files" and "map_of files p = Some b"
  obtains r n where "r \<in> live" "p = path r" "b = Sealed key (header r) r n" "map_of sizes p = Some n"
  using assms unfolding files_ok_def by blast

end

definition eventHeader :: "event_spool_record \<Rightarrow> disk_record_header" where
  "eventHeader r = headerForAttempt eventSpoolKind (ev_ClientEventID r) (ev_Identity r)"

definition resultHeader :: "result_spool_record \<Rightarrow> disk_record_header" where
  "resultHeader r = headerForAttempt resultSpoolKind (rs_ResultID r) (rs_Identity r)"

definition payloadHeader :: "assignment_payload \<Rightarrow> disk_record_header" where
  "payloadHeader p =
     headerForAttempt assignmentSpoolKind (ai_AssignmentMessageID (pl_Identity p)) (pl_Identity p)"

interpretation evk: spool_kind eventPath eventHeader eventSpoolDirectory
  by unfold_locales simp

interpretation rsk: spool_kind resultPath resultHeader resultSpoolDirectory
  by unfold_locales simp

interpretation plk: spool_kind payloadPath payloadHeader assignmentSpoolDirectory
  by unfold_locales simp

section \<open>The event index\<close>

abbreviation eventAttempt :: "event_spool_record \<Rightarrow> string" where
  "eventAttempt r \<equiv> ai_AttemptID (ev_Identity r)"

definition index_inv :: "store \<Rightarrow> bool" where
  "index_inv s \<longleftrightarrow>
     gomap_ok (st_events s) \<and> gomap_ok (st_eventSeqs s)
     \<and> (\<forall>a m. map_of (st_eventSeqs s) a = Some m \<longrightarrow> gomap_ok m \<and> m \<noteq> [])
     \<and> (\<forall>i r. map_of (st_events s) i = Some r \<longrightarrow>
          ev_ClientEventID r = i \<and> validateEventSpoolRecord r = None
          \<and> map_of (innerSeqs (eventAttempt r) s) (ev_ClientEventSeq r) = Some i)
     \<and> (\<forall>a q i. map_of (innerSeqs a s) q = Some i \<longrightarrow>
          (\<exists>r. map_of (st_events s) i = Some r \<and> eventAttempt r = a \<and> ev_ClientEventSeq r = q))"

lemma index_inv_event:
  assumes "index_inv s" and "map_of (st_events s) i = Some r"
  shows "ev_ClientEventID r = i" and "validateEventSpoolRecord r = None"
    and "map_of (innerSeqs (eventAttempt r) s) (ev_ClientEventSeq r) = Some i"
  using assms by (simp_all add: index_inv_def)

lemma index_inv_seq:
  assumes "index_inv s" and "map_of (innerSeqs a s) q = Some i"
  obtains r where "map_of (st_events s) i = Some r" "eventAttempt r = a" "ev_ClientEventSeq r = q"
  using assms unfolding index_inv_def by blast

lemma index_inv_gomap:
  assumes "index_inv s"
  shows "gomap_ok (innerSeqs a s)" and "gomap_ok (st_events s)"
  using assms by (auto simp: index_inv_def innerSeqs_def split: option.splits)

lemma index_invI:
  assumes "gomap_ok (st_events s)" "gomap_ok (st_eventSeqs s)"
    and "\<And>a m. map_of (st_eventSeqs s) a = Some m \<Longrightarrow> gomap_ok m \<and> m \<noteq> []"
    and "\<And>i r. map_of (st_events s) i = Some r \<Longrightarrow>
          ev_ClientEventID r = i \<and> validateEventSpoolRecord r = None
          \<and> map_of (innerSeqs (eventAttempt r) s) (ev_ClientEventSeq r) = Some i"
    and "\<And>a q i. map_of (innerSeqs a s) q = Some i \<Longrightarrow>
          \<exists>r. map_of (st_events s) i = Some r \<and> eventAttempt r = a \<and> ev_ClientEventSeq r = q"
  shows "index_inv s"
  using assms by (simp add: index_inv_def)

lemma innerSeqs_cong: "st_eventSeqs s = st_eventSeqs t \<Longrightarrow> innerSeqs a s = innerSeqs a t"
  by (simp add: innerSeqs_def)

lemma index_inv_cong:
  "st_events s = st_events t \<Longrightarrow> st_eventSeqs s = st_eventSeqs t \<Longrightarrow> index_inv s \<longleftrightarrow> index_inv t"
  by (simp add: index_inv_def innerSeqs_def)

lemma innerSeqs_indexEvent:
  "innerSeqs a (indexEvent r s) =
     (if a = eventAttempt r then AList.update (ev_ClientEventSeq r) (ev_ClientEventID r) (innerSeqs a s)
      else innerSeqs a s)"
  by (simp add: innerSeqs_def indexEvent_def Let_def)

lemma st_events_indexEvent [simp]:
  "st_events (indexEvent r s) = AList.update (ev_ClientEventID r) r (st_events s)"
  by (simp add: indexEvent_def Let_def)

lemma index_inv_indexEvent:
  assumes inv: "index_inv s" and "validateEventSpoolRecord r = None"
    and "map_of (st_events s) (ev_ClientEventID r) = None"
    and "map_of (innerSeqs (eventAttempt r) s) (ev_ClientEventSeq r) = None"
  shows "index_inv (indexEvent r s)"
proof (rule index_invI)
  fix i q assume "map_of (st_events (indexEvent r s)) i = Some q"
  then consider "i = ev_ClientEventID r" "q = r"
    | "i \<noteq> ev_ClientEventID r" "map_of (st_events s) i = Some q"
    by (auto split: if_splits)
  then show "ev_ClientEventID q = i \<and> validateEventSpoolRecord q = None
      \<and> map_of (innerSeqs (eventAttempt q) (indexEvent r s)) (ev_ClientEventSeq q) = Some i"
    using assms(2,4) index_inv_event [OF inv, of i q] by cases (auto simp: innerSeqs_indexEvent)
next
  fix a q i assume "map_of (innerSeqs a (indexEvent r s)) q = Some i"
  then have "(a = eventAttempt r \<and> q = ev_ClientEventSeq r \<and> i = ev_ClientEventID r)
      \<or> map_of (innerSeqs a s) q = Some i"
    by (auto simp: innerSeqs_indexEvent split: if_splits)
  then show "\<exists>x. map_of (st_events (indexEvent r s)) i = Some x \<and> eventAttempt x = a \<and> ev_ClientEventSeq x = q"
  proof (elim disjE)
    assume "map_of (innerSeqs a s) q = Some i"
    from index_inv_seq [OF inv this] obtain x
      where "map_of (st_events s) i = Some x" "eventAttempt x = a" "ev_ClientEventSeq x = q" .
    with assms(3) show ?thesis by auto
  qed auto
next
  fix a m assume "map_of (st_eventSeqs (indexEvent r s)) a = Some m"
  then show "gomap_ok m \<and> m \<noteq> []"
    using inv index_inv_gomap(1) [OF inv, of a]
    by (auto simp: indexEvent_def Let_def index_inv_def AList.update_nonempty split: if_splits)
qed (use inv in \<open>auto simp: index_inv_def indexEvent_def Let_def\<close>)

lemma st_events_unindexEvent [simp]:
  "st_events (unindexEvent r s) = AList.delete (ev_ClientEventID r) (st_events s)"
  by (simp add: unindexEvent_def Let_def split: option.split)

lemma innerSeqs_unindexEvent:
  "innerSeqs a (unindexEvent r s) =
     (if a = eventAttempt r then AList.delete (ev_ClientEventSeq r) (innerSeqs a s) else innerSeqs a s)"
  by (auto simp: innerSeqs_def unindexEvent_def Let_def split: option.split)

lemma index_inv_unindexEvent:
  assumes inv: "index_inv s" and r: "map_of (st_events s) (ev_ClientEventID r) = Some r"
  shows "index_inv (unindexEvent r s)"
proof (rule index_invI)
  note seq = index_inv_event(3) [OF inv r]
  fix i q assume "map_of (st_events (unindexEvent r s)) i = Some q"
  then have i: "i \<noteq> ev_ClientEventID r" "map_of (st_events s) i = Some q" by (auto split: if_splits)
  with seq index_inv_event [OF inv i(2)]
  show "ev_ClientEventID q = i \<and> validateEventSpoolRecord q = None
      \<and> map_of (innerSeqs (eventAttempt q) (unindexEvent r s)) (ev_ClientEventSeq q) = Some i"
    by (auto simp: innerSeqs_unindexEvent)
next
  note seq = index_inv_event(3) [OF inv r]
  fix a q i assume "map_of (innerSeqs a (unindexEvent r s)) q = Some i"
  then have q: "map_of (innerSeqs a s) q = Some i" "\<not> (a = eventAttempt r \<and> q = ev_ClientEventSeq r)"
    by (auto simp: innerSeqs_unindexEvent split: if_splits)
  from index_inv_seq [OF inv q(1)] obtain x
    where x: "map_of (st_events s) i = Some x" "eventAttempt x = a" "ev_ClientEventSeq x = q" .
  with q(2) r have "i \<noteq> ev_ClientEventID r" by auto
  with x show "\<exists>x. map_of (st_events (unindexEvent r s)) i = Some x \<and> eventAttempt x = a \<and> ev_ClientEventSeq x = q"
    by auto
next
  fix a m assume "map_of (st_eventSeqs (unindexEvent r s)) a = Some m"
  then show "gomap_ok m \<and> m \<noteq> []"
    using inv by (auto simp: unindexEvent_def Let_def index_inv_def split: if_splits option.splits)
qed (use inv in \<open>auto simp: index_inv_def unindexEvent_def Let_def split: option.split\<close>)

end
