(* ===== verification/Store_Invariant.thy ===== *)
theory Store_Invariant
  imports Store_Spool
begin

text \<open>
  The invariant of an open store: the journal (\<^verbatim>\<open>Store_Journal\<close>), the spool (\<^verbatim>\<open>Store_Spool\<close>)
  and the links between the two. One lemma per way an operation changes the store shows that
  the invariant is kept; the operations themselves are in \<^verbatim>\<open>Store_Safety\<close>.
\<close>

section \<open>The entry of an attempt\<close>

definition entryFor :: "string \<Rightarrow> store \<Rightarrow> journal_entry option" where
  "entryFor a s = (case map_of (st_attempts s) a of None \<Rightarrow> None | Some m \<Rightarrow> map_of (st_entries s) m)"

definition liveRecord :: "string \<Rightarrow> store \<Rightarrow> journal_record option" where
  "liveRecord a s =
     (case entryFor a s of None \<Rightarrow> None | Some e \<Rightarrow> if je_Deleted e then None else Some (je_Record e))"

lemma assignmentForAttempt_iff:
  "assignmentForAttemptLocked a s = Inr e \<longleftrightarrow> entryFor a s = Some e \<and> \<not> je_Deleted e"
  by (auto simp: assignmentForAttemptLocked_def entryFor_def split: option.split)

lemma liveRecord_iff:
  "liveRecord a s = Some r \<longleftrightarrow> (\<exists>e. entryFor a s = Some e \<and> \<not> je_Deleted e \<and> je_Record e = r)"
  by (auto simp: liveRecord_def split: option.split)

lemma assignmentForAttempt_record:
  "assignmentForAttemptLocked a s = Inr e \<Longrightarrow> liveRecord a s = Some (je_Record e)"
  by (auto simp: assignmentForAttempt_iff liveRecord_iff)

lemma entryFor_cong:
  "st_attempts s = st_attempts t \<Longrightarrow> st_entries s = st_entries t \<Longrightarrow> entryFor a s = entryFor a t"
  by (simp add: entryFor_def split: option.split)

lemma liveRecord_cong:
  "st_attempts s = st_attempts t \<Longrightarrow> st_entries s = st_entries t \<Longrightarrow> liveRecord a s = liveRecord a t"
  using entryFor_cong [of s t a] by (simp add: liveRecord_def)

lemma nextEntry_old:
  assumes "nextEntry e s"
  obtains p where "map_of (st_entries s) (messageID_of (je_Record e)) = Some p" "\<not> je_Deleted p"
    "nextRecord (je_Record p) (je_Record e)"
    "je_Deleted e \<Longrightarrow> isAssignmentTerminal (jr_State (je_Record p))
       \<and> jr_State (je_Record e) = jr_State (je_Record p)"
  using assms unfolding nextEntry_def by blast

lemma entryFor_inv:
  assumes "journal_inv s" and "entryFor a s = Some e"
  shows "attemptID_of (je_Record e) = a" and "map_of (st_entries s) (messageID_of (je_Record e)) = Some e"
    and "entry_ok (st_workerID s) e"
proof -
  from assms(2) obtain m where m: "map_of (st_attempts s) a = Some m" "map_of (st_entries s) m = Some e"
    by (auto simp: entryFor_def split: option.splits)
  from journal_inv_attempt [OF assms(1) m(1)] m(2) show "attemptID_of (je_Record e) = a" by force
  from journal_inv_entry [OF assms(1) m(2)] m(2)
  show "map_of (st_entries s) (messageID_of (je_Record e)) = Some e" "entry_ok (st_workerID s) e" by auto
qed

lemma entryFor_commit:
  assumes inv: "journal_inv s" and ok: "acceptable e s"
  shows "entryFor a (commit e n snap s) =
    (if a = attemptID_of (je_Record e) then Some e else entryFor a s)"
proof -
  let ?m = "messageID_of (je_Record e)" and ?t = "attemptID_of (je_Record e)"
  have own: "map_of (st_attempts (applied e s)) ?t = Some ?m"
    and others: "a \<noteq> ?t \<Longrightarrow> map_of (st_attempts (applied e s)) a = map_of (st_attempts s) a"
    and diff: "\<And>m. a \<noteq> ?t \<Longrightarrow> map_of (st_attempts s) a = Some m \<Longrightarrow> m \<noteq> ?m"
  proof -
    show "a \<noteq> ?t \<Longrightarrow> map_of (st_attempts (applied e s)) a = map_of (st_attempts s) a"
      by (simp add: applied_def)
    have cases: "freshEntry e s \<or> (\<exists>p. map_of (st_entries s) ?m = Some p
        \<and> jr_Identity (je_Record e) = jr_Identity (je_Record p))"
      using ok unfolding acceptable_def nextEntry_def nextRecord_def by blast
    then show "map_of (st_attempts (applied e s)) ?t = Some ?m"
      using journal_inv_entry(3) [OF inv, of ?m] by (auto simp: applied_def freshEntry_def)
    fix m assume "a \<noteq> ?t" and m: "map_of (st_attempts s) a = Some m"
    from journal_inv_attempt [OF inv m] obtain x
      where x: "map_of (st_entries s) m = Some x" "attemptID_of (je_Record x) = a" .
    from \<open>a \<noteq> ?t\<close> x cases show "m \<noteq> ?m" by (auto simp: freshEntry_def)
  qed
  then show ?thesis by (auto simp: entryFor_def split: option.split)
qed

lemma liveRecord_commit:
  assumes "journal_inv s" and "acceptable e s"
  shows "liveRecord a (commit e n snap s) =
    (if a = attemptID_of (je_Record e) then (if je_Deleted e then None else Some (je_Record e))
     else liveRecord a s)"
  by (simp add: liveRecord_def entryFor_commit [OF assms])

section \<open>Links between journal and spool\<close>

definition released :: "journal_record \<Rightarrow> int \<Rightarrow> bool" where
  "released rec q \<longleftrightarrow>
     q \<in> ackedSet rec \<and> jr_State rec \<in> {AssignmentStateResultACKed, AssignmentStateRevoked}"

definition event_ok ::
  "journal_record \<Rightarrow> (spool_path, event_spool_record disk_blob) gomap \<Rightarrow> event_spool_record \<Rightarrow> bool" where
  "event_ok rec files r \<longleftrightarrow>
     jr_Identity rec = ev_Identity r \<and> ev_ClientEventSeq r \<le> jr_LastClientEventSeq rec
     \<and> (released rec (ev_ClientEventSeq r) \<or> map_of files (eventPath r) \<noteq> None)"

definition result_ok ::
  "journal_record \<Rightarrow> (spool_path, result_spool_record disk_blob) gomap \<Rightarrow> result_spool_record \<Rightarrow> bool" where
  "result_ok rec files r \<longleftrightarrow>
     jr_Identity rec = rs_Identity r \<and> jr_ResultID rec = rs_ResultID r
     \<and> jr_FinalClientEventSeq rec = rs_FinalClientEventSeq r \<and> validateResultSpoolRecord r = None
     \<and> (jr_State rec \<in> {AssignmentStateResultACKed, AssignmentStateRevoked}
        \<or> jr_State rec = AssignmentStateFinished \<and> map_of files (resultPath r) \<noteq> None)"

definition payload_ok ::
  "journal_entry \<Rightarrow> (spool_path, assignment_payload disk_blob) gomap \<Rightarrow> assignment_payload \<Rightarrow> bool" where
  "payload_ok e files p \<longleftrightarrow>
     jr_Identity (je_Record e) = pl_Identity p \<and> validateAssignmentPayload p = None
     \<and> (je_Deleted e \<or> map_of files (payloadPath p) \<noteq> None)"

text \<open>Every allocated sequence is acknowledged or spooled, and a finished run keeps its result.\<close>

definition covered :: "journal_record \<Rightarrow> (int, string) gomap \<Rightarrow> bool" where
  "covered rec seqs \<longleftrightarrow>
     (\<forall>q \<in> {1 .. jr_LastClientEventSeq rec} - ackedSet rec. map_of seqs q \<noteq> None)"

definition event_links :: "store \<Rightarrow> bool" where
  "event_links s \<longleftrightarrow>
     (\<forall>i r. map_of (st_events s) i = Some r \<longrightarrow>
        (\<exists>rec. liveRecord (eventAttempt r) s = Some rec \<and> event_ok rec (dk_events (st_disk s)) r))"

definition result_links :: "store \<Rightarrow> bool" where
  "result_links s \<longleftrightarrow>
     gomap_ok (st_results s)
     \<and> (\<forall>a r. map_of (st_results s) a = Some r \<longrightarrow>
          ai_AttemptID (rs_Identity r) = a
          \<and> (\<exists>rec. liveRecord a s = Some rec \<and> result_ok rec (dk_results (st_disk s)) r))"

definition payload_links :: "store \<Rightarrow> bool" where
  "payload_links s \<longleftrightarrow>
     gomap_ok (st_payloads s)
     \<and> (\<forall>a p. map_of (st_payloads s) a = Some p \<longrightarrow>
          ai_AttemptID (pl_Identity p) = a
          \<and> (\<exists>e. entryFor a s = Some e \<and> payload_ok e (dk_assignments (st_disk s)) p))"

definition record_links :: "store \<Rightarrow> bool" where
  "record_links s \<longleftrightarrow>
     (\<forall>a rec. liveRecord a s = Some rec \<longrightarrow>
        covered rec (innerSeqs a s)
        \<and> (jr_State rec = AssignmentStateFinished \<longrightarrow> map_of (st_results s) a \<noteq> None))"

definition disk_inv :: "store \<Rightarrow> bool" where
  "disk_inv s \<longleftrightarrow>
     evk.files_ok (st_key s) (st_spoolSizes s) (ran (map_of (st_events s))) (dk_events (st_disk s))
     \<and> rsk.files_ok (st_key s) (st_spoolSizes s) (ran (map_of (st_results s))) (dk_results (st_disk s))
     \<and> plk.files_ok (st_key s) (st_spoolSizes s) (ran (map_of (st_payloads s))) (dk_assignments (st_disk s))
     \<and> (\<forall>p. map_of (st_spoolSizes s) p \<noteq> None \<longrightarrow>
          p \<in> eventPath ` ran (map_of (st_events s)) \<union> resultPath ` ran (map_of (st_results s))
            \<union> payloadPath ` ran (map_of (st_payloads s)))"

text \<open>The snapshot on disk, if there is one, is that of a prefix of the log.\<close>

definition snap_inv :: "store \<Rightarrow> bool" where
  "snap_inv s \<longleftrightarrow>
     (\<forall>b. dk_snapshot (st_disk s) = Some b \<longrightarrow>
        (\<exists>k t n. k \<le> length (dk_wal (st_disk s))
           \<and> replayAll (take k (dk_wal (st_disk s))) (blankStore (st_key s) (st_workerID s)) = Some t
           \<and> b = snapshotBlob t n))"

definition store_inv :: "store \<Rightarrow> bool" where
  "store_inv s \<longleftrightarrow>
     length (st_key s) = runtimeSpoolKeyBytes \<and> \<not> st_closed s \<and> st_poisoned s = None
     \<and> journal_inv s \<and> wal_inv s \<and> snap_inv s \<and> index_inv s \<and> acct_inv s \<and> disk_inv s
     \<and> event_links s \<and> result_links s \<and> payload_links s \<and> record_links s"

lemma store_inv_parts:
  assumes "store_inv s"
  shows "length (st_key s) = runtimeSpoolKeyBytes" "\<not> st_closed s" "st_poisoned s = None"
    "readyLocked s = None" "journal_inv s" "wal_inv s" "snap_inv s" "index_inv s" "acct_inv s"
    "disk_inv s" "event_links s" "result_links s" "payload_links s" "record_links s"
  using assms by (simp_all add: store_inv_def readyLocked_def)

section \<open>Committing an entry\<close>

lemma snap_inv_commit:
  assumes "journal_inv s" "acceptable e s" "0 < n" "n \<le> assignmentJournalFrameMax"
    and "wal_inv s" "snap_inv s"
    and "snap = dk_snapshot (st_disk s) \<or> (\<exists>k. snap = Some (snapshotBlob (sequenced e s) k))"
  shows "snap_inv (commit e n snap s)"
  unfolding snap_inv_def
proof (intro allI impI)
  fix b assume "dk_snapshot (st_disk (commit e n snap s)) = Some b"
  then have "snap = Some b" by simp
  with assms(7) consider "dk_snapshot (st_disk s) = Some b" | k where "b = snapshotBlob (sequenced e s) k"
    by auto
  then show "\<exists>k t m. k \<le> length (dk_wal (st_disk (commit e n snap s)))
      \<and> replayAll (take k (dk_wal (st_disk (commit e n snap s))))
          (blankStore (st_key (commit e n snap s)) (st_workerID (commit e n snap s))) = Some t
      \<and> b = snapshotBlob t m"
  proof cases
    case 1
    with assms(6) obtain k t m where "k \<le> length (dk_wal (st_disk s))"
      "replayAll (take k (dk_wal (st_disk s))) (blankStore (st_key s) (st_workerID s)) = Some t"
      "b = snapshotBlob t m" unfolding snap_inv_def by blast
    then show ?thesis by (intro exI [of _ k] exI [of _ t] exI [of _ m]) simp
  next
    case 2
    from wal_inv_commit [OF assms(1-5), of snap] obtain t
      where t: "replayAll (dk_wal (st_disk (commit e n snap s))) (blankStore (st_key s) (st_workerID s)) = Some t"
        "same_journal t (commit e n snap s)" by (auto simp: wal_inv_def log_refines_def)
    have "b = snapshotBlob t k"
      using t(2) same_journal_commit [of e s n snap] unfolding 2
      by (simp add: snapshotBlob_def journalSnapshotOf_def same_journal_def)
    with t(1) show ?thesis
      by (intro exI [of _ "length (dk_wal (st_disk (commit e n snap s)))"] exI [of _ t] exI [of _ k]) simp
  qed
qed

lemma disk_inv_cong:
  assumes "st_key s = st_key t" "st_spoolSizes s = st_spoolSizes t" "st_events s = st_events t"
    "st_results s = st_results t" "st_payloads s = st_payloads t"
    "dk_events (st_disk s) = dk_events (st_disk t)" "dk_results (st_disk s) = dk_results (st_disk t)"
    "dk_assignments (st_disk s) = dk_assignments (st_disk t)"
  shows "disk_inv s \<longleftrightarrow> disk_inv t"
  using assms by (simp add: disk_inv_def)

lemma acct_inv_cong:
  assumes "st_spoolSizes s = st_spoolSizes t" "st_spoolBytes s = st_spoolBytes t"
    "st_spoolRecords s = st_spoolRecords t" "st_spoolMaxBytes s = st_spoolMaxBytes t"
    "st_spoolMaxRecords s = st_spoolMaxRecords t" "st_spoolReserveBytes s = st_spoolReserveBytes t"
  shows "acct_inv s \<longleftrightarrow> acct_inv t"
  using assms by (simp add: acct_inv_def limits_ok_def)

lemma entryFor_of_entry:
  assumes "journal_inv s" and "map_of (st_entries s) m = Some p"
  shows "entryFor (attemptID_of (je_Record p)) s = Some p"
  using journal_inv_entry(3) [OF assms] assms(2) by (simp add: entryFor_def)

lemma nextRecord_acked:
  assumes "jr_wf p" and "nextRecord p n"
  shows "ackedSet p \<subseteq> ackedSet n"
proof
  fix x assume "x \<in> ackedSet p"
  then have "1 \<le> x" "x \<le> jr_AckedClientEventSeq p \<or> x \<in> set (jr_AckedOutOfOrderEventSeqs p)"
    using assms(1) by (auto simp: ackedSet_def jr_wf_def ack_wf_def)
  with assms(2) show "x \<in> ackedSet n" by (auto simp: ackedSet_def nextRecord_def)
qed

lemma nextRecord_terminal:
  assumes "nextRecord p n" and "jr_State p \<in> {AssignmentStateResultACKed, AssignmentStateRevoked}"
  shows "jr_State n = jr_State p"
  using assms by (auto simp: nextRecord_def dest!: assignment_step_terminal simp: isAssignmentTerminal_def)

lemma nextRecord_event_ok:
  assumes "jr_wf p" "nextRecord p n" "event_ok p files r"
  shows "event_ok n files r"
  using assms nextRecord_acked [OF assms(1,2)] nextRecord_terminal [OF assms(2)]
  by (auto simp: event_ok_def released_def nextRecord_def)

lemma nextRecord_result_ok:
  assumes "jr_wf p" "nextRecord p n" "result_ok p files r"
  shows "result_ok n files r"
proof -
  have id: "jr_ResultID p \<noteq> []"
    using assms(3) by (auto simp: result_ok_def validateResultSpoolRecord_def validRuntimeID_def split: if_splits)
  have st: "jr_State n \<in> {AssignmentStateResultACKed, AssignmentStateRevoked}
      \<or> jr_State n = jr_State p"
    if "jr_State p = AssignmentStateFinished"
    using assms(2) that by (auto simp: nextRecord_def elim!: assignment_stepE)
  show ?thesis
    using assms(2,3) id st nextRecord_terminal [OF assms(2)]
    by (auto simp: result_ok_def nextRecord_def)
qed

lemma nextRecord_covered:
  assumes "jr_wf p" "nextRecord p n" "covered p seqs"
    and "\<And>q. jr_LastClientEventSeq p < q \<Longrightarrow> q \<le> jr_LastClientEventSeq n \<Longrightarrow> map_of seqs q \<noteq> None"
  shows "covered n seqs"
  unfolding covered_def
proof
  fix q assume q: "q \<in> {1 .. jr_LastClientEventSeq n} - ackedSet n"
  show "map_of seqs q \<noteq> None"
  proof (cases "q \<le> jr_LastClientEventSeq p")
    case True
    with q nextRecord_acked [OF assms(1,2)] assms(3) show ?thesis by (auto simp: covered_def)
  next
    case False
    with q assms(4) show ?thesis by auto
  qed
qed

lemma store_inv_intro:
  assumes "length (st_key s) = runtimeSpoolKeyBytes" "\<not> st_closed s" "st_poisoned s = None"
    "journal_inv s" "wal_inv s" "snap_inv s" "index_inv s" "acct_inv s"
    "disk_inv s" "event_links s" "result_links s" "payload_links s" "record_links s"
  shows "store_inv s"
  using assms by (simp add: store_inv_def)

text \<open>
  The part of the invariant that survives between the write of a spool file and the journal
  entry that accounts for it: everything but the links of events and results.
\<close>

definition store_core :: "store \<Rightarrow> bool" where
  "store_core s \<longleftrightarrow>
     length (st_key s) = runtimeSpoolKeyBytes \<and> \<not> st_closed s \<and> st_poisoned s = None
     \<and> journal_inv s \<and> wal_inv s \<and> snap_inv s \<and> index_inv s \<and> acct_inv s \<and> disk_inv s
     \<and> payload_links s \<and> record_links s"

lemma store_core_parts:
  assumes "store_core s"
  shows "length (st_key s) = runtimeSpoolKeyBytes" "\<not> st_closed s" "st_poisoned s = None"
    "readyLocked s = None" "journal_inv s" "wal_inv s" "snap_inv s" "index_inv s" "acct_inv s"
    "disk_inv s" "payload_links s" "record_links s"
  using assms by (simp_all add: store_core_def readyLocked_def)

lemma store_inv_core: "store_inv s \<Longrightarrow> store_core s"
  by (simp add: store_inv_def store_core_def)

lemma commit_frame_inv:
  assumes "store_core s" "acceptable e s" "0 < n" "n \<le> assignmentJournalFrameMax"
    and "snap = dk_snapshot (st_disk s) \<or> (\<exists>k. snap = Some (snapshotBlob (sequenced e s) k))"
    and "event_links (commit e n snap s)" "result_links (commit e n snap s)"
    and "payload_links (commit e n snap s)" "record_links (commit e n snap s)"
  shows "store_inv (commit e n snap s)"
proof (rule store_inv_intro)
  note inv = store_core_parts [OF assms(1)]
  show "journal_inv (commit e n snap s)" by (rule journal_inv_commit [OF inv(5) assms(2)])
  show "wal_inv (commit e n snap s)" by (rule wal_inv_commit [OF inv(5) assms(2-4) inv(6)])
  show "snap_inv (commit e n snap s)" by (rule snap_inv_commit [OF inv(5) assms(2-4) inv(6,7) assms(5)])
  show "index_inv (commit e n snap s)" using inv(8) index_inv_cong [of "commit e n snap s" s] by simp
  show "acct_inv (commit e n snap s)" using inv(9) acct_inv_cong [of "commit e n snap s" s] by simp
  show "disk_inv (commit e n snap s)" using inv(10) disk_inv_cong [of "commit e n snap s" s] by simp
qed (use assms store_core_parts [OF assms(1)] in simp_all)

lemma payload_links_commit:
  assumes "journal_inv s" "nextEntry e s" "payload_links s"
  shows "payload_links (commit e n snap s)"
  unfolding payload_links_def
proof (intro conjI allI impI)
  have acc: "acceptable e s" using assms(2) by (simp add: acceptable_def)
  from nextEntry_old [OF assms(2)] obtain p where p: "map_of (st_entries s) (messageID_of (je_Record e)) = Some p"
    "\<not> je_Deleted p" and id: "jr_Identity (je_Record e) = jr_Identity (je_Record p)"
    by (metis nextRecord_def)
  have ef: "entryFor (attemptID_of (je_Record e)) s = Some p"
    using entryFor_of_entry [OF assms(1) p(1)] id by simp
  show "gomap_ok (st_payloads (commit e n snap s))" using assms(3) by (simp add: payload_links_def)
  fix a q assume "map_of (st_payloads (commit e n snap s)) a = Some q"
  with assms(3) obtain x where x: "ai_AttemptID (pl_Identity q) = a" "entryFor a s = Some x"
    "payload_ok x (dk_assignments (st_disk s)) q" unfolding payload_links_def by auto
  show "ai_AttemptID (pl_Identity q) = a" by (rule x(1))
  show "\<exists>x. entryFor a (commit e n snap s) = Some x
      \<and> payload_ok x (dk_assignments (st_disk (commit e n snap s))) q"
  proof (cases "a = attemptID_of (je_Record e)")
    case True
    then have "x = p" using x(2) ef by simp
    then have "payload_ok e (dk_assignments (st_disk s)) q"
      using x(3) p(2) id by (simp add: payload_ok_def)
    with True show ?thesis by (simp add: entryFor_commit [OF assms(1) acc])
  qed (use x in \<open>simp add: entryFor_commit [OF assms(1) acc]\<close>)
qed

text \<open>The commit that accounts for a spool write.\<close>

lemma store_inv_commit_gen:
  assumes s: "store_core s" and e: "nextEntry e s" "0 < n" "n \<le> assignmentJournalFrameMax"
    and snap: "snap = dk_snapshot (st_disk s) \<or> (\<exists>k. snap = Some (snapshotBlob (sequenced e s) k))"
    and p: "map_of (st_entries s) (messageID_of (je_Record e)) = Some p"
    and cover: "\<And>q. jr_LastClientEventSeq (je_Record p) < q \<Longrightarrow> q \<le> jr_LastClientEventSeq (je_Record e)
      \<Longrightarrow> map_of (innerSeqs (attemptID_of (je_Record e)) s) q \<noteq> None"
    and finished: "jr_State (je_Record e) = AssignmentStateFinished \<Longrightarrow>
      map_of (st_results s) (attemptID_of (je_Record e)) \<noteq> None"
    and own_events: "\<And>i r. map_of (st_events s) i = Some r \<Longrightarrow> eventAttempt r = attemptID_of (je_Record e)
      \<Longrightarrow> \<not> je_Deleted e \<and> event_ok (je_Record e) (dk_events (st_disk s)) r"
    and other_events: "\<And>i r. map_of (st_events s) i = Some r \<Longrightarrow> eventAttempt r \<noteq> attemptID_of (je_Record e)
      \<Longrightarrow> \<exists>rec. liveRecord (eventAttempt r) s = Some rec \<and> event_ok rec (dk_events (st_disk s)) r"
    and results: "gomap_ok (st_results s)" "\<And>a r. map_of (st_results s) a = Some r \<Longrightarrow> ai_AttemptID (rs_Identity r) = a"
    and own_result: "\<And>r. map_of (st_results s) (attemptID_of (je_Record e)) = Some r
      \<Longrightarrow> \<not> je_Deleted e \<and> result_ok (je_Record e) (dk_results (st_disk s)) r"
    and other_results: "\<And>a r. map_of (st_results s) a = Some r \<Longrightarrow> a \<noteq> attemptID_of (je_Record e)
      \<Longrightarrow> \<exists>rec. liveRecord a s = Some rec \<and> result_ok rec (dk_results (st_disk s)) r"
  shows "store_inv (commit e n snap s)"
proof -
  note inv = store_core_parts [OF s]
  let ?a = "attemptID_of (je_Record e)" and ?c = "commit e n snap s"
  have acc: "acceptable e s" using e(1) by (simp add: acceptable_def)
  from nextEntry_old [OF e(1)] p have live: "\<not> je_Deleted p"
    and nx: "nextRecord (je_Record p) (je_Record e)" by auto
  have wf: "jr_wf (je_Record p)" using journal_inv_entry(2) [OF inv(5) p] by (simp add: entry_ok_def)
  have "entryFor ?a s = Some p" using entryFor_of_entry [OF inv(5) p] nx by (simp add: nextRecord_def)
  then have lr: "liveRecord ?a s = Some (je_Record p)" using live by (simp add: liveRecord_def)
  have inner: "innerSeqs a ?c = innerSeqs a s" for a by (rule innerSeqs_cong) simp
  note lrc = liveRecord_commit [OF inv(5) acc]
  show ?thesis
  proof (rule commit_frame_inv [OF s acc e(2,3) snap])
    show "event_links ?c"
      unfolding event_links_def
    proof (intro allI impI)
      fix i r assume "map_of (st_events ?c) i = Some r"
      then have r: "map_of (st_events s) i = Some r" by simp
      show "\<exists>rec. liveRecord (eventAttempt r) ?c = Some rec \<and> event_ok rec (dk_events (st_disk ?c)) r"
        using own_events [OF r] other_events [OF r] by (cases "eventAttempt r = ?a") (simp_all add: lrc)
    qed
    show "result_links ?c"
      unfolding result_links_def
    proof (intro conjI allI impI)
      fix a r assume "map_of (st_results ?c) a = Some r"
      then have r: "map_of (st_results s) a = Some r" by simp
      show "ai_AttemptID (rs_Identity r) = a" by (rule results(2) [OF r])
      show "\<exists>rec. liveRecord a ?c = Some rec \<and> result_ok rec (dk_results (st_disk ?c)) r"
        using own_result r other_results [OF r] by (cases "a = ?a") (simp_all add: lrc)
    qed (use results in simp)
    show "payload_links ?c" by (rule payload_links_commit [OF inv(5) e(1) inv(11)])
    show "record_links ?c" unfolding record_links_def
    proof (intro allI impI)
      fix a rec assume rec: "liveRecord a ?c = Some rec"
      show "covered rec (innerSeqs a ?c)
          \<and> (jr_State rec = AssignmentStateFinished \<longrightarrow> map_of (st_results ?c) a \<noteq> None)"
      proof (cases "a = ?a")
        case True
        have "covered (je_Record p) (innerSeqs ?a s)" using inv(12) lr by (simp add: record_links_def)
        from nextRecord_covered [OF wf nx this cover] rec finished True show ?thesis
          by (auto simp: lrc inner split: if_splits)
      next
        case False
        then show ?thesis using rec inv(12) by (simp add: lrc inner record_links_def)
      qed
    qed
  qed
qed

lemma old_links:
  assumes "store_inv s" and "nextEntry e s" and "map_of (st_entries s) (messageID_of (je_Record e)) = Some p"
  shows "map_of (st_events s) i = Some r \<Longrightarrow> eventAttempt r = attemptID_of (je_Record e) \<Longrightarrow>
      event_ok (je_Record e) (dk_events (st_disk s)) r"
    and "map_of (st_results s) (attemptID_of (je_Record e)) = Some x \<Longrightarrow>
      result_ok (je_Record e) (dk_results (st_disk s)) x"
proof -
  note inv = store_inv_parts [OF assms(1)]
  from nextEntry_old [OF assms(2)] assms(3) have live: "\<not> je_Deleted p"
    and nx: "nextRecord (je_Record p) (je_Record e)" by auto
  have wf: "jr_wf (je_Record p)" using journal_inv_entry(2) [OF inv(5) assms(3)] by (simp add: entry_ok_def)
  have "entryFor (attemptID_of (je_Record e)) s = Some p"
    using entryFor_of_entry [OF inv(5) assms(3)] nx by (simp add: nextRecord_def)
  then have lr: "liveRecord (attemptID_of (je_Record e)) s = Some (je_Record p)"
    using live by (simp add: liveRecord_def)
  show "event_ok (je_Record e) (dk_events (st_disk s)) r"
    if "map_of (st_events s) i = Some r" "eventAttempt r = attemptID_of (je_Record e)"
    using inv(11) that lr nextRecord_event_ok [OF wf nx] unfolding event_links_def by fastforce
  show "result_ok (je_Record e) (dk_results (st_disk s)) x"
    if "map_of (st_results s) (attemptID_of (je_Record e)) = Some x"
    using inv(12) that lr nextRecord_result_ok [OF wf nx] unfolding result_links_def by fastforce
qed

text \<open>An update of a live entry that allocates no sequence and stores no result.\<close>

lemma store_inv_commit_next:
  assumes s: "store_inv s" and e: "nextEntry e s" "0 < n" "n \<le> assignmentJournalFrameMax"
    and snap: "snap = dk_snapshot (st_disk s) \<or> (\<exists>k. snap = Some (snapshotBlob (sequenced e s) k))"
    and p: "map_of (st_entries s) (messageID_of (je_Record e)) = Some p"
    and same: "jr_LastClientEventSeq (je_Record e) = jr_LastClientEventSeq (je_Record p)"
    and finished: "jr_State (je_Record e) = AssignmentStateFinished \<Longrightarrow>
      jr_State (je_Record p) = AssignmentStateFinished"
    and deleted: "je_Deleted e \<Longrightarrow> innerSeqs (attemptID_of (je_Record e)) s = []
      \<and> map_of (st_results s) (attemptID_of (je_Record e)) = None"
  shows "store_inv (commit e n snap s)"
proof (rule store_inv_commit_gen [OF store_inv_core [OF s] e snap p])
  note inv = store_inv_parts [OF s]
  from nextEntry_old [OF e(1)] p have live: "\<not> je_Deleted p"
    and nx: "nextRecord (je_Record p) (je_Record e)" by auto
  have "entryFor (attemptID_of (je_Record e)) s = Some p"
    using entryFor_of_entry [OF inv(5) p] nx by (simp add: nextRecord_def)
  then have lr: "liveRecord (attemptID_of (je_Record e)) s = Some (je_Record p)"
    using live by (simp add: liveRecord_def)
  show "map_of (st_results s) (attemptID_of (je_Record e)) \<noteq> None"
    if "jr_State (je_Record e) = AssignmentStateFinished"
    using inv(14) lr finished [OF that] by (simp add: record_links_def)
  show "\<not> je_Deleted e \<and> event_ok (je_Record e) (dk_events (st_disk s)) r"
    if "map_of (st_events s) i = Some r" "eventAttempt r = attemptID_of (je_Record e)" for i r
    using old_links(1) [OF s e(1) p that] deleted index_inv_event(3) [OF inv(8) that(1)] that by auto
  show "\<not> je_Deleted e \<and> result_ok (je_Record e) (dk_results (st_disk s)) r"
    if "map_of (st_results s) (attemptID_of (je_Record e)) = Some r" for r
    using old_links(2) [OF s e(1) p that] deleted that by auto
qed (use same store_inv_parts [OF s] in \<open>auto simp: event_links_def result_links_def\<close>)

text \<open>The first entry of an assignment.\<close>

lemma store_inv_commit_fresh:
  assumes s: "store_inv s" and e: "freshEntry e s" "0 < n" "n \<le> assignmentJournalFrameMax"
    and snap: "snap = dk_snapshot (st_disk s) \<or> (\<exists>k. snap = Some (snapshotBlob (sequenced e s) k))"
  shows "store_inv (commit e n snap s)"
proof -
  note inv = store_inv_parts [OF s]
  let ?a = "attemptID_of (je_Record e)" and ?c = "commit e n snap s"
  have acc: "acceptable e s" using e(1) by (simp add: acceptable_def)
  have none: "entryFor ?a s = None" using e(1) by (simp add: freshEntry_def entryFor_def)
  then have lnone: "liveRecord ?a s = None" by (simp add: liveRecord_def)
  have live: "\<not> je_Deleted e" and zero: "jr_LastClientEventSeq (je_Record e) = 0"
    "jr_State (je_Record e) = AssignmentStateReceived"
    using e(1) by (simp_all add: freshEntry_def)
  have inner: "innerSeqs a ?c = innerSeqs a s" for a by (rule innerSeqs_cong) simp
  note lrc = liveRecord_commit [OF inv(5) acc]
  have other: "a \<noteq> ?a" if "liveRecord a s = Some rec" for a rec using lnone that by auto
  have other2: "a \<noteq> ?a" if "entryFor a s = Some x" for a x using none that by auto
  show ?thesis
  proof (rule commit_frame_inv [OF store_inv_core [OF s] acc e(2,3) snap])
    have keep: "liveRecord a ?c = Some rec" if "liveRecord a s = Some rec" for a rec
      using that other [OF that] by (simp add: lrc)
    have keep2: "entryFor a ?c = Some x" if "entryFor a s = Some x" for a x
      using that other2 [OF that] by (simp add: entryFor_commit [OF inv(5) acc])
    show "event_links ?c" using inv(11) keep unfolding event_links_def by (metis commit_sel(7,22))
    show "result_links ?c" using inv(12) keep unfolding result_links_def by (metis commit_sel(9,23))
    show "payload_links ?c" using inv(13) keep2 unfolding payload_links_def by (metis commit_sel(10,21))
    show "record_links ?c" using inv(14) live zero unfolding record_links_def
      by (simp add: lrc inner covered_def)
  qed
qed

section \<open>Writing a spool file\<close>

definition same_log :: "store \<Rightarrow> store \<Rightarrow> bool" where
  "same_log s t \<longleftrightarrow> same_journal s t \<and> dk_wal (st_disk s) = dk_wal (st_disk t)
     \<and> dk_snapshot (st_disk s) = dk_snapshot (st_disk t)"

lemma same_log_inv:
  assumes "same_log s t"
  shows "journal_inv s \<longleftrightarrow> journal_inv t" "wal_inv s \<longleftrightarrow> wal_inv t" "snap_inv s \<longleftrightarrow> snap_inv t"
    "entryFor a s = entryFor a t" "liveRecord a s = liveRecord a t"
proof -
  have eq: "st_entries s = st_entries t" "st_attempts s = st_attempts t" "st_workerID s = st_workerID t"
    "st_key s = st_key t" "dk_wal (st_disk s) = dk_wal (st_disk t)"
    "dk_snapshot (st_disk s) = dk_snapshot (st_disk t)" and j: "same_journal s t"
    using assms by (simp_all add: same_log_def same_journal_def)
  show "journal_inv s \<longleftrightarrow> journal_inv t" by (simp add: journal_inv_def eq)
  show "wal_inv s \<longleftrightarrow> wal_inv t" using log_refines_cong [OF j] by (simp add: wal_inv_def eq)
  show "snap_inv s \<longleftrightarrow> snap_inv t" by (simp add: snap_inv_def eq)
  show "entryFor a s = entryFor a t" "liveRecord a s = liveRecord a t"
    using eq by (auto intro: entryFor_cong liveRecord_cong)
qed

lemma store_inv_same_log:
  assumes s: "store_inv s" and log: "same_log t s"
    and "st_closed t = st_closed s" "st_poisoned t = st_poisoned s"
    and "index_inv t" "acct_inv t" "disk_inv t"
    and "event_links t" "result_links t" "payload_links t" "record_links t"
  shows "store_inv t"
proof (rule store_inv_intro)
  show "length (st_key t) = runtimeSpoolKeyBytes" "\<not> st_closed t" "st_poisoned t = None"
    using store_inv_parts(1-3) [OF s] assms by (simp_all add: same_log_def same_journal_def)
qed (use assms store_inv_parts [OF s] same_log_inv [OF log] in simp_all)

lemma store_core_same_log:
  assumes s: "store_inv s" and log: "same_log t s"
    and "st_closed t = st_closed s" "st_poisoned t = st_poisoned s"
    and "index_inv t" "acct_inv t" "disk_inv t" "payload_links t" "record_links t"
  shows "store_core t"
  using assms store_inv_parts [OF s] same_log_inv [OF log]
  by (auto simp: store_core_def same_log_def same_journal_def)

definition eventWritten :: "event_spool_record \<Rightarrow> int \<Rightarrow> store \<Rightarrow> store" where
  "eventWritten r n s = indexEvent r (tracked (eventPath r) n
     (writeEventFile (eventPath r) (Sealed (st_key s) (eventHeader r) r n) s))"

definition resultWritten :: "result_spool_record \<Rightarrow> int \<Rightarrow> store \<Rightarrow> store" where
  "resultWritten r n s =
     (let s1 = tracked (resultPath r) n
                 (writeResultFile (resultPath r) (Sealed (st_key s) (resultHeader r) r n) s)
      in s1\<lparr>st_results := AList.update (ai_AttemptID (rs_Identity r)) r (st_results s1)\<rparr>)"

definition payloadWritten :: "assignment_payload \<Rightarrow> int \<Rightarrow> store \<Rightarrow> store" where
  "payloadWritten p n s =
     (let s1 = tracked (payloadPath p) n
                 (writePayloadFile (payloadPath p) (Sealed (st_key s) (payloadHeader p) p n) s)
      in s1\<lparr>st_payloads := AList.update (ai_AttemptID (pl_Identity p)) p (st_payloads s1)\<rparr>)"

lemma ran_update_fresh: "map_of m k = None \<Longrightarrow> ran (map_of (AList.update k v m)) = insert v (ran (map_of m))"
  by (simp add: ran_map_upd)

lemma ran_delete:
  assumes "map_of m k = Some v" and "\<And>k'. map_of m k' = Some v \<Longrightarrow> k' = k"
  shows "ran (map_of (AList.delete k m)) = ran (map_of m) - {v}"
proof (rule set_eqI)
  fix x
  have "x \<in> ran (map_of (AList.delete k m)) \<longleftrightarrow> (\<exists>k'. k' \<noteq> k \<and> map_of m k' = Some x)"
    by (simp add: ran_def) metis
  also have "\<dots> \<longleftrightarrow> x \<in> ran (map_of m) - {v}"
    unfolding ran_def mem_Collect_eq Diff_iff singleton_iff using assms by (metis option.inject)
  finally show "x \<in> ran (map_of (AList.delete k m)) \<longleftrightarrow> x \<in> ran (map_of m) - {v}" .
qed

lemma eventWritten_sel:
  "same_log (eventWritten r n s) s"
  "st_closed (eventWritten r n s) = st_closed s" "st_poisoned (eventWritten r n s) = st_poisoned s"
  "st_events (eventWritten r n s) = AList.update (ev_ClientEventID r) r (st_events s)"
  "innerSeqs a (eventWritten r n s) =
     (if a = eventAttempt r then AList.update (ev_ClientEventSeq r) (ev_ClientEventID r) (innerSeqs a s)
      else innerSeqs a s)"
  "st_results (eventWritten r n s) = st_results s" "st_payloads (eventWritten r n s) = st_payloads s"
  "st_spoolSizes (eventWritten r n s) = AList.update (eventPath r) n (st_spoolSizes s)"
  "st_key (eventWritten r n s) = st_key s"
  "dk_events (st_disk (eventWritten r n s)) =
     AList.update (eventPath r) (Sealed (st_key s) (eventHeader r) r n) (dk_events (st_disk s))"
  "dk_results (st_disk (eventWritten r n s)) = dk_results (st_disk s)"
  "dk_assignments (st_disk (eventWritten r n s)) = dk_assignments (st_disk s)"
  by (simp_all add: eventWritten_def innerSeqs_indexEvent)
     (simp_all add: same_log_def same_journal_def indexEvent_def Let_def tracked_def writeEventFile_def
       innerSeqs_def)

lemma resultWritten_sel:
  "same_log (resultWritten r n s) s"
  "st_closed (resultWritten r n s) = st_closed s" "st_poisoned (resultWritten r n s) = st_poisoned s"
  "st_events (resultWritten r n s) = st_events s" "st_eventSeqs (resultWritten r n s) = st_eventSeqs s"
  "st_results (resultWritten r n s) = AList.update (ai_AttemptID (rs_Identity r)) r (st_results s)"
  "st_payloads (resultWritten r n s) = st_payloads s"
  "st_spoolSizes (resultWritten r n s) = AList.update (resultPath r) n (st_spoolSizes s)"
  "st_key (resultWritten r n s) = st_key s"
  "dk_results (st_disk (resultWritten r n s)) =
     AList.update (resultPath r) (Sealed (st_key s) (resultHeader r) r n) (dk_results (st_disk s))"
  "dk_events (st_disk (resultWritten r n s)) = dk_events (st_disk s)"
  "dk_assignments (st_disk (resultWritten r n s)) = dk_assignments (st_disk s)"
  by (simp_all add: same_log_def same_journal_def resultWritten_def Let_def tracked_def writeResultFile_def)

lemma payloadWritten_sel:
  "same_log (payloadWritten p n s) s"
  "st_closed (payloadWritten p n s) = st_closed s" "st_poisoned (payloadWritten p n s) = st_poisoned s"
  "st_events (payloadWritten p n s) = st_events s" "st_eventSeqs (payloadWritten p n s) = st_eventSeqs s"
  "st_payloads (payloadWritten p n s) = AList.update (ai_AttemptID (pl_Identity p)) p (st_payloads s)"
  "st_results (payloadWritten p n s) = st_results s"
  "st_spoolSizes (payloadWritten p n s) = AList.update (payloadPath p) n (st_spoolSizes s)"
  "st_key (payloadWritten p n s) = st_key s"
  "dk_assignments (st_disk (payloadWritten p n s)) =
     AList.update (payloadPath p) (Sealed (st_key s) (payloadHeader p) p n) (dk_assignments (st_disk s))"
  "dk_events (st_disk (payloadWritten p n s)) = dk_events (st_disk s)"
  "dk_results (st_disk (payloadWritten p n s)) = dk_results (st_disk s)"
  by (simp_all add: same_log_def same_journal_def payloadWritten_def Let_def tracked_def writePayloadFile_def)

lemma acct_inv_written:
  assumes "acct_inv (tracked path n s)"
  shows "acct_inv (tracked path n (writeEventFile path b s))"
    "acct_inv (tracked path n (writeResultFile path c s))"
    "acct_inv (tracked path n (writePayloadFile path d s))"
  using assms by (simp_all add: acct_inv_def limits_ok_def tracked_def writeEventFile_def
      writeResultFile_def writePayloadFile_def)

lemma acct_inv_indexEvent: "acct_inv (indexEvent r s) \<longleftrightarrow> acct_inv s"
  by (rule acct_inv_cong) (simp_all add: indexEvent_def Let_def)

lemma disk_inv_write_event:
  assumes "disk_inv s" "map_of (st_spoolSizes s) (eventPath r) = None"
    "map_of (st_events s) (ev_ClientEventID r) = None"
  shows "disk_inv (eventWritten r n s)"
  using assms evk.files_write [of "st_key s" "st_spoolSizes s" _ _ r n]
    rsk.files_other_write [of "st_key s" "st_spoolSizes s" _ _ "eventPath r" n]
    plk.files_other_write [of "st_key s" "st_spoolSizes s" _ _ "eventPath r" n]
  unfolding disk_inv_def eventWritten_sel ran_update_fresh [OF assms(3)] by auto

lemma disk_inv_write_result:
  assumes "disk_inv s" "map_of (st_spoolSizes s) (resultPath r) = None"
    "map_of (st_results s) (ai_AttemptID (rs_Identity r)) = None"
  shows "disk_inv (resultWritten r n s)"
  using assms rsk.files_write [of "st_key s" "st_spoolSizes s" _ _ r n]
    evk.files_other_write [of "st_key s" "st_spoolSizes s" _ _ "resultPath r" n]
    plk.files_other_write [of "st_key s" "st_spoolSizes s" _ _ "resultPath r" n]
  unfolding disk_inv_def resultWritten_sel ran_update_fresh [OF assms(3)] by auto

lemma disk_inv_write_payload:
  assumes "disk_inv s" "map_of (st_spoolSizes s) (payloadPath p) = None"
    "map_of (st_payloads s) (ai_AttemptID (pl_Identity p)) = None"
  shows "disk_inv (payloadWritten p n s)"
  using assms plk.files_write [of "st_key s" "st_spoolSizes s" _ _ p n]
    rsk.files_other_write [of "st_key s" "st_spoolSizes s" _ _ "payloadPath p" n]
    evk.files_other_write [of "st_key s" "st_spoolSizes s" _ _ "payloadPath p" n]
  unfolding disk_inv_def payloadWritten_sel ran_update_fresh [OF assms(3)] by auto

lemma eventWritten_core:
  assumes s: "store_inv s" and w: "ensureSpoolWriteLocked io (eventPath r) n s = None"
    and r: "validateEventSpoolRecord r = None" "map_of (st_events s) (ev_ClientEventID r) = None"
    "map_of (innerSeqs (eventAttempt r) s) (ev_ClientEventSeq r) = None"
  shows "store_core (eventWritten r n s)"
proof -
  note inv = store_inv_parts [OF s] and w' = ensureSpoolWrite_track [OF store_inv_parts(9) [OF s] w]
  note log = same_log_inv [OF eventWritten_sel(1)]
  let ?t = "tracked (eventPath r) n (writeEventFile (eventPath r) (Sealed (st_key s) (eventHeader r) r n) s)"
  have seqs: "st_events ?t = st_events s" "st_eventSeqs ?t = st_eventSeqs s"
    by (simp_all add: tracked_def writeEventFile_def)
  have inner: "innerSeqs a ?t = innerSeqs a s" for a by (rule innerSeqs_cong [OF seqs(2)])
  show ?thesis
  proof (rule store_core_same_log [OF s eventWritten_sel(1-3)])
    have "index_inv ?t" using inv(8) index_inv_cong [OF seqs] by simp
    then show "index_inv (eventWritten r n s)"
      using index_inv_indexEvent [of ?t r] r unfolding eventWritten_def by (simp add: seqs inner)
    show "acct_inv (eventWritten r n s)"
      unfolding eventWritten_def acct_inv_indexEvent by (rule acct_inv_written(1) [OF w'(2)])
    show "disk_inv (eventWritten r n s)" by (rule disk_inv_write_event [OF inv(10) w'(3) r(2)])
    show "payload_links (eventWritten r n s)"
      using inv(13) unfolding payload_links_def eventWritten_sel log .
    show "record_links (eventWritten r n s)"
      using inv(14) unfolding record_links_def eventWritten_sel(5,6) log by (auto simp: covered_def)
  qed
qed

lemma resultWritten_core:
  assumes s: "store_inv s" and w: "ensureSpoolWriteLocked io (resultPath r) n s = None"
    and r: "map_of (st_results s) (ai_AttemptID (rs_Identity r)) = None"
  shows "store_core (resultWritten r n s)"
proof -
  note inv = store_inv_parts [OF s] and w' = ensureSpoolWrite_track [OF store_inv_parts(9) [OF s] w]
  note log = same_log_inv [OF resultWritten_sel(1)]
  have inner: "innerSeqs a (resultWritten r n s) = innerSeqs a s" for a
    by (rule innerSeqs_cong [OF resultWritten_sel(5)])
  show ?thesis
  proof (rule store_core_same_log [OF s resultWritten_sel(1-3)])
    show "index_inv (resultWritten r n s)"
      using inv(8) index_inv_cong [OF resultWritten_sel(4,5)] by simp
    have "acct_inv (tracked (resultPath r) n (writeResultFile (resultPath r)
        (Sealed (st_key s) (resultHeader r) r n) s))" by (rule acct_inv_written(2) [OF w'(2)])
    then show "acct_inv (resultWritten r n s)"
      by (simp add: resultWritten_def Let_def acct_inv_def limits_ok_def)
    show "disk_inv (resultWritten r n s)" by (rule disk_inv_write_result [OF inv(10) w'(3) r])
    show "payload_links (resultWritten r n s)"
      using inv(13) unfolding payload_links_def resultWritten_sel log .
    show "record_links (resultWritten r n s)"
      using inv(14) unfolding record_links_def resultWritten_sel(6) log inner by auto
  qed
qed

lemma payloadWritten_inv:
  assumes s: "store_inv s" and w: "ensureSpoolWriteLocked io (payloadPath p) n s = None"
    and p: "map_of (st_payloads s) (ai_AttemptID (pl_Identity p)) = None" "validateAssignmentPayload p = None"
    and e: "entryFor (ai_AttemptID (pl_Identity p)) s = Some e" "jr_Identity (je_Record e) = pl_Identity p"
  shows "store_inv (payloadWritten p n s)"
proof -
  note inv = store_inv_parts [OF s] and w' = ensureSpoolWrite_track [OF store_inv_parts(9) [OF s] w]
  note log = same_log_inv [OF payloadWritten_sel(1)]
  have inner: "innerSeqs a (payloadWritten p n s) = innerSeqs a s" for a
    by (rule innerSeqs_cong [OF payloadWritten_sel(5)])
  show ?thesis
  proof (rule store_inv_same_log [OF s payloadWritten_sel(1-3)])
    show "index_inv (payloadWritten p n s)"
      using inv(8) index_inv_cong [OF payloadWritten_sel(4,5)] by simp
    have "acct_inv (tracked (payloadPath p) n (writePayloadFile (payloadPath p)
        (Sealed (st_key s) (payloadHeader p) p n) s))" by (rule acct_inv_written(3) [OF w'(2)])
    then show "acct_inv (payloadWritten p n s)"
      by (simp add: payloadWritten_def Let_def acct_inv_def limits_ok_def)
    show "disk_inv (payloadWritten p n s)" by (rule disk_inv_write_payload [OF inv(10) w'(3) p(1)])
    show "event_links (payloadWritten p n s)"
      using inv(11) unfolding event_links_def payloadWritten_sel log .
    show "result_links (payloadWritten p n s)"
      using inv(12) unfolding result_links_def payloadWritten_sel log .
    show "record_links (payloadWritten p n s)"
      using inv(14) unfolding record_links_def payloadWritten_sel log inner .
    show "payload_links (payloadWritten p n s)"
      unfolding payload_links_def payloadWritten_sel log
    proof (intro conjI allI impI)
      show "gomap_ok (AList.update (ai_AttemptID (pl_Identity p)) p (st_payloads s))"
        using inv(13) by (simp add: payload_links_def)
      fix a q assume "map_of (AList.update (ai_AttemptID (pl_Identity p)) p (st_payloads s)) a = Some q"
      then have "(a = ai_AttemptID (pl_Identity p) \<and> q = p) \<or> map_of (st_payloads s) a = Some q"
        by (auto split: if_splits)
      then have "ai_AttemptID (pl_Identity q) = a \<and> (\<exists>e. entryFor a s = Some e \<and> payload_ok e
          (AList.update (payloadPath p) (Sealed (st_key s) (payloadHeader p) p n) (dk_assignments (st_disk s))) q)"
      proof (elim disjE conjE)
        assume "a = ai_AttemptID (pl_Identity p)" "q = p"
        with e p(2) show ?thesis by (simp add: payload_ok_def)
      next
        assume "map_of (st_payloads s) a = Some q"
        with inv(13) obtain x where "ai_AttemptID (pl_Identity q) = a" "entryFor a s = Some x"
          "payload_ok x (dk_assignments (st_disk s)) q" unfolding payload_links_def by blast
        then show ?thesis by (auto simp: payload_ok_def)
      qed
      then show "ai_AttemptID (pl_Identity q) = a" "\<exists>e. entryFor a s = Some e \<and> payload_ok e
          (AList.update (payloadPath p) (Sealed (st_key s) (payloadHeader p) p n) (dk_assignments (st_disk s))) q"
        by auto
    qed
  qed
qed

end
