(* ===== verification/Store_Steps.thy ===== *)
theory Store_Steps
  imports Store_Invariant
begin

text \<open>
  The composite steps of the store and the invariant: writing an event or a result and
  committing the journal entry that accounts for it, and removing a spool file.
\<close>

section \<open>Spool write followed by its journal entry\<close>

lemma same_log_entry:
  assumes "same_log t s" and "nextEntry e s"
  shows "nextEntry e t"
  using assms by (simp add: nextEntry_def same_log_def same_journal_def)

lemma commit_event:
  assumes s: "store_inv s" and w: "ensureSpoolWriteLocked io (eventPath r) k s = None"
    and r: "validateEventSpoolRecord r = None" "map_of (st_events s) (ev_ClientEventID r) = None"
    "map_of (innerSeqs (eventAttempt r) s) (ev_ClientEventSeq r) = None"
    and p: "assignmentForAttemptLocked (eventAttempt r) s = Inr p"
    "jr_Identity (je_Record p) = ev_Identity r" "jr_State (je_Record p) = AssignmentStateStarted"
    and q: "ev_ClientEventSeq r = jr_LastClientEventSeq (je_Record p) + 1" "ev_ClientEventSeq r \<le> maxInt64"
    and t: "t \<noteq> 0"
  defines "e \<equiv> liveEntry ((je_Record p)\<lparr>jr_LastClientEventSeq := ev_ClientEventSeq r, jr_UpdatedAt := t\<rparr>)"
  shows "nextEntry e (eventWritten r k s)"
    and "0 < n \<Longrightarrow> n \<le> assignmentJournalFrameMax \<Longrightarrow>
      snap = dk_snapshot (st_disk s) \<or> (\<exists>j. snap = Some (snapshotBlob (sequenced e (eventWritten r k s)) j)) \<Longrightarrow>
      store_inv (commit e n snap (eventWritten r k s))"
proof -
  note inv = store_inv_parts [OF s]
  note live = assignmentForAttempt_entry [OF inv(5) p(1)] assignmentForAttempt_live [OF p(1)]
  have nx: "nextRecord (je_Record p) (je_Record e)"
    using live(3) p(3) q t
    by (auto simp: nextRecord_def e_def liveEntry_def jr_wf_def ack_wf_def jr_state_ok_def)
  have e: "jr_Identity (je_Record e) = jr_Identity (je_Record p)" "\<not> je_Deleted e"
    "jr_LastClientEventSeq (je_Record e) = ev_ClientEventSeq r" "jr_State (je_Record e) = AssignmentStateStarted"
    using p(3) by (simp_all add: e_def liveEntry_def)
  have old: "nextEntry e s" using live nx e by (auto simp: nextEntry_def)
  show nxt: "nextEntry e (eventWritten r k s)" by (rule same_log_entry [OF eventWritten_sel(1) old])
  assume n: "0 < n" "n \<le> assignmentJournalFrameMax"
    and snap: "snap = dk_snapshot (st_disk s) \<or> (\<exists>j. snap = Some (snapshotBlob (sequenced e (eventWritten r k s)) j))"
  have snap': "snap = dk_snapshot (st_disk (eventWritten r k s))
      \<or> (\<exists>j. snap = Some (snapshotBlob (sequenced e (eventWritten r k s)) j))"
    using snap eventWritten_sel(1) [of r k s] by (simp add: same_log_def)
  have mp: "map_of (st_entries s) (messageID_of (je_Record e)) = Some p" using live(1) e by simp
  then have mp': "map_of (st_entries (eventWritten r k s)) (messageID_of (je_Record e)) = Some p"
    using eventWritten_sel(1) [of r k s] by (simp add: same_log_def same_journal_def)
  have att: "attemptID_of (je_Record e) = eventAttempt r" using live(2) e by simp
  have lr: "liveRecord (eventAttempt r) s = Some (je_Record p)" by (rule assignmentForAttempt_record [OF p(1)])
  have weak: "event_ok rec (AList.update (eventPath r) b files) x" if "event_ok rec files x" for rec files x b
    using that by (auto simp: event_ok_def)
  show "store_inv (commit e n snap (eventWritten r k s))"
  proof (rule store_inv_commit_gen [OF eventWritten_core [OF s w r] nxt n snap' mp'], unfold att)
    fix x assume "jr_LastClientEventSeq (je_Record p) < x" "x \<le> jr_LastClientEventSeq (je_Record e)"
    then show "map_of (innerSeqs (eventAttempt r) (eventWritten r k s)) x \<noteq> None"
      using q e by (simp add: eventWritten_sel)
  next
    fix i x assume i: "map_of (st_events (eventWritten r k s)) i = Some x" "eventAttempt x = eventAttempt r"
    from i(1) have "x = r \<or> map_of (st_events s) i = Some x" by (auto simp: eventWritten_sel split: if_splits)
    then show "\<not> je_Deleted e \<and> event_ok (je_Record e) (dk_events (st_disk (eventWritten r k s))) x"
    proof
      assume "x = r"
      then show ?thesis using e p(2) by (simp add: event_ok_def eventWritten_sel)
    next
      assume "map_of (st_events s) i = Some x"
      from old_links(1) [OF s old mp this] i(2) att e(2) weak show ?thesis by (simp add: eventWritten_sel)
    qed
  next
    fix i x assume i: "map_of (st_events (eventWritten r k s)) i = Some x" "eventAttempt x \<noteq> eventAttempt r"
    then have "map_of (st_events s) i = Some x" by (auto simp: eventWritten_sel split: if_splits)
    then show "\<exists>rec. liveRecord (eventAttempt x) (eventWritten r k s) = Some rec
        \<and> event_ok rec (dk_events (st_disk (eventWritten r k s))) x"
      using inv(11) weak unfolding event_links_def same_log_inv [OF eventWritten_sel(1)] eventWritten_sel
      by meson
  next
    fix x assume "map_of (st_results (eventWritten r k s)) (eventAttempt r) = Some x"
    then show "\<not> je_Deleted e \<and> result_ok (je_Record e) (dk_results (st_disk (eventWritten r k s))) x"
      using old_links(2) [OF s old mp, of x] att e(2) by (simp add: eventWritten_sel)
  qed (use inv(12) e(4) in \<open>auto simp: eventWritten_sel result_links_def same_log_inv [OF eventWritten_sel(1)]\<close>)
qed

lemma commit_result:
  assumes s: "store_inv s" and w: "ensureSpoolWriteLocked io (resultPath r) k s = None"
    and r: "validateResultSpoolRecord r = None" "map_of (st_results s) (ai_AttemptID (rs_Identity r)) = None"
    and p: "assignmentForAttemptLocked (ai_AttemptID (rs_Identity r)) s = Inr p"
    "jr_Identity (je_Record p) = rs_Identity r" "jr_State (je_Record p) = AssignmentStateStarted"
    and q: "rs_FinalClientEventSeq r = jr_LastClientEventSeq (je_Record p)"
    and t: "t \<noteq> 0"
  defines "e \<equiv> liveEntry ((je_Record p)\<lparr>jr_State := AssignmentStateFinished, jr_ResultID := rs_ResultID r,
     jr_FinalClientEventSeq := rs_FinalClientEventSeq r, jr_UpdatedAt := t\<rparr>)"
  shows "nextEntry e (resultWritten r k s)"
    and "0 < n \<Longrightarrow> n \<le> assignmentJournalFrameMax \<Longrightarrow>
      snap = dk_snapshot (st_disk s) \<or> (\<exists>j. snap = Some (snapshotBlob (sequenced e (resultWritten r k s)) j)) \<Longrightarrow>
      store_inv (commit e n snap (resultWritten r k s))"
proof -
  note inv = store_inv_parts [OF s]
  note live = assignmentForAttempt_entry [OF inv(5) p(1)] assignmentForAttempt_live [OF p(1)]
  have vid: "validRuntimeID (rs_ResultID r)" using r(1) by (auto simp: validateResultSpoolRecord_def split: if_splits)
  have nx: "nextRecord (je_Record p) (je_Record e)"
    using live(3) p(3) q t vid assignment_step.finished
    by (auto simp: nextRecord_def e_def liveEntry_def jr_wf_def ack_wf_def jr_state_ok_def)
  have e: "jr_Identity (je_Record e) = jr_Identity (je_Record p)" "\<not> je_Deleted e"
    "jr_LastClientEventSeq (je_Record e) = jr_LastClientEventSeq (je_Record p)"
    "jr_State (je_Record e) = AssignmentStateFinished" "jr_ResultID (je_Record e) = rs_ResultID r"
    "jr_FinalClientEventSeq (je_Record e) = rs_FinalClientEventSeq r"
    by (simp_all add: e_def liveEntry_def)
  have old: "nextEntry e s" using live nx e by (auto simp: nextEntry_def)
  show nxt: "nextEntry e (resultWritten r k s)" by (rule same_log_entry [OF resultWritten_sel(1) old])
  assume n: "0 < n" "n \<le> assignmentJournalFrameMax"
    and snap: "snap = dk_snapshot (st_disk s) \<or> (\<exists>j. snap = Some (snapshotBlob (sequenced e (resultWritten r k s)) j))"
  have snap': "snap = dk_snapshot (st_disk (resultWritten r k s))
      \<or> (\<exists>j. snap = Some (snapshotBlob (sequenced e (resultWritten r k s)) j))"
    using snap resultWritten_sel(1) [of r k s] by (simp add: same_log_def)
  have mp: "map_of (st_entries s) (messageID_of (je_Record e)) = Some p" using live(1) e by simp
  then have mp': "map_of (st_entries (resultWritten r k s)) (messageID_of (je_Record e)) = Some p"
    using resultWritten_sel(1) [of r k s] by (simp add: same_log_def same_journal_def)
  have att: "attemptID_of (je_Record e) = ai_AttemptID (rs_Identity r)" using live(2) e by simp
  have weak: "result_ok rec (AList.update (resultPath r) b files) x" if "result_ok rec files x" for rec files x b
    using that by (auto simp: result_ok_def)
  show "store_inv (commit e n snap (resultWritten r k s))"
  proof (rule store_inv_commit_gen [OF resultWritten_core [OF s w r(2)] nxt n snap' mp'], unfold att)
    fix i x assume i: "map_of (st_events (resultWritten r k s)) i = Some x"
      "eventAttempt x = ai_AttemptID (rs_Identity r)"
    then show "\<not> je_Deleted e \<and> event_ok (je_Record e) (dk_events (st_disk (resultWritten r k s))) x"
      using old_links(1) [OF s old mp, of i x] att e(2) by (simp add: resultWritten_sel)
  next
    fix i x assume "map_of (st_events (resultWritten r k s)) i = Some x"
    then show "\<exists>rec. liveRecord (eventAttempt x) (resultWritten r k s) = Some rec
        \<and> event_ok rec (dk_events (st_disk (resultWritten r k s))) x"
      using inv(11) unfolding event_links_def same_log_inv [OF resultWritten_sel(1)]
      by (auto simp: resultWritten_sel)
  next
    fix x assume "map_of (st_results (resultWritten r k s)) (ai_AttemptID (rs_Identity r)) = Some x"
    then have "x = r" by (simp add: resultWritten_sel)
    then show "\<not> je_Deleted e \<and> result_ok (je_Record e) (dk_results (st_disk (resultWritten r k s))) x"
      using e p(2) r(1) by (simp add: result_ok_def resultWritten_sel)
  next
    fix a x assume a: "map_of (st_results (resultWritten r k s)) a = Some x" "a \<noteq> ai_AttemptID (rs_Identity r)"
    then have "map_of (st_results s) a = Some x" by (simp add: resultWritten_sel)
    then show "\<exists>rec. liveRecord a (resultWritten r k s) = Some rec
        \<and> result_ok rec (dk_results (st_disk (resultWritten r k s))) x"
      using inv(12) weak unfolding result_links_def same_log_inv [OF resultWritten_sel(1)] resultWritten_sel
      by meson
  next
    fix a x assume "map_of (st_results (resultWritten r k s)) a = Some x"
    then show "ai_AttemptID (rs_Identity x) = a"
      using inv(12) by (auto simp: resultWritten_sel result_links_def split: if_splits)
  qed (use inv(12) e in \<open>auto simp: resultWritten_sel result_links_def\<close>)
qed

section \<open>Removing a spool file\<close>

definition dropFile :: "spool_path \<Rightarrow> store \<Rightarrow> store" where
  "dropFile path s = s\<lparr>st_disk := diskRemove path (st_disk s)\<rparr>"

lemma dropFile_sel [simp]:
  "st_key (dropFile p s) = st_key s" "st_spoolSizes (dropFile p s) = st_spoolSizes s"
  "st_events (dropFile p s) = st_events s" "st_eventSeqs (dropFile p s) = st_eventSeqs s"
  "st_results (dropFile p s) = st_results s" "st_payloads (dropFile p s) = st_payloads s"
  "st_closed (dropFile p s) = st_closed s" "st_poisoned (dropFile p s) = st_poisoned s"
  "dk_events (st_disk (dropFile p s)) = AList.delete p (dk_events (st_disk s))"
  "dk_results (st_disk (dropFile p s)) = AList.delete p (dk_results (st_disk s))"
  "dk_assignments (st_disk (dropFile p s)) = AList.delete p (dk_assignments (st_disk s))"
  "same_log (dropFile p s) s"
  "acct_inv (dropFile p s) = acct_inv s" "index_inv (dropFile p s) = index_inv s"
  by (simp_all add: dropFile_def diskRemove_def same_log_def same_journal_def acct_inv_def limits_ok_def
      index_inv_def innerSeqs_def)

lemma dropFile_absent: "\<not> diskHas p (st_disk s) \<Longrightarrow> dropFile p s = s"
  by (simp add: dropFile_def diskHas_def diskRemove_def delete_absent)

lemma removeSpoolFile_cases:
  assumes inv: "acct_inv s"
  obtains (kept) x where "removeSpoolFileLocked io p s = (Some x, s)"
    | (gone) x where "removeSpoolFileLocked io p s = (Some x, dropFile p s)"
    | (removed) "removeSpoolFileLocked io p s = (None, untracked p (dropFile p s))"
proof -
  have dr: "durableRemove io p s = (None, dropFile p s) \<or> (\<exists>x. durableRemove io p s = (Some x, dropFile p s))
      \<or> (\<exists>x. durableRemove io p s = (Some x, s))"
    using dropFile_absent [of p s]
    by (auto simp: durableRemove_def dropFile_def [symmetric] split: remove_outcome.split)
  have ok: "removeSpoolFileLocked io p s = (None, untracked p (dropFile p s))"
    if d: "durableRemove io p s = (None, dropFile p s)"
  proof (cases "map_of (st_spoolSizes s) p")
    case None
    then show ?thesis using d by (simp add: removeSpoolFileLocked_def untracked_def)
  next
    case (Some n)
    let ?t = "dropFile p s"
    have t: "acct_inv ?t" using inv by simp
    have nn: "0 \<le> st_spoolBytes (untracked p ?t)" "0 \<le> st_spoolRecords (untracked p ?t)"
      by (rule acct_inv_untracked [OF t])+
    have pos: "0 < n" using inv Some by (auto simp: acct_inv_def)
    have b: "st_spoolBytes ?t \<le> maxInt64" "st_spoolRecords ?t \<le> maxInt64"
      using t acct_inv_nonneg [OF t] by (auto simp: acct_inv_def limits_ok_def)
    have e1: "add64 (st_spoolBytes ?t) (- n) = st_spoolBytes ?t - n"
      using add64_exact [of "st_spoolBytes ?t" "- n"] nn(1) Some b(1) pos
      by (simp add: untracked_def int64_small)
    have e2: "add64 (st_spoolRecords ?t) (- 1) = st_spoolRecords ?t - 1"
      using add64_exact [of "st_spoolRecords ?t" "- 1"] nn(2) Some b(2)
      by (simp add: untracked_def int64_small)
    show ?thesis
      using d Some nn e1 e2 by (simp add: removeSpoolFileLocked_def untracked_def Let_def)
  qed
  from dr show thesis
  proof (elim disjE exE)
    assume "durableRemove io p s = (None, dropFile p s)"
    then show thesis using ok removed by blast
  next
    fix x assume "durableRemove io p s = (Some x, dropFile p s)"
    then show thesis using gone by (simp add: removeSpoolFileLocked_def)
  next
    fix x assume "durableRemove io p s = (Some x, s)"
    then show thesis using kept by (simp add: removeSpoolFileLocked_def)
  qed
qed

lemma disk_inv_dropFile:
  assumes "disk_inv s" shows "disk_inv (dropFile p s)"
  using assms unfolding disk_inv_def
  by (simp add: evk.files_vanish rsk.files_vanish plk.files_vanish)

text \<open>A path that only names records no longer needed.\<close>

definition expendable :: "spool_path \<Rightarrow> store \<Rightarrow> bool" where
  "expendable path s \<longleftrightarrow>
     (\<forall>i r. map_of (st_events s) i = Some r \<and> eventPath r = path \<longrightarrow>
        (\<exists>rec. liveRecord (eventAttempt r) s = Some rec \<and> released rec (ev_ClientEventSeq r)))
     \<and> (\<forall>a r. map_of (st_results s) a = Some r \<and> resultPath r = path \<longrightarrow>
        (\<exists>rec. liveRecord a s = Some rec
           \<and> jr_State rec \<in> {AssignmentStateResultACKed, AssignmentStateRevoked}))
     \<and> (\<forall>a p. map_of (st_payloads s) a = Some p \<and> payloadPath p = path \<longrightarrow>
        (\<exists>e. entryFor a s = Some e \<and> je_Deleted e))"

lemma store_inv_dropFile:
  assumes s: "store_inv s" and x: "expendable path s"
  shows "store_inv (dropFile path s)"
proof -
  note inv = store_inv_parts [OF s]
  note log = same_log_inv [OF dropFile_sel(12)]
  have inner: "innerSeqs a (dropFile path s) = innerSeqs a s" for a by (rule innerSeqs_cong) simp
  show ?thesis
  proof (rule store_inv_same_log [OF s dropFile_sel(12)])
    show "disk_inv (dropFile path s)" by (rule disk_inv_dropFile [OF inv(10)])
    show "event_links (dropFile path s)" unfolding event_links_def log dropFile_sel
    proof (intro allI impI)
      fix i r assume r: "map_of (st_events s) i = Some r"
      with inv(11) obtain rec where rec: "liveRecord (eventAttempt r) s = Some rec"
        "event_ok rec (dk_events (st_disk s)) r" unfolding event_links_def by blast
      have "released rec (ev_ClientEventSeq r)" if "eventPath r = path"
        using x r rec(1) that unfolding expendable_def by force
      then have "event_ok rec (AList.delete path (dk_events (st_disk s))) r"
        using rec(2) by (auto simp: event_ok_def)
      with rec(1) show "\<exists>rec. liveRecord (eventAttempt r) s = Some rec
          \<and> event_ok rec (AList.delete path (dk_events (st_disk s))) r" by blast
    qed
    show "result_links (dropFile path s)" unfolding result_links_def log dropFile_sel
    proof (intro conjI allI impI)
      show "gomap_ok (st_results s)" using inv(12) by (simp add: result_links_def)
      fix a r assume r: "map_of (st_results s) a = Some r"
      with inv(12) obtain rec where rec: "ai_AttemptID (rs_Identity r) = a" "liveRecord a s = Some rec"
        "result_ok rec (dk_results (st_disk s)) r" unfolding result_links_def by blast
      show "ai_AttemptID (rs_Identity r) = a" by (rule rec(1))
      have "jr_State rec \<in> {AssignmentStateResultACKed, AssignmentStateRevoked}" if "resultPath r = path"
        using x r rec(2) that unfolding expendable_def by force
      then have "result_ok rec (AList.delete path (dk_results (st_disk s))) r"
        using rec(3) by (auto simp: result_ok_def)
      with rec(2) show "\<exists>rec. liveRecord a s = Some rec
          \<and> result_ok rec (AList.delete path (dk_results (st_disk s))) r" by blast
    qed
    show "payload_links (dropFile path s)" unfolding payload_links_def log dropFile_sel
    proof (intro conjI allI impI)
      show "gomap_ok (st_payloads s)" using inv(13) by (simp add: payload_links_def)
      fix a q assume q: "map_of (st_payloads s) a = Some q"
      with inv(13) obtain e where e: "ai_AttemptID (pl_Identity q) = a" "entryFor a s = Some e"
        "payload_ok e (dk_assignments (st_disk s)) q" unfolding payload_links_def by blast
      show "ai_AttemptID (pl_Identity q) = a" by (rule e(1))
      have "je_Deleted e" if "payloadPath q = path"
        using x q e(2) that unfolding expendable_def by force
      then have "payload_ok e (AList.delete path (dk_assignments (st_disk s))) q"
        using e(3) by (auto simp: payload_ok_def)
      with e(2) show "\<exists>e. entryFor a s = Some e
          \<and> payload_ok e (AList.delete path (dk_assignments (st_disk s))) q" by blast
    qed
    show "record_links (dropFile path s)"
      using inv(14) unfolding record_links_def log inner dropFile_sel .
  qed (use inv in simp_all)
qed

lemma untracked_sel [simp]:
  "st_key (untracked p s) = st_key s" "st_spoolSizes (untracked p s) = AList.delete p (st_spoolSizes s)"
  "st_events (untracked p s) = st_events s" "st_eventSeqs (untracked p s) = st_eventSeqs s"
  "st_results (untracked p s) = st_results s" "st_payloads (untracked p s) = st_payloads s"
  "st_closed (untracked p s) = st_closed s" "st_poisoned (untracked p s) = st_poisoned s"
  "st_disk (untracked p s) = st_disk s" "same_log (untracked p s) s"
  "index_inv (untracked p s) = index_inv s"
  by (simp_all add: untracked_def same_log_def same_journal_def index_inv_def innerSeqs_def delete_absent
      split: option.split)

definition eventForgotten :: "event_spool_record \<Rightarrow> store \<Rightarrow> store" where
  "eventForgotten r s = unindexEvent r (untracked (eventPath r) (dropFile (eventPath r) s))"

definition resultForgotten :: "result_spool_record \<Rightarrow> store \<Rightarrow> store" where
  "resultForgotten r s =
     (let s1 = untracked (resultPath r) (dropFile (resultPath r) s)
      in s1\<lparr>st_results := AList.delete (ai_AttemptID (rs_Identity r)) (st_results s1)\<rparr>)"

definition payloadForgotten :: "assignment_payload \<Rightarrow> store \<Rightarrow> store" where
  "payloadForgotten p s =
     (let s1 = untracked (payloadPath p) (dropFile (payloadPath p) s)
      in s1\<lparr>st_payloads := AList.delete (ai_AttemptID (pl_Identity p)) (st_payloads s1)\<rparr>)"

lemma unindexEvent_frame:
  "same_log (unindexEvent r s) s" "st_key (unindexEvent r s) = st_key s"
  "st_spoolSizes (unindexEvent r s) = st_spoolSizes s"
  "st_results (unindexEvent r s) = st_results s" "st_payloads (unindexEvent r s) = st_payloads s"
  "st_closed (unindexEvent r s) = st_closed s" "st_poisoned (unindexEvent r s) = st_poisoned s"
  "st_disk (unindexEvent r s) = st_disk s" "acct_inv (unindexEvent r s) = acct_inv s"
  by (simp_all add: unindexEvent_def Let_def same_log_def same_journal_def acct_inv_def limits_ok_def
      split: option.split)

lemma same_log_trans: "same_log s t \<Longrightarrow> same_log t u \<Longrightarrow> same_log s u"
  by (simp add: same_log_def same_journal_def)

lemma eventForgotten_sel:
  "same_log (eventForgotten r s) s" "st_key (eventForgotten r s) = st_key s"
  "st_closed (eventForgotten r s) = st_closed s" "st_poisoned (eventForgotten r s) = st_poisoned s"
  "st_events (eventForgotten r s) = AList.delete (ev_ClientEventID r) (st_events s)"
  "innerSeqs a (eventForgotten r s) =
     (if a = eventAttempt r then AList.delete (ev_ClientEventSeq r) (innerSeqs a s) else innerSeqs a s)"
  "st_results (eventForgotten r s) = st_results s" "st_payloads (eventForgotten r s) = st_payloads s"
  "st_spoolSizes (eventForgotten r s) = AList.delete (eventPath r) (st_spoolSizes s)"
  "st_disk (eventForgotten r s) = st_disk (dropFile (eventPath r) s)"
  by (simp_all add: eventForgotten_def unindexEvent_frame innerSeqs_unindexEvent)
     (meson same_log_trans unindexEvent_frame(1) untracked_sel(10) dropFile_sel(12), simp add: innerSeqs_def)

lemma resultForgotten_sel:
  "same_log (resultForgotten r s) s" "st_key (resultForgotten r s) = st_key s"
  "st_closed (resultForgotten r s) = st_closed s" "st_poisoned (resultForgotten r s) = st_poisoned s"
  "st_results (resultForgotten r s) = AList.delete (ai_AttemptID (rs_Identity r)) (st_results s)"
  "st_events (resultForgotten r s) = st_events s" "st_eventSeqs (resultForgotten r s) = st_eventSeqs s"
  "st_payloads (resultForgotten r s) = st_payloads s"
  "st_spoolSizes (resultForgotten r s) = AList.delete (resultPath r) (st_spoolSizes s)"
  "st_disk (resultForgotten r s) = st_disk (dropFile (resultPath r) s)"
  "acct_inv (resultForgotten r s) = acct_inv (untracked (resultPath r) (dropFile (resultPath r) s))"
  by (simp_all add: resultForgotten_def Let_def acct_inv_def limits_ok_def)
     (simp add: dropFile_def diskRemove_def untracked_def same_log_def same_journal_def split: option.split)

lemma payloadForgotten_sel:
  "same_log (payloadForgotten p s) s" "st_key (payloadForgotten p s) = st_key s"
  "st_closed (payloadForgotten p s) = st_closed s" "st_poisoned (payloadForgotten p s) = st_poisoned s"
  "st_payloads (payloadForgotten p s) = AList.delete (ai_AttemptID (pl_Identity p)) (st_payloads s)"
  "st_events (payloadForgotten p s) = st_events s" "st_eventSeqs (payloadForgotten p s) = st_eventSeqs s"
  "st_results (payloadForgotten p s) = st_results s"
  "st_spoolSizes (payloadForgotten p s) = AList.delete (payloadPath p) (st_spoolSizes s)"
  "st_disk (payloadForgotten p s) = st_disk (dropFile (payloadPath p) s)"
  "acct_inv (payloadForgotten p s) = acct_inv (untracked (payloadPath p) (dropFile (payloadPath p) s))"
  by (simp_all add: payloadForgotten_def Let_def acct_inv_def limits_ok_def)
     (simp add: dropFile_def diskRemove_def untracked_def same_log_def same_journal_def split: option.split)

lemma delete_keeps: "map_of (AList.delete k m) x = Some v \<Longrightarrow> map_of m x = Some v"
  by (auto split: if_splits)

lemma event_links_delete:
  assumes "event_links s" "event_links (dropFile p s)" "same_log t s"
    and "st_events t = AList.delete i (st_events s)" "st_disk t = st_disk (dropFile p s)"
  shows "event_links t"
  using assms(2) unfolding event_links_def same_log_inv [OF assms(3)] same_log_inv [OF dropFile_sel(12)] assms(4,5)
  by (auto dest: delete_keeps split: if_splits)

lemma store_inv_event_forgotten:
  assumes s: "store_inv s" and r: "map_of (st_events s) (ev_ClientEventID r) = Some r"
    and rec: "liveRecord (eventAttempt r) s = Some rec" "released rec (ev_ClientEventSeq r)"
    and x: "expendable (eventPath r) s"
  shows "store_inv (eventForgotten r s)"
proof -
  note inv = store_inv_parts [OF s] and d = store_inv_parts [OF store_inv_dropFile [OF s x]]
  note log = same_log_inv [OF eventForgotten_sel(1)] and dlog = same_log_inv [OF dropFile_sel(12)]
  have uniq: "k = ev_ClientEventID r" if "map_of (st_events s) k = Some r" for k
    using index_inv_event(1) [OF inv(8) that] by simp
  have ran: "ran (map_of (AList.delete (ev_ClientEventID r) (st_events s))) = ran (map_of (st_events s)) - {r}"
    by (rule ran_delete [OF r]) (rule uniq)
  show ?thesis
  proof (rule store_inv_same_log [OF s eventForgotten_sel(1,3,4)])
    show "index_inv (eventForgotten r s)" unfolding eventForgotten_def
      by (rule index_inv_unindexEvent) (use inv(8) r in simp_all)
    show "acct_inv (eventForgotten r s)" unfolding eventForgotten_def unindexEvent_frame
      by (rule acct_inv_untracked(1)) (use inv(9) in simp)
    show "disk_inv (eventForgotten r s)"
      using inv(10) evk.files_forget [of _ _ _ _ r] ranI [of "map_of (st_events s)", OF r]
        rsk.files_other_forget [of _ _ _ _ "eventPath r"] plk.files_other_forget [of _ _ _ _ "eventPath r"]
      unfolding disk_inv_def eventForgotten_sel ran by auto
    show "event_links (eventForgotten r s)"
      by (rule event_links_delete [OF inv(11) d(11) eventForgotten_sel(1,5,10)])
    show "result_links (eventForgotten r s)"
      using d(12) unfolding result_links_def log dlog eventForgotten_sel by simp
    show "payload_links (eventForgotten r s)"
      using d(13) unfolding payload_links_def log dlog eventForgotten_sel by simp
    show "record_links (eventForgotten r s)"
      unfolding record_links_def log eventForgotten_sel
    proof (intro allI impI)
      fix a rc assume a: "liveRecord a s = Some rc"
      with inv(14) have old: "covered rc (innerSeqs a s)"
        "jr_State rc = AssignmentStateFinished \<longrightarrow> map_of (st_results s) a \<noteq> None"
        unfolding record_links_def by blast+
      have "ev_ClientEventSeq r \<in> ackedSet rc" if "a = eventAttempt r"
        using a rec that by (simp add: released_def)
      with old show "covered rc (if a = eventAttempt r
            then AList.delete (ev_ClientEventSeq r) (innerSeqs a s) else innerSeqs a s)
          \<and> (jr_State rc = AssignmentStateFinished \<longrightarrow> map_of (st_results s) a \<noteq> None)"
        by (auto simp: covered_def)
    qed
  qed
qed

lemma store_inv_result_forgotten:
  assumes s: "store_inv s" and r: "map_of (st_results s) (ai_AttemptID (rs_Identity r)) = Some r"
    and rec: "liveRecord (ai_AttemptID (rs_Identity r)) s = Some rec" "jr_State rec \<noteq> AssignmentStateFinished"
    and x: "expendable (resultPath r) s"
  shows "store_inv (resultForgotten r s)"
proof -
  note inv = store_inv_parts [OF s] and d = store_inv_parts [OF store_inv_dropFile [OF s x]]
  note log = same_log_inv [OF resultForgotten_sel(1)] and dlog = same_log_inv [OF dropFile_sel(12)]
  have inner: "innerSeqs a (resultForgotten r s) = innerSeqs a s" for a
    by (rule innerSeqs_cong [OF resultForgotten_sel(7)])
  have ran: "ran (map_of (AList.delete (ai_AttemptID (rs_Identity r)) (st_results s)))
      = ran (map_of (st_results s)) - {r}"
    by (rule ran_delete [OF r]) (use inv(12) in \<open>auto simp: result_links_def\<close>)
  show ?thesis
  proof (rule store_inv_same_log [OF s resultForgotten_sel(1,3,4)])
    show "index_inv (resultForgotten r s)"
      using inv(8) index_inv_cong [OF resultForgotten_sel(6,7)] by simp
    show "acct_inv (resultForgotten r s)" unfolding resultForgotten_sel
      by (rule acct_inv_untracked(1)) (use inv(9) in simp)
    show "disk_inv (resultForgotten r s)"
      using inv(10) rsk.files_forget [of _ _ _ _ r] ranI [of "map_of (st_results s)", OF r]
        evk.files_other_forget [of _ _ _ _ "resultPath r"] plk.files_other_forget [of _ _ _ _ "resultPath r"]
      unfolding disk_inv_def resultForgotten_sel ran by auto
    show "event_links (resultForgotten r s)"
      using d(11) unfolding event_links_def log dlog resultForgotten_sel by simp
    show "result_links (resultForgotten r s)"
      using d(12) unfolding result_links_def log dlog resultForgotten_sel
      by (auto dest: delete_keeps split: if_splits)
    show "payload_links (resultForgotten r s)"
      using d(13) unfolding payload_links_def log dlog resultForgotten_sel by simp
    show "record_links (resultForgotten r s)"
      using inv(14) rec unfolding record_links_def log inner resultForgotten_sel by auto
  qed
qed

lemma store_inv_payload_forgotten:
  assumes s: "store_inv s" and p: "map_of (st_payloads s) (ai_AttemptID (pl_Identity p)) = Some p"
    and x: "expendable (payloadPath p) s"
  shows "store_inv (payloadForgotten p s)"
proof -
  note inv = store_inv_parts [OF s] and d = store_inv_parts [OF store_inv_dropFile [OF s x]]
  note log = same_log_inv [OF payloadForgotten_sel(1)] and dlog = same_log_inv [OF dropFile_sel(12)]
  have inner: "innerSeqs a (payloadForgotten p s) = innerSeqs a s" for a
    by (rule innerSeqs_cong [OF payloadForgotten_sel(7)])
  have ran: "ran (map_of (AList.delete (ai_AttemptID (pl_Identity p)) (st_payloads s)))
      = ran (map_of (st_payloads s)) - {p}"
    by (rule ran_delete [OF p]) (use inv(13) in \<open>auto simp: payload_links_def\<close>)
  show ?thesis
  proof (rule store_inv_same_log [OF s payloadForgotten_sel(1,3,4)])
    show "index_inv (payloadForgotten p s)"
      using inv(8) index_inv_cong [OF payloadForgotten_sel(6,7)] by simp
    show "acct_inv (payloadForgotten p s)" unfolding payloadForgotten_sel
      by (rule acct_inv_untracked(1)) (use inv(9) in simp)
    show "disk_inv (payloadForgotten p s)"
      using inv(10) plk.files_forget [of _ _ _ _ p] ranI [of "map_of (st_payloads s)", OF p]
        evk.files_other_forget [of _ _ _ _ "payloadPath p"] rsk.files_other_forget [of _ _ _ _ "payloadPath p"]
      unfolding disk_inv_def payloadForgotten_sel ran by auto
    show "event_links (payloadForgotten p s)"
      using d(11) unfolding event_links_def log dlog payloadForgotten_sel by simp
    show "result_links (payloadForgotten p s)"
      using d(12) unfolding result_links_def log dlog payloadForgotten_sel by simp
    show "payload_links (payloadForgotten p s)"
      using d(13) unfolding payload_links_def log dlog payloadForgotten_sel
      by (auto dest: delete_keeps split: if_splits)
    show "record_links (payloadForgotten p s)"
      using inv(14) unfolding record_links_def log inner payloadForgotten_sel .
  qed
qed

end
