(* ===== verification/Store_Safety.thy ===== *)
theory Store_Safety
  imports Store_Steps
begin

text \<open>
  Every operation of the store keeps the invariant or poisons the store, and its effect on
  the write-ahead log is atomic. The operations are the steps of a transition system, so the
  invariant holds in every state a sequence of calls can reach.
\<close>

section \<open>The effect of an operation\<close>

definition store_ok :: "store \<Rightarrow> bool" where
  "store_ok s \<longleftrightarrow> store_inv s \<or> st_poisoned s \<noteq> None \<or> st_closed s"

text \<open>
  The log is unchanged, or one acceptable entry was appended and applied, or the store is
  poisoned, its journal in memory unchanged, and the log ends in nothing new, a torn frame
  or one acceptable entry.
\<close>

definition wal_step :: "store \<Rightarrow> store \<Rightarrow> bool" where
  "wal_step s t \<longleftrightarrow>
     (same_journal t s \<and> dk_wal (st_disk t) = dk_wal (st_disk s))
     \<or> (\<exists>e n. acceptable e s \<and> 0 < n \<and> n \<le> assignmentJournalFrameMax
          \<and> dk_wal (st_disk t) = dk_wal (st_disk s) @ [frameOf e s n] \<and> same_journal t (sequenced e s))
     \<or> (st_poisoned t \<noteq> None \<and> same_journal t s
          \<and> (dk_wal (st_disk t) = dk_wal (st_disk s) @ [WalTorn]
             \<or> (\<exists>e n. acceptable e s \<and> 0 < n \<and> n \<le> assignmentJournalFrameMax
                  \<and> dk_wal (st_disk t) = dk_wal (st_disk s) @ [frameOf e s n])))"

definition op_ok :: "store \<Rightarrow> store \<Rightarrow> bool" where
  "op_ok s t \<longleftrightarrow> store_ok t \<and> wal_step s t"

lemma op_ok_refl: "store_inv s \<Longrightarrow> op_ok s s"
  by (simp add: op_ok_def store_ok_def wal_step_def)

lemma wal_step_same_log:
  assumes "same_log t s" shows "wal_step s t"
  using assms by (simp add: wal_step_def same_log_def)

lemma op_ok_same_log: "same_log t s \<Longrightarrow> store_inv t \<Longrightarrow> op_ok s t"
  by (simp add: op_ok_def store_ok_def wal_step_same_log)

lemma acceptable_cong: "same_journal s t \<Longrightarrow> acceptable e s \<longleftrightarrow> acceptable e t"
  by (simp add: acceptable_def freshEntry_def nextEntry_def same_journal_def)

lemma same_log_frame:
  assumes "same_log t s"
  shows "frameOf e t n = frameOf e s n" "same_journal (sequenced e t) (sequenced e s)"
    "acceptable e t \<longleftrightarrow> acceptable e s"
  using assms acceptable_cong [of t s e]
  by (simp_all add: frameOf_def same_log_def same_journal_def sequenced_def applied_def)

text \<open>A step from a state with the same log is a step from the state itself.\<close>

lemma wal_step_from:
  assumes "same_log t s" and "wal_step t u"
  shows "wal_step s u"
proof -
  have eq: "dk_wal (st_disk t) = dk_wal (st_disk s)" and j: "same_journal t s"
    using assms(1) by (simp_all add: same_log_def)
  have "same_journal u s" if "same_journal u t" using same_journal_trans [OF that j] .
  moreover have "same_journal u (sequenced e s)" if "same_journal u (sequenced e t)" for e
    using same_journal_trans [OF that same_log_frame(2) [OF assms(1)]] .
  ultimately show ?thesis
    using assms(2) unfolding wal_step_def eq same_log_frame(1,3) [OF assms(1)] by blast
qed

text \<open>Cleaning up the spool after a step is part of the step.\<close>

lemma wal_step_then:
  assumes "wal_step s t" "st_poisoned t = None" and "same_log u t"
  shows "wal_step s u"
proof -
  have eq: "dk_wal (st_disk u) = dk_wal (st_disk t)" and j: "same_journal u t"
    using assms(3) by (simp_all add: same_log_def)
  show ?thesis
    using assms(1,2) same_journal_trans [OF j] unfolding wal_step_def eq by blast
qed

lemma op_ok_then:
  assumes "op_ok s t" "store_inv t" "same_log u t" "store_inv u"
  shows "op_ok s u"
  using assms wal_step_then [of s t u] store_inv_parts(3) [OF assms(2)]
  by (simp add: op_ok_def store_ok_def)

lemma wal_step_commit:
  assumes "acceptable e s" "0 < n" "n \<le> assignmentJournalFrameMax"
  shows "wal_step s (commit e n snap s)"
  using assms same_journal_sym [OF same_journal_commit [of e s n snap]] by (auto simp: wal_step_def)

lemma wal_step_fault:
  assumes "acceptable e s" "0 < n" "n \<le> assignmentJournalFrameMax"
    and "items = [] \<or> items = [WalTorn] \<or> items = [frameOf e s n]"
  shows "wal_step s (poison x (appendWal items s))"
  using assms by (auto simp: wal_step_def poison_def appendWal_def same_journal_def)

section \<open>Journal appends\<close>

lemma append_next:
  assumes s: "store_inv s" and io: "env_ok io" and e: "nextEntry e s"
    and p: "map_of (st_entries s) (messageID_of (je_Record e)) = Some p"
    and same: "jr_LastClientEventSeq (je_Record e) = jr_LastClientEventSeq (je_Record p)"
    and finished: "jr_State (je_Record e) = AssignmentStateFinished \<Longrightarrow>
      jr_State (je_Record p) = AssignmentStateFinished"
    and deleted: "je_Deleted e \<Longrightarrow> innerSeqs (attemptID_of (je_Record e)) s = []
      \<and> map_of (st_results s) (attemptID_of (je_Record e)) = None"
  obtains (commit) n snap where "appendJournalLocked io e s = (None, commit e n snap s)"
      "store_inv (commit e n snap s)" "op_ok s (commit e n snap s)"
    | (fault) x t where "appendJournalLocked io e s = (Some x, t)" "op_ok s t" "st_poisoned t \<noteq> None"
proof -
  note inv = store_inv_parts [OF s]
  have acc: "acceptable e s" using e by (simp add: acceptable_def)
  show thesis
  proof (rule appendJournal_cases [OF inv(4,1) io inv(5) acc])
    fix n snap
    assume a: "appendJournalLocked io e s = (None, commit e n snap s)" and n: "0 < n" "n \<le> assignmentJournalFrameMax"
      and snap: "snap = dk_snapshot (st_disk s) \<or> (\<exists>k. io_snapSeal io (inc_uint64 (st_sequence s)) = SealLength k
            \<and> snap = Some (snapshotBlob (sequenced e s) k))"
    have "snap = dk_snapshot (st_disk s) \<or> (\<exists>k. snap = Some (snapshotBlob (sequenced e s) k))"
      using snap by blast
    from store_inv_commit_next [OF s e n this p same finished deleted] have c: "store_inv (commit e n snap s)" .
    with wal_step_commit [OF acc n] a commit show thesis by (simp add: op_ok_def store_ok_def)
  next
    fix x items n
    assume "appendJournalLocked io e s = (Some x, poison x (appendWal items s))"
      "items = [] \<or> items = [WalTorn] \<or> items = [frameOf e s n]" "0 < n" "n \<le> assignmentJournalFrameMax"
    with wal_step_fault [OF acc] fault show thesis
      by (simp add: op_ok_def store_ok_def poison_def)
  qed
qed

text \<open>The same step as a statement about the resulting state.\<close>

lemma append_next_ok:
  assumes "store_inv s" "env_ok io" "nextEntry e s"
    "map_of (st_entries s) (messageID_of (je_Record e)) = Some p"
    "jr_LastClientEventSeq (je_Record e) = jr_LastClientEventSeq (je_Record p)"
    "jr_State (je_Record e) = AssignmentStateFinished \<Longrightarrow> jr_State (je_Record p) = AssignmentStateFinished"
    "je_Deleted e \<Longrightarrow> innerSeqs (attemptID_of (je_Record e)) s = []
      \<and> map_of (st_results s) (attemptID_of (je_Record e)) = None"
  shows "op_ok s (snd (appendJournalLocked io e s))"
  by (rule append_next [OF assms]) simp_all

section \<open>Removals\<close>

lemma event_path_unique:
  assumes "store_inv s" "map_of (st_events s) i = Some r" "map_of (st_events s) j = Some q"
    and "eventPath q = eventPath r"
  shows "q = r"
  using store_inv_parts(10) [OF assms(1)] assms(2-4) ranI [of "map_of (st_events s)"]
  unfolding disk_inv_def evk.files_ok_def inj_on_def by metis

lemma result_path_unique:
  assumes "store_inv s" "map_of (st_results s) i = Some r" "map_of (st_results s) j = Some q"
    and "resultPath q = resultPath r"
  shows "q = r"
  using store_inv_parts(10) [OF assms(1)] assms(2-4) ranI [of "map_of (st_results s)"]
  unfolding disk_inv_def rsk.files_ok_def inj_on_def by metis

lemma payload_path_unique:
  assumes "store_inv s" "map_of (st_payloads s) i = Some r" "map_of (st_payloads s) j = Some q"
    and "payloadPath q = payloadPath r"
  shows "q = r"
  using store_inv_parts(10) [OF assms(1)] assms(2-4) ranI [of "map_of (st_payloads s)"]
  unfolding disk_inv_def plk.files_ok_def inj_on_def by metis

lemma path_kinds_distinct:
  "eventPath r \<noteq> resultPath q" "resultPath q \<noteq> eventPath r" "eventPath r \<noteq> payloadPath p"
  "payloadPath p \<noteq> eventPath r" "resultPath q \<noteq> payloadPath p" "payloadPath p \<noteq> resultPath q"
  by (metis path_dirs directories_distinct)+

lemma expendable_event:
  assumes "store_inv s" "map_of (st_events s) i = Some r"
    and "liveRecord (eventAttempt r) s = Some rec" "released rec (ev_ClientEventSeq r)"
  shows "expendable (eventPath r) s"
  using assms event_path_unique [OF assms(1,2)] path_kinds_distinct
  unfolding expendable_def by metis

lemma expendable_result:
  assumes "store_inv s" "map_of (st_results s) a = Some r"
    and "liveRecord a s = Some rec" "jr_State rec \<in> {AssignmentStateResultACKed, AssignmentStateRevoked}"
  shows "expendable (resultPath r) s"
proof -
  have "b = a" if "map_of (st_results s) b = Some r" for b
    using store_inv_parts(12) [OF assms(1)] assms(2) that unfolding result_links_def by metis
  then show ?thesis
    using assms result_path_unique [OF assms(1,2)] path_kinds_distinct
    unfolding expendable_def by metis
qed

lemma expendable_payload:
  assumes "store_inv s" "map_of (st_payloads s) a = Some p"
    and "entryFor a s = Some e" "je_Deleted e"
  shows "expendable (payloadPath p) s"
proof -
  have "b = a" if "map_of (st_payloads s) b = Some p" for b
    using store_inv_parts(13) [OF assms(1)] assms(2) that unfolding payload_links_def by metis
  then show ?thesis
    using assms payload_path_unique [OF assms(1,2)] path_kinds_distinct
    unfolding expendable_def by metis
qed

lemma removeEvent_ok:
  assumes s: "store_inv s" and r: "map_of (st_events s) i = Some r"
    and rec: "liveRecord (eventAttempt r) s = Some rec" "released rec (ev_ClientEventSeq r)"
  shows "store_inv (snd (removeEventLocked io r s)) \<and> same_log (snd (removeEventLocked io r s)) s
    \<and> (fst (removeEventLocked io r s) = None \<longrightarrow> snd (removeEventLocked io r s) = eventForgotten r s)"
proof -
  note inv = store_inv_parts [OF s]
  have i: "map_of (st_events s) (ev_ClientEventID r) = Some r" using index_inv_event(1) [OF inv(8) r] r by simp
  note x = expendable_event [OF s r rec]
  have slog: "same_log s s" by (simp add: same_log_def)
  show ?thesis
  proof (cases rule: removeSpoolFile_cases [OF inv(9), where io = io and p = "eventPath r"])
    case (1 y) then show ?thesis
      using s slog by (simp add: removeEventLocked_def eventPath_def [symmetric])
  next
    case (2 y) then show ?thesis
      using store_inv_dropFile [OF s x]
      by (simp add: removeEventLocked_def eventPath_def [symmetric])
  next
    case 3 then show ?thesis
      using store_inv_event_forgotten [OF s i rec x] eventForgotten_sel(1) [of r s]
      by (simp add: removeEventLocked_def eventPath_def [symmetric] eventForgotten_def)
  qed
qed

lemma removeResult_ok:
  assumes s: "store_inv s" and r: "map_of (st_results s) a = Some r"
    and rec: "liveRecord a s = Some rec" "jr_State rec \<in> {AssignmentStateResultACKed, AssignmentStateRevoked}"
  shows "store_inv (snd (removeResultLocked io r s)) \<and> same_log (snd (removeResultLocked io r s)) s
    \<and> innerSeqs b (snd (removeResultLocked io r s)) = innerSeqs b s"
proof -
  note inv = store_inv_parts [OF s]
  have a: "ai_AttemptID (rs_Identity r) = a" using inv(12) r by (simp add: result_links_def)
  note x = expendable_result [OF s r rec]
  have slog: "same_log s s" by (simp add: same_log_def)
  show ?thesis
  proof (cases rule: removeSpoolFile_cases [OF inv(9), where io = io and p = "resultPath r"])
    case (1 y) then show ?thesis
      using s slog by (simp add: removeResultLocked_def resultPath_def [symmetric])
  next
    case (2 y) then show ?thesis
      using store_inv_dropFile [OF s x]
      by (simp add: removeResultLocked_def resultPath_def [symmetric] innerSeqs_def)
  next
    case 3
    have "store_inv (resultForgotten r s)"
      by (rule store_inv_result_forgotten [OF s _ _ _ x]) (use r rec a in auto)
    with 3 show ?thesis
      using resultForgotten_sel(1) [of r s] innerSeqs_cong [OF resultForgotten_sel(7) [of r s]]
      by (simp add: removeResultLocked_def resultPath_def [symmetric] resultForgotten_def Let_def)
  qed
qed

lemma removePayload_ok:
  assumes s: "store_inv s" and p: "map_of (st_payloads s) a = Some p"
    and e: "entryFor a s = Some e" "je_Deleted e"
  shows "store_inv (snd (removeAssignmentPayloadLocked io p s))
    \<and> same_log (snd (removeAssignmentPayloadLocked io p s)) s"
proof -
  note inv = store_inv_parts [OF s]
  have a: "ai_AttemptID (pl_Identity p) = a" using inv(13) p by (simp add: payload_links_def)
  note x = expendable_payload [OF s p e]
  have slog: "same_log s s" by (simp add: same_log_def)
  show ?thesis
  proof (cases rule: removeSpoolFile_cases [OF inv(9), where io = io and p = "payloadPath p"])
    case (1 y) then show ?thesis
      using s slog by (simp add: removeAssignmentPayloadLocked_def payloadPath_def [symmetric])
  next
    case (2 y) then show ?thesis
      using store_inv_dropFile [OF s x]
      by (simp add: removeAssignmentPayloadLocked_def payloadPath_def [symmetric])
  next
    case 3
    have "store_inv (payloadForgotten p s)"
      by (rule store_inv_payload_forgotten [OF s _ x]) (use p a in simp)
    with 3 show ?thesis
      using payloadForgotten_sel(1) [of p s]
      by (simp add: removeAssignmentPayloadLocked_def payloadPath_def [symmetric] payloadForgotten_def Let_def)
  qed
qed

lemma removeSequences_ok:
  assumes "store_inv s" and "liveRecord a s = Some rec"
    and "jr_State rec \<in> {AssignmentStateResultACKed, AssignmentStateRevoked}"
    and "\<forall>q \<in> set qs. map_of (innerSeqs a s) q \<noteq> None \<and> q \<in> ackedSet rec" and "distinct qs"
  shows "store_inv (snd (removeSequencesLoop io a qs s)) \<and> same_log (snd (removeSequencesLoop io a qs s)) s
    \<and> (fst (removeSequencesLoop io a qs s) = None \<longrightarrow>
        (\<forall>q. map_of (innerSeqs a (snd (removeSequencesLoop io a qs s))) q =
           (if q \<in> set qs then None else map_of (innerSeqs a s) q)))"
  using assms
proof (induction qs arbitrary: s)
  case Nil
  then show ?case by (simp add: same_log_def)
next
  case (Cons q qs)
  note inv = store_inv_parts [OF Cons.prems(1)]
  from Cons.prems(4) obtain i where i: "map_of (innerSeqs a s) q = Some i" by auto
  from index_inv_seq [OF inv(8) i] obtain r
    where r: "map_of (st_events s) i = Some r" "eventAttempt r = a" "ev_ClientEventSeq r = q" .
  have ev: "eventOf i s = r" using r(1) by (simp add: eventOf_def)
  have rel: "released rec (ev_ClientEventSeq r)" using Cons.prems(3,4) r(3) by (auto simp: released_def)
  have lr: "liveRecord (eventAttempt r) s = Some rec" using r(2) Cons.prems(2) by simp
  note rm = removeEvent_ok [OF Cons.prems(1) r(1) lr rel, of io]
  show ?case
  proof (cases "removeEventLocked io r s")
    case (Pair err t)
    with rm have t: "store_inv t" "same_log t s" "err = None \<Longrightarrow> t = eventForgotten r s" by auto
    show ?thesis
    proof (cases err)
      case (Some x)
      then show ?thesis using Pair t i ev by simp
    next
      case None
      have inner: "innerSeqs a t = AList.delete q (innerSeqs a s)"
        using t(3) [OF None] r by (simp add: eventForgotten_sel)
      have "liveRecord a t = Some rec" using same_log_inv(5) [OF t(2)] Cons.prems(2) by simp
      moreover have "\<forall>x \<in> set qs. map_of (innerSeqs a t) x \<noteq> None \<and> x \<in> ackedSet rec"
        using Cons.prems(4,5) by (auto simp: inner)
      ultimately have "store_inv (snd (removeSequencesLoop io a qs t))
          \<and> same_log (snd (removeSequencesLoop io a qs t)) t
          \<and> (fst (removeSequencesLoop io a qs t) = None \<longrightarrow>
              (\<forall>x. map_of (innerSeqs a (snd (removeSequencesLoop io a qs t))) x =
                 (if x \<in> set qs then None else map_of (innerSeqs a t) x)))"
        using Cons.IH [OF t(1)] Cons.prems(3,5) by simp
      then show ?thesis
        using Pair None i ev same_log_trans [OF _ t(2)] by (auto simp: inner)
    qed
  qed
qed

text \<open>Every allocated sequence of the attempt is acknowledged.\<close>

definition allAcked :: "string \<Rightarrow> store \<Rightarrow> bool" where
  "allAcked a s \<longleftrightarrow> (\<forall>rec. liveRecord a s = Some rec \<longrightarrow> {1 .. jr_LastClientEventSeq rec} \<subseteq> ackedSet rec)"

lemma event_seq_range:
  assumes "store_inv s" and "map_of (innerSeqs a s) q = Some i" and "liveRecord a s = Some rec"
  shows "1 \<le> q" and "q \<le> jr_LastClientEventSeq rec"
proof -
  note inv = store_inv_parts [OF assms(1)]
  from index_inv_seq [OF inv(8) assms(2)] obtain r
    where r: "map_of (st_events s) i = Some r" "eventAttempt r = a" "ev_ClientEventSeq r = q" .
  from inv(11) r(1) assms(3) r(2) show "q \<le> jr_LastClientEventSeq rec"
    unfolding event_links_def by (fastforce simp: event_ok_def r(3))
  from index_inv_event(2) [OF inv(8) r(1)] show "1 \<le> q"
    by (auto simp: validateEventSpoolRecord_def r(3) split: if_splits)
qed

lemma removeAttemptEvents_ok:
  assumes s: "store_inv s" and rec: "liveRecord a s = Some rec"
    and st: "jr_State rec \<in> {AssignmentStateResultACKed, AssignmentStateRevoked}" and all: "allAcked a s"
  shows "store_inv (snd (removeAttemptEventsLocked io a s))
    \<and> same_log (snd (removeAttemptEventsLocked io a s)) s
    \<and> (fst (removeAttemptEventsLocked io a s) = None \<longrightarrow>
         innerSeqs a (snd (removeAttemptEventsLocked io a s)) = [])"
proof -
  let ?qs = "sort (map fst (innerSeqs a s))"
  have ok: "gomap_ok (innerSeqs a s)" by (rule index_inv_gomap(1) [OF store_inv_parts(8) [OF s]])
  have "map_of (innerSeqs a s) q \<noteq> None \<and> q \<in> ackedSet rec" if "q \<in> set ?qs" for q
  proof -
    from that obtain i where i: "map_of (innerSeqs a s) q = Some i"
      by (auto simp: map_of_eq_None_iff dest!: weak_map_of_SomeI)
    from event_seq_range [OF s i rec] i all rec show ?thesis by (auto simp: allAcked_def)
  qed
  moreover have "distinct ?qs" using ok by (simp add: gomap_ok_def)
  ultimately have *: "store_inv (snd (removeSequencesLoop io a ?qs s))
      \<and> same_log (snd (removeSequencesLoop io a ?qs s)) s
      \<and> (fst (removeSequencesLoop io a ?qs s) = None \<longrightarrow>
        (\<forall>q. map_of (innerSeqs a (snd (removeSequencesLoop io a ?qs s))) q =
           (if q \<in> set ?qs then None else map_of (innerSeqs a s) q)))"
    using removeSequences_ok [OF s rec st, of ?qs io] by blast
  have "(if q \<in> set ?qs then None else map_of (innerSeqs a s) q) = None" for q
    by (auto simp: map_of_eq_None_iff)
  with * show ?thesis unfolding removeAttemptEventsLocked_def gomap_empty_iff by simp
qed

end
