(* ===== verification/Store_Calls.thy ===== *)
theory Store_Calls
  imports Store_Safety
begin

text \<open>
  One lemma per public operation of \<^verbatim>\<open>FileRuntimeStore\<close>: from a store that satisfies the
  invariant the call keeps it or poisons the store, and its effect on the log is atomic.
\<close>

section \<open>The assignment journal\<close>

lemma nextRecord_state:
  assumes "jr_wf p" and "assignment_step (jr_State p) st"
    and "st \<noteq> AssignmentStateFinished" "st \<noteq> AssignmentStateResultACKed" and "t \<noteq> 0"
  shows "nextRecord p (p\<lparr>jr_State := st, jr_UpdatedAt := t\<rparr>)"
proof -
  have "jr_state_ok (p\<lparr>jr_State := st, jr_UpdatedAt := t\<rparr>)"
    using assms(2) assms(1,3,4) by (cases rule: assignment_step.cases) (auto simp: jr_wf_def jr_state_ok_def)
  then show ?thesis using assms by (auto simp: nextRecord_def jr_wf_def ack_wf_def)
qed

lemma nextRecord_touch:
  assumes "jr_wf p" and "t \<noteq> 0"
  shows "nextRecord p (p\<lparr>jr_UpdatedAt := t\<rparr>)"
  using assms by (auto simp: nextRecord_def jr_wf_def ack_wf_def jr_state_ok_def split: assignment_state.split)

lemma nextRecord_ack:
  assumes "jr_wf p" and "t \<noteq> 0" and "1 \<le> q" "q \<le> jr_LastClientEventSeq p" "q \<notin> ackedSet p"
  shows "nextRecord p ((applyEventACK p q)\<lparr>jr_UpdatedAt := t\<rparr>)"
proof -
  have wf: "ack_wf p" using assms(1) by (simp add: jr_wf_def)
  note a = applyEventACK_spec [OF wf assms(3-5)]
  have "ack_wf ((applyEventACK p q)\<lparr>jr_UpdatedAt := t\<rparr>)" using a by (simp add: ack_wf_def)
  moreover have "jr_state_ok ((applyEventACK p q)\<lparr>jr_UpdatedAt := t\<rparr>)"
    using assms(1) by (cases "jr_State p") (simp_all add: jr_wf_def jr_state_ok_def)
  moreover have "x \<le> jr_AckedClientEventSeq (applyEventACK p q)
      \<or> x \<in> set (jr_AckedOutOfOrderEventSeqs (applyEventACK p q))"
    if "x \<in> set (jr_AckedOutOfOrderEventSeqs p)" for x
    using a that by (auto simp: ackedSet_def)
  ultimately show ?thesis using a assms(2) by (auto simp: nextRecord_def jr_wf_def)
qed

lemma nextRecord_result_acked:
  assumes "jr_wf p" and "jr_State p = AssignmentStateFinished" and "t \<noteq> 0"
  shows "nextRecord p (p\<lparr>jr_State := AssignmentStateResultACKed, jr_UpdatedAt := t\<rparr>)"
  using assms assignment_step.result_acked
  by (auto simp: nextRecord_def jr_wf_def ack_wf_def jr_state_ok_def)

lemma nextEntry_live:
  assumes "map_of (st_entries s) (messageID_of (je_Record p)) = Some p" "\<not> je_Deleted p"
    and "nextRecord (je_Record p) r"
  shows "nextEntry (liveEntry r) s"
    and "map_of (st_entries s) (messageID_of (je_Record (liveEntry r))) = Some p"
  using assms by (auto simp: nextEntry_def liveEntry_def nextRecord_def)

lemma liveEntry_sel [simp]: "je_Record (liveEntry r) = r" "\<not> je_Deleted (liveEntry r)"
  by (simp_all add: liveEntry_def)

lemma validateNewAssignment_fresh:
  assumes "validateNewAssignment r (st_identity s) = None" and "st_workerID s = ri_WorkerID (st_identity s)"
    and "map_of (st_entries s) (messageID_of r) = None" "map_of (st_attempts s) (attemptID_of r) = None"
    and "t \<noteq> 0"
  shows "freshEntry (liveEntry (r\<lparr>jr_State := AssignmentStateReceived, jr_UpdatedAt := t,
     jr_AckedOutOfOrderEventSeqs := []\<rparr>)) s"
  using assms
  by (auto simp: validateNewAssignment_def freshEntry_def liveEntry_def entry_ok_def jr_wf_def ack_wf_def
      jr_state_ok_def maxInt64_def split: option.splits if_splits)

lemma CreateAssignment_ok:
  assumes s: "store_inv s" and io: "env_ok io" and w: "st_workerID s = ri_WorkerID (st_identity s)"
  shows "op_ok s (snd (CreateAssignment io r s))"
proof -
  note inv = store_inv_parts [OF s]
  let ?e = "liveEntry (r\<lparr>jr_State := AssignmentStateReceived, jr_UpdatedAt := nextNow io s,
     jr_AckedOutOfOrderEventSeqs := []\<rparr>)"
  show ?thesis
  proof (cases "validateNewAssignment r (st_identity s) = None
      \<and> map_of (st_entries s) (messageID_of r) = None \<and> map_of (st_attempts s) (attemptID_of r) = None")
    case True
    have fresh: "freshEntry ?e s" by (rule validateNewAssignment_fresh) (use True w io in auto)
    then have acc: "acceptable ?e s" by (simp add: acceptable_def)
    have eq: "CreateAssignment io r s = appendJournalLocked io ?e s"
      using True inv(4) by (simp add: CreateAssignment_def Let_def)
    show ?thesis
    proof (rule appendJournal_cases [OF inv(4,1) io inv(5) acc])
      fix n snap
      assume a: "appendJournalLocked io ?e s = (None, commit ?e n snap s)"
        and n: "0 < n" "n \<le> assignmentJournalFrameMax"
        and snap: "snap = dk_snapshot (st_disk s) \<or> (\<exists>k. io_snapSeal io (inc_uint64 (st_sequence s)) = SealLength k
            \<and> snap = Some (snapshotBlob (sequenced ?e s) k))"
      have "store_inv (commit ?e n snap s)"
        by (rule store_inv_commit_fresh [OF s fresh n]) (use snap in blast)
      with wal_step_commit [OF acc n] a show ?thesis by (simp add: eq op_ok_def store_ok_def)
    next
      fix x items n
      assume "appendJournalLocked io ?e s = (Some x, poison x (appendWal items s))"
        "items = [] \<or> items = [WalTorn] \<or> items = [frameOf ?e s n]" "0 < n" "n \<le> assignmentJournalFrameMax"
      with wal_step_fault [OF acc] show ?thesis by (simp add: eq op_ok_def store_ok_def poison_def)
    qed
  next
    case False
    have "map_of (st_entries s) (messageID_of r) \<noteq> None"
      if "map_of (st_attempts s) (attemptID_of r) = Some (messageID_of r)"
      using that inv(5) unfolding journal_inv_def by force
    then have "snd (CreateAssignment io r s) = s"
      using False inv(4) by (auto simp: CreateAssignment_def Let_def split: option.splits)
    with op_ok_refl [OF s] show ?thesis by simp
  qed
qed

lemma AdvanceAssignment_ok:
  assumes s: "store_inv s" and io: "env_ok io"
  shows "op_ok s (snd (AdvanceAssignment io m next s))"
proof -
  note inv = store_inv_parts [OF s]
  show ?thesis
  proof (cases "\<exists>p. map_of (st_entries s) m = Some p \<and> \<not> je_Deleted p
      \<and> next \<noteq> AssignmentStateFinished \<and> next \<noteq> AssignmentStateResultACKed \<and> jr_State (je_Record p) \<noteq> next
      \<and> validateAssignmentStateTransition (jr_State (je_Record p)) next = None")
    case True
    then obtain p where p: "map_of (st_entries s) m = Some p" "\<not> je_Deleted p"
      "next \<noteq> AssignmentStateFinished" "next \<noteq> AssignmentStateResultACKed" "jr_State (je_Record p) \<noteq> next"
      and tr: "validateAssignmentStateTransition (jr_State (je_Record p)) next = None" by blast
    note e = journal_inv_entry [OF inv(5) p(1)]
    let ?r = "(je_Record p)\<lparr>jr_State := next, jr_UpdatedAt := nextNow io s\<rparr>"
    have nx: "nextRecord (je_Record p) ?r"
      by (rule nextRecord_state) (use e p tr io in \<open>auto simp: entry_ok_def transition_iff_step\<close>)
    note ne = nextEntry_live [OF _ p(2) nx, of s]
    have "op_ok s (snd (appendJournalLocked io (liveEntry ?r) s))"
      by (rule append_next_ok [OF s io ne]) (use e p in simp_all)
    moreover have "snd (AdvanceAssignment io m next s) = snd (appendJournalLocked io (liveEntry ?r) s)"
      using p tr inv(4) by (simp add: AdvanceAssignment_def Let_def split: prod.split option.split)
    ultimately show ?thesis by simp
  next
    case False
    then have "snd (AdvanceAssignment io m next s) = s"
      using inv(4) by (auto simp: AdvanceAssignment_def Let_def split: option.splits)
    with op_ok_refl [OF s] show ?thesis by simp
  qed
qed

lemma DeleteAssignment_ok:
  assumes s: "store_inv s" and io: "env_ok io"
  shows "op_ok s (snd (DeleteAssignment io m s))"
proof -
  note inv = store_inv_parts [OF s]
  show ?thesis
  proof (cases "\<exists>p. map_of (st_entries s) m = Some p \<and> \<not> je_Deleted p
      \<and> isAssignmentTerminal (jr_State (je_Record p))
      \<and> innerSeqs (attemptID_of (je_Record p)) s = [] \<and> map_of (st_results s) (attemptID_of (je_Record p)) = None")
    case True
    then obtain p where p: "map_of (st_entries s) m = Some p" "\<not> je_Deleted p"
      "isAssignmentTerminal (jr_State (je_Record p))" "innerSeqs (attemptID_of (je_Record p)) s = []"
      "map_of (st_results s) (attemptID_of (je_Record p)) = None" by blast
    note e = journal_inv_entry [OF inv(5) p(1)]
    let ?e = "p\<lparr>je_Deleted := True, je_Record := (je_Record p)\<lparr>jr_UpdatedAt := nextNow io s\<rparr>\<rparr>"
    have "nextRecord (je_Record p) (je_Record ?e)"
      using nextRecord_touch [of "je_Record p" "nextNow io s"] e io by (simp add: entry_ok_def)
    then have ne: "nextEntry ?e s" "map_of (st_entries s) (messageID_of (je_Record ?e)) = Some p"
      using p e by (auto simp: nextEntry_def)
    have def: "DeleteAssignment io m s = (case appendJournalLocked io ?e s of
          (Some x, t) \<Rightarrow> (Some x, t)
        | (None, t) \<Rightarrow> (case map_of (st_payloads t) (attemptID_of (je_Record p)) of
             Some q \<Rightarrow> removeAssignmentPayloadLocked io q t | None \<Rightarrow> (None, t)))"
      using p inv(4) by (simp add: DeleteAssignment_def Let_def isAssignmentTerminal_def)
    show ?thesis
    proof (rule append_next [OF s io ne])
      fix n snap
      let ?c = "commit ?e n snap s"
      assume a: "appendJournalLocked io ?e s = (None, ?c)" and c: "store_inv ?c" "op_ok s ?c"
      show ?thesis
      proof (cases "map_of (st_payloads ?c) (attemptID_of (je_Record p))")
        case None then show ?thesis using a c by (simp add: def)
      next
        case (Some q)
        have acc: "acceptable ?e s" using ne(1) by (simp add: acceptable_def)
        have "entryFor (attemptID_of (je_Record p)) ?c = Some ?e"
          by (simp add: entryFor_commit [OF inv(5) acc])
        from removePayload_ok [OF c(1) Some this, of io] a Some op_ok_then [OF c(2,1)]
        show ?thesis by (simp add: def)
      qed
    next
      fix x t assume "appendJournalLocked io ?e s = (Some x, t)" "op_ok s t"
      then show ?thesis by (simp add: def)
    qed (use p in simp_all)
  next
    case False
    then have "snd (DeleteAssignment io m s) = s"
      using inv(4) by (auto simp: DeleteAssignment_def Let_def isAssignmentTerminal_def split: option.splits)
    with op_ok_refl [OF s] show ?thesis by simp
  qed
qed

section \<open>Events\<close>

lemma op_ok_write_fault:
  assumes "same_log t s"
  shows "op_ok s (poison x t)"
  using assms wal_step_same_log [of "poison x t" s]
  by (simp add: op_ok_def store_ok_def poison_def same_log_def same_journal_def)

lemma same_log_writes:
  "same_log (writeEventFile p b s) s" "same_log (writeResultFile p c s) s" "same_log (writePayloadFile p d s) s"
  "same_log s s"
  by (simp_all add: same_log_def same_journal_def writeEventFile_def writeResultFile_def writePayloadFile_def)

lemma ensureSpoolWrite_writes:
  "ensureSpoolWriteLocked io p n (writeEventFile q b s) = ensureSpoolWriteLocked io p n s"
  "ensureSpoolWriteLocked io p n (writeResultFile q c s) = ensureSpoolWriteLocked io p n s"
  "ensureSpoolWriteLocked io p n (writePayloadFile q d s) = ensureSpoolWriteLocked io p n s"
  "acct_inv (writeEventFile q b s) = acct_inv s" "acct_inv (writeResultFile q c s) = acct_inv s"
  "acct_inv (writePayloadFile q d s) = acct_inv s"
  by (simp_all add: ensureSpoolWriteLocked_def writeEventFile_def writeResultFile_def writePayloadFile_def
      acct_inv_def limits_ok_def Let_def split: sum.split)

text \<open>The step after the file is on disk: a commit of an entry on the written state.\<close>

lemma append_written:
  assumes s: "store_inv s" and io: "env_ok io" and log: "same_log w s"
    and core: "store_core w" and ne: "nextEntry e w"
    and ok: "\<And>n snap. 0 < n \<Longrightarrow> n \<le> assignmentJournalFrameMax \<Longrightarrow>
      snap = dk_snapshot (st_disk s) \<or> (\<exists>j. snap = Some (snapshotBlob (sequenced e w) j)) \<Longrightarrow>
      store_inv (commit e n snap w)"
  obtains (commit) n snap where "appendJournalLocked io e w = (None, commit e n snap w)"
      "store_inv (commit e n snap w)" "op_ok s (commit e n snap w)"
    | (fault) x t where "appendJournalLocked io e w = (Some x, t)" "op_ok s t" "st_poisoned t \<noteq> None"
proof -
  note inv = store_core_parts [OF core]
  have acc: "acceptable e w" using ne by (simp add: acceptable_def)
  show thesis
  proof (rule appendJournal_cases [OF inv(4,1) io inv(5) acc])
    fix n snap
    assume a: "appendJournalLocked io e w = (None, commit e n snap w)"
      and n: "0 < n" "n \<le> assignmentJournalFrameMax"
      and snap: "snap = dk_snapshot (st_disk w) \<or> (\<exists>k. io_snapSeal io (inc_uint64 (st_sequence w)) = SealLength k
            \<and> snap = Some (snapshotBlob (sequenced e w) k))"
    have "store_inv (commit e n snap w)"
      by (rule ok [OF n]) (use snap log in \<open>auto simp: same_log_def\<close>)
    with wal_step_from [OF log wal_step_commit [OF acc n]] a commit
    show thesis by (simp add: op_ok_def store_ok_def)
  next
    fix x items n
    assume "appendJournalLocked io e w = (Some x, poison x (appendWal items w))"
      "items = [] \<or> items = [WalTorn] \<or> items = [frameOf e w n]" "0 < n" "n \<le> assignmentJournalFrameMax"
    with wal_step_from [OF log wal_step_fault [OF acc]] fault show thesis
      by (simp add: op_ok_def store_ok_def poison_def)
  qed
qed

abbreviation eventEntry :: "event_spool_record \<Rightarrow> journal_entry \<Rightarrow> time \<Rightarrow> journal_entry" where
  "eventEntry r p t \<equiv>
     liveEntry ((je_Record p)\<lparr>jr_LastClientEventSeq := ev_ClientEventSeq r, jr_UpdatedAt := t\<rparr>)"

lemma next_sequence:
  assumes "ack_wf rec" and "q = add64 (jr_LastClientEventSeq rec) 1" and "0 < q"
  shows "q = jr_LastClientEventSeq rec + 1" and "q \<le> maxInt64"
proof -
  have r: "0 \<le> jr_LastClientEventSeq rec" "jr_LastClientEventSeq rec \<le> maxInt64"
    using assms(1) by (auto simp: ack_wf_def)
  have "jr_LastClientEventSeq rec \<noteq> maxInt64"
    using assms(2,3) add64_succ_max by (auto simp: minInt64_def)
  with r assms(2) add64_succ [of "jr_LastClientEventSeq rec"]
  show "q = jr_LastClientEventSeq rec + 1" "q \<le> maxInt64" by auto
qed

lemma storeEvent_cases:
  assumes s: "store_inv s" and io: "env_ok io"
  obtains (same) x where "storeEventLocked io r s = (x, s)"
      "x = None \<Longrightarrow> map_of (st_events s) (ev_ClientEventID r) = Some r"
    | (fault) x t where "storeEventLocked io r s = (Some x, t)" "op_ok s t" "st_poisoned t \<noteq> None"
    | (commit) p k n snap t where "t \<noteq> 0"
      "storeEventLocked io r s = (None, commit (eventEntry r p t) n snap (eventWritten r k s))"
      "store_inv (commit (eventEntry r p t) n snap (eventWritten r k s))"
      "op_ok s (commit (eventEntry r p t) n snap (eventWritten r k s))"
      "nextEntry (eventEntry r p t) (eventWritten r k s)" "store_core (eventWritten r k s)"
      "assignmentForAttemptLocked (eventAttempt r) s = Inr p" "jr_Identity (je_Record p) = ev_Identity r"
      "jr_State (je_Record p) = AssignmentStateStarted" "map_of (st_events s) (ev_ClientEventID r) = None"
      "ev_ClientEventSeq r = jr_LastClientEventSeq (je_Record p) + 1"
proof -
  note inv = store_inv_parts [OF s]
  define guard where "guard \<longleftrightarrow> validateEventSpoolRecord r = None
    \<and> (\<exists>p. assignmentForAttemptLocked (eventAttempt r) s = Inr p \<and> jr_Identity (je_Record p) = ev_Identity r
        \<and> jr_State (je_Record p) = AssignmentStateStarted \<and> map_of (st_events s) (ev_ClientEventID r) = None
        \<and> ev_ClientEventSeq r = add64 (jr_LastClientEventSeq (je_Record p)) 1
        \<and> map_of (innerSeqs (eventAttempt r) s) (ev_ClientEventSeq r) = None)
    \<and> (\<exists>k. io_seal io = SealLength k \<and> k \<le> spoolDiskRecordMax
        \<and> ensureSpoolWriteLocked io (eventPath r) k s = None)"
  show thesis
  proof (cases guard)
    case False
    have "\<exists>x. storeEventLocked io r s = (x, s) \<and>
        (x = None \<longrightarrow> map_of (st_events s) (ev_ClientEventID r) = Some r)"
    proof (cases "validateEventSpoolRecord r = None \<and> (\<exists>p. assignmentForAttemptLocked (eventAttempt r) s = Inr p
        \<and> jr_Identity (je_Record p) = ev_Identity r \<and> jr_State (je_Record p) = AssignmentStateStarted
        \<and> map_of (st_events s) (ev_ClientEventID r) = None
        \<and> ev_ClientEventSeq r = add64 (jr_LastClientEventSeq (je_Record p)) 1
        \<and> map_of (innerSeqs (eventAttempt r) s) (ev_ClientEventSeq r) = None)")
      case True
      with False have k: "\<nexists>k. io_seal io = SealLength k \<and> k \<le> spoolDiskRecordMax
          \<and> ensureSpoolWriteLocked io (eventPath r) k s = None" by (simp add: guard_def)
      show ?thesis
      proof (cases "io_seal io")
        case (SealFails e)
        with True inv(1) show ?thesis by (auto simp: storeEventLocked_def sealRuntimeRecord_def Let_def)
      next
        case (SealLength k)
        with k have "k > spoolDiskRecordMax \<or> (\<exists>x. ensureSpoolWriteLocked io (eventPath r) k s = Some x)"
          by (cases "ensureSpoolWriteLocked io (eventPath r) k s") auto
        with True inv(1) SealLength show ?thesis
          by (auto simp: storeEventLocked_def seal_ok Let_def eventPath_def)
      qed
    next
      case False
      then show ?thesis
        by (auto simp: storeEventLocked_def split: option.split sum.split)
    qed
    then show thesis using same by blast
  next
    case True
    then obtain p k where v: "validateEventSpoolRecord r = None"
      and p: "assignmentForAttemptLocked (eventAttempt r) s = Inr p" "jr_Identity (je_Record p) = ev_Identity r"
        "jr_State (je_Record p) = AssignmentStateStarted"
      and fresh: "map_of (st_events s) (ev_ClientEventID r) = None"
        "map_of (innerSeqs (eventAttempt r) s) (ev_ClientEventSeq r) = None"
      and q: "ev_ClientEventSeq r = add64 (jr_LastClientEventSeq (je_Record p)) 1"
      and k: "io_seal io = SealLength k" "k \<le> spoolDiskRecordMax"
        "ensureSpoolWriteLocked io (eventPath r) k s = None" unfolding guard_def by blast
    have pos: "0 < ev_ClientEventSeq r" using v by (auto simp: validateEventSpoolRecord_def split: if_splits)
    have wf: "ack_wf (je_Record p)" using assignmentForAttempt_entry(3) [OF inv(5) p(1)] by (simp add: jr_wf_def)
    note seq = next_sequence [OF wf q pos]
    let ?f = "writeEventFile (eventPath r) (Sealed (st_key s) (eventHeader r) r k) s"
    let ?t = "nextNow io s"
    have tr: "trackSpoolFileLocked (eventPath r) k ?f = (None, tracked (eventPath r) k ?f)"
      by (rule ensureSpoolWrite_track(1) [where io = io]) (use inv(9) k(3) in \<open>simp_all add: ensureSpoolWrite_writes\<close>)
    have seqno: "st_sequence (tracked (eventPath r) k ?f) = st_sequence s"
      by (simp add: tracked_def writeEventFile_def)
    have def: "storeEventLocked io r s =
        (case io_write io of
           WriteFails x renamed \<Rightarrow> (Some x, poison x (if renamed then ?f else s))
         | WriteOk \<Rightarrow> appendJournalLocked io (eventEntry r p ?t) (eventWritten r k s))"
      using v p fresh q k inv(1) tr seqno
      by (simp add: storeEventLocked_def seal_ok Let_def eventPath_def [symmetric] eventHeader_def
          eventWritten_def split: write_outcome.split)
    have t: "?t \<noteq> 0" using io by simp
    note c = commit_event [OF s k(3) v fresh p seq t]
    note core = eventWritten_core [OF s k(3) v fresh]
    show thesis
    proof (cases "io_write io")
      case (WriteFails x renamed)
      show thesis
        by (rule fault [of x "poison x (if renamed then ?f else s)"])
          (use WriteFails def op_ok_write_fault same_log_writes in \<open>auto simp: poison_def\<close>)
    next
      case WriteOk
      show thesis
      proof (rule append_written [OF s io eventWritten_sel(1) core c(1) c(2)])
        fix n snap
        assume "appendJournalLocked io (eventEntry r p ?t) (eventWritten r k s) =
            (None, commit (eventEntry r p ?t) n snap (eventWritten r k s))"
          "store_inv (commit (eventEntry r p ?t) n snap (eventWritten r k s))"
          "op_ok s (commit (eventEntry r p ?t) n snap (eventWritten r k s))"
        then show thesis using commit [OF t _ _ _ c(1) core p fresh(1) seq(1)] def WriteOk by simp
      next
        fix x u assume "appendJournalLocked io (eventEntry r p ?t) (eventWritten r k s) = (Some x, u)"
          "op_ok s u" "st_poisoned u \<noteq> None"
        then show thesis using fault [of x u] def WriteOk by simp
      qed
    qed
  qed
qed

lemma storeEvent_ok:
  assumes s: "store_inv s" and io: "env_ok io"
  shows "op_ok s (snd (storeEventLocked io r s))"
  by (rule storeEvent_cases [OF s io, of r]) (simp_all add: op_ok_refl [OF s])

lemma AppendEvent_ok:
  assumes s: "store_inv s" and io: "env_ok io"
  shows "op_ok s (snd (AppendEvent io identity eventType payload s))"
proof -
  have "op_ok s t" if "storeEventLocked io r s = (x, t)" for r x t
    using storeEvent_ok [OF s io, of r] that by simp
  with op_ok_refl [OF s] show ?thesis
    by (auto simp: AppendEvent_def Let_def split: option.split sum.split prod.split)
qed

lemma StoreEvent_ok:
  assumes s: "store_inv s" and io: "env_ok io"
  shows "op_ok s (snd (StoreEvent io r s))"
  using op_ok_refl [OF s] storeEvent_ok [OF s io]
  by (simp add: StoreEvent_def Let_def split: option.split)

lemma AckEvent_ok:
  assumes s: "store_inv s" and io: "env_ok io"
  shows "op_ok s (snd (AckEvent io a i q s))"
proof (cases "0 < q \<and> (\<exists>e r. assignmentForAttemptLocked a s = Inr e \<and> map_of (st_events s) i = Some r
    \<and> eventAttempt r = a \<and> ev_ClientEventSeq r = q)")
  case False
  then have "snd (AckEvent io a i q s) = s"
    by (auto simp: AckEvent_def Let_def split: option.split sum.split)
  with op_ok_refl [OF s] show ?thesis by simp
next
  case True
  note inv = store_inv_parts [OF s]
  from True obtain e r where q: "0 < q" and e: "assignmentForAttemptLocked a s = Inr e"
    and r: "map_of (st_events s) i = Some r" "eventAttempt r = a" "ev_ClientEventSeq r = q" by blast
  note en = assignmentForAttempt_entry [OF inv(5) e] assignmentForAttempt_live [OF e]
  have wf: "ack_wf (je_Record e)" using en(3) by (simp add: jr_wf_def)
  have lr: "liveRecord (eventAttempt r) s = Some (je_Record e)" using assignmentForAttempt_record [OF e] r(2) by simp
  have isq: "map_of (innerSeqs a s) q = Some i" using index_inv_event(3) [OF inv(8) r(1)] r(2,3) by simp
  have le: "q \<le> jr_LastClientEventSeq (je_Record e)"
    using event_seq_range(2) [OF s isq assignmentForAttempt_record [OF e]] .
  have acked: "eventSequenceACKed (je_Record e) q \<longleftrightarrow> q \<in> ackedSet (je_Record e)"
    by (rule eventSequenceACKed_iff [OF wf]) (use q in simp)
  let ?T = "jr_State (je_Record e) = AssignmentStateResultACKed \<or> jr_State (je_Record e) = AssignmentStateRevoked"
  show ?thesis
  proof (cases "q \<in> ackedSet (je_Record e)")
    case True
    have "op_ok s (snd (removeEventLocked io r s))" if ?T
      using removeEvent_ok [OF s r(1) lr, of io] that True r(3) op_ok_same_log by (auto simp: released_def)
    then show ?thesis
      using inv(4) q e r True acked op_ok_refl [OF s] by (simp add: AckEvent_def Let_def)
  next
    case False
    let ?n = "(applyEventACK (je_Record e) q)\<lparr>jr_UpdatedAt := nextNow io s\<rparr>"
    have nx: "nextRecord (je_Record e) ?n"
      by (rule nextRecord_ack) (use en(3) io q le False in simp_all)
    note ne = nextEntry_live [OF en(1,5) nx]
    have acc: "acceptable (liveEntry ?n) s" using ne(1) by (simp add: acceptable_def)
    have def: "AckEvent io a i q s = (case appendJournalLocked io (liveEntry ?n) s of
        (Some x, t) \<Rightarrow> (Some x, t) | (None, t) \<Rightarrow> if ?T then removeEventLocked io r t else (None, t))"
      using inv(4) q e r False acked by (simp add: AckEvent_def Let_def)
    show ?thesis
    proof (rule append_next [OF s io ne])
      fix n snap let ?c = "commit (liveEntry ?n) n snap s"
      assume a: "appendJournalLocked io (liveEntry ?n) s = (None, ?c)" and c: "store_inv ?c" "op_ok s ?c"
      have "op_ok s (snd (removeEventLocked io r ?c))" if T: ?T
      proof -
        have "liveRecord (eventAttempt r) ?c = Some ?n"
          using r(2) en(2) by (simp add: liveRecord_commit [OF inv(5) acc])
        moreover have "released ?n (ev_ClientEventSeq r)"
          using applyEventACK_spec [OF wf _ le False] q T r(3) by (simp add: released_def ackedSet_def)
        ultimately show ?thesis
          using removeEvent_ok [OF c(1), of i r ?n io] r(1) op_ok_then [OF c(2,1)] by simp
      qed
      then show ?thesis using a c by (simp add: def)
    next
      fix x t assume "appendJournalLocked io (liveEntry ?n) s = (Some x, t)" "op_ok s t"
      then show ?thesis by (simp add: def)
    qed simp_all
  qed
qed

section \<open>Results\<close>

abbreviation resultEntry :: "result_spool_record \<Rightarrow> journal_entry \<Rightarrow> time \<Rightarrow> journal_entry" where
  "resultEntry r p t \<equiv>
     liveEntry ((je_Record p)\<lparr>jr_State := AssignmentStateFinished, jr_ResultID := rs_ResultID r,
       jr_FinalClientEventSeq := rs_FinalClientEventSeq r, jr_UpdatedAt := t\<rparr>)"

lemma storeResult_cases:
  assumes s: "store_inv s" and io: "env_ok io"
  obtains (same) x where "storeResultLocked io r s = (x, s)"
      "x = None \<Longrightarrow> map_of (st_results s) (ai_AttemptID (rs_Identity r)) = Some r"
    | (fault) x t where "storeResultLocked io r s = (Some x, t)" "op_ok s t" "st_poisoned t \<noteq> None"
    | (commit) p k n snap t where "t \<noteq> 0"
      "storeResultLocked io r s = (None, commit (resultEntry r p t) n snap (resultWritten r k s))"
      "store_inv (commit (resultEntry r p t) n snap (resultWritten r k s))"
      "op_ok s (commit (resultEntry r p t) n snap (resultWritten r k s))"
      "nextEntry (resultEntry r p t) (resultWritten r k s)" "store_core (resultWritten r k s)"
      "assignmentForAttemptLocked (ai_AttemptID (rs_Identity r)) s = Inr p"
      "jr_Identity (je_Record p) = rs_Identity r" "jr_State (je_Record p) = AssignmentStateStarted"
      "map_of (st_results s) (ai_AttemptID (rs_Identity r)) = None"
      "rs_FinalClientEventSeq r = jr_LastClientEventSeq (je_Record p)"
proof -
  note inv = store_inv_parts [OF s]
  let ?a = "ai_AttemptID (rs_Identity r)"
  define ready where "ready \<longleftrightarrow> validateResultSpoolRecord r = None
    \<and> (\<exists>p. assignmentForAttemptLocked ?a s = Inr p \<and> jr_Identity (je_Record p) = rs_Identity r
        \<and> map_of (st_results s) ?a = None \<and> jr_State (je_Record p) = AssignmentStateStarted
        \<and> rs_FinalClientEventSeq r = jr_LastClientEventSeq (je_Record p))"
  define fits where "fits \<longleftrightarrow> (\<exists>k. io_seal io = SealLength k \<and> k \<le> spoolDiskRecordMax
        \<and> ensureSpoolWriteLocked io (resultPath r) k s = None)"
  show thesis
  proof (cases "ready \<and> fits")
    case False
    have "\<exists>x. storeResultLocked io r s = (x, s) \<and> (x = None \<longrightarrow> map_of (st_results s) ?a = Some r)"
    proof (cases ready)
      case rdy: True
      show ?thesis
      proof (cases "io_seal io")
        case (SealFails e)
        with rdy inv(1) show ?thesis
          by (auto simp: ready_def storeResultLocked_def sealRuntimeRecord_def Let_def)
      next
        case (SealLength k)
        with rdy False have "k > spoolDiskRecordMax \<or> (\<exists>x. ensureSpoolWriteLocked io (resultPath r) k s = Some x)"
          by (cases "ensureSpoolWriteLocked io (resultPath r) k s") (auto simp: fits_def)
        with rdy inv(1) SealLength show ?thesis
          by (auto simp: ready_def storeResultLocked_def seal_ok Let_def resultPath_def)
      qed
    next
      case False
      then show ?thesis
        by (auto simp: ready_def storeResultLocked_def split: option.split sum.split)
    qed
    then show thesis using same by blast
  next
    case True
    then obtain p k where v: "validateResultSpoolRecord r = None"
      and p: "assignmentForAttemptLocked ?a s = Inr p" "jr_Identity (je_Record p) = rs_Identity r"
        "jr_State (je_Record p) = AssignmentStateStarted"
      and fresh: "map_of (st_results s) ?a = None"
      and q: "rs_FinalClientEventSeq r = jr_LastClientEventSeq (je_Record p)"
      and k: "io_seal io = SealLength k" "k \<le> spoolDiskRecordMax"
        "ensureSpoolWriteLocked io (resultPath r) k s = None" unfolding ready_def fits_def by blast
    let ?f = "writeResultFile (resultPath r) (Sealed (st_key s) (resultHeader r) r k) s"
    let ?t = "nextNow io s"
    have tr: "trackSpoolFileLocked (resultPath r) k ?f = (None, tracked (resultPath r) k ?f)"
      by (rule ensureSpoolWrite_track(1) [where io = io]) (use inv(9) k(3) in \<open>simp_all add: ensureSpoolWrite_writes\<close>)
    have seqno: "st_sequence (tracked (resultPath r) k ?f) = st_sequence s"
      by (simp add: tracked_def writeResultFile_def)
    have def: "storeResultLocked io r s =
        (case io_write io of
           WriteFails x renamed \<Rightarrow> (Some x, poison x (if renamed then ?f else s))
         | WriteOk \<Rightarrow> appendJournalLocked io (resultEntry r p ?t) (resultWritten r k s))"
      using v p fresh q k inv(1) tr seqno
      by (simp add: storeResultLocked_def seal_ok Let_def resultPath_def [symmetric] resultHeader_def
          resultWritten_def split: write_outcome.split)
    have t: "?t \<noteq> 0" using io by simp
    note c = commit_result [OF s k(3) v fresh p q t]
    note core = resultWritten_core [OF s k(3) fresh]
    show thesis
    proof (cases "io_write io")
      case (WriteFails x renamed)
      show thesis
        by (rule fault [of x "poison x (if renamed then ?f else s)"])
          (use WriteFails def op_ok_write_fault same_log_writes in \<open>auto simp: poison_def\<close>)
    next
      case WriteOk
      show thesis
      proof (rule append_written [OF s io resultWritten_sel(1) core c(1) c(2)])
        fix n snap
        assume "appendJournalLocked io (resultEntry r p ?t) (resultWritten r k s) =
            (None, commit (resultEntry r p ?t) n snap (resultWritten r k s))"
          "store_inv (commit (resultEntry r p ?t) n snap (resultWritten r k s))"
          "op_ok s (commit (resultEntry r p ?t) n snap (resultWritten r k s))"
        then show thesis using commit [OF t _ _ _ c(1) core p fresh q] def WriteOk by simp
      next
        fix x u assume "appendJournalLocked io (resultEntry r p ?t) (resultWritten r k s) = (Some x, u)"
          "op_ok s u" "st_poisoned u \<noteq> None"
        then show thesis using fault [of x u] def WriteOk by simp
      qed
    qed
  qed
qed

lemma storeResult_ok:
  assumes s: "store_inv s" and io: "env_ok io"
  shows "op_ok s (snd (storeResultLocked io r s))"
  by (rule storeResult_cases [OF s io, of r]) (simp_all add: op_ok_refl [OF s])

lemma AppendResult_ok:
  assumes s: "store_inv s" and io: "env_ok io"
  shows "op_ok s (snd (AppendResult io identity status payload s))"
proof -
  have "op_ok s t" if "storeResultLocked io r s = (x, t)" for r x t
    using storeResult_ok [OF s io, of r] that by simp
  with op_ok_refl [OF s] show ?thesis
    by (auto simp: AppendResult_def Let_def split: option.split sum.split prod.split)
qed

lemma StoreResult_ok:
  assumes s: "store_inv s" and io: "env_ok io"
  shows "op_ok s (snd (StoreResult io r s))"
  using op_ok_refl [OF s] storeResult_ok [OF s io]
  by (simp add: StoreResult_def Let_def split: option.split)

text \<open>Dropping the result and the events of an attempt that no longer needs them.\<close>

definition releaseAttempt :: "io \<Rightarrow> string \<Rightarrow> result_spool_record option \<Rightarrow> store \<Rightarrow> go_error option \<times> store" where
  "releaseAttempt io a r s =
     (case (case r of Some x \<Rightarrow> removeResultLocked io x s | None \<Rightarrow> (None, s)) of
        (Some e, t) \<Rightarrow> (Some e, t)
      | (None, t) \<Rightarrow> removeAttemptEventsLocked io a t)"

lemma releaseAttempt_ok:
  assumes s: "store_inv s" and rec: "liveRecord a s = Some rec"
    and st: "jr_State rec \<in> {AssignmentStateResultACKed, AssignmentStateRevoked}" and all: "allAcked a s"
    and r: "\<And>x. r = Some x \<Longrightarrow> map_of (st_results s) a = Some x"
  shows "store_inv (snd (releaseAttempt io a r s)) \<and> same_log (snd (releaseAttempt io a r s)) s"
proof -
  obtain err t where t: "(case r of Some x \<Rightarrow> removeResultLocked io x s | None \<Rightarrow> (None, s)) = (err, t)"
    by (cases "case r of Some x \<Rightarrow> removeResultLocked io x s | None \<Rightarrow> (None, s)")
  have ok: "store_inv t \<and> same_log t s"
  proof (cases r)
    case None then show ?thesis using t s by (simp add: same_log_def)
  next
    case (Some x)
    then show ?thesis using t removeResult_ok [OF s r [OF Some] rec st, of io] by simp
  qed
  have lr: "liveRecord a t = Some rec" using same_log_inv(5) [of t s] ok rec by simp
  have al: "allAcked a t" using all rec lr by (simp add: allAcked_def)
  have "store_inv (snd (removeAttemptEventsLocked io a t)) \<and> same_log (snd (removeAttemptEventsLocked io a t)) t"
    using removeAttemptEvents_ok [OF _ lr st al, of io] ok by simp
  with ok t show ?thesis
    by (cases err) (auto simp: releaseAttempt_def intro: same_log_trans)
qed

lemma AckResult_ok:
  assumes s: "store_inv s" and io: "env_ok io" and all: "allAcked a s"
  shows "op_ok s (snd (AckResult io a i s))"
proof (cases "assignmentForAttemptLocked a s")
  case (Inl x)
  then show ?thesis using op_ok_refl [OF s] store_inv_parts(4) [OF s] by (simp add: AckResult_def)
next
  case (Inr e)
  note inv = store_inv_parts [OF s]
  note en = assignmentForAttempt_entry [OF inv(5) Inr] assignmentForAttempt_live [OF Inr]
  note lr = assignmentForAttempt_record [OF Inr]
  let ?st = "jr_State (je_Record e)"
  have rel: "op_ok s (snd (releaseAttempt io a r s))"
    if "?st = AssignmentStateResultACKed \<or> ?st = AssignmentStateRevoked"
      "\<And>x. r = Some x \<Longrightarrow> map_of (st_results s) a = Some x" for r
    using releaseAttempt_ok [OF s lr _ all, of r io] that op_ok_same_log by auto
  show ?thesis
  proof (cases "?st = AssignmentStateResultACKed")
    case True
    then have "AckResult io a i s = (if jr_ResultID (je_Record e) \<noteq> i then (Some ErrSpoolRecordConflict, s)
        else releaseAttempt io a (map_of (st_results s) a) s)"
      using inv(4) Inr by (simp add: AckResult_def releaseAttempt_def)
    then show ?thesis using rel [of "map_of (st_results s) a"] True op_ok_refl [OF s] by simp
  next
    case False
    show ?thesis
    proof (cases "map_of (st_results s) a")
      case None
      then show ?thesis using False inv(4) Inr op_ok_refl [OF s] by (simp add: AckResult_def)
    next
      case (Some r)
      let ?n = "(je_Record e)\<lparr>jr_State := AssignmentStateResultACKed, jr_UpdatedAt := nextNow io s\<rparr>"
      have def: "AckResult io a i s =
          (if ?st = AssignmentStateRevoked
           then (if rs_ResultID r \<noteq> i \<or> jr_ResultID (je_Record e) \<noteq> i then (Some ErrSpoolRecordConflict, s)
                 else releaseAttempt io a (Some r) s)
           else if ?st \<noteq> AssignmentStateFinished \<or> rs_ResultID r \<noteq> i \<or> jr_ResultID (je_Record e) \<noteq> i
           then (Some ErrSpoolRecordConflict, s)
           else case appendJournalLocked io (liveEntry ?n) s of
                  (Some x, t) \<Rightarrow> (Some x, t) | (None, t) \<Rightarrow> releaseAttempt io a (Some r) t)"
        unfolding AckResult_def releaseAttempt_def option.case using False inv(4) Inr Some by simp
      show ?thesis
      proof (cases "?st = AssignmentStateFinished \<and> rs_ResultID r = i \<and> jr_ResultID (je_Record e) = i")
        case False
        then show ?thesis using def rel [of "Some r"] Some op_ok_refl [OF s] by simp
      next
        case fin: True
        have nx: "nextRecord (je_Record e) ?n"
          by (rule nextRecord_result_acked) (use en(3) io fin in simp_all)
        note ne = nextEntry_live [OF en(1,5) nx]
        have acc: "acceptable (liveEntry ?n) s" using ne(1) by (simp add: acceptable_def)
        show ?thesis
        proof (rule append_next [OF s io ne])
          fix n snap let ?c = "commit (liveEntry ?n) n snap s"
          assume ap: "appendJournalLocked io (liveEntry ?n) s = (None, ?c)" and c: "store_inv ?c" "op_ok s ?c"
          have l: "liveRecord a ?c = Some ?n" using en(2) by (simp add: liveRecord_commit [OF inv(5) acc])
          have "allAcked a ?c" using all lr l by (simp add: allAcked_def ackedSet_def)
          from releaseAttempt_ok [OF c(1) l _ this, of "Some r" io] Some op_ok_then [OF c(2,1)] ap fin
          show ?thesis by (simp add: def)
        next
          fix x t assume "appendJournalLocked io (liveEntry ?n) s = (Some x, t)" "op_ok s t"
          then show ?thesis using fin by (simp add: def)
        qed simp_all
      qed
    qed
  qed
qed

lemma ClearTerminalEvents_ok:
  assumes s: "store_inv s" and all: "allAcked a s"
  shows "op_ok s (snd (ClearTerminalEvents io a s))"
proof (cases "assignmentForAttemptLocked a s")
  case (Inl x)
  then show ?thesis using op_ok_refl [OF s] store_inv_parts(4) [OF s] by (simp add: ClearTerminalEvents_def)
next
  case (Inr e)
  note lr = assignmentForAttempt_record [OF Inr]
  have "op_ok s (snd (removeAttemptEventsLocked io a s))"
    if "jr_State (je_Record e) = AssignmentStateResultACKed \<or> jr_State (je_Record e) = AssignmentStateRevoked"
    using removeAttemptEvents_ok [OF s lr _ all, of io] that op_ok_same_log by auto
  then show ?thesis
    using Inr op_ok_refl [OF s] store_inv_parts(4) [OF s] by (auto simp: ClearTerminalEvents_def)
qed

section \<open>Assignment payloads\<close>

lemma storePayload_ok:
  assumes s: "store_inv s"
  shows "op_ok s (snd (storeAssignmentPayloadLocked io p s))"
proof -
  note inv = store_inv_parts [OF s]
  let ?a = "ai_AttemptID (pl_Identity p)"
  show ?thesis
  proof (cases "validateAssignmentPayload p = None \<and> (\<exists>e. assignmentForAttemptLocked ?a s = Inr e
      \<and> jr_Identity (je_Record e) = pl_Identity p \<and> jr_State (je_Record e) \<in> {AssignmentStateReceived,
        AssignmentStateACKSent, AssignmentStateConfirmed, AssignmentStateStarted, AssignmentStateFinished})
      \<and> map_of (st_payloads s) ?a = None \<and> (\<exists>k. io_seal io = SealLength k \<and> k \<le> spoolDiskRecordMax
        \<and> ensureSpoolWriteLocked io (payloadPath p) k s = None)")
    case True
    then obtain e k where v: "validateAssignmentPayload p = None"
      and e: "assignmentForAttemptLocked ?a s = Inr e" "jr_Identity (je_Record e) = pl_Identity p"
      and st: "jr_State (je_Record e) \<in> {AssignmentStateReceived,
        AssignmentStateACKSent, AssignmentStateConfirmed, AssignmentStateStarted, AssignmentStateFinished}"
      and fresh: "map_of (st_payloads s) ?a = None"
      and k: "io_seal io = SealLength k" "k \<le> spoolDiskRecordMax"
        "ensureSpoolWriteLocked io (payloadPath p) k s = None" by blast
    let ?f = "writePayloadFile (payloadPath p) (Sealed (st_key s) (payloadHeader p) p k) s"
    have tr: "trackSpoolFileLocked (payloadPath p) k ?f = (None, tracked (payloadPath p) k ?f)"
      by (rule ensureSpoolWrite_track(1) [where io = io]) (use inv(9) k(3) in \<open>simp_all add: ensureSpoolWrite_writes\<close>)
    have def: "storeAssignmentPayloadLocked io p s =
        (case io_write io of
           WriteFails x renamed \<Rightarrow> (Some x, poison x (if renamed then ?f else s))
         | WriteOk \<Rightarrow> (None, payloadWritten p k s))"
      using v e st fresh k inv(1) tr
      by (auto simp: storeAssignmentPayloadLocked_def seal_ok Let_def payloadPath_def [symmetric]
          payloadHeader_def payloadWritten_def split: write_outcome.split)
    have "store_inv (payloadWritten p k s)"
      by (rule payloadWritten_inv [OF s k(3) fresh v _ e(2)]) (use e(1) in \<open>simp add: assignmentForAttempt_iff\<close>)
    then show ?thesis
      using op_ok_same_log [OF payloadWritten_sel(1)] op_ok_write_fault same_log_writes
      by (auto simp: def split: write_outcome.split)
  next
    case False
    have "snd (storeAssignmentPayloadLocked io p s) = s"
    proof (cases "io_seal io")
      case (SealFails x)
      then show ?thesis using inv(1)
        by (auto simp: storeAssignmentPayloadLocked_def sealRuntimeRecord_def Let_def split: option.split sum.split)
    next
      case (SealLength k)
      with False have "k > spoolDiskRecordMax \<or> ensureSpoolWriteLocked io (payloadPath p) k s \<noteq> None
          \<or> \<not> (validateAssignmentPayload p = None \<and> (\<exists>e. assignmentForAttemptLocked ?a s = Inr e
      \<and> jr_Identity (je_Record e) = pl_Identity p \<and> jr_State (je_Record e) \<in> {AssignmentStateReceived,
        AssignmentStateACKSent, AssignmentStateConfirmed, AssignmentStateStarted, AssignmentStateFinished})
      \<and> map_of (st_payloads s) ?a = None)" by auto
      then show ?thesis using inv(1)
        by (auto simp: storeAssignmentPayloadLocked_def SealLength seal_ok Let_def payloadPath_def [symmetric]
            split: option.split sum.split)
    qed
    with op_ok_refl [OF s] show ?thesis by simp
  qed
qed

lemma StoreAssignmentPayload_ok:
  assumes s: "store_inv s"
  shows "op_ok s (snd (StoreAssignmentPayload io p s))"
  using op_ok_refl [OF s] storePayload_ok [OF s]
  by (simp add: StoreAssignmentPayload_def Let_def split: option.split)

end
