(* ===== verification/Store_Reachable.thy ===== *)
theory Store_Reachable
  imports Store_Calls
begin

text \<open>
  The store as a transition system: a call of a public method is a step, the states a
  sequence of calls reaches satisfy the invariant, and the log on disk is at every moment the
  journal before or after the call.
\<close>

section \<open>Calls\<close>

datatype store_op =
    OpCreate journal_record
  | OpAdvance string assignment_state
  | OpDelete string
  | OpAppendEvent attempt_identity string bytes
  | OpStoreEvent event_spool_record
  | OpAckEvent string string int
  | OpAppendResult attempt_identity string bytes
  | OpStoreResult result_spool_record
  | OpAckResult string string
  | OpClearEvents string
  | OpStorePayload assignment_payload
  | OpClose

fun run_op :: "io \<Rightarrow> store_op \<Rightarrow> store \<Rightarrow> store" where
  "run_op io (OpCreate r) s = snd (CreateAssignment io r s)"
| "run_op io (OpAdvance m st) s = snd (AdvanceAssignment io m st s)"
| "run_op io (OpDelete m) s = snd (DeleteAssignment io m s)"
| "run_op io (OpAppendEvent i t p) s = snd (AppendEvent io i t p s)"
| "run_op io (OpStoreEvent r) s = snd (StoreEvent io r s)"
| "run_op io (OpAckEvent a i q) s = snd (AckEvent io a i q s)"
| "run_op io (OpAppendResult i st p) s = snd (AppendResult io i st p s)"
| "run_op io (OpStoreResult r) s = snd (StoreResult io r s)"
| "run_op io (OpAckResult a i) s = snd (AckResult io a i s)"
| "run_op io (OpClearEvents a) s = snd (ClearTerminalEvents io a s)"
| "run_op io (OpStorePayload p) s = snd (StoreAssignmentPayload io p s)"
| "run_op io OpClose s = Close s"

text \<open>
  What the worker observes before it drops the spool of an attempt: \<^verbatim>\<open>flushAttemptSpool\<close> and
  \<^verbatim>\<open>retireTerminalAttempt\<close> call \<^verbatim>\<open>AckResult\<close> and \<^verbatim>\<open>ClearTerminalEvents\<close> only once no event is
  pending.
\<close>

fun disciplined :: "store_op \<Rightarrow> store \<Rightarrow> bool" where
  "disciplined (OpAckResult a i) s = allAcked a s"
| "disciplined (OpClearEvents a) s = allAcked a s"
| "disciplined _ s = True"

lemma run_op_not_ready:
  assumes "readyLocked s \<noteq> None"
  shows "run_op io op s = s \<or> op = OpClose"
  using assms
  by (cases op) (auto simp: CreateAssignment_def AdvanceAssignment_def DeleteAssignment_def AppendEvent_def
      StoreEvent_def AckEvent_def AppendResult_def StoreResult_def AckResult_def ClearTerminalEvents_def
      StoreAssignmentPayload_def split: option.splits)

section \<open>The session identity\<close>

definition session_ok :: "store \<Rightarrow> bool" where
  "session_ok s \<longleftrightarrow> st_workerID s = ri_WorkerID (st_identity s)"

definition same_session :: "store \<Rightarrow> store \<Rightarrow> bool" where
  "same_session t s \<longleftrightarrow> st_workerID t = st_workerID s \<and> st_identity t = st_identity s
     \<and> dk_identity (st_disk t) = dk_identity (st_disk s) \<and> dk_spoolKey (st_disk t) = dk_spoolKey (st_disk s)"

lemma same_session_refl [simp]: "same_session s s"
  by (simp add: same_session_def)

lemma same_session_trans: "same_session u t \<Longrightarrow> same_session t s \<Longrightarrow> same_session u s"
  by (simp add: same_session_def)

lemma session_apply: "applyJournalEntryLocked e s = (x, t) \<Longrightarrow> same_session t s"
  using apply_shape [of e s] by (auto simp: same_session_def applied_def)

lemma session_snapshot: "same_session (snd (writeJournalSnapshotLocked io s)) s"
  by (auto simp: writeJournalSnapshotLocked_def same_session_def split: sum.split write_outcome.split)

lemma session_append: "appendJournalLocked io e s = (x, t) \<Longrightarrow> same_session t s"
  using session_snapshot
  by (auto simp: appendJournalLocked_def Let_def same_session_def poison_def appendWal_def
      split: option.splits sum.splits if_splits wal_outcome.splits prod.splits
      dest!: session_apply)

lemma session_remove: "removeSpoolFileLocked io p s = (x, t) \<Longrightarrow> same_session t s"
  by (auto simp: removeSpoolFileLocked_def durableRemove_def diskRemove_def same_session_def Let_def
      split: prod.splits option.splits if_splits remove_outcome.splits)

lemma session_track: "trackSpoolFileLocked p n s = (x, t) \<Longrightarrow> same_session t s"
  by (auto simp: trackSpoolFileLocked_def same_session_def split: option.splits if_splits)

lemma session_removeEvent: "removeEventLocked io r s = (x, t) \<Longrightarrow> same_session t s"
  by (auto simp: removeEventLocked_def unindexEvent_def Let_def same_session_def
      split: prod.splits option.splits if_splits dest!: session_remove)

lemma session_removeResult: "removeResultLocked io r s = (x, t) \<Longrightarrow> same_session t s"
  by (auto simp: removeResultLocked_def same_session_def
      split: prod.splits option.splits if_splits dest!: session_remove)

lemma session_removePayload: "removeAssignmentPayloadLocked io r s = (x, t) \<Longrightarrow> same_session t s"
  by (auto simp: removeAssignmentPayloadLocked_def same_session_def
      split: prod.splits option.splits if_splits dest!: session_remove)

lemma session_removeSequences: "removeSequencesLoop io a qs s = (x, t) \<Longrightarrow> same_session t s"
proof (induction qs arbitrary: s)
  case (Cons q qs)
  then show ?case
    by (auto simp: Let_def split: prod.splits option.splits
        dest: session_removeEvent intro: same_session_trans)
qed simp

lemmas session_steps = session_append session_removeEvent session_removeResult session_removePayload
  session_removeSequences session_track

lemma session_storeEvent: "storeEventLocked io r s = (x, t) \<Longrightarrow> same_session t s"
  unfolding storeEventLocked_def Let_def
  by (auto split: option.splits sum.splits if_splits write_outcome.splits prod.splits
      dest!: session_steps simp: same_session_def writeEventFile_def writeResultFile_def
        writePayloadFile_def poison_def indexEvent_def Let_def)

lemma session_storeResult: "storeResultLocked io r s = (x, t) \<Longrightarrow> same_session t s"
  unfolding storeResultLocked_def Let_def
  by (auto split: option.splits sum.splits if_splits write_outcome.splits prod.splits
      dest!: session_steps simp: same_session_def writeEventFile_def writeResultFile_def
        writePayloadFile_def poison_def indexEvent_def Let_def)

lemma session_storePayload: "storeAssignmentPayloadLocked io r s = (x, t) \<Longrightarrow> same_session t s"
  unfolding storeAssignmentPayloadLocked_def Let_def
  by (auto split: option.splits sum.splits if_splits write_outcome.splits prod.splits
      dest!: session_steps simp: same_session_def writeEventFile_def writeResultFile_def
        writePayloadFile_def poison_def indexEvent_def Let_def)

lemma session_run_op: "same_session (run_op io op s) s"
proof (cases op)
  case (OpCreate r)
  then show ?thesis
    using session_append [OF prod.collapse [symmetric]]
    by (auto simp: CreateAssignment_def Let_def split: option.split)
next
  case (OpAdvance m st)
  then show ?thesis
    by (auto simp: AdvanceAssignment_def Let_def split: option.split prod.split dest: session_append)
next
  case (OpDelete m)
  then show ?thesis
    by (auto simp: DeleteAssignment_def Let_def split: option.split prod.split
        dest: session_append intro: same_session_trans)
       (metis prod.collapse same_session_trans session_append session_removePayload)+
next
  case (OpAppendEvent i t p)
  then show ?thesis
    by (auto simp: AppendEvent_def Let_def split: option.split sum.split prod.split dest: session_storeEvent)
next
  case (OpStoreEvent r)
  then show ?thesis
    by (auto simp: StoreEvent_def Let_def split: option.split) (metis prod.collapse session_storeEvent)+
next
  case (OpAckEvent a i q)
  then show ?thesis
    by (auto simp: AckEvent_def Let_def split: option.split sum.split prod.split dest: session_append)
       (metis prod.collapse same_session_trans session_append session_removeEvent)+
next
  case (OpAppendResult i st p)
  then show ?thesis
    by (auto simp: AppendResult_def Let_def split: option.split sum.split prod.split dest: session_storeResult)
next
  case (OpStoreResult r)
  then show ?thesis
    by (auto simp: StoreResult_def Let_def split: option.split) (metis prod.collapse session_storeResult)+
next
  case (OpAckResult a i)
  then show ?thesis
    by (auto simp: AckResult_def removeAttemptEventsLocked_def Let_def
        split: option.split sum.split prod.split dest: session_append session_removeResult
        intro: same_session_trans)
       (metis prod.collapse same_session_trans session_append session_removeResult session_removeSequences)+
next
  case (OpClearEvents a)
  then show ?thesis
    by (auto simp: ClearTerminalEvents_def removeAttemptEventsLocked_def split: option.split sum.split)
       (metis prod.collapse session_removeSequences)+
next
  case (OpStorePayload p)
  then show ?thesis
    by (auto simp: StoreAssignmentPayload_def Let_def split: option.split) (metis prod.collapse session_storePayload)+
next
  case OpClose
  then show ?thesis by (simp add: Close_def same_session_def)
qed

section \<open>Reachable states\<close>

lemma run_op_ok:
  assumes s: "store_inv s" and "session_ok s" and io: "env_ok io" and d: "disciplined op s"
  shows "store_ok (run_op io op s)" and "op \<noteq> OpClose \<Longrightarrow> wal_step s (run_op io op s)"
proof -
  have "op_ok s (run_op io op s) \<or> op = OpClose"
    using assms CreateAssignment_ok [OF s io] AdvanceAssignment_ok [OF s io] DeleteAssignment_ok [OF s io]
      AppendEvent_ok [OF s io] StoreEvent_ok [OF s io] AckEvent_ok [OF s io] AppendResult_ok [OF s io]
      StoreResult_ok [OF s io] AckResult_ok [OF s io] ClearTerminalEvents_ok [OF s]
      StoreAssignmentPayload_ok [OF s]
    by (cases op) (simp_all add: session_ok_def)
  then show "store_ok (run_op io op s)" "op \<noteq> OpClose \<Longrightarrow> wal_step s (run_op io op s)"
    using s by (auto simp: op_ok_def store_ok_def Close_def split: if_splits)
qed

inductive store_reach :: "store \<Rightarrow> store \<Rightarrow> bool" where
  start: "store_reach s s"
| call: "store_reach s t \<Longrightarrow> env_ok io \<Longrightarrow> disciplined op t \<Longrightarrow> store_reach s (run_op io op t)"

lemma store_ok_run:
  assumes "store_ok s" "session_ok s" "env_ok io" "disciplined op s"
  shows "store_ok (run_op io op s) \<and> session_ok (run_op io op s)"
proof -
  have sess: "session_ok (run_op io op s)"
    using assms(2) session_run_op [of io op s] by (simp add: session_ok_def same_session_def)
  show ?thesis
  proof (cases "readyLocked s = None")
    case True
    then have "store_inv s" using assms(1) by (auto simp: store_ok_def readyLocked_def split: if_splits option.splits)
    with run_op_ok(1) assms sess show ?thesis by blast
  next
    case False
    then have "store_ok (run_op io op s)"
      using run_op_not_ready [OF False, of io op] assms(1)
      by (auto simp: store_ok_def Close_def readyLocked_def split: if_splits option.splits)
    with sess show ?thesis by simp
  qed
qed

lemma store_reach_ok:
  assumes "store_reach s t" "store_ok s" "session_ok s"
  shows "store_ok t \<and> session_ok t"
  using assms by (induction rule: store_reach.induct) (auto simp: store_ok_run)

lemma store_reach_ready:
  assumes "store_reach s t" "store_inv s" "session_ok s" "readyLocked t = None"
  shows "store_inv t"
  using store_reach_ok [OF assms(1) _ assms(3)] assms(2,4)
  by (auto simp: store_ok_def readyLocked_def split: if_splits option.splits)

section \<open>A fresh data directory\<close>

lemma store_inv_blank:
  assumes "length key = runtimeSpoolKeyBytes" and "dk_wal d = []" "dk_snapshot d = None"
    "dk_assignments d = []" "dk_events d = []" "dk_results d = []"
  shows "store_inv (emptyStore d key w)"
  using assms
  by (simp add: store_inv_def emptyStore_def journal_inv_def wal_inv_def log_refines_def same_journal_def
      snap_inv_def index_inv_def innerSeqs_def acct_inv_def limits_ok_def disk_inv_def evk.files_ok_def
      rsk.files_ok_def plk.files_ok_def event_links_def result_links_def payload_links_def record_links_def
      liveRecord_def entryFor_def maxInt64_def runtimeSpoolMaximumBytes_def runtimeSpoolMaximumRecords_def
      runtimeSpoolControlReserveBytes_def)

lemma store_inv_restart:
  assumes s: "store_inv s" and d: "dk_wal d = dk_wal (st_disk s)" "dk_assignments d = dk_assignments (st_disk s)"
    "dk_events d = dk_events (st_disk s)" "dk_results d = dk_results (st_disk s)"
    and snap: "dk_snapshot d = dk_snapshot (st_disk s) \<or> (\<exists>n. dk_snapshot d = Some (snapshotBlob s n))"
  shows "store_inv (s\<lparr>st_disk := d, st_identity := i\<rparr>)"
proof -
  let ?t = "s\<lparr>st_disk := d, st_identity := i\<rparr>"
  note inv = store_inv_parts [OF s]
  have j: "same_journal ?t s" by (simp add: same_journal_def)
  have ef: "entryFor a ?t = entryFor a s" "liveRecord a ?t = liveRecord a s" for a
    by (rule entryFor_cong, simp_all, rule liveRecord_cong) simp_all
  have inner: "innerSeqs a ?t = innerSeqs a s" for a by (rule innerSeqs_cong) simp
  show ?thesis
  proof (rule store_inv_intro)
    show "wal_inv ?t" using inv(6) log_refines_cong [OF j] d by (simp add: wal_inv_def)
    show "snap_inv ?t"
    proof (cases "dk_snapshot d = dk_snapshot (st_disk s)")
      case True then show ?thesis using inv(7) d by (simp add: snap_inv_def)
    next
      case False
      with snap obtain n where n: "dk_snapshot d = Some (snapshotBlob s n)" by blast
      from inv(6) obtain t where t: "replayAll (dk_wal (st_disk s)) (blankStore (st_key s) (st_workerID s)) = Some t"
        "same_journal t s" by (auto simp: wal_inv_def log_refines_def)
      have "snapshotBlob s n = snapshotBlob t n"
        using t(2) by (simp add: snapshotBlob_def journalSnapshotOf_def same_journal_def)
      with n t(1) d show ?thesis unfolding snap_inv_def
        by (auto intro!: exI [of _ "length (dk_wal (st_disk s))"] exI [of _ t] exI [of _ n])
    qed
    show "journal_inv ?t" using inv(5) by (simp add: journal_inv_def)
    show "index_inv ?t" using inv(8) index_inv_cong [of ?t s] by simp
    show "acct_inv ?t" using inv(9) acct_inv_cong [of ?t s] by simp
    show "disk_inv ?t" using inv(10) d by (simp add: disk_inv_def)
    show "event_links ?t" using inv(11) unfolding event_links_def ef by (simp add: d)
    show "result_links ?t" using inv(12) unfolding result_links_def ef by (simp add: d)
    show "payload_links ?t" using inv(13) unfolding payload_links_def ef by (simp add: d)
    show "record_links ?t" using inv(14) unfolding record_links_def ef inner by simp
  qed (use inv in simp_all)
qed

lemma emptyStore_disk [simp]: "st_disk (emptyStore d k w) = d"
  by (simp add: emptyStore_def)

lemma open_fresh_inv:
  assumes o: "openFileRuntimeStore io True True emptyDisk = Inr s"
    and key: "\<And>key. oi_keyRandom io = Some key \<Longrightarrow> length key = runtimeSpoolKeyBytes"
  shows "store_inv s \<and> session_ok s"
proof -
  have empty: "openAndReplayJournal (emptyStore d k w) = (None, emptyStore d k w)"
    "loadSpool (emptyStore d k w) = (None, emptyStore d k w)"
    "reconcileSpoolAndJournalLocked i (emptyStore d k w) = (None, emptyStore d k w)"
    if "dk_wal d = []" "dk_snapshot d = None" "dk_assignments d = []" "dk_events d = []" "dk_results d = []"
    for d k w i
    using that by (simp_all add: openAndReplayJournal_def loadJournalSnapshot_def emptyStore_def loadSpool_def
        reconcileSpoolAndJournalLocked_def)
  define restarted where "restarted k t \<longleftrightarrow> (\<exists>d w i. t = (emptyStore d k w)\<lparr>st_identity := i\<rparr> \<and> session_ok t
      \<and> dk_wal d = [] \<and> dk_snapshot d = None \<and> dk_assignments d = [] \<and> dk_events d = [] \<and> dk_results d = [])"
    for k t
  have re: "restarted k ((emptyStore d0 k (ri_WorkerID i))\<lparr>st_disk := d, st_identity := i\<rparr>)"
    if "dk_wal d = []" "dk_snapshot d = None" "dk_assignments d = []" "dk_events d = []" "dk_results d = []"
    for d d0 k i
    using that unfolding restarted_def
    by (intro exI [of _ d] exI [of _ "ri_WorkerID i"] exI [of _ i]) (simp add: emptyStore_def session_ok_def)
  have "\<exists>k t. oi_keyRandom io = Some k \<and> writeJournalSnapshotLocked (oi_store io) t = (None, s) \<and> restarted k t"
    using o re [where i = "\<lparr>ri_WorkerID = w, ri_RuntimeSessionID = v, ri_SessionEpoch = q\<rparr>" for w v q]
    by (auto simp: openFileRuntimeStore_def runtimeDurableRecordsExist_def emptyDisk_def loadRuntimeIdentity_def
        loadOrCreateRuntimeSpoolKey_def persistRuntimeIdentityDisk_def startRuntimeSession_def Let_def
        maxInt64_def empty emptyStore_disk
      split: sum.splits option.splits write_outcome.splits prod.splits if_splits)
  then obtain k w i d where k: "oi_keyRandom io = Some k"
    and s: "writeJournalSnapshotLocked (oi_store io) ((emptyStore d k w)\<lparr>st_identity := i\<rparr>) = (None, s)"
    and w: "session_ok ((emptyStore d k w)\<lparr>st_identity := i\<rparr>)"
    and d: "dk_wal d = []" "dk_snapshot d = None" "dk_assignments d = []" "dk_events d = []" "dk_results d = []"
    unfolding restarted_def by blast
  let ?e = "(emptyStore d k w)\<lparr>st_identity := i\<rparr>"
  have len: "length k = runtimeSpoolKeyBytes" by (rule key [OF k])
  then have "length (st_key ?e) = runtimeSpoolKeyBytes" by (simp add: emptyStore_def)
  from writeJournalSnapshot_result [OF this, of "oi_store io"] s obtain snap where
    s': "s = ?e\<lparr>st_disk := (st_disk ?e)\<lparr>dk_snapshot := snap\<rparr>\<rparr>"
    and snap: "snap = dk_snapshot (st_disk ?e) \<or> (\<exists>n. snap = Some (snapshotBlob ?e n))" by auto
  have b: "store_inv (emptyStore d k w)" by (rule store_inv_blank [OF len d])
  have "snapshotBlob ?e n = snapshotBlob (emptyStore d k w) n" for n
    by (simp add: snapshotBlob_def journalSnapshotOf_def)
  with snap have snap': "snap = dk_snapshot (st_disk (emptyStore d k w))
      \<or> (\<exists>n. snap = Some (snapshotBlob (emptyStore d k w) n))" by (simp add: emptyStore_def)
  have "store_inv ((emptyStore d k w)\<lparr>st_disk := d\<lparr>dk_snapshot := snap\<rparr>, st_identity := i\<rparr>)"
    by (rule store_inv_restart [OF b]) (use snap' in \<open>simp_all add: emptyStore_def\<close>)
  moreover have "s = (emptyStore d k w)\<lparr>st_disk := d\<lparr>dk_snapshot := snap\<rparr>, st_identity := i\<rparr>"
    by (simp add: s' emptyStore_disk)
  ultimately show ?thesis using w by (simp add: session_ok_def emptyStore_def)
qed

end
