(* ===== verification/Store_Healthy.thy ===== *)
theory Store_Healthy
  imports Store_Reachable
begin

text \<open>
  What the operations do when the file system answers without error: each one commits
  exactly the entry and the spool record it is called for.
\<close>

definition healthy :: "io \<Rightarrow> bool" where
  "healthy io \<longleftrightarrow> env_ok io \<and> (\<forall>n. io_wal io n = WalOk) \<and> io_write io = WriteOk
     \<and> (\<forall>p. io_remove io p = RemoveOk)"

lemma healthy_env: "healthy io \<Longrightarrow> env_ok io"
  by (simp add: healthy_def)

lemma append_healthy:
  assumes "readyLocked s = None" "length (st_key s) = runtimeSpoolKeyBytes" and h: "healthy io"
    and "journal_inv s" "acceptable e s"
  shows "fst (appendJournalLocked io e s) = None"
proof -
  let ?q = "inc_uint64 (st_sequence s)"
  obtain n where n: "io_jseal io ?q = SealLength n" "0 < n" "n \<le> assignmentJournalFrameMax"
    using h unfolding healthy_def env_ok_def by blast
  have same: "same_journal s (appendWal w s)" for w by (simp add: same_journal_def appendWal_def)
  have "applyJournalEntryLocked e (appendWal w s) = (None, withJournal (applied e s) (appendWal w s))" for w
    using apply_same_journal [OF same, of e w] acceptable_apply [OF assms(4,5)] by simp
  with assms(1,2) h n show ?thesis
    by (simp add: appendJournalLocked_def seal_ok healthy_def Let_def)
qed

lemma append_next_healthy:
  assumes s: "store_inv s" and h: "healthy io" and e: "nextEntry e s"
    and p: "map_of (st_entries s) (messageID_of (je_Record e)) = Some p"
    and same: "jr_LastClientEventSeq (je_Record e) = jr_LastClientEventSeq (je_Record p)"
    and finished: "jr_State (je_Record e) = AssignmentStateFinished \<Longrightarrow>
      jr_State (je_Record p) = AssignmentStateFinished"
    and deleted: "je_Deleted e \<Longrightarrow> innerSeqs (attemptID_of (je_Record e)) s = []
      \<and> map_of (st_results s) (attemptID_of (je_Record e)) = None"
  obtains n snap where "appendJournalLocked io e s = (None, commit e n snap s)" "store_inv (commit e n snap s)"
proof -
  note inv = store_inv_parts [OF s]
  have "fst (appendJournalLocked io e s) = None"
    by (rule append_healthy [OF inv(4,1) h inv(5)]) (use e in \<open>simp add: acceptable_def\<close>)
  then show thesis
    using append_next [OF s healthy_env [OF h] e p same finished deleted] that by (metis fst_conv option.distinct(1))
qed

lemma CreateAssignment_healthy:
  assumes s: "store_inv s" "session_ok s" and h: "healthy io"
    and r: "validateNewAssignment r (st_identity s) = None"
    "map_of (st_entries s) (messageID_of r) = None" "map_of (st_attempts s) (attemptID_of r) = None"
  obtains n snap where
    "CreateAssignment io r s = (None, commit (liveEntry (r\<lparr>jr_State := AssignmentStateReceived,
       jr_UpdatedAt := nextNow io s, jr_AckedOutOfOrderEventSeqs := []\<rparr>)) n snap s)"
    "store_inv (snd (CreateAssignment io r s))"
proof -
  note inv = store_inv_parts [OF s(1)]
  let ?e = "liveEntry (r\<lparr>jr_State := AssignmentStateReceived,
       jr_UpdatedAt := nextNow io s, jr_AckedOutOfOrderEventSeqs := []\<rparr>)"
  have f: "freshEntry ?e s"
    by (rule validateNewAssignment_fresh) (use r s(2) healthy_env [OF h] in \<open>auto simp: session_ok_def\<close>)
  then have acc: "acceptable ?e s" by (simp add: acceptable_def)
  have eq: "CreateAssignment io r s = appendJournalLocked io ?e s"
    using r inv(4) by (simp add: CreateAssignment_def Let_def)
  show thesis
  proof (rule appendJournal_cases [OF inv(4,1) healthy_env [OF h] inv(5) acc])
    fix n snap
    assume a: "appendJournalLocked io ?e s = (None, commit ?e n snap s)"
      and n: "0 < n" "n \<le> assignmentJournalFrameMax"
      and snap: "snap = dk_snapshot (st_disk s) \<or> (\<exists>k. io_snapSeal io (inc_uint64 (st_sequence s)) = SealLength k
            \<and> snap = Some (snapshotBlob (sequenced ?e s) k))"
    have "store_inv (commit ?e n snap s)"
      by (rule store_inv_commit_fresh [OF s(1) f n]) (use snap in blast)
    with a eq that show thesis by simp
  next
    fix x items n assume "appendJournalLocked io ?e s = (Some x, poison x (appendWal items s))"
    with append_healthy [OF inv(4,1) h inv(5) acc] show thesis by simp
  qed
qed

lemma AdvanceAssignment_healthy:
  assumes s: "store_inv s" and h: "healthy io"
    and p: "map_of (st_entries s) m = Some p" "\<not> je_Deleted p"
    and st: "st \<noteq> AssignmentStateFinished" "st \<noteq> AssignmentStateResultACKed"
    and tr: "validateAssignmentStateTransition (jr_State (je_Record p)) st = None"
  defines "e \<equiv> liveEntry ((je_Record p)\<lparr>jr_State := st, jr_UpdatedAt := nextNow io s\<rparr>)"
  obtains n snap where "AdvanceAssignment io m st s = (Inr (je_Record e), commit e n snap s)"
    "store_inv (commit e n snap s)"
proof -
  note inv = store_inv_parts [OF s] and en = journal_inv_entry [OF store_inv_parts(5) [OF s] p(1)]
  have step: "assignment_step (jr_State (je_Record p)) st" using tr by (simp add: transition_iff_step)
  then have ne: "jr_State (je_Record p) \<noteq> st" using assignment_step_rank [OF step] by auto
  have nx: "nextRecord (je_Record p) ((je_Record p)\<lparr>jr_State := st, jr_UpdatedAt := nextNow io s\<rparr>)"
    by (rule nextRecord_state) (use en st step healthy_env [OF h] in \<open>auto simp: entry_ok_def\<close>)
  note nl = nextEntry_live [OF _ p(2) nx, of s, folded e_def]
  have m: "map_of (st_entries s) (messageID_of (je_Record p)) = Some p" using en p by simp
  obtain n snap where "appendJournalLocked io e s = (None, commit e n snap s)" "store_inv (commit e n snap s)"
    by (rule append_next_healthy [OF s h nl [OF m]]) (use st e_def in simp_all)
  moreover from this have "AdvanceAssignment io m st s = (Inr (je_Record e), commit e n snap s)"
    using p st ne tr inv(4) by (simp add: AdvanceAssignment_def Let_def e_def)
  ultimately show thesis using that by blast
qed

lemma storeEvent_healthy:
  assumes s: "store_inv s" and h: "healthy io"
    and v: "validateEventSpoolRecord r = None"
    and p: "assignmentForAttemptLocked (eventAttempt r) s = Inr p" "jr_Identity (je_Record p) = ev_Identity r"
      "jr_State (je_Record p) = AssignmentStateStarted"
    and fresh: "map_of (st_events s) (ev_ClientEventID r) = None"
      "map_of (innerSeqs (eventAttempt r) s) (ev_ClientEventSeq r) = None"
    and q: "ev_ClientEventSeq r = add64 (jr_LastClientEventSeq (je_Record p)) 1"
    and k: "io_seal io = SealLength k" "k \<le> spoolDiskRecordMax"
      "ensureSpoolWriteLocked io (eventPath r) k s = None"
  obtains n snap t where "storeEventLocked io r s = (None, commit (eventEntry r p t) n snap (eventWritten r k s))"
    "store_inv (commit (eventEntry r p t) n snap (eventWritten r k s))" "t \<noteq> 0"
proof -
  note inv = store_inv_parts [OF s]
  have pos: "0 < ev_ClientEventSeq r" using v by (auto simp: validateEventSpoolRecord_def split: if_splits)
  have wf: "ack_wf (je_Record p)" using assignmentForAttempt_entry(3) [OF inv(5) p(1)] by (simp add: jr_wf_def)
  note seq = next_sequence [OF wf q pos]
  let ?f = "writeEventFile (eventPath r) (Sealed (st_key s) (eventHeader r) r k) s" and ?t = "nextNow io s"
  have tr: "trackSpoolFileLocked (eventPath r) k ?f = (None, tracked (eventPath r) k ?f)"
    by (rule ensureSpoolWrite_track(1) [where io = io]) (use inv(9) k(3) in \<open>simp_all add: ensureSpoolWrite_writes\<close>)
  have seqno: "st_sequence (tracked (eventPath r) k ?f) = st_sequence s"
    by (simp add: tracked_def writeEventFile_def)
  have def: "storeEventLocked io r s = appendJournalLocked io (eventEntry r p ?t) (eventWritten r k s)"
    using v p fresh q k inv(1) tr seqno h
    by (simp add: storeEventLocked_def seal_ok Let_def eventPath_def [symmetric] eventHeader_def
        eventWritten_def healthy_def)
  have t: "?t \<noteq> 0" using healthy_env [OF h] by simp
  note c = commit_event [OF s k(3) v fresh p seq t]
  note core = eventWritten_core [OF s k(3) v fresh] and ci = store_core_parts [OF eventWritten_core [OF s k(3) v fresh]]
  have ok: "fst (appendJournalLocked io (eventEntry r p ?t) (eventWritten r k s)) = None"
    by (rule append_healthy [OF ci(4,1) h ci(5)]) (use c(1) in \<open>simp add: acceptable_def\<close>)
  show thesis
    by (rule append_written [OF s healthy_env [OF h] eventWritten_sel(1) core c(1) c(2)])
       (use that t def ok in \<open>simp_all add: def\<close>)
qed

lemma storeResult_healthy:
  assumes s: "store_inv s" and h: "healthy io"
    and v: "validateResultSpoolRecord r = None"
    and p: "assignmentForAttemptLocked (ai_AttemptID (rs_Identity r)) s = Inr p"
      "jr_Identity (je_Record p) = rs_Identity r" "jr_State (je_Record p) = AssignmentStateStarted"
    and fresh: "map_of (st_results s) (ai_AttemptID (rs_Identity r)) = None"
    and q: "rs_FinalClientEventSeq r = jr_LastClientEventSeq (je_Record p)"
    and k: "io_seal io = SealLength k" "k \<le> spoolDiskRecordMax"
      "ensureSpoolWriteLocked io (resultPath r) k s = None"
  obtains n snap t where "storeResultLocked io r s = (None, commit (resultEntry r p t) n snap (resultWritten r k s))"
    "store_inv (commit (resultEntry r p t) n snap (resultWritten r k s))" "t \<noteq> 0"
proof -
  note inv = store_inv_parts [OF s]
  let ?f = "writeResultFile (resultPath r) (Sealed (st_key s) (resultHeader r) r k) s" and ?t = "nextNow io s"
  have tr: "trackSpoolFileLocked (resultPath r) k ?f = (None, tracked (resultPath r) k ?f)"
    by (rule ensureSpoolWrite_track(1) [where io = io]) (use inv(9) k(3) in \<open>simp_all add: ensureSpoolWrite_writes\<close>)
  have seqno: "st_sequence (tracked (resultPath r) k ?f) = st_sequence s"
    by (simp add: tracked_def writeResultFile_def)
  have def: "storeResultLocked io r s = appendJournalLocked io (resultEntry r p ?t) (resultWritten r k s)"
    using v p fresh q k inv(1) tr seqno h
    by (simp add: storeResultLocked_def seal_ok Let_def resultPath_def [symmetric] resultHeader_def
        resultWritten_def healthy_def)
  have t: "?t \<noteq> 0" using healthy_env [OF h] by simp
  note c = commit_result [OF s k(3) v fresh p q t]
  note core = resultWritten_core [OF s k(3) fresh] and ci = store_core_parts [OF resultWritten_core [OF s k(3) fresh]]
  have ok: "fst (appendJournalLocked io (resultEntry r p ?t) (resultWritten r k s)) = None"
    by (rule append_healthy [OF ci(4,1) h ci(5)]) (use c(1) in \<open>simp add: acceptable_def\<close>)
  show thesis
    by (rule append_written [OF s healthy_env [OF h] resultWritten_sel(1) core c(1) c(2)])
       (use that t def ok in \<open>simp_all add: def\<close>)
qed

end
