(* ===== verification/Store_Properties.thy ===== *)
theory Store_Properties
  imports Store_Healthy
begin

text \<open>
  The guarantees of \<^verbatim>\<open>FileRuntimeStore\<close> for every state that calls can reach from a fresh data
  directory, whatever the file system answers, and a concrete run that shows their
  hypotheses can hold.
\<close>

section \<open>Live stores\<close>

definition live_store :: "store \<Rightarrow> bool" where
  "live_store t \<longleftrightarrow>
     readyLocked t = None
     \<and> (\<exists>io s. openFileRuntimeStore io True True emptyDisk = Inr s
          \<and> (\<forall>key. oi_keyRandom io = Some key \<longrightarrow> length key = runtimeSpoolKeyBytes)
          \<and> store_reach s t)"

lemma live_inv:
  assumes "live_store t" shows "store_inv t" and "session_ok t"
proof -
  from assms obtain io s where o: "openFileRuntimeStore io True True emptyDisk = Inr s"
    "\<forall>key. oi_keyRandom io = Some key \<longrightarrow> length key = runtimeSpoolKeyBytes"
    and r: "store_reach s t" and rd: "readyLocked t = None" unfolding live_store_def by blast
  have s: "store_inv s" "session_ok s" using open_fresh_inv [OF o(1)] o(2) by auto
  show "store_inv t" by (rule store_reach_ready [OF r s rd])
  show "session_ok t" using store_reach_ok [OF r _ s(2)] s(1) by (simp add: store_ok_def)
qed

lemma live_call:
  assumes "live_store t" "env_ok io" "disciplined op t" "readyLocked (run_op io op t) = None"
  shows "live_store (run_op io op t)"
  using assms store_reach.call unfolding live_store_def by blast

section \<open>A concrete run\<close>

definition sample_io :: io where
  "sample_io = \<lparr>io_now = 1, io_random = Some (replicate 16 (CHR ''A'')), io_diskAvailable = Inr 1099511627776,
     io_seal = SealLength 100, io_write = WriteOk, io_remove = (\<lambda>_. RemoveOk), io_jnow = (\<lambda>_. 1),
     io_jseal = (\<lambda>_. SealLength 100), io_wal = (\<lambda>_. WalOk), io_snapSeal = (\<lambda>_. SealLength 100),
     io_snapWrite = (\<lambda>_. WriteOk)\<rparr>"

definition sample_open_io :: open_io where
  "sample_open_io = \<lparr>oi_workerRandom = Some (replicate 16 (CHR ''B'')),
     oi_sessionRandom = Some (replicate 16 (CHR ''C'')), oi_keyRandom = Some (replicate 32 (CHR ''K'')),
     oi_identityWrite = WriteOk, oi_sessionWrite = WriteOk, oi_keyWrite = WriteOk, oi_store = sample_io\<rparr>"

definition sample_store :: store where
  "sample_store = (case openFileRuntimeStore sample_open_io True True emptyDisk of
     Inr s \<Rightarrow> s | Inl _ \<Rightarrow> emptyStore emptyDisk [] [])"

definition sample_attempt :: attempt_identity where
  "sample_attempt = sample_identity\<lparr>ai_WorkerID := ''42424242-4242-4242-8242-424242424242'',
     ai_RuntimeSessionID := ''43434343-4343-4343-8343-434343434343''\<rparr>"

definition sample_assignment :: journal_record where
  "sample_assignment = sample_record\<lparr>jr_Identity := sample_attempt, jr_State := AssignmentStateOther [],
     jr_LastClientEventSeq := 0, jr_AckedClientEventSeq := 0, jr_AckedOutOfOrderEventSeqs := []\<rparr>"

fun run_ops :: "io \<Rightarrow> store_op list \<Rightarrow> store \<Rightarrow> store" where
  "run_ops io [] s = s"
| "run_ops io (op # ops) s = run_ops io ops (run_op io op s)"

text \<open>An assignment is created, acknowledged, confirmed and started.\<close>

definition started_ops :: "store_op list" where
  "started_ops = [OpCreate sample_assignment, OpAdvance ''message'' AssignmentStateACKSent,
     OpAdvance ''message'' AssignmentStateConfirmed, OpAdvance ''message'' AssignmentStateStarted]"

definition started_store :: store where
  "started_store = run_ops sample_io started_ops sample_store"

lemma sample_healthy: "healthy sample_io"
  by (simp add: healthy_def env_ok_def sample_io_def assignmentJournalFrameMax_def)

lemmas sample_env = healthy_env [OF sample_healthy]

lemma sample_open: "openFileRuntimeStore sample_open_io True True emptyDisk = Inr sample_store"
proof -
  have "\<not> isl (openFileRuntimeStore sample_open_io True True emptyDisk)" by code_simp
  then show ?thesis
    by (auto simp: sample_store_def split: sum.splits)
qed

lemma sample_key: "\<forall>key. oi_keyRandom sample_open_io = Some key \<longrightarrow> length key = runtimeSpoolKeyBytes"
  by (simp add: sample_open_io_def runtimeSpoolKeyBytes_def)

lemma sample_inv: "store_inv sample_store" "session_ok sample_store"
  using open_fresh_inv [OF sample_open] sample_key by auto

lemma sample_validates: "validateNewAssignment sample_assignment (st_identity sample_store) = None"
proof -
  have "st_identity sample_store = \<lparr>ri_WorkerID = ''42424242-4242-4242-8242-424242424242'',
      ri_RuntimeSessionID = ''43434343-4343-4343-8343-434343434343'', ri_SessionEpoch = 1\<rparr>" by code_simp
  moreover have "validateNewAssignment sample_assignment \<lparr>ri_WorkerID = ''42424242-4242-4242-8242-424242424242'',
      ri_RuntimeSessionID = ''43434343-4343-4343-8343-434343434343'', ri_SessionEpoch = 1\<rparr> = None" by code_simp
  ultimately show ?thesis by simp
qed

lemma sample_empty:
  "st_entries sample_store = []" "st_attempts sample_store = []" "st_events sample_store = []"
  "st_eventSeqs sample_store = []" "st_results sample_store = []" "st_spoolSizes sample_store = []"
  "st_payloads sample_store = []" "st_spoolBytes sample_store = 0" "st_spoolRecords sample_store = 0"
  "st_spoolMaxBytes sample_store = 536870912" "st_spoolMaxRecords sample_store = 10000"
  "st_spoolReserveBytes sample_store = 16777216"
  by code_simp+

text \<open>The state of the run after the assignment reached state \<open>st\<close>, before any event.\<close>

definition sample_at :: "assignment_state \<Rightarrow> store \<Rightarrow> bool" where
  "sample_at st s \<longleftrightarrow>
     store_inv s
     \<and> (\<exists>p. map_of (st_entries s) ''message'' = Some p \<and> \<not> je_Deleted p
          \<and> jr_Identity (je_Record p) = sample_attempt \<and> jr_State (je_Record p) = st
          \<and> jr_LastClientEventSeq (je_Record p) = 0)
     \<and> st_events s = [] \<and> st_eventSeqs s = [] \<and> st_results s = [] \<and> st_payloads s = []
     \<and> st_spoolSizes s = []
     \<and> st_spoolBytes s = 0 \<and> st_spoolRecords s = 0 \<and> st_spoolMaxBytes s = 536870912
     \<and> st_spoolMaxRecords s = 10000 \<and> st_spoolReserveBytes s = 16777216"

lemma sample_created: "sample_at AssignmentStateReceived (run_op sample_io (OpCreate sample_assignment) sample_store)"
proof -
  have id: "ai_AssignmentMessageID sample_attempt = ''message''" "jr_Identity sample_assignment = sample_attempt"
    "jr_LastClientEventSeq sample_assignment = 0"
    by (simp_all add: sample_assignment_def sample_attempt_def sample_identity_def)
  obtain n snap where c: "CreateAssignment sample_io sample_assignment sample_store =
      (None, commit (liveEntry (sample_assignment\<lparr>jr_State := AssignmentStateReceived,
         jr_UpdatedAt := nextNow sample_io sample_store, jr_AckedOutOfOrderEventSeqs := []\<rparr>)) n snap sample_store)"
    "store_inv (snd (CreateAssignment sample_io sample_assignment sample_store))"
    using CreateAssignment_healthy [OF sample_inv sample_healthy sample_validates] by (auto simp: sample_empty)
  from c(2) show ?thesis
    unfolding sample_at_def run_op.simps by (simp add: c(1) id sample_empty)
qed

lemma sample_advanced:
  assumes s: "sample_at a s" and "validateAssignmentStateTransition a b = None"
    and b: "b \<noteq> AssignmentStateFinished" "b \<noteq> AssignmentStateResultACKed"
  shows "sample_at b (run_op sample_io (OpAdvance ''message'' b) s)"
proof -
  from s obtain p where p: "map_of (st_entries s) ''message'' = Some p" "\<not> je_Deleted p"
    "jr_Identity (je_Record p) = sample_attempt" "jr_State (je_Record p) = a"
    "jr_LastClientEventSeq (je_Record p) = 0" and inv: "store_inv s" unfolding sample_at_def by blast
  have m: "messageID_of (je_Record p) = ''message''" by (rule journal_inv_entry(1) [OF store_inv_parts(5) [OF inv] p(1)])
  let ?e = "liveEntry ((je_Record p)\<lparr>jr_State := b, jr_UpdatedAt := nextNow sample_io s\<rparr>)"
  obtain n snap where c: "AdvanceAssignment sample_io ''message'' b s = (Inr (je_Record ?e), commit ?e n snap s)"
    "store_inv (commit ?e n snap s)"
    using AdvanceAssignment_healthy [OF inv sample_healthy p(1,2) b] assms(2) p(4) by blast
  then show ?thesis using s m p unfolding sample_at_def by simp
qed

lemma started_at: "sample_at AssignmentStateStarted started_store"
proof -
  note adv = sample_advanced [where b = AssignmentStateACKSent] sample_advanced [where b = AssignmentStateConfirmed]
    sample_advanced [where b = AssignmentStateStarted]
  have "sample_at AssignmentStateACKSent (run_op sample_io (OpAdvance ''message'' AssignmentStateACKSent)
      (run_op sample_io (OpCreate sample_assignment) sample_store))"
    by (rule adv(1) [OF sample_created]) (simp_all add: validateAssignmentStateTransition_def)
  then have "sample_at AssignmentStateConfirmed (run_op sample_io (OpAdvance ''message'' AssignmentStateConfirmed)
      (run_op sample_io (OpAdvance ''message'' AssignmentStateACKSent)
        (run_op sample_io (OpCreate sample_assignment) sample_store)))"
    by (rule adv(2)) (simp_all add: validateAssignmentStateTransition_def)
  then have "sample_at AssignmentStateStarted (run_op sample_io (OpAdvance ''message'' AssignmentStateStarted)
     (run_op sample_io (OpAdvance ''message'' AssignmentStateConfirmed)
       (run_op sample_io (OpAdvance ''message'' AssignmentStateACKSent)
         (run_op sample_io (OpCreate sample_assignment) sample_store))))"
    by (rule adv(3)) (simp_all add: validateAssignmentStateTransition_def)
  then show ?thesis unfolding started_store_def started_ops_def run_ops.simps .
qed

lemma run_ops_reach:
  assumes "store_reach s t" "env_ok io" "\<And>op u. op \<in> set ops \<Longrightarrow> disciplined op u"
  shows "store_reach s (run_ops io ops t)"
  using assms by (induction ops arbitrary: t) (auto intro: store_reach.call)

lemma live_run:
  assumes "store_reach sample_store t" "store_inv t" shows "live_store t"
  using assms sample_open sample_key store_inv_parts(4) [OF assms(2)] unfolding live_store_def by blast

lemma started_reach: "store_reach sample_store started_store"
  unfolding started_store_def
  by (rule run_ops_reach [OF store_reach.start sample_env]) (auto simp: started_ops_def)

lemma started_live: "live_store started_store"
  using live_run [OF started_reach] started_at by (simp add: sample_at_def)

section \<open>Safety\<close>





lemma replayLoop_torn: "\<exists>e t. replayLoop sn (items @ [WalTorn]) c s = (Inl e, t)"
proof (induction items arbitrary: c s)
  case Nil
  then show ?case by (simp add: replayItem_def)
next
  case (Cons item items)
  show ?case
  proof (cases "replayItem item s")
    case (Pair e t)
    then show ?thesis using Cons.IH by (cases e) (simp_all add: Let_def)
  qed
qed


text \<open>
  C21. The spool counters are exact and bounded: in every live store the byte and record
  counters equal the sum and the number of the tracked files, every tracked file is between
  one byte and the record limit, and the totals respect the configured maxima less the
  control reserve.
\<close>

theorem spool_accounting_exact:
  assumes "live_store t"
  shows "st_spoolBytes t = gosum (st_spoolSizes t) \<and> st_spoolRecords t = int (length (st_spoolSizes t))
    \<and> 0 \<le> st_spoolBytes t \<and> st_spoolBytes t \<le> st_spoolMaxBytes t - st_spoolReserveBytes t
    \<and> st_spoolRecords t \<le> st_spoolMaxRecords t
    \<and> (\<forall>p n. map_of (st_spoolSizes t) p = Some n \<longrightarrow> 0 < n \<and> n \<le> spoolDiskRecordMax)"
proof -
  have a: "acct_inv t" by (rule store_inv_parts(9) [OF live_inv(1) [OF assms]])
  show ?thesis using a acct_inv_nonneg(1) [OF a] unfolding acct_inv_def by blast
qed

theorem spool_accounting_exact_witness:
  "live_store started_store \<and> st_spoolBytes started_store = 0 \<and> gosum (st_spoolSizes started_store) = 0"
  using started_live spool_accounting_exact [OF started_live] started_at by (simp add: sample_at_def)

end
