(* ===== verification/Store_Guarantees.thy ===== *)
theory Store_Guarantees
  imports Store_Properties
begin

text \<open>
  Guarantees about the life of an assignment, its events and its result: the journal only
  moves forward, a deletion is final, a successful append is durable and numbered without
  gaps, what is pending is exactly what was not acknowledged, and a result is stored once.
\<close>

section \<open>The journal only moves forward\<close>

definition entry_grows :: "journal_entry \<Rightarrow> journal_entry \<Rightarrow> bool" where
  "entry_grows e f \<longleftrightarrow>
     jr_Identity (je_Record f) = jr_Identity (je_Record e)
     \<and> jr_InputDigest (je_Record f) = jr_InputDigest (je_Record e)
     \<and> jr_SignedContextDigest (je_Record f) = jr_SignedContextDigest (je_Record e)
     \<and> assignment_step\<^sup>*\<^sup>* (jr_State (je_Record e)) (jr_State (je_Record f))
     \<and> jr_LastClientEventSeq (je_Record e) \<le> jr_LastClientEventSeq (je_Record f)
     \<and> ackedSet (je_Record e) \<subseteq> ackedSet (je_Record f)
     \<and> (jr_ResultID (je_Record e) \<noteq> [] \<longrightarrow> jr_ResultID (je_Record f) = jr_ResultID (je_Record e))
     \<and> (je_Deleted e \<longrightarrow> f = e)"

lemma entry_grows_refl [simp]: "entry_grows e e"
  by (simp add: entry_grows_def)

lemma entry_grows_trans: "entry_grows e f \<Longrightarrow> entry_grows f g \<Longrightarrow> entry_grows e g"
  unfolding entry_grows_def by (auto intro: rtranclp_trans)

lemma wal_step_entries:
  assumes s: "store_inv s" and step: "wal_step s t" and e: "map_of (st_entries s) m = Some e"
  shows "\<exists>f. map_of (st_entries t) m = Some f \<and> entry_grows e f"
proof -
  note inv = store_inv_parts [OF s]
  have "st_entries t = st_entries s \<or> (\<exists>x. acceptable x s \<and> same_journal t (sequenced x s))"
    using step unfolding wal_step_def by (auto simp: same_journal_def)
  then show ?thesis
  proof (elim disjE exE conjE)
    assume "st_entries t = st_entries s"
    with e show ?thesis by simp
  next
    fix x assume acc: "acceptable x s" and j: "same_journal t (sequenced x s)"
    have ent: "st_entries t = AList.update (messageID_of (je_Record x)) x (st_entries s)"
      using j by (simp add: same_journal_def sequenced_def applied_def)
    show ?thesis
    proof (cases "m = messageID_of (je_Record x)")
      case False with e ent show ?thesis by simp
    next
      case True
      with e acc have ne: "nextEntry x s" by (auto simp: acceptable_def freshEntry_def)
      from nextEntry_old [OF ne] e True have live: "\<not> je_Deleted e"
        and nx: "nextRecord (je_Record e) (je_Record x)" by auto
      have wf: "jr_wf (je_Record e)" using journal_inv_entry(2) [OF inv(5) e] by (simp add: entry_ok_def)
      have "entry_grows e x"
        using nx live nextRecord_acked [OF wf nx] unfolding entry_grows_def nextRecord_def by auto
      with ent True show ?thesis by simp
    qed
  qed
qed

lemma reach_entries:
  assumes "store_reach s t" "store_ok s" "session_ok s" "map_of (st_entries s) m = Some e"
  shows "\<exists>f. map_of (st_entries t) m = Some f \<and> entry_grows e f"
  using assms
proof (induction rule: store_reach.induct)
  case (start s)
  then show ?case by auto
next
  case (call s t io op)
  then obtain f where f: "map_of (st_entries t) m = Some f" "entry_grows e f" by blast
  have t: "store_ok t" "session_ok t" using store_reach_ok [OF call.hyps(1) call.prems(1,2)] by auto
  have "\<exists>g. map_of (st_entries (run_op io op t)) m = Some g \<and> entry_grows f g"
  proof (cases "readyLocked t = None \<and> op \<noteq> OpClose")
    case True
    then have "store_inv t" using t(1) by (auto simp: store_ok_def readyLocked_def split: if_splits option.splits)
    with run_op_ok(2) [OF _ t(2) call.hyps(2,3)] True wal_step_entries f(1) show ?thesis by blast
  next
    case False
    then have "st_entries (run_op io op t) = st_entries t"
      using run_op_not_ready [of t io op] by (auto simp: Close_def)
    with f(1) show ?thesis by simp
  qed
  with f(2) entry_grows_trans show ?case by blast
qed

text \<open>
  C6. The journal of an assignment only moves forward: between two states of a run its
  identity and digests stay the same, its state follows edges of the state machine, allocated
  and acknowledged sequences are never taken back, a recorded result is never replaced and a
  deleted assignment stays exactly as it was deleted.
\<close>

theorem assignment_only_grows:
  assumes "live_store s" and "store_reach s t" and "map_of (st_entries s) m = Some e"
  shows "\<exists>f. map_of (st_entries t) m = Some f \<and> entry_grows e f"
  using reach_entries [OF assms(2) _ live_inv(2) [OF assms(1)] assms(3)] live_inv(1) [OF assms(1)]
  by (simp add: store_ok_def)

theorem assignment_only_grows_witness:
  "live_store started_store
   \<and> store_reach started_store (run_op sample_io (OpAdvance ''message'' AssignmentStateRevoked) started_store)
   \<and> (\<exists>e f. map_of (st_entries started_store) ''message'' = Some e
       \<and> map_of (st_entries (run_op sample_io (OpAdvance ''message'' AssignmentStateRevoked) started_store))
            ''message'' = Some f \<and> entry_grows e f)"
proof -
  let ?t = "run_op sample_io (OpAdvance ''message'' AssignmentStateRevoked) started_store"
  have r: "store_reach started_store ?t"
    by (rule store_reach.call [OF store_reach.start sample_env]) simp
  obtain e where e: "map_of (st_entries started_store) ''message'' = Some e"
    using started_at unfolding sample_at_def by blast
  from assignment_only_grows [OF started_live r e] started_live r e show ?thesis by blast
qed

lemma DeleteAssignment_commits:
  assumes s: "store_inv s" and io: "env_ok io" and d: "DeleteAssignment io m s = (None, t)"
  obtains p where "map_of (st_entries s) m = Some p" "isAssignmentTerminal (jr_State (je_Record p))"
    "innerSeqs (attemptID_of (je_Record p)) s = []" "map_of (st_results s) (attemptID_of (je_Record p)) = None"
    "map_of (st_entries t) m = Some (p\<lparr>je_Deleted := True,
       je_Record := (je_Record p)\<lparr>jr_UpdatedAt := nextNow io s\<rparr>\<rparr>)"
proof -
  note parts = store_inv_parts [OF s]
  from d parts(4) obtain p where p: "map_of (st_entries s) m = Some p"
    "isAssignmentTerminal (jr_State (je_Record p))" "innerSeqs (attemptID_of (je_Record p)) s = []"
    "map_of (st_results s) (attemptID_of (je_Record p)) = None" "\<not> je_Deleted p"
    by (auto simp: DeleteAssignment_def Let_def isAssignmentTerminal_def split: option.splits if_splits)
  note en = journal_inv_entry [OF parts(5) p(1)]
  let ?e = "p\<lparr>je_Deleted := True, je_Record := (je_Record p)\<lparr>jr_UpdatedAt := nextNow io s\<rparr>\<rparr>"
  have "nextRecord (je_Record p) (je_Record ?e)"
    using nextRecord_touch [of "je_Record p" "nextNow io s"] en io by (simp add: entry_ok_def)
  then have ne: "nextEntry ?e s" "map_of (st_entries s) (messageID_of (je_Record ?e)) = Some p"
    using p en by (auto simp: nextEntry_def)
  have def: "DeleteAssignment io m s = (case appendJournalLocked io ?e s of
        (Some x, t) \<Rightarrow> (Some x, t)
      | (None, t) \<Rightarrow> (case map_of (st_payloads t) (attemptID_of (je_Record p)) of
           Some q \<Rightarrow> removeAssignmentPayloadLocked io q t | None \<Rightarrow> (None, t)))"
    using p parts(4) by (simp add: DeleteAssignment_def Let_def isAssignmentTerminal_def)
  have "map_of (st_entries t) m = Some ?e"
  proof (rule append_next [OF s io ne])
    fix n snap let ?c = "commit ?e n snap s"
    assume a: "appendJournalLocked io ?e s = (None, ?c)" and c: "store_inv ?c"
    have ec: "map_of (st_entries ?c) m = Some ?e" using en by simp
    show ?thesis
    proof (cases "map_of (st_payloads ?c) (attemptID_of (je_Record p))")
      case None with def a d ec show ?thesis by simp
    next
      case (Some q)
      have acc: "acceptable ?e s" using ne(1) by (simp add: acceptable_def)
      have ef: "entryFor (attemptID_of (je_Record p)) ?c = Some ?e" by (simp add: entryFor_commit [OF parts(5) acc])
      have "removeAssignmentPayloadLocked io q ?c = (None, t)" using def a Some d by simp
      with removePayload_ok [OF c Some ef, of io] have "st_entries t = st_entries ?c"
        by (simp add: same_log_def same_journal_def)
      with ec show ?thesis by simp
    qed
  next
    fix x v assume "appendJournalLocked io ?e s = (Some x, v)"
    with def d show ?thesis by simp
  qed (use p in simp_all)
  with p that show thesis by blast
qed

text \<open>
  C7. A deletion happens only when nothing is left to deliver, and it is final: a successful
  \<^verbatim>\<open>DeleteAssignment\<close> found the assignment terminal with no spooled event and no spooled
  result, and in every later state the assignment is not found and no record with the same
  message ID can be created.
\<close>

theorem delete_is_final:
  assumes "live_store s" and "env_ok io" and "DeleteAssignment io m s = (None, t)"
    and "store_reach t u" and "readyLocked u = None"
  shows "(\<exists>p. map_of (st_entries s) m = Some p \<and> isAssignmentTerminal (jr_State (je_Record p))
        \<and> innerSeqs (attemptID_of (je_Record p)) s = []
        \<and> map_of (st_results s) (attemptID_of (je_Record p)) = None)
    \<and> Assignment m u = Inl ErrAssignmentNotFound
    \<and> (\<forall>r io'. messageID_of r = m \<longrightarrow> fst (CreateAssignment io' r u) \<noteq> None \<and> snd (CreateAssignment io' r u) = u)"
proof -
  note inv = live_inv [OF assms(1)]
  obtain p where p: "map_of (st_entries s) m = Some p" "isAssignmentTerminal (jr_State (je_Record p))"
    "innerSeqs (attemptID_of (je_Record p)) s = []" "map_of (st_results s) (attemptID_of (je_Record p)) = None"
    and t: "map_of (st_entries t) m = Some (p\<lparr>je_Deleted := True,
       je_Record := (je_Record p)\<lparr>jr_UpdatedAt := nextNow io s\<rparr>\<rparr>)"
    by (rule DeleteAssignment_commits [OF inv(1) assms(2,3)])
  have ok: "store_ok t" "session_ok t"
    using store_ok_run [of s io "OpDelete m"] inv assms(2,3) by (simp_all add: store_ok_def)
  from reach_entries [OF assms(4) ok t] obtain f where u: "map_of (st_entries u) m = Some f" "je_Deleted f"
    by (auto simp: entry_grows_def)
  have "Assignment m u = Inl ErrAssignmentNotFound" using u assms(5) by (simp add: Assignment_def)
  moreover have "fst (CreateAssignment io' r u) \<noteq> None \<and> snd (CreateAssignment io' r u) = u"
    if "messageID_of r = m" for r io'
    using u assms(5) that by (simp add: CreateAssignment_def Let_def split: option.split)
  ultimately show ?thesis using p by blast
qed

definition revoked_store :: store where
  "revoked_store = run_op sample_io (OpAdvance ''message'' AssignmentStateRevoked) started_store"

lemma revoked_at: "sample_at AssignmentStateRevoked revoked_store"
  unfolding revoked_store_def
  by (rule sample_advanced [OF started_at]) (simp_all add: validateAssignmentStateTransition_def)

lemma revoked_reach: "store_reach sample_store revoked_store"
  unfolding revoked_store_def by (rule store_reach.call [OF started_reach sample_env]) simp

lemma revoked_live: "live_store revoked_store"
  using live_run [OF revoked_reach] revoked_at by (simp add: sample_at_def)

lemma revoked_deleted:
  "fst (DeleteAssignment sample_io ''message'' revoked_store) = None"
  "store_inv (snd (DeleteAssignment sample_io ''message'' revoked_store))"
proof -
  from revoked_at obtain p where p: "map_of (st_entries revoked_store) ''message'' = Some p" "\<not> je_Deleted p"
    "jr_State (je_Record p) = AssignmentStateRevoked" and e: "st_eventSeqs revoked_store = []"
    "st_results revoked_store = []" "st_payloads revoked_store = []" and inv: "store_inv revoked_store"
    unfolding sample_at_def by blast
  note parts = store_inv_parts [OF inv] and en = journal_inv_entry [OF store_inv_parts(5) [OF inv] p(1)]
  let ?e = "p\<lparr>je_Deleted := True, je_Record := (je_Record p)\<lparr>jr_UpdatedAt := nextNow sample_io revoked_store\<rparr>\<rparr>"
  have "nextRecord (je_Record p) (je_Record ?e)"
    using nextRecord_touch [of "je_Record p" "nextNow sample_io revoked_store"] en sample_env
    by (simp add: entry_ok_def)
  then have ne: "nextEntry ?e revoked_store"
      "map_of (st_entries revoked_store) (messageID_of (je_Record ?e)) = Some p"
    using p en by (auto simp: nextEntry_def isAssignmentTerminal_def)
  obtain n snap where c: "appendJournalLocked sample_io ?e revoked_store = (None, commit ?e n snap revoked_store)"
    "store_inv (commit ?e n snap revoked_store)"
    by (rule append_next_healthy [OF inv sample_healthy ne]) (use p e in \<open>simp_all add: innerSeqs_def\<close>)
  have "DeleteAssignment sample_io ''message'' revoked_store = (None, commit ?e n snap revoked_store)"
    using p e parts(4) c(1) by (simp add: DeleteAssignment_def innerSeqs_def Let_def)
  with c(2) show "fst (DeleteAssignment sample_io ''message'' revoked_store) = None"
    "store_inv (snd (DeleteAssignment sample_io ''message'' revoked_store))" by simp_all
qed

theorem delete_is_final_witness:
  "live_store revoked_store \<and> fst (DeleteAssignment sample_io ''message'' revoked_store) = None
   \<and> Assignment ''message'' (snd (DeleteAssignment sample_io ''message'' revoked_store)) = Inl ErrAssignmentNotFound"
proof -
  let ?t = "snd (DeleteAssignment sample_io ''message'' revoked_store)"
  have d: "DeleteAssignment sample_io ''message'' revoked_store = (None, ?t)"
    using revoked_deleted(1) by (metis prod.collapse)
  from delete_is_final [OF revoked_live sample_env d store_reach.start store_inv_parts(4) [OF revoked_deleted(2)]]
  show ?thesis using revoked_live revoked_deleted(1) by blast
qed

section \<open>Events\<close>

definition event_on_disk :: "event_spool_record \<Rightarrow> store \<Rightarrow> bool" where
  "event_on_disk r s \<longleftrightarrow>
     (\<exists>b. map_of (dk_events (st_disk s)) (eventPath r) = Some b
        \<and> openRuntimeRecord (st_key s) b eventSpoolKind = Inr (eventHeader r, r))"

lemma event_file:
  assumes s: "store_inv s" and r: "map_of (st_events s) i = Some r"
    and f: "map_of (dk_events (st_disk s)) (eventPath r) \<noteq> None"
  shows "event_on_disk r s"
proof -
  from f obtain b where b: "map_of (dk_events (st_disk s)) (eventPath r) = Some b" by auto
  have files: "evk.files_ok (st_key s) (st_spoolSizes s) (ran (map_of (st_events s))) (dk_events (st_disk s))"
    using store_inv_parts(10) [OF s] by (simp add: disk_inv_def)
  from evk.files_read_back [OF files b] obtain q n where q: "q \<in> ran (map_of (st_events s))"
    "eventPath r = eventPath q" "b = Sealed (st_key s) (eventHeader q) q n" by metis
  from q(1) obtain j where "map_of (st_events s) j = Some q" by (auto simp: ran_def)
  with event_path_unique [OF s r] q(2) have "q = r" by metis
  with b q(3) show ?thesis
    by (simp add: event_on_disk_def openRuntimeRecord_def eventHeader_def)
qed

lemma append_event_effect:
  assumes "live_store s" and "env_ok io" and "AppendEvent io identity eventType payload s = ((r, None), t)"
  shows "(\<exists>rec rec'. liveRecord (ai_AttemptID identity) s = Some rec \<and> jr_Identity rec = identity
        \<and> jr_State rec = AssignmentStateStarted \<and> ev_ClientEventSeq r = jr_LastClientEventSeq rec + 1
        \<and> liveRecord (ai_AttemptID identity) t = Some rec' \<and> jr_LastClientEventSeq rec' = ev_ClientEventSeq r
        \<and> ackedSet rec' = ackedSet rec)
    \<and> ev_Identity r = identity \<and> event_on_disk r t \<and> log_refines (dk_wal (st_disk t)) t"
proof -
  note inv = live_inv(1) [OF assms(1)] and parts = store_inv_parts [OF live_inv(1) [OF assms(1)]]
  from assms(3) parts(4) obtain p i where p: "assignmentForAttemptLocked (ai_AttemptID identity) s = Inr p"
    "jr_Identity (je_Record p) = identity" "jr_State (je_Record p) = AssignmentStateStarted"
    "jr_LastClientEventSeq (je_Record p) \<noteq> maxInt64"
    and r: "ev_Identity r = identity" "ev_ClientEventSeq r = add64 (jr_LastClientEventSeq (je_Record p)) 1"
    and st: "storeEventLocked io r s = (None, t)"
    by (auto simp: AppendEvent_def Let_def split: sum.splits if_splits prod.splits)
  have lr: "liveRecord (ai_AttemptID identity) s = Some (je_Record p)" by (rule assignmentForAttempt_record [OF p(1)])
  have "ack_wf (je_Record p)" using assignmentForAttempt_entry(3) [OF parts(5) p(1)] by (simp add: jr_wf_def)
  then have seq: "ev_ClientEventSeq r = jr_LastClientEventSeq (je_Record p) + 1"
    using r(2) p(4) add64_succ [of "jr_LastClientEventSeq (je_Record p)"] by (auto simp: ack_wf_def)
  show ?thesis
  proof (rule storeEvent_cases [OF inv assms(2), of r])
    fix x assume "storeEventLocked io r s = (x, s)" "x = None \<Longrightarrow> map_of (st_events s) (ev_ClientEventID r) = Some r"
    then have "map_of (st_events s) (ev_ClientEventID r) = Some r" using st by simp
    with parts(11) lr r(1) seq show ?thesis unfolding event_links_def by (fastforce simp: event_ok_def)
  next
    fix x u assume "storeEventLocked io r s = (Some x, u)"
    with st show ?thesis by simp
  next
    fix p' k n snap tm
    let ?w = "eventWritten r k s" and ?e = "eventEntry r p' tm"
    assume c: "storeEventLocked io r s = (None, commit ?e n snap ?w)" "store_inv (commit ?e n snap ?w)"
      and p': "nextEntry ?e ?w" "store_core ?w" "assignmentForAttemptLocked (eventAttempt r) s = Inr p'"
    have pp: "p' = p" using p'(3) p(1) r(1) by simp
    have t: "t = commit ?e n snap ?w" using c(1) st by simp
    have acc: "acceptable ?e ?w" using p'(1) by (simp add: acceptable_def)
    have lr': "liveRecord (ai_AttemptID identity) t = Some (je_Record ?e)"
      unfolding t liveRecord_commit [OF store_core_parts(5) [OF p'(2)] acc] using p(2) pp by simp
    have "event_on_disk r t"
      by (rule event_file [of t "ev_ClientEventID r"]) (use c(2) in \<open>simp_all add: t eventWritten_sel\<close>)
    moreover have "log_refines (dk_wal (st_disk t)) t"
      using store_inv_parts(6) [OF c(2)] by (simp add: t wal_inv_def)
    ultimately show ?thesis using lr lr' p seq r(1) pp by (simp add: ackedSet_def)
  qed
qed


definition sample_event :: event_spool_record where
  "sample_event = \<lparr>ev_Version = spoolRecordVersion, ev_Identity = sample_attempt,
     ev_ClientEventID = formatUUID (setUUIDBits 0x40 (replicate 16 (CHR ''A''))),
     ev_ClientEventSeq = 1, ev_EventType = ''progress'', ev_Payload = ''null'', ev_CreatedAt = 1\<rparr>"

lemma started_entry:
  obtains p where "assignmentForAttemptLocked (ai_AttemptID sample_attempt) started_store = Inr p"
    "jr_Identity (je_Record p) = sample_attempt" "jr_State (je_Record p) = AssignmentStateStarted"
    "jr_LastClientEventSeq (je_Record p) = 0"
proof -
  from started_at obtain p where p: "map_of (st_entries started_store) ''message'' = Some p" "\<not> je_Deleted p"
    "jr_Identity (je_Record p) = sample_attempt" "jr_State (je_Record p) = AssignmentStateStarted"
    "jr_LastClientEventSeq (je_Record p) = 0" and inv: "store_inv started_store"
    unfolding sample_at_def by blast
  from assignmentForAttempt_of_entry [OF store_inv_parts(5) [OF inv] p(1,2)] p(3-5) that show thesis by simp
qed

lemma sample_space:
  assumes "sample_at st s"
  shows "ensureSpoolWriteLocked sample_io path 100 s = None"
  using assms by (simp add: sample_at_def ensureSpoolWriteLocked_def sample_io_def spoolDiskRecordMax_def
      add64_def wrap64_def)

lemma one64: "add64 0 1 = 1"
  by code_simp

lemma sample_event_stored:
  obtains t where "storeEventLocked sample_io sample_event started_store = (None, t)" "store_inv t"
proof -
  obtain p where p: "assignmentForAttemptLocked (ai_AttemptID sample_attempt) started_store = Inr p"
    "jr_Identity (je_Record p) = sample_attempt" "jr_State (je_Record p) = AssignmentStateStarted"
    "jr_LastClientEventSeq (je_Record p) = 0" by (rule started_entry)
  have e: "st_events started_store = []" "st_eventSeqs started_store = []" and inv: "store_inv started_store"
    using started_at by (simp_all add: sample_at_def)
  have v: "validateEventSpoolRecord sample_event = None" by code_simp
  obtain n snap tm where "storeEventLocked sample_io sample_event started_store =
      (None, commit (eventEntry sample_event p tm) n snap (eventWritten sample_event 100 started_store))"
    "store_inv (commit (eventEntry sample_event p tm) n snap (eventWritten sample_event 100 started_store))"
    by (rule storeEvent_healthy [OF inv sample_healthy v, of p 100])
       (use p e one64 sample_space [OF started_at] in \<open>simp_all add: innerSeqs_def sample_io_def
          spoolDiskRecordMax_def sample_event_def\<close>)
  with that show thesis by blast
qed

lemma started_append:
  obtains t where "AppendEvent sample_io sample_attempt ''progress'' [] started_store = ((sample_event, None), t)"
    "store_inv t"
proof -
  obtain p where p: "assignmentForAttemptLocked (ai_AttemptID sample_attempt) started_store = Inr p"
    "jr_Identity (je_Record p) = sample_attempt" "jr_State (je_Record p) = AssignmentStateStarted"
    "jr_LastClientEventSeq (je_Record p) = 0" by (rule started_entry)
  obtain t where t: "storeEventLocked sample_io sample_event started_store = (None, t)" "store_inv t"
    by (rule sample_event_stored)
  have "AppendEvent sample_io sample_attempt ''progress'' [] started_store = ((sample_event, None), t)"
    using p one64 t(1) store_inv_parts(4) [OF live_inv(1) [OF started_live]]
    by (simp add: AppendEvent_def newRuntimeUUID_def sample_io_def normalizeRawMessage_def Let_def maxInt64_def
        sample_event_def)
  with t(2) that show thesis by blast
qed


lemma pending_events_char:
  assumes inv: "store_inv t" and pend: "PendingEvents a t = Inr rs"
  shows "\<exists>rec. liveRecord a t = Some rec \<and> sorted_wrt (<) (map ev_ClientEventSeq rs)
    \<and> set (map ev_ClientEventSeq rs) = {1 .. jr_LastClientEventSeq rec} - ackedSet rec
    \<and> (\<forall>r \<in> set rs. ev_Identity r = jr_Identity rec \<and> event_on_disk r t)"
proof -
  note parts = store_inv_parts [OF inv]
  from pend parts(4) obtain e where e: "assignmentForAttemptLocked a t = Inr e"
    and rs: "rs = sort_key ev_ClientEventSeq (filter (\<lambda>r. \<not> eventSequenceACKed (je_Record e) (ev_ClientEventSeq r))
        (map (\<lambda>(sequence, eventID). eventOf eventID t) (innerSeqs a t)))"
    by (auto simp: PendingEvents_def split: sum.splits)
  let ?m = "innerSeqs a t" and ?rec = "je_Record e"
  have lr: "liveRecord a t = Some ?rec" by (rule assignmentForAttempt_record [OF e])
  have wf: "ack_wf ?rec" using assignmentForAttempt_entry(3) [OF parts(5) e] by (simp add: jr_wf_def)
  have ok: "gomap_ok ?m" by (rule index_inv_gomap(1) [OF parts(8)])
  have ev: "\<exists>r. eventOf i t = r \<and> map_of (st_events t) i = Some r \<and> eventAttempt r = a \<and> ev_ClientEventSeq r = q"
    if "(q, i) \<in> set ?m" for q i
  proof -
    from that ok have "map_of ?m q = Some i" by (simp add: gomap_mem_iff)
    from index_inv_seq [OF parts(8) this] show ?thesis by (metis eventOf_def option.case(2))
  qed
  have seqs: "map ev_ClientEventSeq (map (\<lambda>(q, i). eventOf i t) ?m) = map fst ?m"
    using ev by (auto simp: map_eq_conv split: prod.splits)
  let ?f = "filter (\<lambda>r. \<not> eventSequenceACKed ?rec (ev_ClientEventSeq r)) (map (\<lambda>(q, i). eventOf i t) ?m)"
  have fs: "map ev_ClientEventSeq ?f = filter (\<lambda>q. \<not> eventSequenceACKed ?rec q) (map fst ?m)"
    using seqs by (metis (no_types, lifting) filter_map comp_apply filter_cong)
  have "distinct (map ev_ClientEventSeq ?f)" unfolding fs using ok by (simp add: gomap_ok_def)
  then have dist: "distinct (map ev_ClientEventSeq rs)"
    unfolding rs by (metis distinct_map distinct_sort set_sort)
  have sorted: "sorted_wrt (<) (map ev_ClientEventSeq rs)"
    using dist sorted_sort_key [of ev_ClientEventSeq ?f] unfolding rs by (simp add: strict_sorted_iff)
  have acked: "eventSequenceACKed ?rec q \<longleftrightarrow> q \<in> ackedSet ?rec" if "1 \<le> q" for q
    by (rule eventSequenceACKed_iff [OF wf that])
  have "set (map ev_ClientEventSeq rs) = set (map ev_ClientEventSeq ?f)" unfolding rs by simp
  also have "\<dots> = {q \<in> fst ` set ?m. \<not> eventSequenceACKed ?rec q}" unfolding fs by auto
  also have "\<dots> = {1 .. jr_LastClientEventSeq ?rec} - ackedSet ?rec"
  proof (intro set_eqI iffI)
    fix q assume q: "q \<in> {q \<in> fst ` set ?m. \<not> eventSequenceACKed ?rec q}"
    then obtain i where "map_of ?m q = Some i" using ok by (auto simp: gomap_mem_iff)
    from event_seq_range [OF inv this lr] q acked show "q \<in> {1 .. jr_LastClientEventSeq ?rec} - ackedSet ?rec" by auto
  next
    fix q assume q: "q \<in> {1 .. jr_LastClientEventSeq ?rec} - ackedSet ?rec"
    with parts(14) lr have "map_of ?m q \<noteq> None" by (auto simp: record_links_def covered_def)
    then have "q \<in> fst ` set ?m" by (simp add: map_of_eq_None_iff)
    with q acked show "q \<in> {q \<in> fst ` set ?m. \<not> eventSequenceACKed ?rec q}" by auto
  qed
  finally have set: "set (map ev_ClientEventSeq rs) = {1 .. jr_LastClientEventSeq ?rec} - ackedSet ?rec" .
  have "ev_Identity r = jr_Identity ?rec \<and> event_on_disk r t" if r: "r \<in> set rs" for r
  proof -
    from r obtain q i where "(q, i) \<in> set ?m" "r = eventOf i t" unfolding rs by auto
    with ev have i: "map_of (st_events t) i = Some r" "eventAttempt r = a" by metis+
    from parts(11) i lr have ok: "event_ok ?rec (dk_events (st_disk t)) r" unfolding event_links_def by fastforce
    have "ev_ClientEventSeq r \<notin> ackedSet ?rec" using r set by auto
    with ok event_file [OF inv i(1)] show ?thesis by (auto simp: event_ok_def released_def)
  qed
  with lr sorted set show ?thesis by blast
qed


definition appended_store :: store where
  "appended_store = snd (AppendEvent sample_io sample_attempt ''progress'' [] started_store)"

lemma appended_inv: "store_inv appended_store"
  using started_append unfolding appended_store_def by (metis snd_conv)

lemma appended_reach: "store_reach sample_store appended_store"
  using store_reach.call [OF started_reach sample_env, of "OpAppendEvent sample_attempt ''progress'' []"]
  by (simp add: appended_store_def)

lemma appended_live: "live_store appended_store"
  by (rule live_run [OF appended_reach appended_inv])

lemma appended_record:
  obtains rec where "liveRecord ''attempt'' appended_store = Some rec" "jr_LastClientEventSeq rec = 1" "ackedSet rec = {}"
proof -
  obtain r t where a: "AppendEvent sample_io sample_attempt ''progress'' [] started_store = ((r, None), t)"
    using started_append by blast
  have id: "ai_AttemptID sample_attempt = ''attempt''" by (simp add: sample_attempt_def sample_identity_def)
  from append_event_effect [OF started_live sample_env a] id obtain rec rec' where
    rec: "liveRecord ''attempt'' started_store = Some rec" "ev_ClientEventSeq r = jr_LastClientEventSeq rec + 1"
    and rec': "liveRecord ''attempt'' t = Some rec'" "jr_LastClientEventSeq rec' = ev_ClientEventSeq r"
      "ackedSet rec' = ackedSet rec" by auto
  from started_at obtain p where p: "map_of (st_entries started_store) ''message'' = Some p" "\<not> je_Deleted p"
    "jr_Identity (je_Record p) = sample_attempt" "jr_LastClientEventSeq (je_Record p) = 0"
    and inv: "store_inv started_store" unfolding sample_at_def by blast
  note en = journal_inv_entry [OF store_inv_parts(5) [OF inv] p(1)]
  have "liveRecord ''attempt'' started_store = Some (je_Record p)"
    using entryFor_of_entry [OF store_inv_parts(5) [OF inv] p(1)] p(2,3) id by (simp add: liveRecord_def)
  with rec have "rec = je_Record p" by simp
  moreover have "ackedSet (je_Record p) \<subseteq> {1 .. 0}"
    using en(2) p(4) by (force simp: entry_ok_def jr_wf_def ack_wf_def ackedSet_def)
  ultimately show thesis using that rec' rec(2) p(4) a by (simp add: appended_store_def)
qed


text \<open>
  \<^verbatim>\<open>StoreEvent\<close> is idempotent: after a successful call with a record that carries its
  creation time, calling it again with the same record succeeds and changes nothing, even
  when the disk is full or failing.
\<close>

lemma store_event_idempotent:
  assumes "live_store s" and "env_ok io" and "ev_CreatedAt r \<noteq> 0" and "StoreEvent io r s = (None, t)"
  shows "StoreEvent io' r t = (None, t)"
proof -
  note inv = live_inv(1) [OF assms(1)] and parts = store_inv_parts [OF live_inv(1) [OF assms(1)]]
  define q where "q = (let r1 = (if ev_Version r = 0 then r\<lparr>ev_Version := spoolRecordVersion\<rparr> else r)
    in r1\<lparr>ev_Payload := normalizeRawMessage (ev_Payload r1)\<rparr>)"
  have norm: "StoreEvent i r u = (if readyLocked u = None then storeEventLocked i q u
      else (readyLocked u, u))" for i u
    using assms(3) by (auto simp: StoreEvent_def q_def isZeroTime_def Let_def split: option.split)
  have st: "storeEventLocked io q s = (None, t)" using assms(4) norm parts(4) by simp
  have "readyLocked t = None \<and> storeEventLocked io' q t = (None, t)"
  proof (rule storeEvent_cases [OF inv assms(2), of q])
    fix x assume x: "storeEventLocked io q s = (x, s)" "x = None \<Longrightarrow> map_of (st_events s) (ev_ClientEventID q) = Some q"
    then have ts: "t = s" and ex: "map_of (st_events s) (ev_ClientEventID q) = Some q" using st by simp_all
    have v: "validateEventSpoolRecord q = None" by (rule index_inv_event(2) [OF parts(8) ex])
    from st ex have "\<exists>p. assignmentForAttemptLocked (eventAttempt q) s = Inr p
        \<and> jr_Identity (je_Record p) = ev_Identity q \<and> jr_State (je_Record p) = AssignmentStateStarted"
      by (auto simp: storeEventLocked_def v split: sum.splits if_splits)
    with ts ex v parts(4) show ?thesis by (auto simp: storeEventLocked_def)
  next
    fix x u assume "storeEventLocked io q s = (Some x, u)"
    with st show ?thesis by simp
  next
    fix p k n snap tm
    let ?w = "eventWritten q k s" and ?e = "eventEntry q p tm"
    assume c: "storeEventLocked io q s = (None, commit ?e n snap ?w)" "store_inv (commit ?e n snap ?w)"
      and p: "nextEntry ?e ?w" "store_core ?w" "assignmentForAttemptLocked (eventAttempt q) s = Inr p"
        "jr_Identity (je_Record p) = ev_Identity q" "jr_State (je_Record p) = AssignmentStateStarted"
    have t: "t = commit ?e n snap ?w" using c(1) st by simp
    have acc: "acceptable ?e ?w" using p(1) by (simp add: acceptable_def)
    have ex: "map_of (st_events t) (ev_ClientEventID q) = Some q" by (simp add: t eventWritten_sel)
    have v: "validateEventSpoolRecord q = None"
      using index_inv_event(2) [OF store_inv_parts(8) [OF c(2)]] ex by (simp add: t)
    have "entryFor (eventAttempt q) t = Some ?e"
      unfolding t entryFor_commit [OF store_core_parts(5) [OF p(2)] acc] using p(4) by simp
    then have "assignmentForAttemptLocked (eventAttempt q) t = Inr ?e" by (simp add: assignmentForAttempt_iff)
    with v p(4,5) ex store_inv_parts(4) [OF c(2)] show ?thesis by (simp add: storeEventLocked_def t)
  qed
  then show ?thesis by (simp add: norm)
qed

section \<open>Results\<close>

definition result_on_disk :: "result_spool_record \<Rightarrow> store \<Rightarrow> bool" where
  "result_on_disk r s \<longleftrightarrow>
     (\<exists>b. map_of (dk_results (st_disk s)) (resultPath r) = Some b
        \<and> openRuntimeRecord (st_key s) b resultSpoolKind = Inr (resultHeader r, r))"

lemma result_file:
  assumes s: "store_inv s" and r: "map_of (st_results s) i = Some r"
    and f: "map_of (dk_results (st_disk s)) (resultPath r) \<noteq> None"
  shows "result_on_disk r s"
proof -
  from f obtain b where b: "map_of (dk_results (st_disk s)) (resultPath r) = Some b" by auto
  have files: "rsk.files_ok (st_key s) (st_spoolSizes s) (ran (map_of (st_results s))) (dk_results (st_disk s))"
    using store_inv_parts(10) [OF s] by (simp add: disk_inv_def)
  from rsk.files_read_back [OF files b] obtain q n where q: "q \<in> ran (map_of (st_results s))"
    "resultPath r = resultPath q" "b = Sealed (st_key s) (resultHeader q) q n" by metis
  from q(1) obtain j where "map_of (st_results s) j = Some q" by (auto simp: ran_def)
  with result_path_unique [OF s r] q(2) have "q = r" by metis
  with b q(3) show ?thesis
    by (simp add: result_on_disk_def openRuntimeRecord_def resultHeader_def)
qed

lemma storeResult_success:
  assumes inv: "store_inv s" and io: "env_ok io" and st: "storeResultLocked io r s = (None, t)"
  shows "store_inv t \<and> map_of (st_results t) (ai_AttemptID (rs_Identity r)) = Some r"
proof (rule storeResult_cases [OF inv io, of r])
  fix x assume "storeResultLocked io r s = (x, s)"
    "x = None \<Longrightarrow> map_of (st_results s) (ai_AttemptID (rs_Identity r)) = Some r"
  with st inv show ?thesis by simp
next
  fix x u assume "storeResultLocked io r s = (Some x, u)"
  with st show ?thesis by simp
next
  fix p k n snap tm
  let ?w = "resultWritten r k s" and ?e = "resultEntry r p tm"
  assume c: "storeResultLocked io r s = (None, commit ?e n snap ?w)" "store_inv (commit ?e n snap ?w)"
  have t: "t = commit ?e n snap ?w" using c(1) st by simp
  show ?thesis using c(2) by (simp add: t resultWritten_sel)
qed


definition sample_result :: result_spool_record where
  "sample_result = \<lparr>rs_Version = spoolRecordVersion, rs_Identity = sample_attempt,
     rs_ResultID = formatUUID (setUUIDBits 0x40 (replicate 16 (CHR ''A''))),
     rs_FinalClientEventSeq = 0, rs_Status = ''completed'', rs_Payload = ''null'', rs_CreatedAt = 1\<rparr>"

lemma sample_result_stored:
  obtains t where "AppendResult sample_io sample_attempt ''completed'' [] started_store = ((sample_result, None), t)"
    "store_inv t"
proof -
  obtain p where p: "assignmentForAttemptLocked (ai_AttemptID sample_attempt) started_store = Inr p"
    "jr_Identity (je_Record p) = sample_attempt" "jr_State (je_Record p) = AssignmentStateStarted"
    "jr_LastClientEventSeq (je_Record p) = 0" by (rule started_entry)
  have e: "st_results started_store = []" and inv: "store_inv started_store"
    using started_at by (simp_all add: sample_at_def)
  have v: "validateResultSpoolRecord sample_result = None" by code_simp
  obtain n snap tm where c: "storeResultLocked sample_io sample_result started_store =
      (None, commit (resultEntry sample_result p tm) n snap (resultWritten sample_result 100 started_store))"
    "store_inv (commit (resultEntry sample_result p tm) n snap (resultWritten sample_result 100 started_store))"
    by (rule storeResult_healthy [OF inv sample_healthy v, of p 100])
       (use p e sample_space [OF started_at] in \<open>simp_all add: sample_io_def
          spoolDiskRecordMax_def sample_result_def\<close>)
  have "AppendResult sample_io sample_attempt ''completed'' [] started_store = ((sample_result, None),
      commit (resultEntry sample_result p tm) n snap (resultWritten sample_result 100 started_store))"
    using p e c(1) store_inv_parts(4) [OF inv]
    by (simp add: AppendResult_def newRuntimeUUID_def sample_io_def normalizeRawMessage_def Let_def sample_result_def)
  with c(2) that show thesis by blast
qed


end
