(* ===== verification/Worker_Spool.thy ===== *)
theory Worker_Spool
  imports Store_Guarantees
begin

text \<open>
  How the worker uploads what the durable store holds (runtime_worker_spool.go) and retires
  attempts that are over (\<^verbatim>\<open>retireTerminalAttempt\<close>, runtime_worker_session.go). The worker sees the
  store through the interface \<^verbatim>\<open>RuntimeStore\<close>, a record of its methods here; the remote runtime
  (\<^verbatim>\<open>RuntimeClient\<close>) is a parameter that answers each request, given the requests sent before.
  Between two store calls of one goroutine other goroutines may call the store; what they do
  to it is a parameter as well.
\<close>

section \<open>Interfaces\<close>

record 's runtime_store =
  sto_Identity :: "'s \<Rightarrow> runtime_identity"
  sto_AcceptsNewRuns :: "io \<Rightarrow> 's \<Rightarrow> bool"
  sto_CreateAssignment :: "io \<Rightarrow> journal_record \<Rightarrow> 's \<Rightarrow> go_error option \<times> 's"
  sto_AdvanceAssignment :: "io \<Rightarrow> string \<Rightarrow> assignment_state \<Rightarrow> 's \<Rightarrow> (go_error + journal_record) \<times> 's"
  sto_Assignment :: "string \<Rightarrow> 's \<Rightarrow> go_error + journal_record"
  sto_Assignments :: "'s \<Rightarrow> go_error + journal_record list"
  sto_DeleteAssignment :: "io \<Rightarrow> string \<Rightarrow> 's \<Rightarrow> go_error option \<times> 's"
  sto_StoreAssignmentPayload :: "io \<Rightarrow> assignment_payload \<Rightarrow> 's \<Rightarrow> go_error option \<times> 's"
  sto_AssignmentPayload :: "string \<Rightarrow> 's \<Rightarrow> go_error + assignment_payload"
  sto_AppendEvent :: "io \<Rightarrow> attempt_identity \<Rightarrow> string \<Rightarrow> bytes \<Rightarrow> 's
    \<Rightarrow> (event_spool_record \<times> go_error option) \<times> 's"
  sto_PendingEvents :: "string \<Rightarrow> 's \<Rightarrow> go_error + event_spool_record list"
  sto_EventsInRanges :: "string \<Rightarrow> event_range list \<Rightarrow> 's \<Rightarrow> go_error + event_spool_record list"
  sto_AckEvent :: "io \<Rightarrow> string \<Rightarrow> string \<Rightarrow> int \<Rightarrow> 's \<Rightarrow> go_error option \<times> 's"
  sto_StoreResult :: "io \<Rightarrow> result_spool_record \<Rightarrow> 's \<Rightarrow> go_error option \<times> 's"
  sto_PendingResult :: "string \<Rightarrow> 's \<Rightarrow> go_error + result_spool_record"
  sto_AckResult :: "io \<Rightarrow> string \<Rightarrow> string \<Rightarrow> 's \<Rightarrow> go_error option \<times> 's"
  sto_ClearTerminalEvents :: "io \<Rightarrow> string \<Rightarrow> 's \<Rightarrow> go_error option \<times> 's"
  sto_Close :: "'s \<Rightarrow> 's"

definition fileRuntimeStore :: "store runtime_store" where
  "fileRuntimeStore =
     \<lparr>sto_Identity = st_identity, sto_AcceptsNewRuns = AcceptsNewRuns,
      sto_CreateAssignment = CreateAssignment, sto_AdvanceAssignment = AdvanceAssignment,
      sto_Assignment = Assignment, sto_Assignments = Assignments,
      sto_DeleteAssignment = DeleteAssignment, sto_StoreAssignmentPayload = StoreAssignmentPayload,
      sto_AssignmentPayload = AssignmentPayload, sto_AppendEvent = AppendEvent,
      sto_PendingEvents = PendingEvents, sto_EventsInRanges = EventsInRanges, sto_AckEvent = AckEvent,
      sto_StoreResult = StoreResult, sto_PendingResult = PendingResult, sto_AckResult = AckResult,
      sto_ClearTerminalEvents = ClearTerminalEvents, sto_Close = Close\<rparr>"

record sdk_identity =
  sa_RunID :: string
  sa_AttemptID :: string
  sa_LeaseID :: string
  sa_FencingToken :: int
  sa_NodeID :: string
  sa_AgentID :: string
  sa_WorkerID :: string
  sa_RuntimeSessionID :: string

definition sdkAttemptIdentity :: "attempt_identity \<Rightarrow> sdk_identity" where
  "sdkAttemptIdentity i =
     \<lparr>sa_RunID = ai_RunID i, sa_AttemptID = ai_AttemptID i, sa_LeaseID = ai_LeaseID i,
      sa_FencingToken = ai_FencingToken i, sa_NodeID = ai_NodeID i, sa_AgentID = ai_AgentID i,
      sa_WorkerID = ai_WorkerID i, sa_RuntimeSessionID = ai_RuntimeSessionID i\<rparr>"

record event_request =
  er_AttemptIdentity :: sdk_identity
  er_ClientEventID :: string
  er_ClientEventSeq :: int
  er_EventType :: string
  er_Payload :: bytes     \<comment> \<open>the JSON object, as the spooled text of it\<close>

record event_ack =
  ea_ClientEventID :: string
  ea_ClientEventSeq :: int

record result_request =
  rr_AttemptIdentity :: sdk_identity
  rr_ResultID :: string
  rr_FinalClientEventSeq :: int
  rr_Body :: bytes        \<comment> \<open>status, output, error and duration\<close>

datatype remote_call = CallAppendEvent event_request | CallFinalizeResult result_request

record spool_permission =
  sp_events :: bool
  sp_result :: bool

text \<open>
  What the worker depends on: the store's methods, the file system's answer to the \<open>n\<close>-th store
  call, the effect of other goroutines before it, the remote runtime's answers, and JSON
  (decoding an event payload to an object, decoding a spooled result, and whether the
  encoding of a request exceeds the message limit).
\<close>

record 's worker_env =
  we_store :: "'s runtime_store"
  we_io :: "nat \<Rightarrow> io"
  we_others :: "nat \<Rightarrow> 's \<Rightarrow> 's"
  we_append :: "remote_call list \<Rightarrow> event_request \<Rightarrow> go_error + event_ack option"
  we_finalize :: "remote_call list \<Rightarrow> result_request \<Rightarrow> go_error + string option"
  we_isObject :: "bytes \<Rightarrow> bool"
  we_decodeResult :: "bytes \<Rightarrow> result_request option"
  we_tooLarge :: "remote_call \<Rightarrow> bool"
  we_stopped :: "nat \<Rightarrow> bool"     \<comment> \<open>whether the context of the worker is cancelled by then\<close>

record 's worker_state =
  wk_store :: 's
  wk_turn :: nat
  wk_calls :: "remote_call list"
  wk_spoolAllowed :: "(string, spool_permission) gomap"
  wk_active :: "string list"      \<comment> \<open>attempt IDs of \<^verbatim>\<open>node.active\<close>\<close>
  wk_fatal :: "go_error list"     \<comment> \<open>errors given to \<^verbatim>\<open>reportFatal\<close>\<close>

definition takeTurn :: "'s worker_env \<Rightarrow> 's worker_state \<Rightarrow> 's worker_state" where
  "takeTurn env w = w\<lparr>wk_store := we_others env (wk_turn w) (wk_store w), wk_turn := wk_turn w + 1\<rparr>"

definition storeRead :: "'s worker_env \<Rightarrow> ('s \<Rightarrow> 'a) \<Rightarrow> 's worker_state \<Rightarrow> 'a \<times> 's worker_state" where
  "storeRead env f w = (let w1 = takeTurn env w in (f (wk_store w1), w1))"

definition storeCall ::
  "'s worker_env \<Rightarrow> (io \<Rightarrow> 's \<Rightarrow> 'a \<times> 's) \<Rightarrow> 's worker_state \<Rightarrow> 'a \<times> 's worker_state" where
  "storeCall env f w =
     (let w1 = takeTurn env w in
      case f (we_io env (wk_turn w)) (wk_store w1) of (r, s) \<Rightarrow> (r, w1\<lparr>wk_store := s\<rparr>))"

definition sendCall :: "remote_call \<Rightarrow> 's worker_state \<Rightarrow> 's worker_state" where
  "sendCall c w = w\<lparr>wk_calls := wk_calls w @ [c]\<rparr>"

section \<open>Uploading events\<close>

definition eventRequest :: "event_spool_record \<Rightarrow> event_request" where
  "eventRequest event =
     \<lparr>er_AttemptIdentity = sdkAttemptIdentity (ev_Identity event), er_ClientEventID = ev_ClientEventID event,
      er_ClientEventSeq = ev_ClientEventSeq event, er_EventType = ev_EventType event,
      er_Payload = ev_Payload event\<rparr>"

text \<open>
  The loop over events of \<^verbatim>\<open>flushAttemptSpool\<close> and of \<^verbatim>\<open>replayMissingEvents\<close>, which are the same but
  for the size check and the text of the protocol error.
\<close>

fun deliverEvents ::
  "'s worker_env \<Rightarrow> bool \<Rightarrow> string \<Rightarrow> string \<Rightarrow> event_spool_record list \<Rightarrow> 's worker_state
     \<Rightarrow> go_error option \<times> 's worker_state" where
  "deliverEvents env checkSize what attemptID [] w = (None, w)"
| "deliverEvents env checkSize what attemptID (event # rest) w =
     (if \<not> we_isObject env (ev_Payload event) then (Some ErrRuntimeRecordCorrupt, w)
      else
        let request = eventRequest event in
        if checkSize \<and> we_tooLarge env (CallAppendEvent request) then (Some ErrRuntimeMessageTooLarge, w)
        else
          let w1 = sendCall (CallAppendEvent request) w in
          case we_append env (wk_calls w) request of
            Inl e \<Rightarrow> (Some e, w1)
          | Inr ack \<Rightarrow>
              if ack \<noteq> Some \<lparr>ea_ClientEventID = ev_ClientEventID event, ea_ClientEventSeq = ev_ClientEventSeq event\<rparr>
              then (Some (WrapError ErrRuntimeProtocolMismatch what), w1)
              else (case storeCall env (\<lambda>io. sto_AckEvent (we_store env) io attemptID
                                          (ev_ClientEventID event) (ev_ClientEventSeq event)) w1 of
                      (Some e, w2) \<Rightarrow> (Some e, w2)
                    | (None, w2) \<Rightarrow> deliverEvents env checkSize what attemptID rest w2))"

definition replayMissingEvents ::
  "'s worker_env \<Rightarrow> journal_record \<Rightarrow> event_range list \<Rightarrow> 's worker_state \<Rightarrow> go_error option \<times> 's worker_state" where
  "replayMissingEvents env record ranges w =
     (case storeRead env (sto_EventsInRanges (we_store env) (attemptID_of record) ranges) w of
        (Inl e, w1) \<Rightarrow> (Some (WrapError ErrRuntimeProtocolMismatch ''requested Event range is unavailable''), w1)
      | (Inr events, w1) \<Rightarrow> deliverEvents env False ''missing Event ACK identity'' (attemptID_of record) events w1)"

text \<open>\<^verbatim>\<open>runtimeErrorCode\<close>: the code of the first API error in the chain, empty without one.\<close>

fun firstApiError :: "go_error list \<Rightarrow> (string \<times> (int \<times> int) list option) option" where
  "firstApiError [] = None"
| "firstApiError (ApiError status errCode message details # es) = Some (errCode, details)"
| "firstApiError (e # es) = firstApiError es"

definition runtimeErrorCode :: "go_error \<Rightarrow> string" where
  "runtimeErrorCode err = (case firstApiError (errorChain err) of None \<Rightarrow> [] | Some (errCode, details) \<Rightarrow> errCode)"

definition runtimeMissingEventRanges :: "go_error \<Rightarrow> event_range list option" where
  "runtimeMissingEventRanges err =
     (case firstApiError (errorChain err) of
        None \<Rightarrow> None
      | Some (errCode, details) \<Rightarrow>
          if errCode \<noteq> ''EVENTS_MISSING'' then None
          else Some (case details of None \<Rightarrow> [] | Some ranges \<Rightarrow> ranges))"

section \<open>Uploading the result\<close>

text \<open>
  The loop around \<^verbatim>\<open>FinalizeRuntimeResult\<close>: \<open>n\<close> repairs are left. \<^term>\<open>Inr\<close> is the acknowledged
  result ID, \<^term>\<open>None\<close> a nil acknowledgement.
\<close>

fun finalizeLoop ::
  "'s worker_env \<Rightarrow> journal_record \<Rightarrow> result_request \<Rightarrow> nat \<Rightarrow> 's worker_state
     \<Rightarrow> (go_error + string option) \<times> 's worker_state" where
  "finalizeLoop env record request n w =
     (let w1 = sendCall (CallFinalizeResult request) w in
      case we_finalize env (wk_calls w) request of
        Inr ack \<Rightarrow> (Inr ack, w1)
      | Inl e \<Rightarrow>
          (case runtimeMissingEventRanges e of
             None \<Rightarrow> (Inl e, w1)
           | Some ranges \<Rightarrow>
               (case n of
                  0 \<Rightarrow> (Inl (WrapError ErrRuntimeProtocolMismatch ''repeated or empty EVENTS_MISSING response''), w1)
                | Suc k \<Rightarrow>
                    if ranges = []
                    then (Inl (WrapError ErrRuntimeProtocolMismatch ''repeated or empty EVENTS_MISSING response''), w1)
                    else (case replayMissingEvents env record ranges w1 of
                            (Some e2, w2) \<Rightarrow> (Inl e2, w2)
                          | (None, w2) \<Rightarrow> finalizeLoop env record request k w2))))"

declare finalizeLoop.simps [simp del]

text \<open>The part of \<^verbatim>\<open>flushAttemptSpool\<close> from \<^verbatim>\<open>PendingResult\<close> on, and the part guarded by \<^verbatim>\<open>permission.result\<close>.\<close>

definition uploadResult ::
  "'s worker_env \<Rightarrow> journal_record \<Rightarrow> 's worker_state \<Rightarrow> go_error option \<times> 's worker_state" where
  "uploadResult env record w =
     (case storeRead env (sto_PendingResult (we_store env) (attemptID_of record)) w of
        (Inl e, w2) \<Rightarrow> (if errorIs e ErrSpoolRecordNotFound then (None, w2) else (Some e, w2))
      | (Inr result, w2) \<Rightarrow>
      (case we_decodeResult env (rs_Payload result) of
         None \<Rightarrow> (Some ErrRuntimeRecordCorrupt, w2)
       | Some request \<Rightarrow>
       if rr_AttemptIdentity request \<noteq> sdkAttemptIdentity (rs_Identity result)
          \<or> rr_ResultID request \<noteq> rs_ResultID result
          \<or> rr_FinalClientEventSeq request \<noteq> rs_FinalClientEventSeq result
       then (Some ErrSpoolRecordConflict, w2)
       else if we_tooLarge env (CallFinalizeResult request) then (Some ErrRuntimeMessageTooLarge, w2)
       else (case finalizeLoop env record request 1 w2 of
         (Inl e, w3) \<Rightarrow> (Some e, w3)
       | (Inr ack, w3) \<Rightarrow>
       if ack \<noteq> Some (rs_ResultID result) then (Some (WrapError ErrRuntimeProtocolMismatch ''Result ACK identity''), w3)
       else
         let w4 = w3\<lparr>wk_active := removeAll (attemptID_of record) (wk_active w3)\<rparr> in
         (case storeCall env (\<lambda>io. sto_AckResult (we_store env) io (attemptID_of record) (rs_ResultID result)) w4 of
            (Some e, w5) \<Rightarrow> (Some e, w5)
          | (None, w5) \<Rightarrow>
            (case storeCall env (\<lambda>io. sto_DeleteAssignment (we_store env) io (messageID_of record)) w5 of
               (Some e, w6) \<Rightarrow> (Some e, w6)
             | (None, w6) \<Rightarrow>
                 (None, w6\<lparr>wk_spoolAllowed := AList.delete (attemptID_of record) (wk_spoolAllowed w6)\<rparr>))))))"

definition flushResult ::
  "'s worker_env \<Rightarrow> journal_record \<Rightarrow> 's worker_state \<Rightarrow> go_error option \<times> 's worker_state" where
  "flushResult env record w =
     (case storeRead env (sto_PendingEvents (we_store env) (attemptID_of record)) w of
        (Inl e, w1) \<Rightarrow> (Some e, w1)
      | (Inr remaining, w1) \<Rightarrow> if remaining \<noteq> [] then (None, w1) else uploadResult env record w1)"

definition flushAttemptSpool ::
  "'s worker_env \<Rightarrow> journal_record \<Rightarrow> spool_permission \<Rightarrow> 's worker_state \<Rightarrow> go_error option \<times> 's worker_state" where
  "flushAttemptSpool env record permission w =
     (let events =
        (if sp_events permission then
           (case storeRead env (sto_PendingEvents (we_store env) (attemptID_of record)) w of
              (Inl e, w1) \<Rightarrow> (Some e, w1)
            | (Inr events, w1) \<Rightarrow> deliverEvents env True ''Event ACK identity'' (attemptID_of record) events w1)
         else (None, w))
      in case events of
           (Some e, w1) \<Rightarrow> (Some e, w1)
         | (None, w1) \<Rightarrow> if sp_result permission then flushResult env record w1 else (None, w1))"

section \<open>Revocation and the flush of every attempt\<close>

definition revokeLocalAttempt :: "'s worker_env \<Rightarrow> journal_record \<Rightarrow> 's worker_state \<Rightarrow> 's worker_state" where
  "revokeLocalAttempt env record w =
     (case storeRead env (sto_Assignment (we_store env) (messageID_of record)) w of
        (Inl e, w1) \<Rightarrow>
          let w2 = (if \<not> errorIs e ErrAssignmentNotFound \<and> \<not> we_stopped env (wk_turn w1) then w1\<lparr>wk_fatal := wk_fatal w1 @ [e]\<rparr> else w1)
          in w2\<lparr>wk_active := removeAll (attemptID_of record) (wk_active w2)\<rparr>
      | (Inr current, w1) \<Rightarrow>
          let w2 = (if \<not> isAssignmentTerminal (jr_State current)
                    then (case storeCall env (\<lambda>io. sto_AdvanceAssignment (we_store env) io (messageID_of record)
                                                 AssignmentStateRevoked) w1 of
                            (Inl e, w2) \<Rightarrow> w2\<lparr>wk_fatal := wk_fatal w2 @ [e]\<rparr>
                          | (Inr r, w2) \<Rightarrow> w2)
                    else w1)
          in w2\<lparr>wk_spoolAllowed := AList.delete (attemptID_of record) (wk_spoolAllowed w2),
                wk_active := removeAll (attemptID_of record) (wk_active w2)\<rparr>)"

definition spoolPermission :: "string \<Rightarrow> 's worker_state \<Rightarrow> spool_permission" where
  "spoolPermission attemptID w =
     (case map_of (wk_spoolAllowed w) attemptID of
        None \<Rightarrow> \<lparr>sp_events = False, sp_result = False\<rparr> | Some p \<Rightarrow> p)"

fun flushRecords ::
  "'s worker_env \<Rightarrow> journal_record list \<Rightarrow> 's worker_state \<Rightarrow> go_error option \<times> 's worker_state" where
  "flushRecords env [] w = (None, w)"
| "flushRecords env (record # rest) w =
     (let permission = spoolPermission (attemptID_of record) w in
      if \<not> sp_events permission \<and> \<not> sp_result permission then flushRecords env rest w
      else case flushAttemptSpool env record permission w of
             (None, w1) \<Rightarrow> flushRecords env rest w1
           | (Some e, w1) \<Rightarrow>
               if runtimeErrorCode e \<in> {''STALE_LEASE'', ''LEASE_EXPIRED'', ''RUN_ALREADY_TERMINAL''}
               then flushRecords env rest (revokeLocalAttempt env record w1)
               else (Some e, w1))"

definition flushDurableSpool :: "'s worker_env \<Rightarrow> 's worker_state \<Rightarrow> go_error option \<times> 's worker_state" where
  "flushDurableSpool env w =
     (case storeRead env (sto_Assignments (we_store env)) w of
        (Inl e, w1) \<Rightarrow> (Some e, w1)
      | (Inr records, w1) \<Rightarrow> flushRecords env records w1)"

section \<open>Retiring a terminal attempt\<close>

fun ackEvents ::
  "'s worker_env \<Rightarrow> string \<Rightarrow> event_spool_record list \<Rightarrow> 's worker_state \<Rightarrow> go_error option \<times> 's worker_state" where
  "ackEvents env attemptID [] w = (None, w)"
| "ackEvents env attemptID (event # rest) w =
     (case storeCall env (\<lambda>io. sto_AckEvent (we_store env) io attemptID (ev_ClientEventID event)
                                 (ev_ClientEventSeq event)) w of
        (Some e, w1) \<Rightarrow> (Some e, w1)
      | (None, w1) \<Rightarrow> ackEvents env attemptID rest w1)"

text \<open>\<^verbatim>\<open>record, _ = node.store.Assignment(...)\<close>: the error is dropped, the zero record stands for it.\<close>

definition reloadAssignment ::
  "'s worker_env \<Rightarrow> string \<Rightarrow> 's worker_state \<Rightarrow> journal_record \<times> 's worker_state" where
  "reloadAssignment env messageID w =
     (case storeRead env (sto_Assignment (we_store env) messageID) w of
        (Inl e, w1) \<Rightarrow> (je_Record zeroEntry, w1) | (Inr r, w1) \<Rightarrow> (r, w1))"

definition retireCleanup ::
  "'s worker_env \<Rightarrow> journal_record \<Rightarrow> 's worker_state \<Rightarrow> go_error option \<times> 's worker_state" where
  "retireCleanup env record w =
     (case (if jr_State record = AssignmentStateRevoked \<or> jr_State record = AssignmentStateResultACKed
            then storeCall env (\<lambda>io. sto_ClearTerminalEvents (we_store env) io (attemptID_of record)) w
            else (None, w)) of
        (Some e, w1) \<Rightarrow> (Some e, w1)
      | (None, w1) \<Rightarrow>
          (case storeCall env (\<lambda>io. sto_DeleteAssignment (we_store env) io (messageID_of record)) w1 of
             (None, w2) \<Rightarrow> (None, w2)
           | (Some e, w2) \<Rightarrow> if errorIs e ErrAssignmentNotFound then (None, w2) else (Some e, w2)))"

definition retireSpool ::
  "'s worker_env \<Rightarrow> journal_record \<Rightarrow> 's worker_state \<Rightarrow> go_error option \<times> 's worker_state" where
  "retireSpool env record w =
     (case storeRead env (sto_PendingEvents (we_store env) (attemptID_of record)) w of
        (Inl e, w1) \<Rightarrow> (Some e, w1)
      | (Inr events, w1) \<Rightarrow>
      case ackEvents env (attemptID_of record) events w1 of
        (Some e, w2) \<Rightarrow> (Some e, w2)
      | (None, w2) \<Rightarrow>
      case storeRead env (sto_PendingResult (we_store env) (attemptID_of record)) w2 of
        (Inr result, w3) \<Rightarrow>
          (case storeCall env (\<lambda>io. sto_AckResult (we_store env) io (attemptID_of record) (rs_ResultID result)) w3 of
             (Some e, w4) \<Rightarrow> (Some e, w4)
           | (None, w4) \<Rightarrow>
               (case reloadAssignment env (messageID_of record) w4 of (record1, w5) \<Rightarrow> retireCleanup env record1 w5))
      | (Inl e, w3) \<Rightarrow>
          if errorIs e ErrSpoolRecordNotFound then retireCleanup env record w3 else (Some e, w3))"

definition retireTerminalAttempt ::
  "'s worker_env \<Rightarrow> journal_record \<Rightarrow> bool \<Rightarrow> 's worker_state \<Rightarrow> go_error option \<times> 's worker_state" where
  "retireTerminalAttempt env record revoke w =
     (case storeRead env (sto_Assignment (we_store env) (messageID_of record)) w of
        (Inl e, w1) \<Rightarrow> (if errorIs e ErrAssignmentNotFound then (None, w1) else (Some e, w1))
      | (Inr current, w1) \<Rightarrow>
      if jr_Identity current \<noteq> jr_Identity record then (Some ErrSpoolRecordConflict, w1)
      else if revoke \<and> \<not> isAssignmentTerminal (jr_State current) then
        (case storeCall env (\<lambda>io. sto_AdvanceAssignment (we_store env) io (messageID_of current)
                                    AssignmentStateRevoked) w1 of
           (Inl e, w2) \<Rightarrow> (Some e, w2)
         | (Inr r, w2) \<Rightarrow>
             (case reloadAssignment env (messageID_of current) w2 of (current1, w3) \<Rightarrow> retireSpool env current1 w3))
      else retireSpool env current w1)"

end
