(* ===== verification/Worker_Contract.thy ===== *)
theory Worker_Contract
  imports Worker_Spool "HOL-Library.Sublist"
begin

text \<open>
  What the worker needs of a \<^verbatim>\<open>RuntimeStore\<close>, as a locale, and what it guarantees on top of any
  store that keeps the contract: it drops the spool of an attempt only when no event of it is
  unacknowledged, and it uploads a result only then. The file store is shown to keep the
  contract, so the invariant of the store holds throughout every flush and retirement.
\<close>

section \<open>The contract of the store\<close>

locale runtime_store_contract =
  fixes api :: "'s runtime_store" and good :: "'s \<Rightarrow> bool" and reach :: "'s \<Rightarrow> 's \<Rightarrow> bool"
    and unacked :: "string \<Rightarrow> 's \<Rightarrow> int set"
  assumes reach_refl: "reach s s"
    and reach_trans: "reach s t \<Longrightarrow> reach t u \<Longrightarrow> reach s u"
    and reach_good: "good s \<Longrightarrow> reach s t \<Longrightarrow> good t"
    and advance_reach: "env_ok io \<Longrightarrow> reach s (snd (sto_AdvanceAssignment api io m st s))"
    and delete_reach: "env_ok io \<Longrightarrow> reach s (snd (sto_DeleteAssignment api io m s))"
    and ackEvent_reach: "env_ok io \<Longrightarrow> reach s (snd (sto_AckEvent api io a i q s))"
    and ackResult_reach: "good s \<Longrightarrow> env_ok io \<Longrightarrow> unacked a s = {} \<Longrightarrow> reach s (snd (sto_AckResult api io a i s))"
    and clear_reach: "good s \<Longrightarrow> env_ok io \<Longrightarrow> unacked a s = {} \<Longrightarrow> reach s (snd (sto_ClearTerminalEvents api io a s))"
    and pending_unacked: "good s \<Longrightarrow> sto_PendingEvents api a s = Inr es \<Longrightarrow>
      unacked a s = set (map ev_ClientEventSeq es)"
    and ackEvent_unacked: "good s \<Longrightarrow> env_ok io \<Longrightarrow> sto_AckEvent api io a i q s = (r, t) \<Longrightarrow>
      unacked b t \<subseteq> unacked b s \<and> (r = None \<longrightarrow> q \<notin> unacked a t)"
    and delete_unacked: "good s \<Longrightarrow> env_ok io \<Longrightarrow> unacked b (snd (sto_DeleteAssignment api io m s)) \<subseteq> unacked b s"
    and clear_unacked: "good s \<Longrightarrow> env_ok io \<Longrightarrow> unacked a s = {} \<Longrightarrow> unacked b (snd (sto_ClearTerminalEvents api io a s)) \<subseteq> unacked b s"
    and advance_unacked: "good s \<Longrightarrow> env_ok io \<Longrightarrow> unacked b (snd (sto_AdvanceAssignment api io m st s)) \<subseteq> unacked b s"
    and unacked_nil: "good s \<Longrightarrow> unacked [] s = {}"
    and assignment_identity: "good s \<Longrightarrow> reach s t \<Longrightarrow> sto_Assignment api m s = Inr old \<Longrightarrow>
      sto_Assignment api m t = Inr new \<Longrightarrow> messageID_of old = m \<and> m \<noteq> [] \<and> jr_Identity new = jr_Identity old"
    and ackResult_unacked: "good s \<Longrightarrow> env_ok io \<Longrightarrow> unacked a s = {} \<Longrightarrow> unacked b (snd (sto_AckResult api io a i s)) \<subseteq> unacked b s"
begin

text \<open>
  The rest of the program during one activity of the worker on an attempt: it keeps the
  contract and appends no event to that attempt.
\<close>

definition quiet :: "string \<Rightarrow> 's worker_env \<Rightarrow> bool" where
  "quiet a env \<longleftrightarrow> we_store env = api \<and> (\<forall>n. env_ok (we_io env n))
     \<and> (\<forall>n s. good s \<longrightarrow> reach s (we_others env n s) \<and> unacked a (we_others env n s) \<subseteq> unacked a s)"

text \<open>The state of a step: reached through the contract, with no new unacknowledged event.\<close>

definition settles :: "string \<Rightarrow> 's worker_state \<Rightarrow> 's worker_state \<Rightarrow> bool" where
  "settles a w w' \<longleftrightarrow> reach (wk_store w) (wk_store w') \<and> unacked a (wk_store w') \<subseteq> unacked a (wk_store w)"

lemma settles_refl [simp]: "settles a w w"
  by (simp add: settles_def reach_refl)

lemma settles_trans: "settles a w v \<Longrightarrow> settles a v u \<Longrightarrow> settles a w u"
  unfolding settles_def using reach_trans by blast

lemma settles_good: "good (wk_store w) \<Longrightarrow> settles a w w' \<Longrightarrow> good (wk_store w')"
  using reach_good by (auto simp: settles_def)

lemma settles_store: "wk_store v = wk_store w' \<Longrightarrow> settles a w w' \<Longrightarrow> settles a w v"
  by (simp add: settles_def)

lemma settles_sendCall [simp]: "settles a w (sendCall c v) = settles a w v"
  by (simp add: settles_def sendCall_def)

lemma sendCall_store [simp]: "wk_store (sendCall c w) = wk_store w"
  by (simp add: sendCall_def)

lemma takeTurn_settles:
  "quiet a env \<Longrightarrow> good (wk_store w) \<Longrightarrow> settles a w (takeTurn env w)"
  by (simp add: settles_def takeTurn_def quiet_def)

lemma storeRead_settles:
  assumes "quiet a env" and "good (wk_store w)" and "storeRead env f w = (r, w')"
  shows "settles a w w'" and "r = f (wk_store w')"
  using assms takeTurn_settles [OF assms(1,2)] by (auto simp: storeRead_def Let_def)

lemma storeCall_settles:
  assumes "quiet a env" and "good (wk_store w)" and "storeCall env f w = (r, w')"
    and "\<And>io s. env_ok io \<Longrightarrow> good s \<Longrightarrow> settles a w (w\<lparr>wk_store := s\<rparr>) \<Longrightarrow>
      reach s (snd (f io s)) \<and> unacked a (snd (f io s)) \<subseteq> unacked a s"
  shows "settles a w w'"
proof -
  let ?s = "wk_store (takeTurn env w)" and ?io = "we_io env (wk_turn w)"
  have t: "settles a w (takeTurn env w)" by (rule takeTurn_settles [OF assms(1,2)])
  have "wk_store w' = snd (f ?io ?s)"
    using assms(3) by (auto simp: storeCall_def Let_def split: prod.splits)
  moreover have "reach ?s (snd (f ?io ?s)) \<and> unacked a (snd (f ?io ?s)) \<subseteq> unacked a ?s"
    using assms(1,4) settles_good [OF assms(2) t] t unfolding quiet_def by (simp add: settles_def)
  ultimately show ?thesis using t unfolding settles_def by (metis reach_trans subset_trans)
qed

lemma ackEvent_settles:
  assumes "quiet a env" and "good (wk_store w)"
    and "storeCall env (\<lambda>io. sto_AckEvent (we_store env) io a i q) w = (r, w')"
  shows "settles a w w' \<and> (r = None \<longrightarrow> q \<notin> unacked a (wk_store w'))"
proof -
  let ?s = "wk_store (takeTurn env w)" and ?io = "we_io env (wk_turn w)"
  have env: "we_store env = api" "env_ok ?io" using assms(1) by (simp_all add: quiet_def)
  have g: "good ?s" by (rule settles_good [OF assms(2) takeTurn_settles [OF assms(1,2)]])
  have s: "settles a w w'"
  proof (rule storeCall_settles [OF assms])
    fix io s assume "env_ok io" "good s"
    then show "reach s (snd (sto_AckEvent (we_store env) io a i q s))
        \<and> unacked a (snd (sto_AckEvent (we_store env) io a i q s)) \<subseteq> unacked a s"
      using ackEvent_reach ackEvent_unacked [OF _ _ prod.collapse [symmetric]] env(1) by blast
  qed
  obtain t where t: "sto_AckEvent api ?io a i q ?s = (r, t)" "wk_store w' = t"
    using assms(3) env(1) by (auto simp: storeCall_def Let_def split: prod.splits)
  from ackEvent_unacked [OF g env(2) t(1)] s t(2) show ?thesis by simp
qed

lemma deliverEvents_settles:
  assumes "quiet a env"
  shows "good (wk_store w) \<Longrightarrow> deliverEvents env c what a es w = (r, w') \<Longrightarrow> settles a w w'"
proof (induction es arbitrary: w)
  case (Cons e es)
  let ?w1 = "sendCall (CallAppendEvent (eventRequest e)) w"
  show ?case
  proof (cases "\<exists>w2. storeCall env (\<lambda>io. sto_AckEvent (we_store env) io a (ev_ClientEventID e) (ev_ClientEventSeq e)) ?w1 = (None, w2)
      \<and> deliverEvents env c what a es w2 = (r, w')")
    case True
    then obtain w2 where w2: "storeCall env (\<lambda>io. sto_AckEvent (we_store env) io a (ev_ClientEventID e) (ev_ClientEventSeq e)) ?w1 = (None, w2)"
      "deliverEvents env c what a es w2 = (r, w')" by blast
    have 1: "settles a ?w1 w2" using ackEvent_settles [OF assms _ w2(1)] Cons.prems(1) by simp
    with Cons.IH [OF settles_good [OF _ 1] w2(2)] Cons.prems(1) show ?thesis
      by (simp add: settles_def) (meson reach_trans subset_trans)
  next
    case False
    with Cons.prems(2) have "w' = w \<or> w' = ?w1 \<or>
        (\<exists>x. storeCall env (\<lambda>io. sto_AckEvent (we_store env) io a (ev_ClientEventID e) (ev_ClientEventSeq e)) ?w1 = (Some x, w'))"
      by (auto simp: Let_def split: if_splits sum.splits prod.splits option.splits)
    then show ?thesis
    proof (elim disjE exE)
      fix x assume "storeCall env (\<lambda>io. sto_AckEvent (we_store env) io a (ev_ClientEventID e) (ev_ClientEventSeq e)) ?w1 = (Some x, w')"
      from ackEvent_settles [OF assms _ this] Cons.prems(1) show ?thesis by (simp add: settles_def)
    qed simp_all
  qed
qed simp

lemma replay_settles:
  assumes "quiet (attemptID_of record) env" and "good (wk_store w)"
    and "replayMissingEvents env record ranges w = (r, w')"
  shows "settles (attemptID_of record) w w'"
proof -
  obtain x w1 where x: "storeRead env (sto_EventsInRanges (we_store env) (attemptID_of record) ranges) w = (x, w1)"
    by (cases "storeRead env (sto_EventsInRanges (we_store env) (attemptID_of record) ranges) w") auto
  note s1 = storeRead_settles(1) [OF assms(1,2) x]
  show ?thesis
  proof (cases x)
    case (Inl e) with assms(3) x s1 show ?thesis by (simp add: replayMissingEvents_def)
  next
    case (Inr es)
    with assms(3) x have "deliverEvents env False ''missing Event ACK identity'' (attemptID_of record) es w1 = (r, w')"
      by (simp add: replayMissingEvents_def)
    from deliverEvents_settles [OF assms(1) settles_good [OF assms(2) s1] this] s1 settles_trans
    show ?thesis by blast
  qed
qed

lemma finalizeLoop_settles:
  assumes "quiet (attemptID_of record) env"
  shows "good (wk_store w) \<Longrightarrow> finalizeLoop env record request n w = (r, w') \<Longrightarrow> settles (attemptID_of record) w w'"
proof (induction n arbitrary: w)
  case 0
  then show ?case
    by (subst (asm) finalizeLoop.simps) (auto simp: Let_def split: sum.splits option.splits)
next
  case (Suc n)
  let ?w1 = "sendCall (CallFinalizeResult request) w"
  show ?case
  proof (cases "\<exists>ranges w2. replayMissingEvents env record ranges ?w1 = (None, w2)
      \<and> finalizeLoop env record request n w2 = (r, w')")
    case True
    then obtain ranges w2 where w2: "replayMissingEvents env record ranges ?w1 = (None, w2)"
      "finalizeLoop env record request n w2 = (r, w')" by blast
    have 1: "settles (attemptID_of record) ?w1 w2" by (rule replay_settles [OF assms _ w2(1)]) (use Suc.prems(1) in simp)
    have "settles (attemptID_of record) w2 w'"
      by (rule Suc.IH [OF settles_good [OF _ 1] w2(2)]) (use Suc.prems(1) in simp)
    with 1 have "settles (attemptID_of record) ?w1 w'" by (rule settles_trans)
    then show ?thesis by (simp add: settles_def)
  next
    case False
    with Suc.prems(2) have "w' = ?w1 \<or> (\<exists>ranges x. replayMissingEvents env record ranges ?w1 = (Some x, w'))"
      by (subst (asm) finalizeLoop.simps) (auto simp: Let_def split: sum.splits option.splits if_splits prod.splits)
    then show ?thesis
    proof (elim disjE exE)
      fix ranges x assume "replayMissingEvents env record ranges ?w1 = (Some x, w')"
      from replay_settles [OF assms _ this] Suc.prems(1) show ?thesis by (simp add: settles_def)
    qed simp
  qed
qed

lemma deliverEvents_calls:
  "deliverEvents env c what a es w = (r, w') \<Longrightarrow>
     \<exists>evs. wk_calls w' = wk_calls w @ evs \<and> (\<forall>x \<in> set evs. \<exists>q. x = CallAppendEvent q)"
proof (induction es arbitrary: w)
  case (Cons e es)
  let ?ack = "storeCall env (\<lambda>io. sto_AckEvent (we_store env) io a (ev_ClientEventID e) (ev_ClientEventSeq e))
      (sendCall (CallAppendEvent (eventRequest e)) w)"
  have calls: "wk_calls (snd ?ack) = wk_calls w @ [CallAppendEvent (eventRequest e)]"
    by (simp add: storeCall_def takeTurn_def sendCall_def Let_def split: prod.split)
  have "w' = w \<or> wk_calls w' = wk_calls w @ [CallAppendEvent (eventRequest e)]
      \<or> deliverEvents env c what a es (snd ?ack) = (r, w')"
    using Cons.prems calls
    by (auto simp: Let_def sendCall_def split: if_splits sum.splits prod.splits option.splits)
  then show ?case
  proof (elim disjE)
    assume "deliverEvents env c what a es (snd ?ack) = (r, w')"
    from Cons.IH [OF this] calls show ?thesis by auto
  qed auto
qed simp

lemma storeRead_calls: "storeRead env f w = (r, w') \<Longrightarrow> wk_calls w' = wk_calls w"
  by (auto simp: storeRead_def takeTurn_def Let_def)

lemma storeCall_calls: "storeCall env f w = (r, w') \<Longrightarrow> wk_calls w' = wk_calls w"
  by (auto simp: storeCall_def takeTurn_def Let_def split: prod.splits)

lemma replay_calls:
  assumes "replayMissingEvents env record ranges w = (r, w')"
  shows "\<exists>evs. wk_calls w' = wk_calls w @ evs"
proof (cases "storeRead env (sto_EventsInRanges (we_store env) (attemptID_of record) ranges) w")
  case (Pair x w1)
  note c = storeRead_calls [OF Pair]
  show ?thesis
  proof (cases x)
    case (Inl e) with assms Pair c show ?thesis by (auto simp: replayMissingEvents_def)
  next
    case (Inr es)
    with assms Pair have "deliverEvents env False ''missing Event ACK identity'' (attemptID_of record) es w1 = (r, w')"
      by (simp add: replayMissingEvents_def)
    from deliverEvents_calls [OF this] c show ?thesis by auto
  qed
qed

lemma finalizeLoop_calls:
  "finalizeLoop env record request n w = (r, w') \<Longrightarrow> \<exists>fins. wk_calls w' = wk_calls w @ CallFinalizeResult request # fins"
proof (induction n arbitrary: w)
  case 0
  then show ?case
    by (subst (asm) finalizeLoop.simps) (auto simp: Let_def sendCall_def split: sum.splits option.splits)
next
  case (Suc n)
  let ?w1 = "sendCall (CallFinalizeResult request) w"
  have w1: "wk_calls ?w1 = wk_calls w @ [CallFinalizeResult request]" by (simp add: sendCall_def)
  have "w' = ?w1 \<or> (\<exists>ranges x w2. replayMissingEvents env record ranges ?w1 = (x, w2)
      \<and> (w' = w2 \<or> finalizeLoop env record request n w2 = (r, w')))"
    using Suc.prems
    by (subst (asm) finalizeLoop.simps) (auto simp: Let_def split: sum.splits option.splits if_splits prod.splits)
  then show ?case
  proof (elim disjE exE conjE)
    fix ranges x w2 assume w2: "replayMissingEvents env record ranges ?w1 = (x, w2)" "w' = w2"
    from replay_calls [OF w2(1)] w1 w2(2) show ?thesis by auto
  next
    fix ranges x w2 assume w2: "replayMissingEvents env record ranges ?w1 = (x, w2)"
      "finalizeLoop env record request n w2 = (r, w')"
    from replay_calls [OF w2(1)] Suc.IH [OF w2(2)] w1 show ?thesis by auto
  qed (use w1 in simp)
qed

lemma ackResult_settles:
  assumes "quiet a env" and "good (wk_store w)" and "unacked a (wk_store w) = {}"
    and "storeCall env (\<lambda>io. sto_AckResult (we_store env) io a i) w = (r, w')"
  shows "settles a w w'"
proof (rule storeCall_settles [OF assms(1,2,4)])
  fix io s assume io: "env_ok io" "good s" and "settles a w (w\<lparr>wk_store := s\<rparr>)"
  then have d: "unacked a s = {}" using assms(3) by (auto simp: settles_def)
  show "reach s (snd (sto_AckResult (we_store env) io a i s))
      \<and> unacked a (snd (sto_AckResult (we_store env) io a i s)) \<subseteq> unacked a s"
    using ackResult_reach [OF io(2,1) d] ackResult_unacked [OF io(2,1) d] assms(1) by (simp add: quiet_def)
qed

lemma clear_settles:
  assumes "quiet a env" and "good (wk_store w)" and "unacked a (wk_store w) = {}"
    and "storeCall env (\<lambda>io. sto_ClearTerminalEvents (we_store env) io a) w = (r, w')"
  shows "settles a w w'"
proof (rule storeCall_settles [OF assms(1,2,4)])
  fix io s assume io: "env_ok io" "good s" and "settles a w (w\<lparr>wk_store := s\<rparr>)"
  then have d: "unacked a s = {}" using assms(3) by (auto simp: settles_def)
  show "reach s (snd (sto_ClearTerminalEvents (we_store env) io a s))
      \<and> unacked a (snd (sto_ClearTerminalEvents (we_store env) io a s)) \<subseteq> unacked a s"
    using clear_reach [OF io(2,1) d] clear_unacked [OF io(2,1) d] assms(1) by (simp add: quiet_def)
qed

lemma delete_settles:
  assumes "quiet a env" and "good (wk_store w)"
    and "storeCall env (\<lambda>io. sto_DeleteAssignment (we_store env) io m) w = (r, w')"
  shows "settles a w w'"
  by (rule storeCall_settles [OF assms])
     (use assms(1) delete_reach delete_unacked in \<open>simp add: quiet_def\<close>)

lemma advance_settles:
  assumes "quiet a env" and "good (wk_store w)"
    and "storeCall env (\<lambda>io. sto_AdvanceAssignment (we_store env) io m st) w = (r, w')"
  shows "settles a w w'"
  by (rule storeCall_settles [OF assms])
     (use assms(1) advance_reach advance_unacked in \<open>simp add: quiet_def\<close>)

lemma settled_drained: "settles a w w' \<Longrightarrow> unacked a (wk_store w) = {} \<Longrightarrow> unacked a (wk_store w') = {}"
  by (auto simp: settles_def)

text \<open>A state in which the result may be uploaded: nothing of the attempt is unacknowledged.\<close>

definition uploadable :: "string \<Rightarrow> 's worker_state \<Rightarrow> 's worker_state \<Rightarrow> result_request \<Rightarrow> bool" where
  "uploadable a w v request \<longleftrightarrow>
     settles a w v \<and> unacked a (wk_store v) = {}
     \<and> (\<exists>result. sto_PendingResult api a (wk_store v) = Inr result
          \<and> rr_AttemptIdentity request = sdkAttemptIdentity (rs_Identity result)
          \<and> rr_ResultID request = rs_ResultID result
          \<and> rr_FinalClientEventSeq request = rs_FinalClientEventSeq result)"

lemma uploadResult_ok:
  fixes rec defines "a \<equiv> attemptID_of rec"
  assumes q: "quiet a env" and g1: "good (wk_store w)" and d1: "unacked a (wk_store w) = {}"
    and f: "uploadResult env rec w = (r, w')"
  shows "settles a w w' \<and> (wk_calls w' = wk_calls w
    \<or> (\<exists>v request fins. uploadable a w v request \<and> wk_calls v = wk_calls w
         \<and> wk_calls w' = wk_calls w @ CallFinalizeResult request # fins))"
proof (cases "storeRead env (sto_PendingResult (we_store env) a) w")
  case p2: (Pair x2 w2)
  note s2 = storeRead_settles [OF q g1 p2] and c2 = storeRead_calls [OF p2]
  note g2 = settles_good [OF g1 s2(1)] and d2 = settled_drained [OF s2(1) d1]
  show ?thesis
  proof (cases "\<exists>result request. x2 = Inr result \<and> we_decodeResult env (rs_Payload result) = Some request
      \<and> rr_AttemptIdentity request = sdkAttemptIdentity (rs_Identity result) \<and> rr_ResultID request = rs_ResultID result
      \<and> rr_FinalClientEventSeq request = rs_FinalClientEventSeq result \<and> \<not> we_tooLarge env (CallFinalizeResult request)")
    case False
    with f p2 have "w' = w2"
      by (auto simp: uploadResult_def a_def split: sum.splits if_splits option.splits)
    with s2 c2 show ?thesis by simp
  next
    case True
    then obtain result request where rr: "x2 = Inr result" "we_decodeResult env (rs_Payload result) = Some request"
      "rr_AttemptIdentity request = sdkAttemptIdentity (rs_Identity result)" "rr_ResultID request = rs_ResultID result"
      "rr_FinalClientEventSeq request = rs_FinalClientEventSeq result" "\<not> we_tooLarge env (CallFinalizeResult request)"
      by blast
    have up: "uploadable a w w2 request"
      unfolding uploadable_def using s2 d2 rr q by (intro conjI exI [of _ result]) (simp_all add: quiet_def)
    obtain x3 w3 where p3: "finalizeLoop env rec request 1 w2 = (x3, w3)" by fastforce
    note s3 = finalizeLoop_settles [OF q [unfolded a_def] g2 p3, folded a_def]
    note g3 = settles_good [OF g2 s3] and d3 = settled_drained [OF s3 d2]
    let ?w4 = "w3\<lparr>wk_active := removeAll (attemptID_of rec) (wk_active w3)\<rparr>"
    obtain fins where c3: "wk_calls w3 = wk_calls w2 @ CallFinalizeResult request # fins"
      using finalizeLoop_calls [OF p3] by blast
    have s4: "settles a w ?w4" using settles_trans [OF s2(1) s3] by (simp add: settles_def)
    have "settles a w w' \<and> wk_calls w' = wk_calls w3"
    proof (cases "x3 = Inr (Some (rs_ResultID result))")
      case False
      with f p2 rr p3 have "w' = w3"
        by (auto simp: uploadResult_def a_def split: sum.splits if_splits option.splits)
      with settles_trans [OF s2(1) s3] show ?thesis by simp
    next
      case ack: True
      obtain x5 w5 where p5: "storeCall env (\<lambda>io. sto_AckResult (we_store env) io a (rs_ResultID result)) ?w4 = (x5, w5)"
        by fastforce
      have s5: "settles a ?w4 w5" by (rule ackResult_settles [OF q _ _ p5]) (use g3 d3 in simp_all)
      note s45 = settles_trans [OF s4 s5] and c5 = storeCall_calls [OF p5]
      obtain x6 w6 where p6: "storeCall env (\<lambda>io. sto_DeleteAssignment (we_store env) io (messageID_of rec)) w5 = (x6, w6)"
        by fastforce
      note s6 = delete_settles [OF q settles_good [OF g1 s45] p6] and c6 = storeCall_calls [OF p6]
      have "w' = w5 \<or> wk_store w' = wk_store w6 \<and> wk_calls w' = wk_calls w6"
        using f p2 rr p3 ack p5 p6
        by (auto simp: uploadResult_def a_def Let_def split: option.splits)
      then show ?thesis
        using s45 settles_trans [OF s45 s6] c5 c6 settles_store by auto
    qed
    with up c2 c3 show ?thesis by auto
  qed
qed

lemma flushResult_ok:
  fixes rec defines "a \<equiv> attemptID_of rec"
  assumes q: "quiet a env" and g: "good (wk_store w)" and f: "flushResult env rec w = (r, w')"
  shows "settles a w w' \<and> (wk_calls w' = wk_calls w
    \<or> (\<exists>v request fins. uploadable a w v request \<and> wk_calls v = wk_calls w
         \<and> wk_calls w' = wk_calls w @ CallFinalizeResult request # fins))"
proof (cases "storeRead env (sto_PendingEvents (we_store env) a) w")
  case (Pair x1 w1)
  note s1 = storeRead_settles [OF q g Pair] and c1 = storeRead_calls [OF Pair]
  note g1 = settles_good [OF g s1(1)]
  show ?thesis
  proof (cases "x1 = Inr []")
    case False
    with f Pair have "w' = w1" by (auto simp: flushResult_def a_def split: sum.splits if_splits)
    with s1 c1 show ?thesis by simp
  next
    case True
    have d1: "unacked a (wk_store w1) = {}"
      using pending_unacked [OF g1, of a "[]"] s1(2) True q by (simp add: quiet_def)
    from f Pair True have u: "uploadResult env rec w1 = (r, w')" by (simp add: flushResult_def a_def)
    have up: "uploadable a w1 v request \<Longrightarrow> uploadable a w v request" for v request
      using settles_trans [OF s1(1)] by (auto simp: uploadable_def)
    from uploadResult_ok [OF q [unfolded a_def] g1 d1 [unfolded a_def] u, folded a_def] settles_trans [OF s1(1)] c1 up
    show ?thesis by metis
  qed
qed

lemma flushAttemptSpool_ok:
  fixes rec defines "a \<equiv> attemptID_of rec"
  assumes q: "quiet a env" and g: "good (wk_store w)" and f: "flushAttemptSpool env rec permission w = (r, w')"
  shows "settles a w w' \<and> (\<exists>evs fins. wk_calls w' = wk_calls w @ evs @ fins
    \<and> (\<forall>x \<in> set evs. \<exists>e. x = CallAppendEvent e)
    \<and> (fins = [] \<or> (\<exists>v request rest. uploadable a w v request \<and> wk_calls v = wk_calls w @ evs
         \<and> fins = CallFinalizeResult request # rest)))"
proof -
  let ?pend = "storeRead env (sto_PendingEvents (we_store env) a) w"
  obtain x1 w1 where p1: "(if sp_events permission then
           (case ?pend of (Inl e, w1) \<Rightarrow> (Some e, w1)
            | (Inr events, w1) \<Rightarrow> deliverEvents env True ''Event ACK identity'' a events w1)
         else (None, w)) = (x1, w1)" by fastforce
  have "settles a w w1 \<and> (\<exists>evs. wk_calls w1 = wk_calls w @ evs \<and> (\<forall>x \<in> set evs. \<exists>e. x = CallAppendEvent e))"
  proof (cases "sp_events permission")
    case True
    obtain x2 w2 where p2: "?pend = (x2, w2)" by fastforce
    note s2 = storeRead_settles(1) [OF q g p2] and c2 = storeRead_calls [OF p2]
    show ?thesis
    proof (cases x2)
      case (Inl e) with p1 p2 True s2 c2 show ?thesis by auto
    next
      case (Inr es)
      with p1 p2 True have d: "deliverEvents env True ''Event ACK identity'' a es w2 = (x1, w1)" by simp
      from deliverEvents_settles [OF q settles_good [OF g s2] d] s2 deliverEvents_calls [OF d] c2
      show ?thesis using settles_trans by auto
    qed
  qed (use p1 in simp)
  then obtain evs where s1: "settles a w w1" and c1: "wk_calls w1 = wk_calls w @ evs"
    and evs: "\<forall>x \<in> set evs. \<exists>e. x = CallAppendEvent e" by blast
  have f': "(case x1 of Some e \<Rightarrow> (Some e, w1)
      | None \<Rightarrow> if sp_result permission then flushResult env rec w1 else (None, w1)) = (r, w')"
    using f unfolding flushAttemptSpool_def Let_def p1 [unfolded a_def] by (simp split: option.splits)
  show ?thesis
  proof (cases "x1 = None \<and> sp_result permission")
    case False
    with f' have "w' = w1" by (auto split: option.splits if_splits)
    with s1 c1 evs show ?thesis by (intro conjI exI [of _ evs] exI [of _ "[]"]) auto
  next
    case True
    with f' have "flushResult env rec w1 = (r, w')" by simp
    from flushResult_ok [OF q [unfolded a_def] settles_good [OF g s1] this, folded a_def]
    have s2: "settles a w1 w'" and c2: "wk_calls w' = wk_calls w1 \<or>
       (\<exists>v request fins. uploadable a w1 v request \<and> wk_calls v = wk_calls w1
         \<and> wk_calls w' = wk_calls w1 @ CallFinalizeResult request # fins)" by blast+
    from c2 have "\<exists>fins. wk_calls w' = wk_calls w @ evs @ fins \<and> (fins = [] \<or>
       (\<exists>v request rest. uploadable a w v request \<and> wk_calls v = wk_calls w @ evs
         \<and> fins = CallFinalizeResult request # rest))"
    proof (elim disjE exE conjE)
      fix v request fins
      assume v: "uploadable a w1 v request" "wk_calls v = wk_calls w1"
        "wk_calls w' = wk_calls w1 @ CallFinalizeResult request # fins"
      have "uploadable a w v request"
        using v(1) settles_trans [OF s1] by (simp add: uploadable_def)
      with v c1 show ?thesis by (intro exI [of _ "CallFinalizeResult request # fins"]) auto
    qed (use c1 in simp)
    with settles_trans [OF s1 s2] evs show ?thesis by blast
  qed
qed

lemma quiet_nil: "quiet a env \<Longrightarrow> quiet [] env"
  using unacked_nil reach_good unfolding quiet_def by (metis empty_subsetI)

lemma ackEvents_settles:
  assumes "quiet a env"
  shows "good (wk_store w) \<Longrightarrow> ackEvents env a es w = (r, w') \<Longrightarrow>
    settles a w w' \<and> (r = None \<longrightarrow> (\<forall>e \<in> set es. ev_ClientEventSeq e \<notin> unacked a (wk_store w')))"
proof (induction es arbitrary: w)
  case (Cons e es)
  obtain x w1 where p: "storeCall env (\<lambda>io. sto_AckEvent (we_store env) io a (ev_ClientEventID e) (ev_ClientEventSeq e)) w = (x, w1)"
    by fastforce
  note s1 = ackEvent_settles [OF assms Cons.prems(1) p]
  show ?case
  proof (cases x)
    case (Some y) with Cons.prems(2) p s1 show ?thesis by auto
  next
    case None
    with Cons.prems(2) p have r: "ackEvents env a es w1 = (r, w')" by simp
    from Cons.IH [OF settles_good [OF Cons.prems(1)] r] s1 None
    have s2: "settles a w1 w'" "r = None \<longrightarrow> (\<forall>e \<in> set es. ev_ClientEventSeq e \<notin> unacked a (wk_store w'))" by blast+
    have "ev_ClientEventSeq e \<notin> unacked a (wk_store w')" using s1 s2(1) None by (auto simp: settles_def)
    with s1 s2 settles_trans show ?thesis by (metis set_ConsD)
  qed
qed simp

lemma retireCleanup_reach:
  assumes q: "quiet (attemptID_of rec) env" and g: "good (wk_store w)" and d: "unacked (attemptID_of rec) (wk_store w) = {}"
    and f: "retireCleanup env rec w = (r, w')"
  shows "reach (wk_store w) (wk_store w')"
proof -
  obtain x w1 where p: "(if jr_State rec = AssignmentStateRevoked \<or> jr_State rec = AssignmentStateResultACKed
            then storeCall env (\<lambda>io. sto_ClearTerminalEvents (we_store env) io (attemptID_of rec)) w
            else (None, w)) = (x, w1)" by fastforce
  have s1: "settles (attemptID_of rec) w w1"
    using p clear_settles [OF q g d] by (auto split: if_splits)
  obtain y w2 where p2: "storeCall env (\<lambda>io. sto_DeleteAssignment (we_store env) io (messageID_of rec)) w1 = (y, w2)"
    by fastforce
  have "settles (attemptID_of rec) w w2"
    using settles_trans [OF s1 delete_settles [OF q settles_good [OF g s1] p2]] .
  moreover have "w' = w1 \<or> w' = w2"
    using f p2 unfolding retireCleanup_def p by (auto split: option.splits if_splits)
  ultimately show ?thesis using s1 by (auto simp: settles_def)
qed

lemma reloadAssignment_reach:
  assumes q: "quiet a env" and g: "good (wk_store w)" and f: "reloadAssignment env m w = (rec1, w')"
  shows "settles a w w'"
    and "rec1 = je_Record zeroEntry \<or> sto_Assignment api m (wk_store w') = Inr rec1"
proof -
  obtain x w1 where p: "storeRead env (sto_Assignment (we_store env) m) w = (x, w1)" by fastforce
  from storeRead_settles [OF q g p] f p q show "settles a w w'"
    and "rec1 = je_Record zeroEntry \<or> sto_Assignment api m (wk_store w') = Inr rec1"
    by (auto simp: reloadAssignment_def quiet_def split: sum.splits)
qed

lemma zero_ids: "attemptID_of (je_Record zeroEntry) = []" "messageID_of (je_Record zeroEntry) = []"
  by (simp_all add: zeroEntry_def zeroIdentity_def)

lemma retireSpool_reach:
  assumes q: "quiet (attemptID_of rec) env" and g: "good (wk_store w)"
    and known: "rec = je_Record zeroEntry \<or>
      (\<exists>s. good s \<and> reach s (wk_store w) \<and> sto_Assignment api (messageID_of rec) s = Inr rec)"
    and f: "retireSpool env rec w = (r, w')"
  shows "reach (wk_store w) (wk_store w')"
proof -
  let ?a = "attemptID_of rec"
  obtain x1 w1 where p1: "storeRead env (sto_PendingEvents (we_store env) ?a) w = (x1, w1)" by fastforce
  note s1 = storeRead_settles [OF q g p1] note g1 = settles_good [OF g s1(1)]
  have reach1: "reach (wk_store w) (wk_store w1)" using s1 by (simp add: settles_def)
  show ?thesis
  proof (cases x1)
    case (Inl e) with f p1 reach1 show ?thesis by (simp add: retireSpool_def)
  next
    case (Inr es)
    obtain x2 w2 where p2: "ackEvents env ?a es w1 = (x2, w2)" by fastforce
    note s2 = ackEvents_settles [OF q g1 p2] note g2 = settles_good [OF g1 conjunct1 [OF s2]]
    show ?thesis
    proof (cases x2)
      case (Some e) with f p1 p2 Inr reach1 s2 reach_trans show ?thesis
        by (auto simp: retireSpool_def settles_def)
    next
      case None
      have "unacked ?a (wk_store w1) = set (map ev_ClientEventSeq es)"
        using pending_unacked [OF g1] s1(2) Inr q by (simp add: quiet_def)
      then have d2: "unacked ?a (wk_store w2) = {}" using s2 None by (auto simp: settles_def)
      have s02: "settles ?a w w2" using settles_trans s1(1) s2 by blast
      obtain x3 w3 where p3: "storeRead env (sto_PendingResult (we_store env) ?a) w2 = (x3, w3)" by fastforce
      note s3 = storeRead_settles [OF q g2 p3] note g3 = settles_good [OF g2 s3(1)]
      note d3 = settled_drained [OF s3(1) d2] note s03 = settles_trans [OF s02 s3(1)]
      show ?thesis
      proof (cases x3)
        case (Inl e)
        with f p1 p2 p3 Inr None have "w' = w3 \<or> retireCleanup env rec w3 = (r, w')"
          by (auto simp: retireSpool_def split: if_splits)
        with retireCleanup_reach [OF q g3 d3] s03 reach_trans show ?thesis by (auto simp: settles_def)
      next
        case res: (Inr result)
        obtain x4 w4 where p4: "storeCall env (\<lambda>io. sto_AckResult (we_store env) io ?a (rs_ResultID result)) w3 = (x4, w4)"
          by fastforce
        note s4 = ackResult_settles [OF q g3 d3 p4] note g4 = settles_good [OF g3 s4]
        note s04 = settles_trans [OF s03 s4] and d4 = settled_drained [OF s4 d3]
        obtain rec1 w5 where p5: "reloadAssignment env (messageID_of rec) w4 = (rec1, w5)" by fastforce
        note s5 = reloadAssignment_reach [OF q g4 p5] note g5 = settles_good [OF g4 s5(1)]
        note s05 = settles_trans [OF s04 s5(1)] and d5 = settled_drained [OF s5(1) d4]
        have "quiet (attemptID_of rec1) env \<and> unacked (attemptID_of rec1) (wk_store w5) = {}"
        proof (cases "rec1 = je_Record zeroEntry")
          case True
          then show ?thesis using quiet_nil [OF q] unacked_nil [OF g5] by (simp add: zero_ids)
        next
          case False
          then have "messageID_of rec \<noteq> []" using s5(2) assignment_identity [OF g5 reach_refl] by blast
          with False known s5(2) zero_ids(2) obtain s where s: "good s" "reach s (wk_store w)" "sto_Assignment api (messageID_of rec) s = Inr rec"
            and a5: "sto_Assignment api (messageID_of rec) (wk_store w5) = Inr rec1" by blast
          have "reach s (wk_store w5)" using s(2) s05 reach_trans by (auto simp: settles_def)
          from assignment_identity [OF s(1) this s(3) a5] q d5 show ?thesis by simp
        qed
        then have c: "retireCleanup env rec1 w5 = (r, w') \<Longrightarrow> reach (wk_store w5) (wk_store w')"
          using retireCleanup_reach g5 by blast
        from f p1 p2 p3 p4 p5 Inr None res have "w' = w4 \<or> retireCleanup env rec1 w5 = (r, w')"
          by (auto simp: retireSpool_def split: option.splits)
        with c s04 s05 reach_trans show ?thesis by (auto simp: settles_def)
      qed
    qed
  qed
qed

lemma retireTerminalAttempt_reach:
  assumes q: "quiet (attemptID_of rec) env" and g: "good (wk_store w)"
    and f: "retireTerminalAttempt env rec revoke w = (r, w')"
  shows "reach (wk_store w) (wk_store w')"
proof -
  let ?a = "attemptID_of rec" and ?m = "messageID_of rec"
  obtain x1 w1 where p1: "storeRead env (sto_Assignment (we_store env) ?m) w = (x1, w1)" by fastforce
  note s1 = storeRead_settles [OF q g p1] note g1 = settles_good [OF g s1(1)]
  have r1: "reach (wk_store w) (wk_store w1)" using s1 by (simp add: settles_def)
  show ?thesis
  proof (cases "\<exists>current. x1 = Inr current \<and> jr_Identity current = jr_Identity rec")
    case False
    with f p1 have "w' = w1" by (auto simp: retireTerminalAttempt_def split: sum.splits if_splits)
    with r1 show ?thesis by simp
  next
    case True
    then obtain current where cur: "x1 = Inr current" "jr_Identity current = jr_Identity rec" by blast
    have known1: "sto_Assignment api (messageID_of current) (wk_store w1) = Inr current"
      using s1(2) cur q by (simp add: quiet_def)
    obtain x2 w2 where p2: "storeCall env (\<lambda>io. sto_AdvanceAssignment (we_store env) io (messageID_of current)
        AssignmentStateRevoked) w1 = (x2, w2)" by fastforce
    note s2 = advance_settles [OF q g1 p2] note g2 = settles_good [OF g1 s2]
    obtain rec1 w3 where p3: "reloadAssignment env (messageID_of current) w2 = (rec1, w3)" by fastforce
    note s3 = reloadAssignment_reach [OF q g2 p3] note g3 = settles_good [OF g2 s3(1)]
    note s13 = settles_trans [OF s2 s3(1)]
    have known3: "rec1 = je_Record zeroEntry \<or> (jr_Identity rec1 = jr_Identity current
        \<and> sto_Assignment api (messageID_of rec1) (wk_store w3) = Inr rec1)"
      using s3(2)
    proof
      assume a3: "sto_Assignment api (messageID_of current) (wk_store w3) = Inr rec1"
      have "reach (wk_store w1) (wk_store w3)" using s13 by (simp add: settles_def)
      from assignment_identity [OF g1 this known1 a3] a3 show ?thesis by simp
    qed simp
    have spool1: "reach (wk_store w1) (wk_store w')" if "retireSpool env current w1 = (r, w')"
      by (rule retireSpool_reach [OF _ g1 _ that]) (use q cur(2) g1 known1 reach_refl [of "wk_store w1"] in \<open>simp, blast\<close>)
    have spool3: "reach (wk_store w3) (wk_store w')" if "retireSpool env rec1 w3 = (r, w')"
    proof (rule retireSpool_reach [OF _ g3 _ that])
      show "quiet (attemptID_of rec1) env" using known3 q quiet_nil [OF q] cur(2) zero_ids(1) by auto
      show "rec1 = je_Record zeroEntry \<or>
        (\<exists>s. good s \<and> reach s (wk_store w3) \<and> sto_Assignment api (messageID_of rec1) s = Inr rec1)"
        using known3 g3 reach_refl by blast
    qed
    have "w' = w2 \<or> retireSpool env rec1 w3 = (r, w') \<or> retireSpool env current w1 = (r, w')"
      using f p1 p2 p3 cur by (cases x2) (auto simp: retireTerminalAttempt_def split: if_splits)
    moreover have "reach (wk_store w) (wk_store w2)" "reach (wk_store w) (wk_store w3)"
      using r1 s2 s13 reach_trans unfolding settles_def by blast+
    ultimately show ?thesis using spool1 spool3 r1 reach_trans by blast
  qed
qed

lemma revokeLocalAttempt_reach:
  assumes q: "quiet a env" and g: "good (wk_store w)"
  shows "reach (wk_store w) (wk_store (revokeLocalAttempt env rec w))"
proof -
  let ?m = "messageID_of rec"
  obtain x1 w1 where p1: "storeRead env (sto_Assignment (we_store env) ?m) w = (x1, w1)" by fastforce
  note s1 = storeRead_settles(1) [OF q g p1] note g1 = settles_good [OF g s1]
  obtain x2 w2 where p2: "storeCall env (\<lambda>io. sto_AdvanceAssignment (we_store env) io ?m AssignmentStateRevoked) w1 = (x2, w2)"
    by fastforce
  note s2 = settles_trans [OF s1 advance_settles [OF q g1 p2]]
  have "wk_store (revokeLocalAttempt env rec w) \<in> {wk_store w1, wk_store w2}"
    using p1 p2 by (cases x1; cases x2) (auto simp: revokeLocalAttempt_def Let_def)
  with s1 s2 show ?thesis by (auto simp: settles_def)
qed

lemma flushRecords_reach:
  assumes q: "\<And>a. quiet a env"
  shows "good (wk_store w) \<Longrightarrow> flushRecords env recs w = (r, w') \<Longrightarrow> reach (wk_store w) (wk_store w')"
proof (induction recs arbitrary: w)
  case Nil then show ?case by (simp add: reach_refl)
next
  case (Cons rec recs)
  let ?p = "spoolPermission (attemptID_of rec) w"
  obtain x w1 where p1: "flushAttemptSpool env rec ?p w = (x, w1)" by fastforce
  have r1: "reach (wk_store w) (wk_store w1)"
    using flushAttemptSpool_ok [OF q Cons.prems(1) p1] by (simp add: settles_def)
  note g1 = reach_good [OF Cons.prems(1) r1]
  note r2 = revokeLocalAttempt_reach [OF q g1, of rec] note g2 = reach_good [OF g1 r2]
  have "w' = w1 \<or> flushRecords env recs w = (r, w') \<or> flushRecords env recs w1 = (r, w')
      \<or> flushRecords env recs (revokeLocalAttempt env rec w1) = (r, w')"
    using Cons.prems(2) p1 by (auto simp: Let_def split: if_splits option.splits)
  then show ?case
  proof (elim disjE)
    assume "flushRecords env recs (revokeLocalAttempt env rec w1) = (r, w')"
    from Cons.IH [OF g2 this] r1 r2 reach_trans show ?thesis by blast
  next
    assume "flushRecords env recs w1 = (r, w')"
    from Cons.IH [OF g1 this] r1 reach_trans show ?thesis by blast
  qed (use r1 Cons.IH [OF Cons.prems(1)] in blast)+
qed

lemma flushDurableSpool_reach:
  assumes q: "\<And>a. quiet a env" and g: "good (wk_store w)" and f: "flushDurableSpool env w = (r, w')"
  shows "reach (wk_store w) (wk_store w')"
proof -
  obtain x1 w1 where p1: "storeRead env (sto_Assignments (we_store env)) w = (x1, w1)" by fastforce
  note s1 = storeRead_settles(1) [OF q g p1] note g1 = settles_good [OF g s1]
  have r1: "reach (wk_store w) (wk_store w1)" using s1 by (simp add: settles_def)
  have "w' = w1 \<or> (\<exists>recs. flushRecords env recs w1 = (r, w'))"
    using f p1 by (cases x1) (auto simp: flushDurableSpool_def)
  with flushRecords_reach [OF q g1] r1 reach_trans show ?thesis by blast
qed

end

section \<open>At-least-once delivery\<close>

text \<open>
  \<open>usable\<close> says that the store still accepts calls. An acknowledgement takes out one sequence
  only.
\<close>

locale runtime_store_delivery = runtime_store_contract api good reach unacked
  for api :: "'s runtime_store" and good :: "'s \<Rightarrow> bool" and reach :: "'s \<Rightarrow> 's \<Rightarrow> bool"
    and unacked :: "string \<Rightarrow> 's \<Rightarrow> int set" +
  fixes usable :: "'s \<Rightarrow> bool"
  assumes usable_before: "reach s t \<Longrightarrow> usable t \<Longrightarrow> usable s"
    and ackEvent_keeps: "good s \<Longrightarrow> env_ok io \<Longrightarrow> usable (snd (sto_AckEvent api io a i q s)) \<Longrightarrow>
      unacked a s \<subseteq> insert q (unacked a (snd (sto_AckEvent api io a i q s)))"
begin

definition undisturbed :: "string \<Rightarrow> 's worker_env \<Rightarrow> bool" where
  "undisturbed a env \<longleftrightarrow> quiet a env
     \<and> (\<forall>n s. good s \<longrightarrow> usable (we_others env n s) \<longrightarrow> unacked a (we_others env n s) = unacked a s)"

text \<open>Some request with this sequence was sent and acknowledged by the remote runtime.\<close>

definition accepted :: "'s worker_env \<Rightarrow> remote_call list \<Rightarrow> int \<Rightarrow> bool" where
  "accepted env cs q \<longleftrightarrow> (\<exists>pre request post. cs = pre @ CallAppendEvent request # post
     \<and> er_ClientEventSeq request = q
     \<and> we_append env pre request = Inr (Some \<lparr>ea_ClientEventID = er_ClientEventID request, ea_ClientEventSeq = q\<rparr>))"

definition delivers :: "'s worker_env \<Rightarrow> string \<Rightarrow> 's worker_state \<Rightarrow> 's worker_state \<Rightarrow> bool" where
  "delivers env a w w' \<longleftrightarrow> settles a w w' \<and> prefix (wk_calls w) (wk_calls w')
     \<and> (usable (wk_store w') \<longrightarrow>
          (\<forall>q \<in> unacked a (wk_store w). q \<in> unacked a (wk_store w') \<or> accepted env (wk_calls w') q))"

lemma accepted_mono: "accepted env cs q \<Longrightarrow> prefix cs ds \<Longrightarrow> accepted env ds q"
  unfolding accepted_def prefix_def by fastforce

lemma delivers_refl [simp]: "delivers env a w w"
  by (simp add: delivers_def)

lemma delivers_trans:
  assumes "delivers env a w v" and "delivers env a v u" shows "delivers env a w u"
proof -
  have "settles a w u" "prefix (wk_calls w) (wk_calls u)"
    using assms settles_trans unfolding delivers_def by (blast intro: prefix_order.trans)+
  moreover have "usable (wk_store v)" if "usable (wk_store u)"
    using assms(2) usable_before that by (auto simp: delivers_def settles_def)
  ultimately show ?thesis using assms accepted_mono unfolding delivers_def by blast
qed

lemma delivers_settles: "delivers env a w w' \<Longrightarrow> settles a w w'"
  by (simp add: delivers_def)

lemma delivers_drained:
  "settles a w w' \<Longrightarrow> prefix (wk_calls w) (wk_calls w') \<Longrightarrow> unacked a (wk_store w) = {} \<Longrightarrow> delivers env a w w'"
  by (simp add: delivers_def)

lemma delivers_send: "delivers env a w (sendCall c w)"
  by (simp add: delivers_def) (simp add: sendCall_def)

lemma delivers_read:
  assumes "undisturbed a env" and "good (wk_store w)" and "storeRead env f w = (r, w')"
  shows "delivers env a w w'"
proof -
  have q: "quiet a env" using assms(1) by (simp add: undisturbed_def)
  have "wk_store w' = we_others env (wk_turn w) (wk_store w)"
    using assms(3) by (auto simp: storeRead_def takeTurn_def Let_def)
  then show ?thesis
    using storeRead_settles(1) [OF q assms(2,3)] storeRead_calls [OF assms(3)] assms(1,2)
    by (simp add: delivers_def undisturbed_def)
qed

lemma delivers_ack:
  assumes u: "undisturbed a env" and g: "good (wk_store w)" and acc: "accepted env (wk_calls w) q"
    and f: "storeCall env (\<lambda>io. sto_AckEvent (we_store env) io a i q) w = (r, w')"
  shows "delivers env a w w'"
proof -
  let ?s = "we_others env (wk_turn w) (wk_store w)" and ?io = "we_io env (wk_turn w)"
  have q: "quiet a env" using u by (simp add: undisturbed_def)
  have env: "we_store env = api" "env_ok ?io" "reach (wk_store w) ?s" using q g by (simp_all add: quiet_def)
  have w': "wk_store w' = snd (sto_AckEvent api ?io a i q ?s)"
    using f env(1) by (auto simp: storeCall_def takeTurn_def Let_def split: prod.splits)
  have gs: "good ?s" by (rule reach_good [OF g env(3)])
  have "unacked a (wk_store w) \<subseteq> insert q (unacked a (wk_store w'))" if "usable (wk_store w')"
  proof -
    have "usable ?s" using usable_before [OF ackEvent_reach [OF env(2)]] that w' by metis
    with u g have "unacked a ?s = unacked a (wk_store w)" by (simp add: undisturbed_def)
    with ackEvent_keeps [OF gs env(2)] that w' show ?thesis by metis
  qed
  with ackEvent_settles [OF q g f] storeCall_calls [OF f] acc show ?thesis
    by (auto simp: delivers_def)
qed

lemma accepted_send:
  "we_append env (wk_calls w) request = Inr (Some \<lparr>ea_ClientEventID = er_ClientEventID request,
     ea_ClientEventSeq = er_ClientEventSeq request\<rparr>) \<Longrightarrow>
   accepted env (wk_calls (sendCall (CallAppendEvent request) w)) (er_ClientEventSeq request)"
  unfolding accepted_def sendCall_def by fastforce

lemma delivers_events:
  assumes "undisturbed a env"
  shows "good (wk_store w) \<Longrightarrow> deliverEvents env c what a es w = (r, w') \<Longrightarrow> delivers env a w w'"
proof (induction es arbitrary: w)
  case (Cons e es)
  let ?rq = "eventRequest e" let ?w1 = "sendCall (CallAppendEvent ?rq) w"
  note d1 = delivers_send [of env a w "CallAppendEvent ?rq"]
  obtain x w2 where p: "storeCall env (\<lambda>io. sto_AckEvent (we_store env) io a (ev_ClientEventID e) (ev_ClientEventSeq e)) ?w1 = (x, w2)"
    by fastforce
  show ?case
  proof (cases "we_append env (wk_calls w) ?rq = Inr (Some \<lparr>ea_ClientEventID = ev_ClientEventID e, ea_ClientEventSeq = ev_ClientEventSeq e\<rparr>)")
    case True
    then have "accepted env (wk_calls ?w1) (ev_ClientEventSeq e)"
      using accepted_send [of env w ?rq] by (simp add: eventRequest_def)
    then have d2: "delivers env a w w2"
      using delivers_trans [OF d1 delivers_ack [OF assms _ _ p]] Cons.prems(1) by simp
    note IH = Cons.IH [OF settles_good [OF Cons.prems(1) delivers_settles [OF d2]]]
    have "w' = w \<or> w' = w2 \<or> deliverEvents env c what a es w2 = (r, w')"
      using Cons.prems(2) p True by (auto simp: Let_def split: if_splits option.splits)
    with IH d2 delivers_trans show ?thesis by auto
  next
    case False
    with Cons.prems(2) have "w' = w \<or> w' = ?w1"
      by (auto simp: Let_def split: if_splits sum.splits)
    with d1 show ?thesis by auto
  qed
qed simp

lemma delivers_flush:
  fixes rec defines "a \<equiv> attemptID_of rec"
  assumes u: "undisturbed a env" and g: "good (wk_store w)" and f: "flushAttemptSpool env rec permission w = (r, w')"
  shows "delivers env a w w'"
proof -
  have q: "quiet a env" using u by (simp add: undisturbed_def)
  have result: "delivers env a v v'" if v: "good (wk_store v)" and fr: "flushResult env rec v = (x, v')" for v v' x
  proof -
    obtain x1 w1 where p1: "storeRead env (sto_PendingEvents (we_store env) a) v = (x1, w1)" by fastforce
    note d1 = delivers_read [OF u v p1] note g1 = settles_good [OF v delivers_settles [OF d1]]
    show ?thesis
    proof (cases "x1 = Inr []")
      case True
      have dr: "unacked a (wk_store w1) = {}"
        using pending_unacked [OF g1, of a "[]"] storeRead_settles(2) [OF q v p1] True q by (simp add: quiet_def)
      from fr p1 True have "uploadResult env rec w1 = (x, v')" by (simp add: flushResult_def a_def)
      from uploadResult_ok [OF q [unfolded a_def] g1 dr [unfolded a_def] this, folded a_def]
      have "settles a w1 v'" "prefix (wk_calls w1) (wk_calls v')" by auto
      from delivers_trans [OF d1 delivers_drained [OF this dr]] show ?thesis .
    next
      case False
      with fr p1 have "v' = w1" by (auto simp: flushResult_def a_def split: sum.splits if_splits)
      with d1 show ?thesis by simp
    qed
  qed
  let ?pend = "storeRead env (sto_PendingEvents (we_store env) a) w"
  obtain x1 w1 where p1: "(if sp_events permission then
           (case ?pend of (Inl e, w1) \<Rightarrow> (Some e, w1)
            | (Inr events, w1) \<Rightarrow> deliverEvents env True ''Event ACK identity'' a events w1)
         else (None, w)) = (x1, w1)" by fastforce
  have d1: "delivers env a w w1"
  proof (cases "sp_events permission")
    case True
    obtain x2 w2 where p2: "?pend = (x2, w2)" by fastforce
    note d2 = delivers_read [OF u g p2] note g2 = settles_good [OF g delivers_settles [OF d2]]
    show ?thesis
      using p1 p2 True d2 delivers_trans [OF d2 delivers_events [OF u g2]] by (cases x2) auto
  qed (use p1 in simp)
  have "w' = w1 \<or> flushResult env rec w1 = (r, w')"
    using f unfolding flushAttemptSpool_def Let_def p1 [unfolded a_def] by (auto split: option.splits if_splits)
  with d1 result [OF settles_good [OF g delivers_settles [OF d1]]] delivers_trans show ?thesis by blast
qed

end

end
