(* ===== verification/Worker_Durability.thy ===== *)
theory Worker_Durability
  imports Worker_Contract
begin

text \<open>
  The file store keeps the contract the worker relies on (Worker\_Contract), and what follows
  for the worker on top of it.
\<close>

section \<open>The file store keeps the contract\<close>

definition unackedEvents :: "string \<Rightarrow> store \<Rightarrow> int set" where
  "unackedEvents a s = {q. readyLocked s = None
     \<and> (\<exists>rec. liveRecord a s = Some rec \<and> q \<in> {1 .. jr_LastClientEventSeq rec} - ackedSet rec)}"

definition sound_store :: "store \<Rightarrow> bool" where
  "sound_store s \<longleftrightarrow> store_ok s \<and> session_ok s"

lemma sound_inv: "sound_store s \<Longrightarrow> readyLocked s = None \<Longrightarrow> store_inv s"
  by (auto simp: sound_store_def store_ok_def readyLocked_def split: if_splits option.splits)

lemma allAcked_iff: "readyLocked s = None \<Longrightarrow> allAcked a s \<longleftrightarrow> unackedEvents a s = {}"
  unfolding allAcked_def unackedEvents_def by blast

text \<open>No entry appears and no sequence is allocated.\<close>

definition nothing_new :: "store \<Rightarrow> store \<Rightarrow> bool" where
  "nothing_new s t \<longleftrightarrow> (\<forall>m f. map_of (st_entries t) m = Some f \<longrightarrow>
     (\<exists>e. map_of (st_entries s) m = Some e
        \<and> jr_LastClientEventSeq (je_Record f) = jr_LastClientEventSeq (je_Record e)))"

lemma nothing_new_same: "st_entries t = st_entries s \<Longrightarrow> nothing_new s t"
  by (simp add: nothing_new_def)

lemma entries_apply:
  "applyJournalEntryLocked x s = (r, t) \<Longrightarrow> st_entries t = st_entries s
     \<or> st_entries t = AList.update (messageID_of (je_Record x)) x (st_entries s)"
  using apply_shape [of x s] by (auto simp: applied_def)

lemma entries_append:
  "appendJournalLocked io x s = (r, t) \<Longrightarrow> st_entries t = st_entries s
     \<or> st_entries t = AList.update (messageID_of (je_Record x)) x (st_entries s)"
  by (auto simp: appendJournalLocked_def writeJournalSnapshotLocked_def Let_def poison_def appendWal_def
      split: option.splits sum.splits if_splits wal_outcome.splits prod.splits write_outcome.splits
      dest!: entries_apply)

lemma entries_remove: "removeSpoolFileLocked io p s = (x, t) \<Longrightarrow> st_entries t = st_entries s"
  by (auto simp: removeSpoolFileLocked_def durableRemove_def diskRemove_def Let_def
      split: prod.splits option.splits if_splits remove_outcome.splits)

lemma entries_removeEvent: "removeEventLocked io r s = (x, t) \<Longrightarrow> st_entries t = st_entries s"
  by (auto simp: removeEventLocked_def unindexEvent_def Let_def
      split: prod.splits option.splits if_splits dest!: entries_remove)

lemma entries_removeResult: "removeResultLocked io r s = (x, t) \<Longrightarrow> st_entries t = st_entries s"
  by (auto simp: removeResultLocked_def split: prod.splits option.splits if_splits dest!: entries_remove)

lemma entries_removePayload: "removeAssignmentPayloadLocked io r s = (x, t) \<Longrightarrow> st_entries t = st_entries s"
  by (auto simp: removeAssignmentPayloadLocked_def split: prod.splits option.splits if_splits dest!: entries_remove)

lemma entries_removeSequences: "removeSequencesLoop io a qs s = (x, t) \<Longrightarrow> st_entries t = st_entries s"
proof (induction qs arbitrary: s)
  case (Cons q qs)
  then show ?case by (auto simp: Let_def split: prod.splits option.splits dest: entries_removeEvent)
qed simp

lemma entries_removeAttempt: "removeAttemptEventsLocked io a s = (x, t) \<Longrightarrow> st_entries t = st_entries s"
  by (auto simp: removeAttemptEventsLocked_def Let_def dest: entries_removeSequences split: prod.splits option.splits)

lemmas entries_steps = entries_removeEvent entries_removeResult entries_removePayload entries_removeAttempt

lemma nothing_new_append:
  assumes "appendJournalLocked io x s = (r, t)" and "map_of (st_entries s) (messageID_of (je_Record x)) = Some e"
    and "jr_LastClientEventSeq (je_Record x) = jr_LastClientEventSeq (je_Record e)"
  shows "nothing_new s t"
proof -
  have "st_entries t = st_entries s \<or> st_entries t = AList.update (messageID_of (je_Record x)) x (st_entries s)"
    using assms(1) by (rule entries_append)
  then show ?thesis using assms(2,3) by (auto simp: nothing_new_def update_conv' split: if_splits)
qed

lemma nothing_new_then: "nothing_new s t \<Longrightarrow> st_entries u = st_entries t \<Longrightarrow> nothing_new s u"
  by (simp add: nothing_new_def)

lemma AdvanceAssignment_nothing_new:
  assumes "journal_inv s" shows "nothing_new s (snd (AdvanceAssignment io m st s))"
proof (cases "map_of (st_entries s) m")
  case None
  then show ?thesis by (simp add: AdvanceAssignment_def nothing_new_same split: option.split)
next
  case (Some e)
  let ?x = "liveEntry ((je_Record e)\<lparr>jr_State := st, jr_UpdatedAt := nextNow io s\<rparr>)"
  obtain r t where p: "appendJournalLocked io ?x s = (r, t)" by fastforce
  have "nothing_new s t"
    by (rule nothing_new_append [OF p]) (use journal_inv_entry(1) [OF assms Some] Some in simp_all)
  with p Some show ?thesis
    by (simp add: AdvanceAssignment_def Let_def nothing_new_same split: option.split)
qed

lemma DeleteAssignment_nothing_new:
  assumes "journal_inv s" shows "nothing_new s (snd (DeleteAssignment io m s))"
proof (cases "map_of (st_entries s) m")
  case None
  then show ?thesis by (simp add: DeleteAssignment_def nothing_new_same split: option.split)
next
  case (Some e)
  let ?x = "e\<lparr>je_Deleted := True, je_Record := (je_Record e)\<lparr>jr_UpdatedAt := nextNow io s\<rparr>\<rparr>"
  obtain r t where p: "appendJournalLocked io ?x s = (r, t)" by fastforce
  have n: "nothing_new s t"
    by (rule nothing_new_append [OF p]) (use journal_inv_entry(1) [OF assms Some] Some in simp_all)
  have "nothing_new s (snd (removeAssignmentPayloadLocked io q t))" for q
    by (rule nothing_new_then [OF n entries_removePayload [OF prod.collapse [symmetric]]])
  with n p Some show ?thesis
    by (simp add: DeleteAssignment_def Let_def nothing_new_same split: option.split)
qed

lemma AckEvent_nothing_new:
  assumes "journal_inv s" shows "nothing_new s (snd (AckEvent io a i q s))"
proof (cases "assignmentForAttemptLocked a s")
  case (Inl e)
  then show ?thesis by (simp add: AckEvent_def nothing_new_same split: option.split)
next
  case (Inr e)
  let ?x = "liveEntry ((applyEventACK (je_Record e) q)\<lparr>jr_UpdatedAt := nextNow io s\<rparr>)"
  obtain r t where p: "appendJournalLocked io ?x s = (r, t)" by fastforce
  have n: "nothing_new s t"
    by (rule nothing_new_append [OF p]) (use assignmentForAttempt_entry(1) [OF assms Inr] in simp_all)
  have "nothing_new s (snd (removeEventLocked io rec t))" "nothing_new s (snd (removeEventLocked io rec s))" for rec
    by (rule nothing_new_then [OF n entries_removeEvent [OF prod.collapse [symmetric]]])
       (rule nothing_new_same [OF entries_removeEvent [OF prod.collapse [symmetric]]])
  with n p Inr show ?thesis
    by (simp add: AckEvent_def Let_def nothing_new_same split: option.split)
qed

lemma ClearTerminalEvents_nothing_new: "nothing_new s (snd (ClearTerminalEvents io a s))"
  using nothing_new_same [OF entries_removeAttempt [OF prod.collapse [symmetric]]]
  by (simp add: ClearTerminalEvents_def nothing_new_same split: option.split sum.split)

lemma releaseAttempt_entries: "st_entries (snd (releaseAttempt io a res s)) = st_entries s"
proof -
  obtain x t where t: "(case res of Some y \<Rightarrow> removeResultLocked io y s | None \<Rightarrow> (None, s)) = (x, t)" by fastforce
  then have "st_entries t = st_entries s" by (auto split: option.splits dest: entries_removeResult)
  moreover have "st_entries (snd (removeAttemptEventsLocked io a t)) = st_entries t"
    by (rule entries_removeAttempt [OF prod.collapse [symmetric]])
  ultimately show ?thesis using t by (simp add: releaseAttempt_def split: option.split)
qed

lemma AckResult_release:
  assumes "readyLocked s = None" and "assignmentForAttemptLocked a s = Inr e"
  shows "AckResult io a i s =
    (if jr_State (je_Record e) = AssignmentStateResultACKed
     then if jr_ResultID (je_Record e) \<noteq> i then (Some ErrSpoolRecordConflict, s)
          else releaseAttempt io a (map_of (st_results s) a) s
     else case map_of (st_results s) a of
       None \<Rightarrow> (Some ErrSpoolRecordNotFound, s)
     | Some r \<Rightarrow>
         if jr_State (je_Record e) = AssignmentStateRevoked
         then if rs_ResultID r \<noteq> i \<or> jr_ResultID (je_Record e) \<noteq> i then (Some ErrSpoolRecordConflict, s)
              else releaseAttempt io a (Some r) s
         else if jr_State (je_Record e) \<noteq> AssignmentStateFinished \<or> rs_ResultID r \<noteq> i
                 \<or> jr_ResultID (je_Record e) \<noteq> i then (Some ErrSpoolRecordConflict, s)
         else case appendJournalLocked io (liveEntry ((je_Record e)\<lparr>jr_State := AssignmentStateResultACKed,
                                                     jr_UpdatedAt := nextNow io s\<rparr>)) s of
                (Some e, s1) \<Rightarrow> (Some e, s1)
              | (None, s1) \<Rightarrow> releaseAttempt io a (Some r) s1)"
  using assms
  by (cases "map_of (st_results s) a") (simp_all add: AckResult_def releaseAttempt_def split: prod.split option.split)

lemma AckResult_nothing_new:
  assumes "journal_inv s" shows "nothing_new s (snd (AckResult io a i s))"
proof (cases "assignmentForAttemptLocked a s")
  case (Inl e)
  then show ?thesis by (simp add: AckResult_def nothing_new_same split: option.split)
next
  case (Inr e)
  let ?x = "liveEntry ((je_Record e)\<lparr>jr_State := AssignmentStateResultACKed, jr_UpdatedAt := nextNow io s\<rparr>)"
  obtain r t where p: "appendJournalLocked io ?x s = (r, t)" by fastforce
  have n: "nothing_new s t"
    by (rule nothing_new_append [OF p]) (use assignmentForAttempt_entry(1) [OF assms Inr] in simp_all)
  note rel = nothing_new_then [OF n releaseAttempt_entries] nothing_new_same [OF releaseAttempt_entries]
  show ?thesis
  proof (cases "readyLocked s")
    case None
    show ?thesis
      unfolding AckResult_release [OF None Inr] using p n rel
      by (simp add: nothing_new_same split: option.split)
  qed (simp add: AckResult_def nothing_new_same)
qed

text \<open>Calls that allocate nothing only shrink what is unacknowledged.\<close>

lemma nothing_new_unacked:
  assumes s: "store_inv s" and t: "store_ok t" and "wal_step s t" and "nothing_new s t"
  shows "unackedEvents b t \<subseteq> unackedEvents b s"
proof
  fix q assume q: "q \<in> unackedEvents b t"
  note inv = store_inv_parts [OF s]
  have "store_inv t" using q t by (auto simp: unackedEvents_def store_ok_def readyLocked_def split: if_splits option.splits)
  note tinv = store_inv_parts [OF this]
  from q obtain f where f: "entryFor b t = Some f" "\<not> je_Deleted f"
    and qf: "q \<in> {1 .. jr_LastClientEventSeq (je_Record f)} - ackedSet (je_Record f)"
    by (auto simp: unackedEvents_def liveRecord_iff)
  note en = entryFor_inv [OF tinv(5) f(1)]
  let ?m = "messageID_of (je_Record f)"
  from assms(4) en(2) obtain e where e: "map_of (st_entries s) ?m = Some e"
    "jr_LastClientEventSeq (je_Record f) = jr_LastClientEventSeq (je_Record e)" unfolding nothing_new_def by blast
  from wal_step_entries [OF s assms(3) e(1)] en(2) have g: "entry_grows e f" by simp
  have "liveRecord b s = Some (je_Record e)"
    using entryFor_of_entry [OF inv(5) e(1)] g f(2) en(1) by (auto simp: liveRecord_iff entry_grows_def)
  with qf e(2) g inv(4) show "q \<in> unackedEvents b s" by (auto simp: unackedEvents_def entry_grows_def)
qed

lemma op_unacked:
  assumes s: "sound_store s" and io: "env_ok io" and op: "op \<noteq> OpClose" and "disciplined op s"
    and "journal_inv s \<Longrightarrow> nothing_new s (run_op io op s)"
  shows "unackedEvents b (run_op io op s) \<subseteq> unackedEvents b s"
proof (cases "readyLocked s = None")
  case True
  note inv = sound_inv [OF s True]
  have "session_ok s" using s by (simp add: sound_store_def)
  from run_op_ok [OF inv this io assms(4)] op nothing_new_unacked [OF inv] assms(5) store_inv_parts(5) [OF inv]
  show ?thesis by blast
next
  case False
  then show ?thesis using run_op_not_ready [OF False, of io op] op by auto
qed

lemma unacked_drained_op:
  assumes "sound_store s" and "env_ok io" and "unackedEvents a s = {}"
    and "op \<in> {OpClearEvents a} \<union> range (OpAckResult a)"
    and "journal_inv s \<Longrightarrow> nothing_new s (run_op io op s)"
  shows "unackedEvents b (run_op io op s) \<subseteq> unackedEvents b s"
proof (cases "readyLocked s = None")
  case True
  then have "disciplined op s" using assms(3,4) by (auto simp: allAcked_iff)
  from op_unacked [OF assms(1,2) _ this assms(5)] assms(4) show ?thesis by auto
next
  case False
  then show ?thesis using run_op_not_ready [OF False, of io op] assms(4) by auto
qed

lemma entries_append_ok:
  assumes "appendJournalLocked io x s = (None, t)"
  shows "st_entries t = AList.update (messageID_of (je_Record x)) x (st_entries s)"
proof -
  have apply_ok: "st_entries v = AList.update (messageID_of (je_Record x)) x (st_entries u)"
    if "applyJournalEntryLocked x u = (None, v)" for u v
    using that apply_shape [of x u] by (auto simp: applied_def)
  have "st_entries (snd (writeJournalSnapshotLocked io u)) = st_entries u" for u
    by (auto simp: writeJournalSnapshotLocked_def split: sum.split write_outcome.split)
  with assms show ?thesis
    by (auto simp: appendJournalLocked_def Let_def poison_def appendWal_def
        split: option.splits sum.splits if_splits wal_outcome.splits prod.splits dest!: apply_ok)
qed

lemma AckEvent_acks:
  assumes s: "sound_store s" and io: "env_ok io" and ok: "AckEvent io a i q s = (None, t)"
  shows "q \<notin> unackedEvents a t"
proof
  assume "q \<in> unackedEvents a t"
  then obtain rec where t: "readyLocked t = None" "liveRecord a t = Some rec" "1 \<le> q" "q \<notin> ackedSet rec"
    by (auto simp: unackedEvents_def)
  have ready: "readyLocked s = None" using ok by (auto simp: AckEvent_def split: option.splits)
  note inv = store_inv_parts [OF sound_inv [OF s ready]]
  have "run_op io (OpAckEvent a i q) s = t" using ok by simp
  then have "sound_store t"
    using store_ok_run [of s io "OpAckEvent a i q"] s io unfolding sound_store_def by force
  note tinv = store_inv_parts [OF sound_inv [OF this t(1)]]
  from ok ready obtain e where e: "assignmentForAttemptLocked a s = Inr e"
    by (auto simp: AckEvent_def split: if_splits sum.splits)
  note en = assignmentForAttempt_entry [OF inv(5) e] assignmentForAttempt_live [OF e]
  note lr = assignmentForAttempt_record [OF e]
  have wf: "ack_wf (je_Record e)" using en(3) by (simp add: jr_wf_def)
  let ?x = "liveEntry ((applyEventACK (je_Record e) q)\<lparr>jr_UpdatedAt := nextNow io s\<rparr>)"
  show False
  proof (cases "q \<in> ackedSet (je_Record e)")
    case True
    then have "eventSequenceACKed (je_Record e) q" using eventSequenceACKed_iff [OF wf t(3)] by simp
    with ok e ready have "st_entries t = st_entries s"
      by (auto simp: AckEvent_def Let_def split: if_splits option.splits dest: entries_removeEvent)
    then have "map_of (st_entries t) (messageID_of (je_Record e)) = Some e" using en(1) by simp
    with entryFor_of_entry [OF tinv(5) this] en t True show False by (simp add: liveRecord_def)
  next
    case False
    then have "\<not> eventSequenceACKed (je_Record e) q" using eventSequenceACKed_iff [OF wf t(3)] by simp
    with ok e ready obtain r u where u: "appendJournalLocked io ?x s = (None, u)" "st_entries t = st_entries u"
      and r: "map_of (st_events s) i = Some r" "eventAttempt r = a" "ev_ClientEventSeq r = q"
      by (auto simp: AckEvent_def Let_def split: if_splits option.splits prod.splits dest: entries_removeEvent)
    have isq: "map_of (innerSeqs a s) q = Some i" using index_inv_event(3) [OF inv(8) r(1)] r(2,3) by simp
    have le: "q \<le> jr_LastClientEventSeq (je_Record e)" using event_seq_range(2) [OF sound_inv [OF s ready] isq lr] .
    have "q \<in> ackedSet (je_Record ?x)"
      using applyEventACK_spec [OF wf t(3) le False] by (simp add: ackedSet_def)
    moreover have "map_of (st_entries t) (messageID_of (je_Record ?x)) = Some ?x"
      using entries_append_ok [OF u(1)] u(2) by simp
    from entryFor_of_entry [OF tinv(5) this] en(2) t(2) have "rec = je_Record ?x" by (simp add: liveRecord_def)
    ultimately show False using t(4) by simp
  qed
qed

lemma store_reach_trans: "store_reach t u \<Longrightarrow> store_reach s t \<Longrightarrow> store_reach s u"
  by (induction rule: store_reach.induct) (auto intro: store_reach.call)

lemma reach_op:
  assumes "sound_store s" and "env_ok io" and "readyLocked s = None \<Longrightarrow> disciplined op s" and "op \<noteq> OpClose"
  shows "store_reach s (run_op io op s)"
proof (cases "readyLocked s = None")
  case True with assms store_reach.call [OF store_reach.start] show ?thesis by blast
next
  case False with run_op_not_ready [OF False, of io op] assms(4) store_reach.start show ?thesis by auto
qed

lemma unackedEvents_nil: "sound_store s \<Longrightarrow> unackedEvents [] s = {}"
proof (rule ccontr)
  assume s: "sound_store s" and "unackedEvents [] s \<noteq> {}"
  then obtain e where ready: "readyLocked s = None" and e: "entryFor [] s = Some e"
    by (auto simp: unackedEvents_def liveRecord_iff)
  note inv = store_inv_parts [OF sound_inv [OF s ready]]
  from entryFor_inv [OF inv(5) e] have "attemptID_of (je_Record e) = []"
    "identity_validate (jr_Identity (je_Record e)) = None" by (simp_all add: entry_ok_def)
  then show False by (auto simp: identity_validate_def validRuntimeID_def split: if_splits)
qed

lemma Assignment_entry:
  assumes "sound_store s" and "Assignment m s = Inr r"
  shows "\<exists>e. map_of (st_entries s) m = Some e \<and> je_Record e = r \<and> \<not> je_Deleted e"
    and "messageID_of r = m" and "m \<noteq> []"
proof -
  from assms(2) obtain e where ready: "readyLocked s = None" and e: "map_of (st_entries s) m = Some e"
    "je_Record e = r" "\<not> je_Deleted e"
    by (auto simp: Assignment_def split: option.splits if_splits)
  note inv = store_inv_parts [OF sound_inv [OF assms(1) ready]]
  note en = journal_inv_entry [OF inv(5) e(1)]
  show "\<exists>e. map_of (st_entries s) m = Some e \<and> je_Record e = r \<and> \<not> je_Deleted e" using e by blast
  show m: "messageID_of r = m" using en e by simp
  have "identity_validate (jr_Identity r) = None" using en e(2) by (auto simp: entry_ok_def)
  then show "m \<noteq> []" using m by (auto simp: identity_validate_def validRuntimeID_def split: if_splits)
qed

lemma Assignment_identity:
  assumes "sound_store s" and "store_reach s t" and "Assignment m s = Inr r" and "Assignment m t = Inr r'"
  shows "messageID_of r = m \<and> m \<noteq> [] \<and> jr_Identity r' = jr_Identity r"
proof -
  have s: "store_ok s" "session_ok s" using assms(1) by (simp_all add: sound_store_def)
  from Assignment_entry(1) [OF assms(1,3)] obtain e where e: "map_of (st_entries s) m = Some e" "je_Record e = r" by blast
  from reach_entries [OF assms(2) s e(1)] obtain f where f: "map_of (st_entries t) m = Some f" "entry_grows e f" by blast
  have "je_Record f = r'" using assms(4) f(1) by (auto simp: Assignment_def split: option.splits if_splits)
  with f(2) e(2) Assignment_entry(2,3) [OF assms(1,3)] show ?thesis by (auto simp: entry_grows_def)
qed

lemma fileRuntimeStore_simps:
  "sto_AdvanceAssignment fileRuntimeStore = AdvanceAssignment"
  "sto_DeleteAssignment fileRuntimeStore = DeleteAssignment" "sto_AckEvent fileRuntimeStore = AckEvent"
  "sto_AckResult fileRuntimeStore = AckResult" "sto_ClearTerminalEvents fileRuntimeStore = ClearTerminalEvents"
  "sto_PendingEvents fileRuntimeStore = PendingEvents" "sto_PendingResult fileRuntimeStore = PendingResult"
  "sto_Assignment fileRuntimeStore = Assignment"
  by (simp_all add: fileRuntimeStore_def)

interpretation file_contract: runtime_store_contract fileRuntimeStore sound_store store_reach unackedEvents
proof
  fix s t u io m st a i q b es r old new
  show "store_reach s s" by (rule store_reach.start)
  show "store_reach s t \<Longrightarrow> store_reach t u \<Longrightarrow> store_reach s u" using store_reach_trans by blast
  show "sound_store s \<Longrightarrow> store_reach s t \<Longrightarrow> sound_store t"
    using store_reach_ok by (auto simp: sound_store_def)
  show "env_ok io \<Longrightarrow> store_reach s (snd (sto_AdvanceAssignment fileRuntimeStore io m st s))"
    using store_reach.call [OF store_reach.start, of io "OpAdvance m st" s] by (simp add: fileRuntimeStore_simps)
  show "env_ok io \<Longrightarrow> store_reach s (snd (sto_DeleteAssignment fileRuntimeStore io m s))"
    using store_reach.call [OF store_reach.start, of io "OpDelete m" s] by (simp add: fileRuntimeStore_simps)
  show "env_ok io \<Longrightarrow> store_reach s (snd (sto_AckEvent fileRuntimeStore io a i q s))"
    using store_reach.call [OF store_reach.start, of io "OpAckEvent a i q" s] by (simp add: fileRuntimeStore_simps)
  show "sound_store s \<Longrightarrow> env_ok io \<Longrightarrow> unackedEvents a s = {} \<Longrightarrow>
      store_reach s (snd (sto_AckResult fileRuntimeStore io a i s))"
    using reach_op [of s io "OpAckResult a i"] by (simp add: fileRuntimeStore_simps allAcked_iff)
  show "sound_store s \<Longrightarrow> env_ok io \<Longrightarrow> unackedEvents a s = {} \<Longrightarrow>
      store_reach s (snd (sto_ClearTerminalEvents fileRuntimeStore io a s))"
    using reach_op [of s io "OpClearEvents a"] by (simp add: fileRuntimeStore_simps allAcked_iff)
  show "sound_store s \<Longrightarrow> unackedEvents [] s = {}" by (rule unackedEvents_nil)
  show "sound_store s \<Longrightarrow> store_reach s t \<Longrightarrow> sto_Assignment fileRuntimeStore m s = Inr old \<Longrightarrow>
      sto_Assignment fileRuntimeStore m t = Inr new \<Longrightarrow> messageID_of old = m \<and> m \<noteq> [] \<and> jr_Identity new = jr_Identity old"
    unfolding fileRuntimeStore_simps by (rule Assignment_identity)
  show "unackedEvents a s = set (map ev_ClientEventSeq es)"
    if "sound_store s" "sto_PendingEvents fileRuntimeStore a s = Inr es"
  proof -
    have p: "PendingEvents a s = Inr es" using that by (simp add: fileRuntimeStore_simps)
    then have ready: "readyLocked s = None" by (auto simp: PendingEvents_def split: option.splits)
    from pending_events_char [OF sound_inv [OF that(1) ready] p] ready show ?thesis
      by (auto simp: unackedEvents_def)
  qed
  show "unackedEvents b t \<subseteq> unackedEvents b s \<and> (r = None \<longrightarrow> q \<notin> unackedEvents a t)"
    if "sound_store s" "env_ok io" "sto_AckEvent fileRuntimeStore io a i q s = (r, t)"
    using op_unacked [OF that(1,2), of "OpAckEvent a i q" b] AckEvent_nothing_new [of s io a i q]
      AckEvent_acks [OF that(1,2), of a i q t] that(3)
    by (auto simp: fileRuntimeStore_simps)
  show "sound_store s \<Longrightarrow> env_ok io \<Longrightarrow>
      unackedEvents b (snd (sto_DeleteAssignment fileRuntimeStore io m s)) \<subseteq> unackedEvents b s"
    using op_unacked [of s io "OpDelete m" b] DeleteAssignment_nothing_new by (simp add: fileRuntimeStore_simps)
  show "sound_store s \<Longrightarrow> env_ok io \<Longrightarrow>
      unackedEvents b (snd (sto_AdvanceAssignment fileRuntimeStore io m st s)) \<subseteq> unackedEvents b s"
    using op_unacked [of s io "OpAdvance m st" b] AdvanceAssignment_nothing_new by (simp add: fileRuntimeStore_simps)
  show "unackedEvents b (snd (sto_ClearTerminalEvents fileRuntimeStore io a s)) \<subseteq> unackedEvents b s"
    if "sound_store s" "env_ok io" "unackedEvents a s = {}"
    using unacked_drained_op [OF that, of "OpClearEvents a" b] ClearTerminalEvents_nothing_new
    by (simp add: fileRuntimeStore_simps)
  show "unackedEvents b (snd (sto_AckResult fileRuntimeStore io a i s)) \<subseteq> unackedEvents b s"
    if "sound_store s" "env_ok io" "unackedEvents a s = {}"
    using unacked_drained_op [OF that, of "OpAckResult a i" b] AckResult_nothing_new
    by (simp add: fileRuntimeStore_simps)
qed

lemma ready_before: "store_reach s t \<Longrightarrow> readyLocked t = None \<Longrightarrow> readyLocked s = None"
proof (induction rule: store_reach.induct)
  case (call s t io op)
  have "readyLocked t = None"
  proof (rule ccontr)
    assume "readyLocked t \<noteq> None"
    with run_op_not_ready [OF this, of io op] call.prems show False
      by (auto simp: Close_def readyLocked_def split: if_splits)
  qed
  with call.IH show ?case by blast
qed

lemma AckEvent_keeps:
  assumes s: "sound_store s" and io: "env_ok io" and t: "readyLocked (snd (AckEvent io a i q s)) = None"
  shows "unackedEvents a s \<subseteq> insert q (unackedEvents a (snd (AckEvent io a i q s)))"
proof
  let ?t = "snd (AckEvent io a i q s)"
  fix p assume "p \<in> unackedEvents a s"
  then obtain rec where ready: "readyLocked s = None" and rec: "liveRecord a s = Some rec"
    and p: "p \<in> {1 .. jr_LastClientEventSeq rec} - ackedSet rec" by (auto simp: unackedEvents_def)
  note si = sound_inv [OF s ready]
  note inv = store_inv_parts [OF si]
  have "sound_store ?t" using store_ok_run [of s io "OpAckEvent a i q"] s io by (auto simp: sound_store_def)
  note tinv = store_inv_parts [OF sound_inv [OF this t]]
  from rec obtain e where ef: "entryFor a s = Some e" "\<not> je_Deleted e" "je_Record e = rec"
    by (auto simp: liveRecord_iff)
  then have e: "assignmentForAttemptLocked a s = Inr e" by (simp add: assignmentForAttempt_iff)
  note en = assignmentForAttempt_entry [OF inv(5) e]
  have wf: "ack_wf (je_Record e)" using en(3) by (simp add: jr_wf_def)
  let ?x = "liveEntry ((applyEventACK (je_Record e) q)\<lparr>jr_UpdatedAt := nextNow io s\<rparr>)"
  show "p \<in> insert q (unackedEvents a ?t)"
  proof (cases "st_entries ?t = st_entries s")
    case True
    with en(1) have "map_of (st_entries ?t) (messageID_of (je_Record e)) = Some e" by simp
    with entryFor_of_entry [OF tinv(5) this] en(2) ef p t show ?thesis
      by (auto simp: unackedEvents_def liveRecord_iff)
  next
    case False
    then obtain r x u where u: "appendJournalLocked io ?x s = (x, u)" "st_entries ?t = st_entries u"
      and r: "map_of (st_events s) i = Some r" "eventAttempt r = a" "ev_ClientEventSeq r = q"
      and q: "0 < q" "\<not> eventSequenceACKed (je_Record e) q"
      using ready e entries_removeEvent [OF prod.collapse [symmetric]]
      by (auto simp: AckEvent_def Let_def split: if_splits option.splits prod.splits)
    have isq: "map_of (innerSeqs a s) q = Some i" using index_inv_event(3) [OF inv(8) r(1)] r(2,3) by simp
    have le: "q \<le> jr_LastClientEventSeq (je_Record e)" using event_seq_range(2) [OF si isq rec] ef by simp
    have nq: "q \<notin> ackedSet (je_Record e)" using eventSequenceACKed_iff [OF wf] q by simp
    have ack: "ackedSet (je_Record ?x) = insert q (ackedSet rec)"
      using applyEventACK_spec [OF wf _ le nq] q(1) ef(3) by (simp add: ackedSet_def)
    have "map_of (st_entries ?t) (messageID_of (je_Record ?x)) = Some ?x"
      using entries_append [OF u(1)] u(2) False by auto
    from entryFor_of_entry [OF tinv(5) this] en(2) have "liveRecord a ?t = Some (je_Record ?x)"
      by (simp add: liveRecord_def)
    with p ack ef(3) t show ?thesis by (auto simp: unackedEvents_def)
  qed
qed

interpretation file_delivery:
  runtime_store_delivery fileRuntimeStore sound_store store_reach unackedEvents "\<lambda>s. readyLocked s = None"
proof
  show "store_reach s t \<Longrightarrow> readyLocked t = None \<Longrightarrow> readyLocked s = None" for s t by (rule ready_before)
  show "unackedEvents a s \<subseteq> insert q (unackedEvents a (snd (sto_AckEvent fileRuntimeStore io a i q s)))"
    if "sound_store s" "env_ok io" "readyLocked (snd (sto_AckEvent fileRuntimeStore io a i q s)) = None"
    for s io a i q
    using AckEvent_keeps [OF that(1,2), of a i q] that(3) by (simp add: fileRuntimeStore_simps)
qed

section \<open>What the worker guarantees\<close>

text \<open>
  The environment of one activity of the worker on an attempt: the worker runs on the file
  store, whose file system answers are arbitrary, and the other goroutines call the store in
  the worker's discipline and append no event to the attempt meanwhile. In an undisturbed one
  they acknowledge none of its events either.
\<close>

definition quiet_env :: "string \<Rightarrow> store worker_env \<Rightarrow> bool" where
  "quiet_env a env \<longleftrightarrow> we_store env = fileRuntimeStore \<and> (\<forall>n. env_ok (we_io env n))
     \<and> (\<forall>n s. sound_store s \<longrightarrow> store_reach s (we_others env n s)
          \<and> unackedEvents a (we_others env n s) \<subseteq> unackedEvents a s)"

definition undisturbed_env :: "string \<Rightarrow> store worker_env \<Rightarrow> bool" where
  "undisturbed_env a env \<longleftrightarrow> quiet_env a env
     \<and> (\<forall>n s. sound_store s \<longrightarrow> readyLocked (we_others env n s) = None \<longrightarrow>
          unackedEvents a (we_others env n s) = unackedEvents a s)"

lemma quiet_env_quiet: "quiet_env a env \<Longrightarrow> file_contract.quiet a env"
  by (simp add: quiet_env_def file_contract.quiet_def)

lemma undisturbed_env_iff: "undisturbed_env a env \<Longrightarrow> file_delivery.undisturbed a env"
  using quiet_env_quiet by (simp add: undisturbed_env_def file_delivery.undisturbed_def)

lemma live_reach: "live_store s \<Longrightarrow> store_reach s t \<Longrightarrow> readyLocked t = None \<Longrightarrow> live_store t"
  using store_reach_trans unfolding live_store_def by blast

lemma live_sound: "live_store s \<Longrightarrow> sound_store s"
  using live_inv by (simp add: sound_store_def store_ok_def)

definition remoteAccepted :: "store worker_env \<Rightarrow> remote_call list \<Rightarrow> int \<Rightarrow> bool" where
  "remoteAccepted env cs q \<longleftrightarrow> (\<exists>pre request post. cs = pre @ CallAppendEvent request # post
     \<and> er_ClientEventSeq request = q
     \<and> we_append env pre request = Inr (Some \<lparr>ea_ClientEventID = er_ClientEventID request, ea_ClientEventSeq = q\<rparr>))"

lemma remoteAccepted_iff: "file_delivery.accepted = remoteAccepted"
  by (intro ext) (simp add: file_delivery.accepted_def remoteAccepted_def)


text \<open>The result the store holds may be uploaded by this request: every event is acknowledged.\<close>

definition resultReady :: "string \<Rightarrow> store \<Rightarrow> result_request \<Rightarrow> bool" where
  "resultReady a s request \<longleftrightarrow> allAcked a s
     \<and> (\<exists>result. PendingResult a s = Inr result
          \<and> rr_AttemptIdentity request = sdkAttemptIdentity (rs_Identity result)
          \<and> rr_ResultID request = rs_ResultID result
          \<and> rr_FinalClientEventSeq request = rs_FinalClientEventSeq result)"

lemma uploadable_ready:
  assumes "file_contract.uploadable a w v request"
  shows "store_reach (wk_store w) (wk_store v)" and "resultReady a (wk_store v) request"
proof -
  from assms have u: "unackedEvents a (wk_store v) = {}" "store_reach (wk_store w) (wk_store v)"
    and r: "\<exists>result. PendingResult a (wk_store v) = Inr result
          \<and> rr_AttemptIdentity request = sdkAttemptIdentity (rs_Identity result)
          \<and> rr_ResultID request = rs_ResultID result
          \<and> rr_FinalClientEventSeq request = rs_FinalClientEventSeq result"
    unfolding file_contract.uploadable_def file_contract.settles_def fileRuntimeStore_simps by blast+
  from r have "readyLocked (wk_store v) = None" by (auto simp: PendingResult_def split: option.splits)
  with u(1) r show "resultReady a (wk_store v) request" by (simp add: resultReady_def allAcked_iff)
  show "store_reach (wk_store w) (wk_store v)" by (rule u)
qed


section \<open>A worker cut off from the remote runtime\<close>

text \<open>Every request fails; the other goroutines are idle and the file system is healthy.\<close>

definition cut_off_env :: "store worker_env" where
  "cut_off_env = \<lparr>we_store = fileRuntimeStore, we_io = (\<lambda>n. sample_io), we_others = (\<lambda>n s. s),
     we_append = (\<lambda>cs request. Inl (TextError ''connection refused'')),
     we_finalize = (\<lambda>cs request. Inl (TextError ''connection refused'')),
     we_isObject = (\<lambda>b. True), we_decodeResult = (\<lambda>b. None), we_tooLarge = (\<lambda>c. False), we_stopped = (\<lambda>n. False)\<rparr>"

definition appended_worker :: "store worker_state" where
  "appended_worker = \<lparr>wk_store = appended_store, wk_turn = 0, wk_calls = [],
     wk_spoolAllowed = [(''attempt'', \<lparr>sp_events = True, sp_result = True\<rparr>)],
     wk_active = [''attempt''], wk_fatal = []\<rparr>"

lemma cut_off_undisturbed: "undisturbed_env a cut_off_env"
  by (simp add: undisturbed_env_def quiet_env_def cut_off_env_def sample_env store_reach.start)

lemma cut_off_quiet: "quiet_env a cut_off_env"
  using cut_off_undisturbed by (simp add: undisturbed_env_def)

lemma appended_unacked: "1 \<in> unackedEvents ''attempt'' appended_store"
proof -
  obtain rec where "liveRecord ''attempt'' appended_store = Some rec" "jr_LastClientEventSeq rec = 1" "ackedSet rec = {}"
    by (rule appended_record)
  then show ?thesis using store_inv_parts(4) [OF appended_inv] by (simp add: unackedEvents_def)
qed

lemma appended_attempt: "attemptID_of sample_assignment = ''attempt''"
  by (simp add: sample_assignment_def sample_attempt_def sample_identity_def)

lemma cut_off_flush:
  "\<exists>r w. flushAttemptSpool cut_off_env sample_assignment \<lparr>sp_events = True, sp_result = True\<rparr> appended_worker = (Some r, w)
     \<and> wk_store w = appended_store"
proof -
  obtain rec where "liveRecord ''attempt'' appended_store = Some rec"
    by (rule appended_record)
  then obtain e where "assignmentForAttemptLocked ''attempt'' appended_store = Inr e"
    by (auto simp: liveRecord_iff assignmentForAttempt_iff)
  then obtain rs where rs: "PendingEvents ''attempt'' appended_store = Inr rs"
    using store_inv_parts(4) [OF appended_inv] by (simp add: PendingEvents_def)
  from file_contract.pending_unacked [OF live_sound [OF appended_live], of "''attempt''" rs] rs appended_unacked
  obtain e es where "rs = e # es" by (cases rs) (auto simp: fileRuntimeStore_simps)
  with rs show ?thesis
    by (simp add: flushAttemptSpool_def appended_attempt storeRead_def takeTurn_def sendCall_def cut_off_env_def
        appended_worker_def fileRuntimeStore_simps Let_def)
qed




definition revoked_worker :: "store worker_state" where
  "revoked_worker = appended_worker\<lparr>wk_store := revoked_store\<rparr>"

lemma revoked_retired:
  "retireTerminalAttempt cut_off_env sample_assignment True revoked_worker =
     (None, revoked_worker\<lparr>wk_store := snd (DeleteAssignment sample_io ''message'' revoked_store), wk_turn := 5\<rparr>)"
proof -
  let ?s = revoked_store
  from revoked_at obtain p where p: "map_of (st_entries ?s) ''message'' = Some p" "\<not> je_Deleted p"
    "jr_Identity (je_Record p) = sample_attempt" "jr_State (je_Record p) = AssignmentStateRevoked"
    and e: "st_eventSeqs ?s = []" "st_results ?s = []" and inv: "store_inv ?s" unfolding sample_at_def by blast
  note parts = store_inv_parts [OF inv]
  have ids: "ai_AttemptID sample_attempt = ''attempt''" "ai_AssignmentMessageID sample_attempt = ''message''"
    "jr_Identity sample_assignment = sample_attempt"
    by (simp_all add: sample_attempt_def sample_identity_def sample_assignment_def)
  have "assignmentForAttemptLocked ''attempt'' ?s = Inr p"
    using entryFor_of_entry [OF parts(5) p(1)] p ids by (simp add: assignmentForAttempt_iff)
  then have reads: "Assignment ''message'' ?s = Inr (je_Record p)" "PendingEvents ''attempt'' ?s = Inr []"
    "PendingResult ''attempt'' ?s = Inl ErrSpoolRecordNotFound"
    "ClearTerminalEvents sample_io ''attempt'' ?s = (None, ?s)"
    using p e parts(4) by (simp_all add: Assignment_def PendingEvents_def PendingResult_def
        ClearTerminalEvents_def removeAttemptEventsLocked_def innerSeqs_def)
  obtain t where "DeleteAssignment sample_io ''message'' ?s = (None, t)"
    using revoked_deleted(1) by (metis prod.collapse)
  then show ?thesis
    using p reads ids
    by (simp add: retireTerminalAttempt_def retireSpool_def retireCleanup_def storeRead_def storeCall_def takeTurn_def
        cut_off_env_def revoked_worker_def appended_worker_def fileRuntimeStore_simps Let_def
        isAssignmentTerminal_def errorIs_def)
qed


end
