(* ===== verification/Go_Format.thy ===== *)
theory Go_Format
  imports Store_Types
begin

text \<open>
  ASCII classes of bytes and the decimal notation of integers (\<^verbatim>\<open>%d\<close>, \<^verbatim>\<open>strconv.Itoa\<close>).
\<close>

definition upperByte :: "char \<Rightarrow> bool" where "upperByte c \<longleftrightarrow> 65 \<le> code c \<and> code c \<le> 90"
definition smallByte :: "char \<Rightarrow> bool" where "smallByte c \<longleftrightarrow> 97 \<le> code c \<and> code c \<le> 122"
definition digitByte :: "char \<Rightarrow> bool" where "digitByte c \<longleftrightarrow> 48 \<le> code c \<and> code c \<le> 57"

fun natDigits :: "nat \<Rightarrow> string" where
  "natDigits n = (if n < 10 then [char_of (48 + n)] else natDigits (n div 10) @ [char_of (48 + n mod 10)])"

declare natDigits.simps [simp del]

definition formatInt :: "int \<Rightarrow> string" where
  "formatInt i = (if i < 0 then CHR ''-'' # natDigits (nat (- i)) else natDigits (nat i))"

lemma natDigits_digits: "set (natDigits n) \<subseteq> {c. digitByte c}"
proof (induction n rule: natDigits.induct)
  case (1 n)
  have d: "digitByte (char_of (48 + k))" if "k < 10" for k :: nat
    using that by (simp add: digitByte_def code_def)
  show ?case using 1 d [of n] d [of "n mod 10"] by (subst natDigits.simps) auto
qed

end
