(* ===== verification/Worker_Assignment.thy ===== *)
theory Worker_Assignment
  imports Worker_Durability Go_Format
begin

text \<open>
  How the worker takes on an assignment: identifiers derived from the offer
  (\<^verbatim>\<open>localAttemptIdentity\<close>, \<^verbatim>\<open>deterministicRuntimeUUID\<close>), admission against the capacity, the
  durable hand-shake of a claimed assignment, rejection, the start of the handler
  (\<^verbatim>\<open>startConfirmedAttempt\<close>, runtime_worker_attempt.go) and the resumption after a restart or a
  reconnect (runtime_worker_session.go). Retry loops that may not end are partial functions:
  \<^term>\<open>None\<close> means that the call does not return.
\<close>

section \<open>Errors that end a retry loop\<close>

fun firstApiFull :: "go_error list \<Rightarrow> (int \<times> string \<times> string) option" where
  "firstApiFull [] = None"
| "firstApiFull (ApiError status errCode message details # es) = Some (status, errCode, message)"
| "firstApiFull (e # es) = firstApiFull es"

fun firstClose :: "go_error list \<Rightarrow> (int \<times> string) option" where
  "firstClose [] = None"
| "firstClose (WSCloseError closeCode closeText # es) = Some (closeCode, closeText)"
| "firstClose (e # es) = firstClose es"

fun hasRecoveryError :: "go_error list \<Rightarrow> bool" where
  "hasRecoveryError [] = False"
| "hasRecoveryError (PolicyRecoveryError cause # es) = True"
| "hasRecoveryError (e # es) = hasRecoveryError es"

definition runtimePolicyRecoveryHTTPError :: "go_error \<Rightarrow> bool" where
  "runtimePolicyRecoveryHTTPError err =
     (case firstApiFull (errorChain err) of
        None \<Rightarrow> False
      | Some (status, errCode, message) \<Rightarrow>
          if status \<noteq> 403 \<or> errCode \<noteq> ''FORBIDDEN'' then False
          else message = ''RUNTIME_TRANSPORT_FORBIDDEN'' \<or> message = ''RUNTIME_POLICY_CHANGED'')"

definition runtimePolicyRecoveryWSClose :: "go_error \<Rightarrow> bool" where
  "runtimePolicyRecoveryWSClose err =
     (case firstClose (errorChain err) of
        None \<Rightarrow> False
      | Some (closeCode, closeText) \<Rightarrow> closeCode = 1008 \<and> closeText = ''RUNTIME_POLICY_CHANGED'')"

definition runtimePolicyRecoverySignal :: "go_error \<Rightarrow> bool" where
  "runtimePolicyRecoverySignal err =
     (if hasRecoveryError (errorChain err) then False
      else runtimePolicyRecoveryHTTPError err \<or> runtimePolicyRecoveryWSClose err)"

definition runtimeErrorIsPermanent :: "go_error \<Rightarrow> bool" where
  "runtimeErrorIsPermanent err =
     (if hasRecoveryError (errorChain err) \<or> runtimePolicyRecoverySignal err then True
      else case firstClose (errorChain err) of
        Some (closeCode, closeText) \<Rightarrow> closeCode \<in> {4401, 4406, 4409, 4412}
      | None \<Rightarrow>
          runtimeErrorCode err \<in> {''AUTHENTICATION_FAILED'', ''UNAUTHORIZED'', ''FORBIDDEN'', ''PERMISSION_DENIED'',
            ''RUNTIME_CLIENT_UPGRADE_REQUIRED'', ''RUNTIME_REQUIRED_FEATURE_MISSING'', ''RUNTIME_SESSION_CONFLICT''})"

definition leaseLost :: "go_error \<Rightarrow> bool" where
  "leaseLost err \<longleftrightarrow> runtimeErrorCode err = ''STALE_LEASE'' \<or> runtimeErrorCode err = ''LEASE_EXPIRED''"

text \<open>The error that is reported outside the worker.\<close>

definition scrubRuntimeError :: "go_error \<Rightarrow> go_error" where
  "scrubRuntimeError err =
     (if hasRecoveryError (errorChain err) \<or> runtimePolicyRecoverySignal err then err
      else case firstApiFull (errorChain err) of
        Some (status, errCode, message) \<Rightarrow> TextError (errCode @ '' (HTTP '' @ formatInt status @ '')'')
      | None \<Rightarrow> err)"

section \<open>Deterministic identifiers\<close>

fun joinParts :: "string \<Rightarrow> string list \<Rightarrow> string" where
  "joinParts v [] = v"
| "joinParts v (part # parts) = joinParts (v @ CHR 0x00 # part) parts"

definition joinRuntimeIdentityParts :: "string list \<Rightarrow> string" where
  "joinRuntimeIdentityParts parts = joinParts ''openlinker/runtime/deterministic-id'' parts"

definition deterministicRuntimeUUID :: "(bytes \<Rightarrow> bytes) \<Rightarrow> string list \<Rightarrow> string" where
  "deterministicRuntimeUUID sha256 parts =
     formatUUID (setUUIDBits 0x50 (sha256 (joinRuntimeIdentityParts parts)))"

section \<open>Ranges of sequences\<close>

fun eventRangesLoop :: "int \<Rightarrow> int \<Rightarrow> event_spool_record list \<Rightarrow> event_range list" where
  "eventRangesLoop rangeStart rangeEnd [] = [(rangeStart, rangeEnd)]"
| "eventRangesLoop rangeStart rangeEnd (event # rest) =
     (if ev_ClientEventSeq event = add64 rangeEnd 1
      then eventRangesLoop rangeStart (ev_ClientEventSeq event) rest
      else (rangeStart, rangeEnd) # eventRangesLoop (ev_ClientEventSeq event) (ev_ClientEventSeq event) rest)"

fun eventRanges :: "event_spool_record list \<Rightarrow> event_range list" where
  "eventRanges [] = []"
| "eventRanges (event # rest) = eventRangesLoop (ev_ClientEventSeq event) (ev_ClientEventSeq event) rest"

section \<open>Messages and the state of the worker\<close>

text \<open>
  An offer; input and metadata are given by their JSON
  encoding, \<^term>\<open>None\<close> when \<^verbatim>\<open>json.Marshal\<close> fails.
\<close>

record run_assigned =
  ra_AttemptIdentity :: sdk_identity
  ra_OfferNo :: int
  ra_OfferExpiresAt :: time
  ra_AttemptDeadlineAt :: time
  ra_RunDeadlineAt :: time
  ra_Input :: "bytes option"
  ra_Metadata :: "bytes option"
  ra_NodeEnvelope :: string
  ra_AgentInvocationToken :: string

record assignment_confirmed =
  ac_AttemptIdentity :: sdk_identity
  ac_LeaseExpiresAt :: time

datatype reject_reason =
    RejectNodeAtCapacity | RejectNodeDraining | RejectClientUpgradeRequired | RejectRequiredFeatureMissing

record assignment_reject =
  aj_AttemptIdentity :: sdk_identity
  aj_ReasonCode :: reject_reason
  aj_Capacity :: int
  aj_Inflight :: int

record resume_attempt =
  rt_AttemptIdentity :: sdk_identity
  rt_LastAckedClientEventSeq :: int
  rt_PendingClientEventRanges :: "event_range list"
  rt_PendingResultID :: string
  rt_FinalClientEventSeq :: "int option"

record resume_request =
  rq_NodeID :: string
  rq_AgentID :: string
  rq_WorkerID :: string
  rq_RuntimeSessionID :: string
  rq_Attempts :: "resume_attempt list"

datatype resume_decision =
    ResumeContinue | ResumeUploadSpool | ResumeResultAcked | ResumeRevoked | ResumeOther string

datatype resume_action =
    ActionContinueExecution | ActionUploadEvents | ActionUploadResult | ActionStopExecution | ActionClearSpool
  | ActionOther string

record resume_accepted =
  rd_AttemptIdentity :: sdk_identity
  rd_Decision :: resume_decision
  rd_LeaseExpiresAt :: "time option"
  rd_AllowedActions :: "resume_action list"

datatype control_call =
    ControlAck sdk_identity | ControlReject assignment_reject | ControlResume resume_request

text \<open>
  The environment adds the configuration, SHA-256, the clock, the remote runtime's answers to
  control calls (given the calls before), whether the context ends during the \<open>n\<close>-th wait of a
  retry loop, and whether a running handler ends before the context while it is stopped.
\<close>

record 's node_env =
  ne_worker :: "'s worker_env"
  ne_NodeID :: string
  ne_AgentID :: string
  ne_Capacity :: int
  ne_sha256 :: "bytes \<Rightarrow> bytes"
  ne_now :: "nat \<Rightarrow> time"
  ne_ack :: "control_call list \<Rightarrow> sdk_identity \<Rightarrow> go_error + assignment_confirmed option"
  ne_reject :: "control_call list \<Rightarrow> assignment_reject \<Rightarrow> go_error option"
  ne_resume :: "control_call list \<Rightarrow> resume_request \<Rightarrow> go_error + resume_accepted list option"
  ne_waitRetry :: "control_call list \<Rightarrow> nat \<Rightarrow> go_error option"
  ne_attemptDone :: "string \<Rightarrow> go_error option"

record 's node_state =
  nd_worker :: "'s worker_state"
  nd_controls :: "control_call list"
  nd_reservations :: "string list"
  nd_assignmentOps :: int
  nd_draining :: bool
  nd_stopping :: bool
  nd_leases :: "(string, time) gomap"
  nd_started :: "attempt_identity list"  \<comment> \<open>the launches \<^verbatim>\<open>go node.executeAttempt\<close>, in order\<close>

definition nodeRead :: "'s node_env \<Rightarrow> ('s \<Rightarrow> 'a) \<Rightarrow> 's node_state \<Rightarrow> 'a \<times> 's node_state" where
  "nodeRead ne f nd = (case storeRead (ne_worker ne) f (nd_worker nd) of (r, w) \<Rightarrow> (r, nd\<lparr>nd_worker := w\<rparr>))"

definition nodeCall :: "'s node_env \<Rightarrow> (io \<Rightarrow> 's \<Rightarrow> 'a \<times> 's) \<Rightarrow> 's node_state \<Rightarrow> 'a \<times> 's node_state" where
  "nodeCall ne f nd = (case storeCall (ne_worker ne) f (nd_worker nd) of (r, w) \<Rightarrow> (r, nd\<lparr>nd_worker := w\<rparr>))"

definition control :: "control_call \<Rightarrow> 's node_state \<Rightarrow> 's node_state" where
  "control c nd = nd\<lparr>nd_controls := nd_controls nd @ [c]\<rparr>"

abbreviation nodeStore :: "'s node_env \<Rightarrow> 's runtime_store" where
  "nodeStore ne \<equiv> we_store (ne_worker ne)"

section \<open>Admission\<close>

text \<open>\<^verbatim>\<open>len(node.active)\<close> and the reservations that are not active.\<close>

definition inflightCount :: "'s node_state \<Rightarrow> int" where
  "inflightCount nd = int (length (wk_active (nd_worker nd)))
     + int (length (filter (\<lambda>a. a \<notin> set (wk_active (nd_worker nd))) (nd_reservations nd)))"

definition beginAssignment :: "'s node_env \<Rightarrow> string \<Rightarrow> 's node_state \<Rightarrow> 's node_state" where
  "beginAssignment ne attemptID nd =
     (let nd1 = nd\<lparr>nd_assignmentOps := nd_assignmentOps nd + 1\<rparr> in
      if \<not> nd_draining nd \<and> attemptID \<notin> set (wk_active (nd_worker nd)) \<and> inflightCount nd < ne_Capacity ne
      then nd1\<lparr>nd_reservations := List.insert attemptID (nd_reservations nd1)\<rparr>
      else nd1)"

definition endAssignment :: "string \<Rightarrow> 's node_state \<Rightarrow> 's node_state" where
  "endAssignment attemptID nd =
     nd\<lparr>nd_reservations := removeAll attemptID (nd_reservations nd), nd_assignmentOps := nd_assignmentOps nd - 1\<rparr>"

definition assignmentAdmitted :: "string \<Rightarrow> 's node_state \<Rightarrow> bool \<times> bool" where
  "assignmentAdmitted attemptID nd = (attemptID \<in> set (nd_reservations nd), nd_draining nd)"

definition capacitySnapshot :: "'s node_env \<Rightarrow> 's node_state \<Rightarrow> (int \<times> int) \<times> 's node_state" where
  "capacitySnapshot ne nd =
     (let draining = nd_draining nd; inflight = inflightCount nd in
      case nodeCall ne (\<lambda>io s. (sto_AcceptsNewRuns (nodeStore ne) io s, s)) nd of
        (accepting, nd1) \<Rightarrow> ((if \<not> draining \<and> accepting then ne_Capacity ne else 0, inflight), nd1))"

definition setDraining :: "bool \<Rightarrow> 's node_state \<Rightarrow> 's node_state" where
  "setDraining b nd = nd\<lparr>nd_draining := b\<rparr>"

definition markDraining :: "'s node_state \<Rightarrow> bool \<times> 's node_state" where
  "markDraining nd = (\<not> nd_draining nd, nd\<lparr>nd_draining := True\<rparr>)"

definition setStopping :: "'s node_state \<Rightarrow> 's node_state" where
  "setStopping nd = nd\<lparr>nd_draining := True, nd_stopping := True\<rparr>"

section \<open>Starting the handler\<close>

definition activeAttempt :: "string \<Rightarrow> 's node_state \<Rightarrow> bool" where
  "activeAttempt attemptID nd \<longleftrightarrow> attemptID \<in> set (wk_active (nd_worker nd))"

definition retireActiveAttempt :: "string \<Rightarrow> 's node_state \<Rightarrow> 's node_state" where
  "retireActiveAttempt attemptID nd =
     nd\<lparr>nd_worker := (nd_worker nd)\<lparr>wk_active := removeAll attemptID (wk_active (nd_worker nd))\<rparr>,
        nd_leases := AList.delete attemptID (nd_leases nd)\<rparr>"

definition setLeaseExpiry :: "string \<Rightarrow> time \<Rightarrow> 's node_state \<Rightarrow> 's node_state" where
  "setLeaseExpiry attemptID t nd = nd\<lparr>nd_leases := AList.update attemptID t (nd_leases nd)\<rparr>"

definition allowSpool :: "string \<Rightarrow> spool_permission \<Rightarrow> 's node_state \<Rightarrow> 's node_state" where
  "allowSpool attemptID permission nd =
     nd\<lparr>nd_worker := (nd_worker nd)\<lparr>wk_spoolAllowed :=
          AList.update attemptID permission (wk_spoolAllowed (nd_worker nd))\<rparr>\<rparr>"

definition registerAttempt :: "string \<Rightarrow> time \<Rightarrow> 's node_state \<Rightarrow> 's node_state" where
  "registerAttempt attemptID leaseExpiry nd =
     setLeaseExpiry attemptID leaseExpiry
       (nd\<lparr>nd_worker := (nd_worker nd)\<lparr>wk_active := wk_active (nd_worker nd) @ [attemptID]\<rparr>\<rparr>)"

definition startConfirmedAttempt ::
  "'s node_env \<Rightarrow> journal_record \<Rightarrow> assignment_payload \<Rightarrow> time \<Rightarrow> 's node_state \<Rightarrow> go_error option \<times> 's node_state" where
  "startConfirmedAttempt ne record payload leaseExpiry nd =
     (if jr_State record \<noteq> AssignmentStateConfirmed \<or> jr_Identity record \<noteq> pl_Identity payload
      then (Some ErrAssignmentTransition, nd)
      else if nd_stopping nd then (None, nd)
      else if activeAttempt (attemptID_of record) nd then (None, nd)
      else case nodeCall ne (\<lambda>io. sto_AdvanceAssignment (nodeStore ne) io (messageID_of record) AssignmentStateStarted)
                  (registerAttempt (attemptID_of record) leaseExpiry nd) of
        (Inl e, nd1) \<Rightarrow> (Some e, retireActiveAttempt (attemptID_of record) nd1)
      | (Inr r, nd1) \<Rightarrow> (None, nd1\<lparr>nd_started := nd_started nd1 @ [jr_Identity record]\<rparr>))"

section \<open>A claimed assignment\<close>

definition localAttemptIdentity :: "'s node_env \<Rightarrow> sdk_identity \<Rightarrow> 's \<Rightarrow> go_error + attempt_identity" where
  "localAttemptIdentity ne identity s =
     (let current = sto_Identity (nodeStore ne) s in
      if sa_NodeID identity \<noteq> ne_NodeID ne \<or> sa_AgentID identity \<noteq> ne_AgentID ne
         \<or> sa_WorkerID identity \<noteq> ri_WorkerID current \<or> sa_RuntimeSessionID identity \<noteq> ri_RuntimeSessionID current
      then Inl ErrSpoolRecordConflict
      else Inr \<lparr>ai_NodeID = sa_NodeID identity, ai_AgentID = sa_AgentID identity,
        ai_WorkerID = sa_WorkerID identity, ai_RuntimeSessionID = sa_RuntimeSessionID identity,
        ai_SessionEpoch = ri_SessionEpoch current,
        ai_AssignmentMessageID =
          deterministicRuntimeUUID (ne_sha256 ne) [''assignment'', sa_AttemptID identity, sa_LeaseID identity],
        ai_RunID = sa_RunID identity, ai_AttemptID = sa_AttemptID identity,
        ai_OfferID = deterministicRuntimeUUID (ne_sha256 ne) [''offer'', sa_AttemptID identity, sa_LeaseID identity],
        ai_LeaseID = sa_LeaseID identity, ai_FencingToken = sa_FencingToken identity\<rparr>)"

partial_function (option) ackAssignmentWithRetry ::
  "'s node_env \<Rightarrow> attempt_identity \<Rightarrow> nat \<Rightarrow> 's node_state
     \<Rightarrow> ((go_error + assignment_confirmed option) \<times> 's node_state) option" where
  "ackAssignmentWithRetry ne identity attempt nd =
     (let request = sdkAttemptIdentity identity; nd1 = control (ControlAck request) nd in
      case ne_ack ne (nd_controls nd) request of
        Inr confirmed \<Rightarrow> Some (Inr confirmed, nd1)
      | Inl e \<Rightarrow>
          if runtimeErrorIsPermanent e \<or> leaseLost e then Some (Inl e, nd1)
          else case ne_waitRetry ne (nd_controls nd1) attempt of
                 Some ctxErr \<Rightarrow> Some (Inl ctxErr, nd1)
               | None \<Rightarrow> ackAssignmentWithRetry ne identity (attempt + 1) nd1)"

partial_function (option) rejectLoop ::
  "'s node_env \<Rightarrow> string \<Rightarrow> assignment_reject \<Rightarrow> nat \<Rightarrow> 's node_state \<Rightarrow> (go_error option \<times> 's node_state) option" where
  "rejectLoop ne messageID request attempt nd =
     (let nd1 = control (ControlReject request) nd in
      case ne_reject ne (nd_controls nd) request of
        None \<Rightarrow>
          (case nodeCall ne (\<lambda>io. sto_AdvanceAssignment (nodeStore ne) io messageID AssignmentStateRejected) nd1 of
             (r, nd2) \<Rightarrow> Some (nodeCall ne (\<lambda>io. sto_DeleteAssignment (nodeStore ne) io messageID) nd2))
      | Some e \<Rightarrow>
          if runtimeErrorIsPermanent e \<or> leaseLost e then
            (case nodeCall ne (\<lambda>io. sto_AdvanceAssignment (nodeStore ne) io messageID AssignmentStateRevoked) nd1 of
               (r, nd2) \<Rightarrow> Some (Some e, nd2))
          else case ne_waitRetry ne (nd_controls nd1) attempt of
                 Some ctxErr \<Rightarrow> Some (Some ctxErr, nd1)
               | None \<Rightarrow> rejectLoop ne messageID request (attempt + 1) nd1)"

definition rejectAssignment ::
  "'s node_env \<Rightarrow> journal_record \<Rightarrow> 's node_state \<Rightarrow> (go_error option \<times> 's node_state) option" where
  "rejectAssignment ne record nd =
     (case (if jr_State record = AssignmentStateReceived
            then nodeCall ne (\<lambda>io. sto_AdvanceAssignment (nodeStore ne) io (messageID_of record) AssignmentStateRejectSent) nd
            else (Inr record, nd)) of
        (Inl e, nd1) \<Rightarrow> Some (Some e, nd1)
      | (Inr r, nd1) \<Rightarrow>
          (case capacitySnapshot ne nd1 of
             ((capacity, inflight), nd2) \<Rightarrow>
               rejectLoop ne (messageID_of record)
                 \<lparr>aj_AttemptIdentity = sdkAttemptIdentity (jr_Identity record),
                  aj_ReasonCode = (if nd_draining nd2 then RejectNodeDraining else RejectNodeAtCapacity),
                  aj_Capacity = capacity, aj_Inflight = inflight\<rparr> 0 nd2))"

text \<open>\<^verbatim>\<open>record, _ = node.store.Assignment(...)\<close> as in \<^const>\<open>reloadAssignment\<close>.\<close>

definition nodeReload :: "'s node_env \<Rightarrow> string \<Rightarrow> 's node_state \<Rightarrow> journal_record \<times> 's node_state" where
  "nodeReload ne messageID nd =
     (case reloadAssignment (ne_worker ne) messageID (nd_worker nd) of (r, w) \<Rightarrow> (r, nd\<lparr>nd_worker := w\<rparr>))"

definition uploadAll :: spool_permission where
  "uploadAll = \<lparr>sp_events = True, sp_result = True\<rparr>"

text \<open>The branch of \<^verbatim>\<open>handleClaimedAssignment\<close> for an assignment that is acknowledged but not confirmed.\<close>

definition confirmAssignment ::
  "'s node_env \<Rightarrow> attempt_identity \<Rightarrow> journal_record \<Rightarrow> assignment_payload \<Rightarrow> 's node_state
     \<Rightarrow> (go_error option \<times> 's node_state) option" where
  "confirmAssignment ne localIdentity record payload nd =
     (case ackAssignmentWithRetry ne (jr_Identity record) 0 nd of
        None \<Rightarrow> None
      | Some (Inl e, nd1) \<Rightarrow>
          (if leaseLost e
           then (case nodeCall ne (\<lambda>io. sto_AdvanceAssignment (nodeStore ne) io (messageID_of record) AssignmentStateRevoked) nd1 of
                   (r, nd2) \<Rightarrow> Some (Some e, nd2))
           else Some (Some e, nd1))
      | Some (Inr confirmed, nd1) \<Rightarrow>
          (case confirmed of
             None \<Rightarrow> Some (Some (WrapError ErrRuntimeProtocolMismatch ''assignment confirmation''), nd1)
           | Some c \<Rightarrow>
               if ac_AttemptIdentity c \<noteq> sdkAttemptIdentity (jr_Identity record)
                  \<or> \<not> ac_LeaseExpiresAt c > ne_now ne (wk_turn (nd_worker nd1))
               then Some (Some (WrapError ErrRuntimeProtocolMismatch ''assignment confirmation''), nd1)
               else case nodeCall ne (\<lambda>io. sto_AdvanceAssignment (nodeStore ne) io
                                          (ai_AssignmentMessageID localIdentity) AssignmentStateConfirmed) nd1 of
                      (Inl e, nd2) \<Rightarrow> Some (Some e, nd2)
                    | (Inr r, nd2) \<Rightarrow>
                        (case nodeReload ne (ai_AssignmentMessageID localIdentity)
                                (allowSpool (ai_AttemptID localIdentity) uploadAll nd2) of
                           (record1, nd3) \<Rightarrow> Some (startConfirmedAttempt ne record1 payload (ac_LeaseExpiresAt c) nd3))))"

text \<open>The branch for an offer that is replayed after the handler was started.\<close>

definition reconfirmAssignment ::
  "'s node_env \<Rightarrow> attempt_identity \<Rightarrow> journal_record \<Rightarrow> 's node_state \<Rightarrow> (go_error option \<times> 's node_state) option" where
  "reconfirmAssignment ne localIdentity record nd =
     (case ackAssignmentWithRetry ne (jr_Identity record) 0 nd of
        None \<Rightarrow> None
      | Some (Inl e, nd1) \<Rightarrow> Some (Some e, nd1)
      | Some (Inr confirmed, nd1) \<Rightarrow>
          (case confirmed of
             None \<Rightarrow> Some (Some (WrapError ErrRuntimeProtocolMismatch ''duplicate assignment confirmation''), nd1)
           | Some c \<Rightarrow>
               if ac_AttemptIdentity c \<noteq> sdkAttemptIdentity (jr_Identity record)
               then Some (Some (WrapError ErrRuntimeProtocolMismatch ''duplicate assignment confirmation''), nd1)
               else let nd2 = allowSpool (ai_AttemptID localIdentity) uploadAll nd1 in
                 Some (None, if activeAttempt (ai_AttemptID localIdentity) nd2
                             then setLeaseExpiry (ai_AttemptID localIdentity) (ac_LeaseExpiresAt c) nd2 else nd2)))"

text \<open>From the durable payload on, for the state the journal has.\<close>

definition proceedAssignment ::
  "'s node_env \<Rightarrow> attempt_identity \<Rightarrow> journal_record \<Rightarrow> assignment_payload \<Rightarrow> 's node_state
     \<Rightarrow> (go_error option \<times> 's node_state) option" where
  "proceedAssignment ne localIdentity record payload nd =
     (case (if jr_State record = AssignmentStateReceived
            then (case nodeCall ne (\<lambda>io. sto_AdvanceAssignment (nodeStore ne) io
                                       (ai_AssignmentMessageID localIdentity) AssignmentStateACKSent) nd of
                    (Inl e, nd1) \<Rightarrow> (Inl e, nd1)
                  | (Inr r, nd1) \<Rightarrow>
                      (case nodeReload ne (ai_AssignmentMessageID localIdentity) nd1 of
                         (record1, nd2) \<Rightarrow> (Inr record1, nd2)))
            else (Inr record, nd)) of
        (Inl e, nd1) \<Rightarrow> Some (Some e, nd1)
      | (Inr record1, nd1) \<Rightarrow>
          if jr_State record1 = AssignmentStateACKSent then confirmAssignment ne localIdentity record1 payload nd1
          else if jr_State record1 = AssignmentStateConfirmed
          then Some (startConfirmedAttempt ne record1 payload 0 (allowSpool (ai_AttemptID localIdentity) uploadAll nd1))
          else if jr_State record1 = AssignmentStateStarted \<or> jr_State record1 = AssignmentStateFinished
          then reconfirmAssignment ne localIdentity record1 nd1
          else Some (None, nd1))"

definition newJournal :: "'s node_env \<Rightarrow> attempt_identity \<Rightarrow> bytes \<Rightarrow> string \<Rightarrow> journal_record" where
  "newJournal ne identity input envelope =
     (je_Record zeroEntry)\<lparr>jr_Identity := identity, jr_InputDigest := hexEncode (ne_sha256 ne input),
        jr_SignedContextDigest := hexEncode (ne_sha256 ne envelope)\<rparr>"

definition assignedPayload :: "attempt_identity \<Rightarrow> run_assigned \<Rightarrow> bytes \<Rightarrow> bytes \<Rightarrow> assignment_payload" where
  "assignedPayload identity assigned input metadata =
     \<lparr>pl_Version = 0, pl_Identity = identity, pl_Input = input, pl_Metadata = metadata,
      pl_NodeEnvelope = ra_NodeEnvelope assigned, pl_AgentInvocationToken = ra_AgentInvocationToken assigned,
      pl_OfferExpiresAt = ra_OfferExpiresAt assigned, pl_AttemptDeadlineAt = ra_AttemptDeadlineAt assigned,
      pl_RunDeadlineAt = ra_RunDeadlineAt assigned, pl_CreatedAt = 0\<rparr>"

definition handleClaimedAssignment ::
  "'s node_env \<Rightarrow> run_assigned \<Rightarrow> 's node_state \<Rightarrow> (go_error option \<times> 's node_state) option" where
  "handleClaimedAssignment ne assigned nd =
     (case nodeRead ne (localAttemptIdentity ne (ra_AttemptIdentity assigned)) nd of
        (Inl e, nd1) \<Rightarrow> Some (Some e, nd1)
      | (Inr localIdentity, nd1) \<Rightarrow>
      case (ra_Input assigned, ra_Metadata assigned) of
        (None, _) \<Rightarrow> Some (Some (TextError ''assignment input is not JSON encodable''), nd1)
      | (Some input, None) \<Rightarrow> Some (Some (TextError ''assignment metadata is not JSON encodable''), nd1)
      | (Some input, Some metadata) \<Rightarrow>
      (case nodeCall ne (\<lambda>io. sto_CreateAssignment (nodeStore ne) io
                            (newJournal ne localIdentity input (ra_NodeEnvelope assigned))) nd1 of
         (Some e, nd2) \<Rightarrow> Some (Some e, nd2)
       | (None, nd2) \<Rightarrow>
       (case nodeRead ne (sto_Assignment (nodeStore ne) (ai_AssignmentMessageID localIdentity)) nd2 of
          (Inl e, nd3) \<Rightarrow> Some (Some e, nd3)
        | (Inr record, nd3) \<Rightarrow>
          (case assignmentAdmitted (ai_AttemptID localIdentity) nd3 of
             (admitted, draining) \<Rightarrow>
               if jr_State record = AssignmentStateReceived \<and> (draining \<or> \<not> admitted)
               then rejectAssignment ne record nd3
               else let payload = assignedPayload localIdentity assigned input metadata in
                 (case nodeCall ne (\<lambda>io. sto_StoreAssignmentPayload (nodeStore ne) io payload) nd3 of
                    (Some e, nd4) \<Rightarrow> Some (Some e, nd4)
                  | (None, nd4) \<Rightarrow> proceedAssignment ne localIdentity record payload nd4)))))"

definition handleClaim ::
  "'s node_env \<Rightarrow> run_assigned \<Rightarrow> 's node_state \<Rightarrow> (go_error option \<times> 's node_state) option" where
  "handleClaim ne assigned nd =
     (let attemptID = sa_AttemptID (ra_AttemptIdentity assigned) in
      case handleClaimedAssignment ne assigned (beginAssignment ne attemptID nd) of
        None \<Rightarrow> None
      | Some (r, nd1) \<Rightarrow> Some (r, endAssignment attemptID nd1))"

section \<open>Resumption\<close>

text \<open>The resume request: one entry for every assignment, in the order of attempt IDs.\<close>

fun resumeAttempts ::
  "'s node_env \<Rightarrow> journal_record list \<Rightarrow> 's node_state \<Rightarrow> (go_error + resume_attempt list) \<times> 's node_state" where
  "resumeAttempts ne [] nd = (Inr [], nd)"
| "resumeAttempts ne (record # rest) nd =
     (case nodeRead ne (sto_PendingEvents (nodeStore ne) (attemptID_of record)) nd of
        (Inl e, nd1) \<Rightarrow> (Inl e, nd1)
      | (Inr pending, nd1) \<Rightarrow>
      (case nodeRead ne (sto_PendingResult (nodeStore ne) (attemptID_of record)) nd1 of
         (result, nd2) \<Rightarrow>
           let item = \<lparr>rt_AttemptIdentity = sdkAttemptIdentity (jr_Identity record),
                 rt_LastAckedClientEventSeq = jr_AckedClientEventSeq record,
                 rt_PendingClientEventRanges = eventRanges pending,
                 rt_PendingResultID = (case result of Inl e \<Rightarrow> [] | Inr r \<Rightarrow> rs_ResultID r),
                 rt_FinalClientEventSeq = (case result of Inl e \<Rightarrow> None | Inr r \<Rightarrow> Some (rs_FinalClientEventSeq r))\<rparr>
           in case (case result of Inl e \<Rightarrow> if errorIs e ErrSpoolRecordNotFound then None else Some e | Inr r \<Rightarrow> None) of
                Some e \<Rightarrow> (Inl e, nd2)
              | None \<Rightarrow>
                  (case resumeAttempts ne rest nd2 of
                     (Inl e, nd3) \<Rightarrow> (Inl e, nd3)
                   | (Inr items, nd3) \<Rightarrow> (Inr (item # items), nd3))))"

partial_function (option) resumeLoop ::
  "'s node_env \<Rightarrow> resume_request \<Rightarrow> nat \<Rightarrow> 's node_state
     \<Rightarrow> ((go_error + resume_accepted list option) \<times> 's node_state) option" where
  "resumeLoop ne request attempt nd =
     (let nd1 = control (ControlResume request) nd in
      case ne_resume ne (nd_controls nd) request of
        Inr response \<Rightarrow> Some (Inr response, nd1)
      | Inl e \<Rightarrow>
          if runtimeErrorIsPermanent e then Some (Inl (scrubRuntimeError e), nd1)
          else case ne_waitRetry ne (nd_controls nd1) attempt of
                 Some ctxErr \<Rightarrow> Some (Inl ctxErr, nd1)
               | None \<Rightarrow> resumeLoop ne request (attempt + 1) nd1)"

definition stopActiveAttemptForResume :: "'s node_env \<Rightarrow> string \<Rightarrow> 's node_state \<Rightarrow> go_error option \<times> 's node_state" where
  "stopActiveAttemptForResume ne attemptID nd =
     (if \<not> activeAttempt attemptID nd then (None, nd)
      else case ne_attemptDone ne attemptID of
             Some e \<Rightarrow> (Some e, nd)
           | None \<Rightarrow> (None, retireActiveAttempt attemptID nd))"

definition renewLease :: "string \<Rightarrow> time option \<Rightarrow> 's node_state \<Rightarrow> 's node_state" where
  "renewLease attemptID leaseExpiresAt nd =
     (case leaseExpiresAt of
        Some t \<Rightarrow> if activeAttempt attemptID nd then setLeaseExpiry attemptID t nd else nd
      | None \<Rightarrow> nd)"

text \<open>The case \<^verbatim>\<open>RuntimeResumeContinue\<close> of one decision.\<close>

definition resumeContinue ::
  "'s node_env \<Rightarrow> bool \<Rightarrow> journal_record \<Rightarrow> resume_accepted \<Rightarrow> 's node_state \<Rightarrow> go_error option \<times> 's node_state" where
  "resumeContinue ne reconnect record decision nd =
     (if reconnect \<and> jr_State record = AssignmentStateStarted then
        (if \<not> activeAttempt (attemptID_of record) nd
         then (Some (TextError ''unsafe reconnect refused: started Attempt has no live handler''), nd)
         else (None, renewLease (attemptID_of record) (rd_LeaseExpiresAt decision)
                       (allowSpool (attemptID_of record) uploadAll nd)))
      else if reconnect \<and> jr_State record = AssignmentStateFinished then
        (None, renewLease (attemptID_of record) (rd_LeaseExpiresAt decision)
                 (allowSpool (attemptID_of record) uploadAll nd))
      else if jr_State record = AssignmentStateStarted \<or> jr_State record = AssignmentStateFinished
      then (Some (TextError ''unsafe resume refused: a previous process had already started this Attempt''), nd)
      else
        case (if jr_State record = AssignmentStateACKSent
              then (case nodeCall ne (\<lambda>io. sto_AdvanceAssignment (nodeStore ne) io (messageID_of record)
                                         AssignmentStateConfirmed) nd of
                      (Inl e, nd1) \<Rightarrow> (Inl e, nd1)
                    | (Inr r, nd1) \<Rightarrow>
                        (case nodeReload ne (messageID_of record) nd1 of (record1, nd2) \<Rightarrow> (Inr record1, nd2)))
              else (Inr record, nd)) of
          (Inl e, nd1) \<Rightarrow> (Some e, nd1)
        | (Inr record1, nd1) \<Rightarrow>
            if jr_State record1 \<noteq> AssignmentStateConfirmed then (Some ErrAssignmentTransition, nd1)
            else case nodeRead ne (sto_AssignmentPayload (nodeStore ne) (attemptID_of record1)) nd1 of
                   (Inl e, nd2) \<Rightarrow> (Some (TextError ''confirmed assignment payload is unavailable''), nd2)
                 | (Inr payload, nd2) \<Rightarrow>
                     startConfirmedAttempt ne record1 payload
                       (case rd_LeaseExpiresAt decision of Some t \<Rightarrow> t | None \<Rightarrow> 0)
                       (allowSpool (attemptID_of record1) uploadAll nd2))"

definition nodeRetire ::
  "'s node_env \<Rightarrow> journal_record \<Rightarrow> bool \<Rightarrow> 's node_state \<Rightarrow> go_error option \<times> 's node_state" where
  "nodeRetire ne record revoke nd =
     (case retireTerminalAttempt (ne_worker ne) record revoke (nd_worker nd) of (r, w) \<Rightarrow> (r, nd\<lparr>nd_worker := w\<rparr>))"

definition resumeDecision ::
  "'s node_env \<Rightarrow> bool \<Rightarrow> journal_record \<Rightarrow> resume_accepted \<Rightarrow> 's node_state \<Rightarrow> go_error option \<times> 's node_state" where
  "resumeDecision ne reconnect record decision nd =
     (if rd_AttemptIdentity decision \<noteq> sdkAttemptIdentity (jr_Identity record)
      then (Some (WrapError ErrRuntimeProtocolMismatch ''resume response identity''), nd)
      else case rd_Decision decision of
        ResumeContinue \<Rightarrow> resumeContinue ne reconnect record decision nd
      | ResumeUploadSpool \<Rightarrow>
          (case (if reconnect then stopActiveAttemptForResume ne (attemptID_of record) nd else (None, nd)) of
             (Some e, nd1) \<Rightarrow> (Some e, nd1)
           | (None, nd1) \<Rightarrow>
               (None, allowSpool (attemptID_of record)
                        \<lparr>sp_events = ActionUploadEvents \<in> set (rd_AllowedActions decision),
                         sp_result = ActionUploadResult \<in> set (rd_AllowedActions decision)\<rparr> nd1))
      | ResumeOther d \<Rightarrow> (None, nd)
      | _ \<Rightarrow>
          (case (if reconnect then stopActiveAttemptForResume ne (attemptID_of record) nd else (None, nd)) of
             (Some e, nd1) \<Rightarrow> (Some e, nd1)
           | (None, nd1) \<Rightarrow> nodeRetire ne record (rd_Decision decision = ResumeRevoked) nd1))"

fun resumeDecisions ::
  "'s node_env \<Rightarrow> bool \<Rightarrow> (journal_record \<times> resume_accepted) list \<Rightarrow> 's node_state \<Rightarrow> go_error option \<times> 's node_state" where
  "resumeDecisions ne reconnect [] nd = (None, nd)"
| "resumeDecisions ne reconnect ((record, decision) # rest) nd =
     (case resumeDecision ne reconnect record decision nd of
        (Some e, nd1) \<Rightarrow> (Some e, nd1)
      | (None, nd1) \<Rightarrow> resumeDecisions ne reconnect rest nd1)"

definition resumeDurableState ::
  "'s node_env \<Rightarrow> bool \<Rightarrow> 's node_state \<Rightarrow> (go_error option \<times> 's node_state) option" where
  "resumeDurableState ne reconnect nd =
     (case nodeRead ne (sto_Assignments (nodeStore ne)) nd of
        (Inl e, nd1) \<Rightarrow> Some (Some e, nd1)
      | (Inr records, nd1) \<Rightarrow>
      if records = [] then Some (None, nd1)
      else let ordered = sort_key attemptID_of records in
      (case nodeRead ne (sto_Identity (nodeStore ne)) nd1 of
         (identity, nd2) \<Rightarrow>
      (case resumeAttempts ne ordered nd2 of
         (Inl e, nd3) \<Rightarrow> Some (Some e, nd3)
       | (Inr attempts, nd3) \<Rightarrow>
      (case resumeLoop ne \<lparr>rq_NodeID = ne_NodeID ne, rq_AgentID = ne_AgentID ne, rq_WorkerID = ri_WorkerID identity,
                rq_RuntimeSessionID = ri_RuntimeSessionID identity, rq_Attempts = attempts\<rparr> 0 nd3 of
         None \<Rightarrow> None
       | Some (Inl e, nd4) \<Rightarrow> Some (Some e, nd4)
       | Some (Inr response, nd4) \<Rightarrow>
           (case response of
              None \<Rightarrow> Some (Some (WrapError ErrRuntimeProtocolMismatch ''resume response count''), nd4)
            | Some decisions \<Rightarrow>
                if length decisions \<noteq> length ordered
                then Some (Some (WrapError ErrRuntimeProtocolMismatch ''resume response count''), nd4)
                else Some (resumeDecisions ne reconnect (zip ordered decisions) nd4))))))"

section \<open>Runs of the worker\<close>

text \<open>
  What the worker does over time: it handles claims, resumes, flushes the spool, drops
  attempts from the active ones (cancellation, revocation) and is told to drain or stop.
\<close>

inductive node_reach :: "'s node_env \<Rightarrow> 's node_state \<Rightarrow> 's node_state \<Rightarrow> bool" for ne where
  start: "node_reach ne nd nd"
| claim: "node_reach ne nd v \<Longrightarrow> handleClaim ne assigned v = Some (r, u) \<Longrightarrow> node_reach ne nd u"
| resume: "node_reach ne nd v \<Longrightarrow> resumeDurableState ne reconnect v = Some (r, u) \<Longrightarrow> node_reach ne nd u"
| flush: "node_reach ne nd v \<Longrightarrow> flushDurableSpool (ne_worker ne) (nd_worker v) = (r, w) \<Longrightarrow>
    node_reach ne nd (v\<lparr>nd_worker := w\<rparr>)"
| retire: "node_reach ne nd v \<Longrightarrow> node_reach ne nd (retireActiveAttempt a v)"
| drain: "node_reach ne nd v \<Longrightarrow> node_reach ne nd (setDraining b v)"
| stop: "node_reach ne nd v \<Longrightarrow> node_reach ne nd (setStopping v)"

end
