(* ===== verification/Worker_Ranges.thy ===== *)
theory Worker_Ranges
  imports Worker_Assignment
begin

text \<open>
  The ranges of pending events that a resume announces (\<^verbatim>\<open>eventRanges\<close>, runtime_worker_session.go)
  and the events the store returns for ranges (\<^verbatim>\<open>EventsInRanges\<close>, runtime_store_spool.go) are
  inverse to each other.
\<close>

fun rangeSeqs :: "event_range list \<Rightarrow> int list" where
  "rangeSeqs [] = []"
| "rangeSeqs ((a, b) # rs) = [a .. b] @ rangeSeqs rs"

text \<open>Ranges in ascending order that neither overlap nor touch, above a lower bound.\<close>

fun rangesFrom :: "int \<Rightarrow> event_range list \<Rightarrow> bool" where
  "rangesFrom lo [] = True"
| "rangesFrom lo ((a, b) # rs) = (lo < a \<and> a \<le> b \<and> rangesFrom (b + 1) rs)"

lemma upto_snoc_seqs: "a \<le> b + 1 \<Longrightarrow> [a .. b] @ (b + 1) # xs = [a .. b + 1] @ xs"
  using upto_rec2 [of a "b + 1"] by simp

lemma eventRangesLoop_spec:
  assumes "a \<le> b" and "1 \<le> b" and "sorted_wrt (<) (b # map ev_ClientEventSeq es)"
    and "\<forall>e \<in> set es. ev_ClientEventSeq e \<le> maxInt64" and "lo < a" and "b \<le> maxInt64"
  shows "rangeSeqs (eventRangesLoop a b es) = [a .. b] @ map ev_ClientEventSeq es
    \<and> rangesFrom lo (eventRangesLoop a b es)"
  using assms
proof (induction es arbitrary: a b lo)
  case (Cons e es)
  let ?q = "ev_ClientEventSeq e"
  have q: "b < ?q" "?q \<le> maxInt64" using Cons.prems by auto
  have succ: "add64 b 1 = b + 1" by (rule add64_succ) (use Cons.prems q in auto)
  show ?case
  proof (cases "?q = b + 1")
    case True
    with Cons.IH [of a "?q" lo] Cons.prems q succ show ?thesis
      using upto_snoc_seqs [of a b] by simp
  next
    case False
    with Cons.IH [of "?q" "?q" "b + 1"] Cons.prems q succ show ?thesis by simp
  qed
qed simp

lemma eventRanges_spec:
  assumes "sorted_wrt (<) (map ev_ClientEventSeq es)"
    and "\<forall>e \<in> set es. 1 \<le> ev_ClientEventSeq e \<and> ev_ClientEventSeq e \<le> maxInt64"
  shows "rangeSeqs (eventRanges es) = map ev_ClientEventSeq es \<and> rangesFrom 0 (eventRanges es)"
proof (cases es)
  case (Cons e rest)
  let ?q = "ev_ClientEventSeq e"
  have "rangeSeqs (eventRangesLoop ?q ?q rest) = [?q .. ?q] @ map ev_ClientEventSeq rest
    \<and> rangesFrom 0 (eventRangesLoop ?q ?q rest)"
    by (rule eventRangesLoop_spec) (use assms Cons in auto)
  then show ?thesis using Cons by simp
qed simp

lemma eventsOfSequences_append:
  "eventsOfSequences a s (xs @ ys) =
     (case eventsOfSequences a s xs of
        Inl e \<Rightarrow> Inl e
      | Inr rs \<Rightarrow> (case eventsOfSequences a s ys of Inl e \<Rightarrow> Inl e | Inr rs' \<Rightarrow> Inr (rs @ rs')))"
  by (induction xs) (auto split: option.split sum.split)

lemma eventsInRanges_sequences:
  assumes "rangesFrom previous ranges" and "0 \<le> previous" and "\<forall>q \<in> set (rangeSeqs ranges). q \<le> lastSeq" and "lastSeq < maxInt64"
  shows "eventsInRangesLoop a lastSeq previous s ranges = eventsOfSequences a s (rangeSeqs ranges)"
  using assms
proof (induction ranges arbitrary: previous rule: rangeSeqs.induct)
  case (2 x y rs)
  have rest: "rangesFrom y rs" using "2.prems"(1) by (cases rs) auto
  have "y \<in> set (rangeSeqs ((x, y) # rs))" using "2.prems"(1) by simp
  with "2.prems"(3) have le: "y \<le> lastSeq" by blast
  have y: "\<not> lastSeq < y" "y \<noteq> maxInt64" "\<not> x < 1" "\<not> y < x" "\<not> x \<le> previous" "0 \<le> y"
    using "2.prems"(1,2,4) le by auto
  have "eventsInRangesLoop a lastSeq y s rs = eventsOfSequences a s (rangeSeqs rs)"
    by (rule "2.IH" [OF rest y(6)]) (use "2.prems" in auto)
  then show ?case by (simp add: y eventsOfSequences_append split: sum.split)
qed simp

lemma eventsOfSequences_events:
  assumes "index_inv s" and "\<forall>e \<in> set es. map_of (st_events s) (ev_ClientEventID e) = Some e \<and> eventAttempt e = a"
  shows "eventsOfSequences a s (map ev_ClientEventSeq es) = Inr es"
  using assms(2)
proof (induction es)
  case (Cons e es)
  then have e: "map_of (st_events s) (ev_ClientEventID e) = Some e" "eventAttempt e = a" by simp_all
  from index_inv_event(3) [OF assms(1) e(1)] e Cons show ?case by (simp add: eventOf_def)
qed simp

lemma pending_events_indexed:
  assumes inv: "store_inv s" and "PendingEvents a s = Inr es" and "e \<in> set es"
  shows "map_of (st_events s) (ev_ClientEventID e) = Some e \<and> eventAttempt e = a"
proof -
  note parts = store_inv_parts [OF inv]
  from assms(2,3) parts(4) obtain q i where "(q, i) \<in> set (innerSeqs a s)" and e: "e = eventOf i s"
    by (auto simp: PendingEvents_def split: sum.splits)
  with index_inv_gomap(1) [OF parts(8)] have "map_of (innerSeqs a s) q = Some i" by (simp add: gomap_mem_iff)
  from index_inv_seq [OF parts(8) this] obtain r where r: "map_of (st_events s) i = Some r" "eventAttempt r = a" .
  with e index_inv_event(1) [OF parts(8) r(1)] show ?thesis by (simp add: eventOf_def)
qed

text \<open>
  C31. Round trip of the resume ranges: the ranges announced for the pending events of an
  attempt are ascending, non-empty, disjoint and not adjacent, they contain exactly the pending
  sequences, and asking the store for them gives back exactly the pending events.
\<close>

theorem resume_ranges_round_trip:
  assumes "live_store s" and "PendingEvents a s = Inr es"
    and "\<forall>rec. liveRecord a s = Some rec \<longrightarrow> jr_LastClientEventSeq rec < maxInt64"
  shows "rangesFrom 0 (eventRanges es) \<and> rangeSeqs (eventRanges es) = map ev_ClientEventSeq es
    \<and> EventsInRanges a (eventRanges es) s = Inr es"
proof -
  have inv: "store_inv s" by (rule live_inv(1) [OF assms(1)])
  note parts = store_inv_parts [OF inv]
  from pending_events_char [OF inv assms(2)] obtain rec where rec: "liveRecord a s = Some rec"
    and sorted: "sorted_wrt (<) (map ev_ClientEventSeq es)"
    and set: "set (map ev_ClientEventSeq es) = {1 .. jr_LastClientEventSeq rec} - ackedSet rec" by blast
  have last: "jr_LastClientEventSeq rec < maxInt64" using assms(3) rec by blast
  have bounds: "\<forall>e \<in> set es. 1 \<le> ev_ClientEventSeq e \<and> ev_ClientEventSeq e \<le> jr_LastClientEventSeq rec"
    using set by (auto simp: set_eq_iff)
  have spec: "rangeSeqs (eventRanges es) = map ev_ClientEventSeq es \<and> rangesFrom 0 (eventRanges es)"
    by (rule eventRanges_spec [OF sorted]) (use bounds last in force)
  from rec obtain e where e: "assignmentForAttemptLocked a s = Inr e" "je_Record e = rec"
    by (auto simp: liveRecord_iff assignmentForAttempt_iff)
  have "EventsInRanges a (eventRanges es) s = eventsOfSequences a s (rangeSeqs (eventRanges es))"
    using e parts(4) spec bounds last
      eventsInRanges_sequences [of 0 "eventRanges es" "jr_LastClientEventSeq rec" a s]
    by (simp add: EventsInRanges_def)
  also have "\<dots> = Inr es"
    using eventsOfSequences_events [OF parts(8)] pending_events_indexed [OF inv assms(2)] spec by simp
  finally show ?thesis using spec by blast
qed

theorem resume_ranges_round_trip_witness:
  "\<exists>es. PendingEvents ''attempt'' appended_store = Inr es \<and> EventsInRanges ''attempt'' (eventRanges es) appended_store = Inr es
     \<and> rangeSeqs (eventRanges es) = [1]"
proof -
  obtain rec where rec: "liveRecord ''attempt'' appended_store = Some rec" "jr_LastClientEventSeq rec = 1"
    "ackedSet rec = {}" by (rule appended_record)
  from rec(1) obtain e where "assignmentForAttemptLocked ''attempt'' appended_store = Inr e"
    by (auto simp: liveRecord_iff assignmentForAttempt_iff)
  then obtain es where es: "PendingEvents ''attempt'' appended_store = Inr es"
    using store_inv_parts(4) [OF appended_inv] by (simp add: PendingEvents_def)
  have "\<forall>rec. liveRecord ''attempt'' appended_store = Some rec \<longrightarrow> jr_LastClientEventSeq rec < maxInt64"
    using rec by (simp add: maxInt64_def)
  note rt = resume_ranges_round_trip [OF appended_live es this]
  from pending_events_char [OF appended_inv es] rec have
    "sorted_wrt (<) (map ev_ClientEventSeq es)" "set (map ev_ClientEventSeq es) = set [1]" by auto
  then have "map ev_ClientEventSeq es = [1]" by (intro strict_sorted_equal) simp_all
  with rt es show ?thesis by auto
qed

end
