(* ===== verification/Worker_Start.thy ===== *)
theory Worker_Start
  imports Worker_Ranges
begin

text \<open>
  The handler of an attempt is launched at most once. What the worker needs for that of the
  store is a locale that extends the contract of Worker_Contract; the file store satisfies it.
\<close>

section \<open>The contract and its client\<close>

locale runtime_store_start = runtime_store_contract api good reach unacked
  for api :: "'s runtime_store" and good :: "'s \<Rightarrow> bool" and reach :: "'s \<Rightarrow> 's \<Rightarrow> bool"
    and unacked :: "string \<Rightarrow> 's \<Rightarrow> int set" +
  fixes crossed :: "string \<Rightarrow> 's \<Rightarrow> bool"  \<comment> \<open>the attempt is past the states before its start\<close>
  assumes create_reach: "env_ok io \<Longrightarrow> reach s (snd (sto_CreateAssignment api io rec s))"
    and payload_reach: "env_ok io \<Longrightarrow> reach s (snd (sto_StoreAssignmentPayload api io p s))"
    and crossed_mono: "good s \<Longrightarrow> reach s t \<Longrightarrow> crossed a s \<Longrightarrow> crossed a t"
    and read_fresh: "good s \<Longrightarrow> sto_Assignment api m s = Inr old \<Longrightarrow>
      jr_State old = AssignmentStateConfirmed \<Longrightarrow> \<not> crossed (attemptID_of old) s"
    and list_read: "good s \<Longrightarrow> sto_Assignments api s = Inr recs \<Longrightarrow>
      distinct (map attemptID_of recs) \<and> (\<forall>rec \<in> set recs. sto_Assignment api (messageID_of rec) s = Inr rec)"
    and start_crosses: "good s \<Longrightarrow> reach s t \<Longrightarrow> env_ok io \<Longrightarrow> sto_Assignment api m s = Inr old \<Longrightarrow>
      sto_AdvanceAssignment api io m AssignmentStateStarted t = (Inr new, u) \<Longrightarrow> crossed (attemptID_of old) u"
begin

abbreviation storeOf :: "'s node_state \<Rightarrow> 's" where
  "storeOf nd \<equiv> wk_store (nd_worker nd)"

abbreviation launched :: "'s node_state \<Rightarrow> string set" where
  "launched nd \<equiv> ai_AttemptID ` set (nd_started nd)"

definition calm :: "'s node_env \<Rightarrow> bool" where
  "calm ne \<longleftrightarrow> (\<forall>a. quiet a (ne_worker ne))"

definition node_inv :: "'s node_state \<Rightarrow> bool" where
  "node_inv nd \<longleftrightarrow> good (storeOf nd) \<and> distinct (map ai_AttemptID (nd_started nd))
     \<and> (\<forall>a \<in> launched nd. crossed a (storeOf nd))"

text \<open>A step that launches only attempts of \<open>A\<close> and keeps the invariant.\<close>

definition steps :: "string set \<Rightarrow> 's node_state \<Rightarrow> 's node_state \<Rightarrow> bool" where
  "steps A nd nd' \<longleftrightarrow> node_inv nd' \<and> reach (storeOf nd) (storeOf nd') \<and> launched nd' \<subseteq> launched nd \<union> A"

lemma steps_inv: "steps A nd nd' \<Longrightarrow> node_inv nd'"
  by (simp add: steps_def)

lemma node_good: "node_inv nd \<Longrightarrow> good (storeOf nd)"
  by (simp add: node_inv_def)

lemma steps_trans: "steps A nd v \<Longrightarrow> steps B v u \<Longrightarrow> A \<union> B \<subseteq> C \<Longrightarrow> steps C nd u"
  unfolding steps_def by (elim conjE) (intro conjI reach_trans [of "storeOf nd" "storeOf v" "storeOf u"]; blast)

lemma steps_weaken: "steps {} nd v \<Longrightarrow> steps A nd v"
  unfolding steps_def by blast

lemma steps_UNIV: "steps A nd v \<Longrightarrow> steps B v u \<Longrightarrow> steps UNIV nd u"
  by (rule steps_trans) simp_all

lemma steps_same:
  assumes "node_inv nd" and "reach (storeOf nd) (storeOf nd')" and "nd_started nd' = nd_started nd"
  shows "steps {} nd nd'"
  using assms reach_good crossed_mono by (auto simp: steps_def node_inv_def)

lemma steps_refl: "node_inv nd \<Longrightarrow> steps {} nd nd"
  by (rule steps_same) (auto simp: reach_refl)

lemma steps_frame:
  "node_inv nd \<Longrightarrow> storeOf nd' = storeOf nd \<Longrightarrow> nd_started nd' = nd_started nd \<Longrightarrow> steps {} nd nd'"
  by (rule steps_same) (simp_all add: reach_refl)

lemma nodeRead_steps:
  assumes "calm ne" and "node_inv nd" and "nodeRead ne f nd = (r, nd')"
  shows "steps {} nd nd'" and "r = f (storeOf nd')" and "nd_started nd' = nd_started nd"
proof -
  have q: "quiet [] (ne_worker ne)" using assms(1) by (simp add: calm_def)
  obtain w where w: "storeRead (ne_worker ne) f (nd_worker nd) = (r, w)" "nd' = nd\<lparr>nd_worker := w\<rparr>"
    using assms(3) by (auto simp: nodeRead_def split: prod.splits)
  note s = storeRead_settles [OF q node_good [OF assms(2)] w(1)]
  show "steps {} nd nd'" by (rule steps_same [OF assms(2)]) (use s w(2) in \<open>simp_all add: settles_def\<close>)
  show "r = f (storeOf nd')" "nd_started nd' = nd_started nd" using s(2) w(2) by simp_all
qed

lemma nodeCall_parts:
  assumes "calm ne" and "node_inv nd" and "nodeCall ne f nd = (r, nd')"
  obtains io s where "env_ok io" "good s" "reach (storeOf nd) s" "f io s = (r, storeOf nd')" "nd_started nd' = nd_started nd"
proof -
  let ?w = "nd_worker nd" let ?s = "we_others (ne_worker ne) (wk_turn ?w) (wk_store ?w)"
  have q: "quiet [] (ne_worker ne)" using assms(1) by (simp add: calm_def)
  have r: "reach (storeOf nd) ?s" using q node_good [OF assms(2)] by (simp add: quiet_def)
  show thesis
  proof (rule that [of "we_io (ne_worker ne) (wk_turn ?w)" ?s])
    show "env_ok (we_io (ne_worker ne) (wk_turn ?w))" using q by (simp add: quiet_def)
    show "good ?s" by (rule reach_good [OF node_good [OF assms(2)] r])
    show "reach (storeOf nd) ?s" by (rule r)
    show "f (we_io (ne_worker ne) (wk_turn ?w)) ?s = (r, storeOf nd')" and "nd_started nd' = nd_started nd"
      using assms(3) by (auto simp: nodeCall_def storeCall_def takeTurn_def Let_def split: prod.splits)
  qed
qed

lemma nodeCall_steps:
  assumes "calm ne" and "node_inv nd" and "nodeCall ne f nd = (r, nd')"
    and "\<And>io s. env_ok io \<Longrightarrow> good s \<Longrightarrow> reach s (snd (f io s))"
  shows "steps {} nd nd'"
proof -
  obtain io s where p: "env_ok io" "good s" "reach (storeOf nd) s" "f io s = (r, storeOf nd')"
    "nd_started nd' = nd_started nd" by (rule nodeCall_parts [OF assms(1-3)])
  have "reach s (storeOf nd')" using assms(4) [OF p(1,2)] p(4) by simp
  then show ?thesis using reach_trans [OF p(3)] by (intro steps_same [OF assms(2)]) (simp_all add: p(5))
qed

lemma calm_api: "calm ne \<Longrightarrow> nodeStore ne = api"
  by (simp add: calm_def quiet_def)

lemma advance_steps:
  assumes "calm ne" and "node_inv nd"
    and "nodeCall ne (\<lambda>io. sto_AdvanceAssignment (nodeStore ne) io m st) nd = (r, nd')"
  shows "steps {} nd nd'"
  by (rule nodeCall_steps [OF assms]) (simp add: calm_api [OF assms(1)] advance_reach)

lemma nodeReload_steps:
  assumes "calm ne" and "node_inv nd" and "nodeReload ne m nd = (rec, nd')"
  shows "steps {} nd nd'" and "rec = je_Record zeroEntry \<or> sto_Assignment api m (storeOf nd') = Inr rec"
proof -
  have q: "quiet [] (ne_worker ne)" using assms(1) by (simp add: calm_def)
  obtain w where w: "reloadAssignment (ne_worker ne) m (nd_worker nd) = (rec, w)" "nd' = nd\<lparr>nd_worker := w\<rparr>"
    using assms(3) by (auto simp: nodeReload_def split: prod.splits)
  note s = reloadAssignment_reach [OF q node_good [OF assms(2)] w(1)]
  show "steps {} nd nd'" by (rule steps_same [OF assms(2)]) (use s w(2) in \<open>simp_all add: settles_def\<close>)
  show "rec = je_Record zeroEntry \<or> sto_Assignment api m (storeOf nd') = Inr rec" using s(2) w(2) by simp
qed

text \<open>The record was read from the store in a state from which the worker has launched nothing of this attempt.\<close>

definition known :: "journal_record \<Rightarrow> 's node_state \<Rightarrow> bool" where
  "known rec nd \<longleftrightarrow> attemptID_of rec \<notin> launched nd
     \<and> (\<exists>s. good s \<and> reach s (storeOf nd) \<and> sto_Assignment api (messageID_of rec) s = Inr rec)"

lemma known_read:
  assumes inv: "node_inv nd" and r: "sto_Assignment api m (storeOf nd) = Inr rec"
    and st: "jr_State rec = AssignmentStateConfirmed"
  shows "known rec nd"
proof -
  have "messageID_of rec = m" using assignment_identity [OF node_good [OF inv] reach_refl r r] by blast
  moreover have "attemptID_of rec \<notin> launched nd"
    using read_fresh [OF node_good [OF inv] r st] inv by (auto simp: node_inv_def)
  ultimately show ?thesis using r node_good [OF inv] reach_refl by (auto simp: known_def)
qed

lemma known_later:
  assumes "known rec nd" and "reach (storeOf nd) (storeOf nd')" and "attemptID_of rec \<notin> launched nd'"
  shows "known rec nd'"
  using assms reach_trans unfolding known_def by blast

lemma known_steps: "known rec nd \<Longrightarrow> steps {} nd nd' \<Longrightarrow> known rec nd'"
  by (rule known_later) (auto simp: steps_def known_def)

lemma start_steps:
  assumes c: "calm ne" and inv: "node_inv nd" and k: "jr_State rec = AssignmentStateConfirmed \<Longrightarrow> known rec nd"
    and f: "startConfirmedAttempt ne rec payload lease nd = (r, nd')"
  shows "steps {attemptID_of rec} nd nd'"
proof (cases "jr_State rec = AssignmentStateConfirmed \<and> jr_Identity rec = pl_Identity payload
    \<and> \<not> nd_stopping nd \<and> \<not> activeAttempt (attemptID_of rec) nd")
  case False
  with f have "nd' = nd" by (auto simp: startConfirmedAttempt_def split: if_splits)
  with steps_weaken [OF steps_refl [OF inv]] show ?thesis by simp
next
  case True
  let ?a = "attemptID_of rec" let ?nd0 = "registerAttempt ?a lease nd"
  have s0: "steps {} nd ?nd0"
    by (rule steps_frame [OF inv]) (simp_all add: registerAttempt_def setLeaseExpiry_def)
  obtain x nd1 where p: "nodeCall ne (\<lambda>io. sto_AdvanceAssignment (nodeStore ne) io (messageID_of rec) AssignmentStateStarted) ?nd0 = (x, nd1)"
    by fastforce
  have s1: "steps {} nd nd1"
    using steps_trans [OF s0 advance_steps [OF c steps_inv [OF s0] p]] by blast
  have f': "(case x of Inl e \<Rightarrow> (Some e, retireActiveAttempt ?a nd1)
      | Inr r \<Rightarrow> (None, nd1\<lparr>nd_started := nd_started nd1 @ [jr_Identity rec]\<rparr>)) = (r, nd')"
    using f True unfolding startConfirmedAttempt_def p by (cases x) auto
  show ?thesis
  proof (cases x)
    case (Inl e)
    with f' have "nd' = retireActiveAttempt ?a nd1" by simp
    moreover have "steps {} nd1 (retireActiveAttempt ?a nd1)"
      by (rule steps_frame [OF steps_inv [OF s1]]) (simp_all add: retireActiveAttempt_def)
    ultimately show ?thesis using steps_trans [OF s1] by blast
  next
    case (Inr new)
    with f' have nd': "nd' = nd1\<lparr>nd_started := nd_started nd1 @ [jr_Identity rec]\<rparr>" by simp
    from k True obtain s where s: "good s" "reach s (storeOf nd)" "sto_Assignment api (messageID_of rec) s = Inr rec"
      and a: "?a \<notin> launched nd" by (auto simp: known_def)
    obtain io t where t: "env_ok io" "reach (storeOf ?nd0) t" "nd_started nd1 = nd_started ?nd0"
        "sto_AdvanceAssignment (nodeStore ne) io (messageID_of rec) AssignmentStateStarted t = (Inr new, storeOf nd1)"
      using nodeCall_parts [OF c steps_inv [OF s0] p] Inr by metis
    have "reach (storeOf nd) t" using s0 t(2) reach_trans by (auto simp: steps_def)
    then have rt: "reach s t" by (rule reach_trans [OF s(2)])
    have "crossed ?a (storeOf nd1)"
      by (rule start_crosses [OF s(1) rt t(1) s(3) t(4) [unfolded calm_api [OF c]]])
    moreover have "?a \<notin> launched nd1" using a t(3) by (simp add: registerAttempt_def setLeaseExpiry_def)
    ultimately show ?thesis
      using s1 nd' by (auto simp: steps_def node_inv_def)
  qed
qed

lemma ackAssignment_frame:
  assumes "ackAssignmentWithRetry ne identity n nd = Some (r, nd')"
  shows "nd_worker nd' = nd_worker nd \<and> nd_started nd' = nd_started nd"
  using ackAssignmentWithRetry.raw_induct
    [where P = "\<lambda>ne identity n nd y. nd_worker (snd y) = nd_worker nd \<and> nd_started (snd y) = nd_started nd", OF _ assms]
  by (fastforce simp: Let_def control_def split: sum.splits if_splits option.splits)

lemma resumeLoop_frame:
  assumes "resumeLoop ne request n nd = Some (r, nd')"
  shows "nd_worker nd' = nd_worker nd \<and> nd_started nd' = nd_started nd"
  using resumeLoop.raw_induct
    [where P = "\<lambda>ne request n nd y. nd_worker (snd y) = nd_worker nd \<and> nd_started (snd y) = nd_started nd", OF _ assms]
  by (fastforce simp: Let_def control_def split: sum.splits if_splits option.splits)

lemma control_frame: "node_inv nd \<Longrightarrow> steps {} nd (control c nd)"
  by (rule steps_frame) (simp_all add: control_def)

lemma delete_steps:
  assumes "calm ne" and "node_inv nd"
    and "nodeCall ne (\<lambda>io. sto_DeleteAssignment (nodeStore ne) io m) nd = (r, nd')"
  shows "steps {} nd nd'"
  by (rule nodeCall_steps [OF assms]) (simp add: calm_api [OF assms(1)] delete_reach)

lemma rejectLoop_steps:
  assumes c: "calm ne" and inv: "node_inv nd" and f: "rejectLoop ne m request n nd = Some y"
  shows "steps {} nd (snd y)"
proof -
  have "calm ne \<longrightarrow> node_inv nd \<longrightarrow> steps {} nd (snd y)"
  proof (rule rejectLoop.raw_induct [where P = "\<lambda>ne m request n nd y. calm ne \<longrightarrow> node_inv nd \<longrightarrow> steps {} nd (snd y)", OF _ f],
      intro impI)
    fix loop ne m request n and nd :: "'s node_state" and y
    assume IH: "\<And>ne m request n nd y. loop ne m request n nd = Some y \<Longrightarrow> calm ne \<longrightarrow> node_inv nd \<longrightarrow> steps {} nd (snd y)"
      and c: "calm ne" and inv: "node_inv nd"
      and b: "(let nd1 = control (ControlReject request) nd in
      case ne_reject ne (nd_controls nd) request of
        None \<Rightarrow>
          (case nodeCall ne (\<lambda>io. sto_AdvanceAssignment (nodeStore ne) io m AssignmentStateRejected) nd1 of
             (r, nd2) \<Rightarrow> Some (nodeCall ne (\<lambda>io. sto_DeleteAssignment (nodeStore ne) io m) nd2))
      | Some e \<Rightarrow>
          if runtimeErrorIsPermanent e \<or> leaseLost e then
            (case nodeCall ne (\<lambda>io. sto_AdvanceAssignment (nodeStore ne) io m AssignmentStateRevoked) nd1 of
               (r, nd2) \<Rightarrow> Some (Some e, nd2))
          else (case ne_waitRetry ne (nd_controls nd1) n of
                  Some ctxErr \<Rightarrow> Some (Some ctxErr, nd1)
                | None \<Rightarrow> loop ne m request (n + 1) nd1)) = Some y"
    let ?nd1 = "control (ControlReject request) nd"
    have s1: "steps {} nd ?nd1" by (rule control_frame [OF inv])
    note i1 = steps_inv [OF s1]
    obtain r2 nd2 where p2: "nodeCall ne (\<lambda>io. sto_AdvanceAssignment (nodeStore ne) io m AssignmentStateRejected) ?nd1 = (r2, nd2)" by fastforce
    obtain r3 nd3 where p3: "nodeCall ne (\<lambda>io. sto_AdvanceAssignment (nodeStore ne) io m AssignmentStateRevoked) ?nd1 = (r3, nd3)" by fastforce
    obtain r4 nd4 where p4: "nodeCall ne (\<lambda>io. sto_DeleteAssignment (nodeStore ne) io m) nd2 = (r4, nd4)" by fastforce
    have s2: "steps {} nd nd2" using steps_trans [OF s1 advance_steps [OF c i1 p2]] by simp
    have s3: "steps {} nd nd3" using steps_trans [OF s1 advance_steps [OF c i1 p3]] by simp
    have s4: "steps {} nd nd4" using steps_trans [OF s2 delete_steps [OF c steps_inv [OF s2] p4]] by simp
    have "snd y = ?nd1 \<or> snd y = nd3 \<or> snd y = nd4 \<or> loop ne m request (n + 1) ?nd1 = Some y"
      using b p2 p3 arg_cong [OF p4, of snd] by (auto simp: Let_def split: option.splits if_splits)
    then show "steps {} nd (snd y)"
      using s1 s3 s4 IH [of ne m request "n + 1" ?nd1 y] c i1 steps_trans [OF s1] by auto
  qed
  with c inv show ?thesis by blast
qed

lemma capacitySnapshot_steps:
  assumes "calm ne" and "node_inv nd" and "capacitySnapshot ne nd = (r, nd')"
  shows "steps {} nd nd'"
proof -
  obtain x nd1 where p: "nodeCall ne (\<lambda>io s. (sto_AcceptsNewRuns (nodeStore ne) io s, s)) nd = (x, nd1)" by fastforce
  have "steps {} nd nd1" by (rule nodeCall_steps [OF assms(1,2) p]) (simp add: reach_refl)
  then show ?thesis using assms(3) p by (simp add: capacitySnapshot_def Let_def)
qed

lemma rejectAssignment_steps:
  assumes c: "calm ne" and inv: "node_inv nd" and f: "rejectAssignment ne rec nd = Some (r, nd')"
  shows "steps {} nd nd'"
proof -
  obtain x nd1 where p1: "(if jr_State rec = AssignmentStateReceived
       then nodeCall ne (\<lambda>io. sto_AdvanceAssignment (nodeStore ne) io (messageID_of rec) AssignmentStateRejectSent) nd
       else (Inr rec, nd)) = (x, nd1)" by fastforce
  have s1: "steps {} nd nd1"
    using p1 advance_steps [OF c inv] steps_refl [OF inv] by (auto split: if_splits)
  obtain cap nd2 where p2: "capacitySnapshot ne nd1 = (cap, nd2)" by fastforce
  have s2: "steps {} nd nd2"
    using steps_trans [OF s1 capacitySnapshot_steps [OF c steps_inv [OF s1] p2]] by simp
  have "nd' = nd1 \<or> (\<exists>m request. rejectLoop ne m request 0 nd2 = Some (r, nd'))"
    using f unfolding rejectAssignment_def p1 by (cases x; cases cap) (auto simp: p2)
  then show ?thesis
    using s1 steps_trans [OF s2] rejectLoop_steps [OF c steps_inv [OF s2]] by fastforce
qed

lemma allowSpool_steps: "node_inv nd \<Longrightarrow> steps {} nd (allowSpool a p nd)"
  by (rule steps_frame) (simp_all add: allowSpool_def)

lemma ackAssignment_steps:
  assumes "node_inv nd" and "ackAssignmentWithRetry ne identity n nd = Some (r, nd')"
  shows "steps {} nd nd'"
  by (rule steps_frame [OF assms(1)]) (use ackAssignment_frame [OF assms(2)] in simp_all)

text \<open>A reloaded record that is confirmed can be started.\<close>

lemma reload_start_steps:
  assumes c: "calm ne" and inv: "node_inv nd" and p: "nodeReload ne m nd = (rec, nd1)"
    and f: "startConfirmedAttempt ne rec payload lease nd1 = (r, nd')"
  shows "steps UNIV nd nd'"
proof -
  note s1 = nodeReload_steps [OF c inv p] note i1 = steps_inv [OF s1(1)]
  have "known rec nd1" if "jr_State rec = AssignmentStateConfirmed"
    using s1(2) known_read [OF i1 _ that] that by (auto simp: zeroEntry_def)
  from start_steps [OF c i1 this f] steps_trans [OF s1(1)] show ?thesis by blast
qed

lemma confirmAssignment_steps:
  assumes c: "calm ne" and inv: "node_inv nd" and f: "confirmAssignment ne identity rec payload nd = Some (r, nd')"
  shows "steps UNIV nd nd'"
proof -
  obtain x nd1 where p1: "ackAssignmentWithRetry ne (jr_Identity rec) 0 nd = Some (x, nd1)"
    using f by (auto simp: confirmAssignment_def split: option.splits)
  note s1 = ackAssignment_steps [OF inv p1] note i1 = steps_inv [OF s1]
  obtain y2 nd2 where p2: "nodeCall ne (\<lambda>io. sto_AdvanceAssignment (nodeStore ne) io (messageID_of rec) AssignmentStateRevoked) nd1 = (y2, nd2)" by fastforce
  obtain y3 nd3 where p3: "nodeCall ne (\<lambda>io. sto_AdvanceAssignment (nodeStore ne) io (ai_AssignmentMessageID identity) AssignmentStateConfirmed) nd1 = (y3, nd3)" by fastforce
  let ?nd4 = "allowSpool (ai_AttemptID identity) uploadAll nd3"
  have s2: "steps {} nd nd2" using steps_trans [OF s1 advance_steps [OF c i1 p2]] by simp
  have s3: "steps {} nd nd3" using steps_trans [OF s1 advance_steps [OF c i1 p3]] by simp
  have s4: "steps {} nd ?nd4" using steps_trans [OF s3 allowSpool_steps [OF steps_inv [OF s3]]] by simp
  obtain rec1 nd5 where p5: "nodeReload ne (ai_AssignmentMessageID identity) ?nd4 = (rec1, nd5)" by fastforce
  have "nd' = nd1 \<or> nd' = nd2 \<or> nd' = nd3 \<or> (\<exists>lease. startConfirmedAttempt ne rec1 payload lease nd5 = (r, nd'))"
    using f p1 p2 p3 p5
    by (auto simp: confirmAssignment_def split: sum.splits option.splits if_splits)
  then show ?thesis
    using s1 s2 s3 steps_weaken steps_trans [OF s4 reload_start_steps [OF c steps_inv [OF s4] p5]] by blast
qed

lemma reconfirmAssignment_steps:
  assumes inv: "node_inv nd" and f: "reconfirmAssignment ne identity rec nd = Some (r, nd')"
  shows "steps {} nd nd'"
proof -
  obtain x nd1 where p1: "ackAssignmentWithRetry ne (jr_Identity rec) 0 nd = Some (x, nd1)"
    using f by (auto simp: reconfirmAssignment_def split: option.splits)
  have "nd_worker nd1 = nd_worker nd" "nd_started nd1 = nd_started nd" using ackAssignment_frame [OF p1] by simp_all
  then show ?thesis
    using f p1 by (intro steps_frame [OF inv])
      (auto simp: reconfirmAssignment_def allowSpool_def setLeaseExpiry_def Let_def split: sum.splits option.splits if_splits)
qed

lemma proceedAssignment_steps:
  assumes c: "calm ne" and inv: "node_inv nd" and k: "jr_State rec = AssignmentStateConfirmed \<Longrightarrow> known rec nd"
    and f: "proceedAssignment ne identity rec payload nd = Some (r, nd')"
  shows "steps UNIV nd nd'"
proof -
  let ?m = "ai_AssignmentMessageID identity"
  obtain x nd1 where p1: "nodeCall ne (\<lambda>io. sto_AdvanceAssignment (nodeStore ne) io ?m AssignmentStateACKSent) nd = (x, nd1)" by fastforce
  obtain rec1 nd2 where p2: "nodeReload ne ?m nd1 = (rec1, nd2)" by fastforce
  note s1 = advance_steps [OF c inv p1]
  note s2 = nodeReload_steps [OF c steps_inv [OF s1] p2]
  have s02: "steps {} nd nd2" using steps_trans [OF s1 s2(1)] by simp
  have k2: "known rec1 nd2" if "jr_State rec1 = AssignmentStateConfirmed"
    using s2(2) known_read [OF steps_inv [OF s02] _ that] that by (auto simp: zeroEntry_def)
  define rec' nd'' where "rec' = (if jr_State rec = AssignmentStateReceived then rec1 else rec)"
    and "nd'' = (if jr_State rec = AssignmentStateReceived then nd2 else nd)"
  have s: "steps {} nd nd''" using s02 steps_refl [OF inv] by (simp add: nd''_def)
  note i = steps_inv [OF s]
  have k': "known rec' nd''" if "jr_State rec' = AssignmentStateConfirmed"
    using k k2 that by (auto simp: rec'_def nd''_def split: if_splits)
  let ?nd3 = "allowSpool (ai_AttemptID identity) uploadAll nd''"
  note s3 = allowSpool_steps [OF i]
  have "nd' = nd1 \<or> nd' = nd'' \<or> confirmAssignment ne identity rec' payload nd'' = Some (r, nd')
      \<or> jr_State rec' = AssignmentStateConfirmed \<and> startConfirmedAttempt ne rec' payload 0 ?nd3 = (r, nd')
      \<or> reconfirmAssignment ne identity rec' nd'' = Some (r, nd')"
    using f p1 p2 unfolding proceedAssignment_def rec'_def nd''_def
    by (cases x) (auto split: if_splits)
  then show ?thesis
  proof (elim disjE conjE)
    assume st: "jr_State rec' = AssignmentStateConfirmed" "startConfirmedAttempt ne rec' payload 0 ?nd3 = (r, nd')"
    from start_steps [OF c steps_inv [OF s3] known_steps [OF k' [OF st(1)] s3] st(2)]
    show ?thesis by (rule steps_UNIV [OF s steps_UNIV [OF s3]])
  next
    assume "confirmAssignment ne identity rec' payload nd'' = Some (r, nd')"
    from steps_UNIV [OF s confirmAssignment_steps [OF c i this]] show ?thesis .
  next
    assume "reconfirmAssignment ne identity rec' nd'' = Some (r, nd')"
    from steps_UNIV [OF s reconfirmAssignment_steps [OF i this]] show ?thesis .
  qed (use steps_weaken [OF s1] steps_weaken [OF s] in simp_all)
qed

lemma handleClaimedAssignment_steps:
  assumes c: "calm ne" and inv: "node_inv nd" and f: "handleClaimedAssignment ne assigned nd = Some (r, nd')"
  shows "steps UNIV nd nd'"
proof -
  obtain x1 nd1 where p1: "nodeRead ne (localAttemptIdentity ne (ra_AttemptIdentity assigned)) nd = (x1, nd1)" by fastforce
  note s1 = nodeRead_steps(1) [OF c inv p1]
  show ?thesis
  proof (cases "\<exists>identity input metadata. x1 = Inr identity \<and> ra_Input assigned = Some input \<and> ra_Metadata assigned = Some metadata")
    case False
    with f p1 have "nd' = nd1" by (auto simp: handleClaimedAssignment_def split: sum.splits option.splits)
    with steps_weaken [OF s1] show ?thesis by simp
  next
    case True
    then obtain identity input metadata where x: "x1 = Inr identity" "ra_Input assigned = Some input" "ra_Metadata assigned = Some metadata"
      by blast
    let ?m = "ai_AssignmentMessageID identity" and ?payload = "assignedPayload identity assigned input metadata"
    obtain x2 nd2 where p2: "nodeCall ne (\<lambda>io. sto_CreateAssignment (nodeStore ne) io (newJournal ne identity input (ra_NodeEnvelope assigned))) nd1 = (x2, nd2)" by fastforce
    have "steps {} nd1 nd2"
      by (rule nodeCall_steps [OF c steps_inv [OF s1] p2]) (simp add: calm_api [OF c] create_reach)
    with s1 have s2: "steps {} nd nd2" using steps_trans by blast
    obtain x3 nd3 where p3: "nodeRead ne (sto_Assignment (nodeStore ne) ?m) nd2 = (x3, nd3)" by fastforce
    note r3 = nodeRead_steps [OF c steps_inv [OF s2] p3]
    have s3: "steps {} nd nd3" using steps_trans [OF s2 r3(1)] by simp
    obtain x4 nd4 where p4: "nodeCall ne (\<lambda>io. sto_StoreAssignmentPayload (nodeStore ne) io ?payload) nd3 = (x4, nd4)" by fastforce
    have s34: "steps {} nd3 nd4"
      by (rule nodeCall_steps [OF c steps_inv [OF s3] p4]) (simp add: calm_api [OF c] payload_reach)
    have s4: "steps {} nd nd4" using steps_trans [OF s3 s34] by simp
    have k: "known rec nd4" if "x3 = Inr rec" "jr_State rec = AssignmentStateConfirmed" for rec
      using known_steps [OF known_read [OF steps_inv [OF s3] _ that(2)] s34] r3(2) that(1) calm_api [OF c] by metis
    have "nd' \<in> {nd1, nd2, nd3, nd4} \<or> (\<exists>rec. x3 = Inr rec \<and> (rejectAssignment ne rec nd3 = Some (r, nd')
        \<or> proceedAssignment ne identity rec ?payload nd4 = Some (r, nd')))"
      using f p1 p2 p3 p4 x by (cases x2; cases x3; cases x4)
        (auto simp: handleClaimedAssignment_def assignmentAdmitted_def Let_def split: if_splits)
    then show ?thesis
    proof (elim disjE exE conjE)
      fix rec assume "x3 = Inr rec" "proceedAssignment ne identity rec ?payload nd4 = Some (r, nd')"
      from steps_UNIV [OF s4 proceedAssignment_steps [OF c steps_inv [OF s4] k [OF this(1)] this(2)]] show ?thesis .
    next
      fix rec assume "rejectAssignment ne rec nd3 = Some (r, nd')"
      from steps_UNIV [OF s3 rejectAssignment_steps [OF c steps_inv [OF s3] this]] show ?thesis .
    qed (use steps_weaken [OF s1] steps_weaken [OF s2] steps_weaken [OF s3] steps_weaken [OF s4] in auto)
  qed
qed

lemma handleClaim_steps:
  assumes c: "calm ne" and inv: "node_inv nd" and f: "handleClaim ne assigned nd = Some (r, nd')"
  shows "steps UNIV nd nd'"
proof -
  let ?a = "sa_AttemptID (ra_AttemptIdentity assigned)" let ?nd0 = "beginAssignment ne ?a nd"
  have s0: "steps {} nd ?nd0" by (rule steps_frame [OF inv]) (simp_all add: beginAssignment_def Let_def)
  obtain nd1 where p1: "handleClaimedAssignment ne assigned ?nd0 = Some (r, nd1)" "nd' = endAssignment ?a nd1"
    using f by (auto simp: handleClaim_def Let_def split: option.splits)
  have s1: "steps UNIV nd nd1"
    using steps_trans [OF s0 handleClaimedAssignment_steps [OF c steps_inv [OF s0] p1(1)]] by blast
  have "steps {} nd1 nd'" unfolding p1(2)
    by (rule steps_frame [OF steps_inv [OF s1]]) (simp_all add: endAssignment_def)
  with steps_trans [OF s1] show ?thesis by blast
qed

lemma resumeAttempts_steps:
  assumes c: "calm ne"
  shows "node_inv nd \<Longrightarrow> resumeAttempts ne recs nd = (r, nd') \<Longrightarrow> steps {} nd nd'"
proof (induction recs arbitrary: nd r nd')
  case Nil then show ?case by (simp add: steps_refl)
next
  case (Cons rec recs)
  let ?a = "attemptID_of rec"
  obtain x1 nd1 where p1: "nodeRead ne (sto_PendingEvents (nodeStore ne) ?a) nd = (x1, nd1)" by fastforce
  obtain x2 nd2 where p2: "nodeRead ne (sto_PendingResult (nodeStore ne) ?a) nd1 = (x2, nd2)" by fastforce
  obtain x3 nd3 where p3: "resumeAttempts ne recs nd2 = (x3, nd3)" by fastforce
  note s1 = nodeRead_steps(1) [OF c Cons.prems(1) p1]
  have s2: "steps {} nd nd2" using steps_trans [OF s1 nodeRead_steps(1) [OF c steps_inv [OF s1] p2]] by simp
  have s3: "steps {} nd nd3" using steps_trans [OF s2 Cons.IH [OF steps_inv [OF s2] p3]] by simp
  have "nd' \<in> {nd1, nd2, nd3}"
    using Cons.prems(2) p1 p2 p3 by (cases x1; cases x2; cases x3) (auto simp: Let_def split: if_splits)
  with s1 s2 s3 show ?case by auto
qed

definition readBefore :: "journal_record \<Rightarrow> 's node_state \<Rightarrow> bool" where
  "readBefore rec nd \<longleftrightarrow> (\<exists>s. good s \<and> reach s (storeOf nd) \<and> sto_Assignment api (messageID_of rec) s = Inr rec)"

lemma readBefore_steps: "readBefore rec nd \<Longrightarrow> steps A nd nd' \<Longrightarrow> readBefore rec nd'"
  unfolding readBefore_def steps_def using reach_trans by blast

lemma known_iff: "known rec nd \<longleftrightarrow> attemptID_of rec \<notin> launched nd \<and> readBefore rec nd"
  by (simp add: known_def readBefore_def)

lemma renewLease_steps: "node_inv nd \<Longrightarrow> steps {} nd (renewLease a t (allowSpool b p nd))"
  by (rule steps_frame) (simp_all add: renewLease_def allowSpool_def setLeaseExpiry_def split: option.split)

lemma stopActive_steps:
  "node_inv nd \<Longrightarrow> stopActiveAttemptForResume ne a nd = (r, nd') \<Longrightarrow> steps {} nd nd'"
  by (rule steps_frame) (auto simp: stopActiveAttemptForResume_def retireActiveAttempt_def split: if_splits option.splits)

lemma nodeRetire_steps:
  assumes c: "calm ne" and inv: "node_inv nd" and f: "nodeRetire ne rec revoke nd = (r, nd')"
  shows "steps {} nd nd'"
proof -
  obtain w where w: "retireTerminalAttempt (ne_worker ne) rec revoke (nd_worker nd) = (r, w)" "nd' = nd\<lparr>nd_worker := w\<rparr>"
    using f by (auto simp: nodeRetire_def split: prod.splits)
  have "reach (storeOf nd) (wk_store w)"
    by (rule retireTerminalAttempt_reach [OF _ node_good [OF inv] w(1)]) (use c in \<open>simp add: calm_def\<close>)
  with w(2) show ?thesis by (intro steps_same [OF inv]) simp_all
qed

lemma resumeStart_steps:
  assumes c: "calm ne" and inv: "node_inv nd" and k: "jr_State rec = AssignmentStateConfirmed \<Longrightarrow> known rec nd"
    and p: "nodeRead ne (sto_AssignmentPayload (nodeStore ne) (attemptID_of rec)) nd = (x, nd1)"
    and f: "jr_State rec = AssignmentStateConfirmed \<Longrightarrow>
      nd' = nd1 \<or> (\<exists>payload lease. startConfirmedAttempt ne rec payload lease (allowSpool (attemptID_of rec) uploadAll nd1) = (r, nd'))"
    and g: "jr_State rec \<noteq> AssignmentStateConfirmed \<Longrightarrow> nd' = nd"
  shows "steps {attemptID_of rec} nd nd'"
proof (cases "jr_State rec = AssignmentStateConfirmed")
  case False
  with g steps_weaken [OF steps_refl [OF inv]] show ?thesis by simp
next
  case True
  note s1 = nodeRead_steps(1) [OF c inv p]
  let ?nd2 = "allowSpool (attemptID_of rec) uploadAll nd1"
  have s2: "steps {} nd ?nd2" using steps_trans [OF s1 allowSpool_steps [OF steps_inv [OF s1]]] by simp
  have "steps {attemptID_of rec} nd nd'" if "startConfirmedAttempt ne rec payload lease ?nd2 = (r, nd')" for payload lease
    using steps_trans [OF s2 start_steps [OF c steps_inv [OF s2] known_steps [OF k [OF True] s2] that]] by simp
  with f [OF True] steps_weaken [OF s1] show ?thesis by blast
qed

lemma resumeContinue_steps:
  assumes c: "calm ne" and inv: "node_inv nd" and b: "readBefore rec nd"
    and k: "jr_State rec = AssignmentStateConfirmed \<Longrightarrow> known rec nd"
    and f: "resumeContinue ne reconnect rec decision nd = (r, nd')"
  shows "steps {attemptID_of rec} nd nd'"
proof (cases "jr_State rec = AssignmentStateStarted \<or> jr_State rec = AssignmentStateFinished")
  case True
  then have "nd' = nd \<or> (\<exists>t. nd' = renewLease (attemptID_of rec) t (allowSpool (attemptID_of rec) uploadAll nd))"
    using f by (auto simp: resumeContinue_def split: if_splits)
  with steps_weaken [OF steps_refl [OF inv]] steps_weaken [OF renewLease_steps [OF inv]] show ?thesis by blast
next
  case False
  let ?m = "messageID_of rec"
  obtain x1 nd1 where p1: "nodeCall ne (\<lambda>io. sto_AdvanceAssignment (nodeStore ne) io ?m AssignmentStateConfirmed) nd = (x1, nd1)" by fastforce
  obtain rec1 nd2 where p2: "nodeReload ne ?m nd1 = (rec1, nd2)" by fastforce
  note s1 = advance_steps [OF c inv p1]
  note r2 = nodeReload_steps [OF c steps_inv [OF s1] p2]
  have s2: "steps {} nd nd2" using steps_trans [OF s1 r2(1)] by simp
  have k2: "known rec1 nd2 \<and> attemptID_of rec1 = attemptID_of rec" if st: "jr_State rec1 = AssignmentStateConfirmed"
  proof -
    from r2(2) st have a: "sto_Assignment api ?m (storeOf nd2) = Inr rec1" by (auto simp: zeroEntry_def)
    from readBefore_steps [OF b s2] obtain s where "good s" "reach s (storeOf nd2)" "sto_Assignment api ?m s = Inr rec"
      by (auto simp: readBefore_def)
    from assignment_identity [OF this a] known_read [OF steps_inv [OF s2] a st] show ?thesis by simp
  qed
  show ?thesis
  proof (cases "jr_State rec = AssignmentStateACKSent")
    case True
    show ?thesis
    proof (cases "\<exists>y. x1 = Inr y \<and> jr_State rec1 = AssignmentStateConfirmed")
      case False
      with f True p1 p2 have "nd' = nd1 \<or> nd' = nd2"
        by (auto simp: resumeContinue_def split: sum.splits if_splits)
      with steps_weaken [OF s1] steps_weaken [OF s2] show ?thesis by blast
    next
      case conf: True
      obtain x3 nd3 where p3: "nodeRead ne (sto_AssignmentPayload (nodeStore ne) (attemptID_of rec1)) nd2 = (x3, nd3)" by fastforce
      have "steps {attemptID_of rec1} nd2 nd'"
        by (rule resumeStart_steps [OF c steps_inv [OF s2] _ p3])
           (use f True conf p1 p2 p3 k2 in \<open>auto simp: resumeContinue_def split: sum.splits\<close>)
      with steps_trans [OF s2] k2 conf show ?thesis by simp
    qed
  next
    case notACK: False
    obtain x3 nd3 where p3: "nodeRead ne (sto_AssignmentPayload (nodeStore ne) (attemptID_of rec)) nd = (x3, nd3)" by fastforce
    show ?thesis
      by (rule resumeStart_steps [OF c inv k p3])
         (use f False notACK p3 in \<open>auto simp: resumeContinue_def split: sum.splits if_splits\<close>)
  qed
qed

lemma resumeDecision_steps:
  assumes c: "calm ne" and inv: "node_inv nd" and b: "readBefore rec nd"
    and k: "jr_State rec = AssignmentStateConfirmed \<Longrightarrow> known rec nd"
    and f: "resumeDecision ne reconnect rec decision nd = (r, nd')"
  shows "steps {attemptID_of rec} nd nd'"
proof -
  obtain x1 nd1 where p1: "(if reconnect then stopActiveAttemptForResume ne (attemptID_of rec) nd else (None, nd)) = (x1, nd1)" by fastforce
  have s1: "steps {} nd nd1" using p1 stopActive_steps [OF inv] steps_refl [OF inv] by (auto split: if_splits)
  have allow: "steps {attemptID_of rec} nd (allowSpool a p nd1)" for a p
    using steps_trans [OF s1 allowSpool_steps [OF steps_inv [OF s1]]] by simp
  have retire: "steps {attemptID_of rec} nd nd'" if "nodeRetire ne rec revoke nd1 = (r, nd')" for revoke
    using steps_trans [OF s1 nodeRetire_steps [OF c steps_inv [OF s1] that]] by simp
  note start = resumeContinue_steps [OF c inv b k]
  have "nd' = nd \<or> nd' = nd1 \<or> (\<exists>a p. nd' = allowSpool a p nd1) \<or> (\<exists>revoke. nodeRetire ne rec revoke nd1 = (r, nd'))
      \<or> resumeContinue ne reconnect rec decision nd = (r, nd')"
    using f unfolding resumeDecision_def p1 by (auto split: if_splits resume_decision.splits option.splits)
  then show ?thesis
    using allow retire start steps_weaken [OF s1] steps_weaken [OF steps_refl [OF inv]] by (elim disjE exE) simp_all
qed

lemma resumeDecisions_steps:
  assumes c: "calm ne"
  shows "node_inv nd \<Longrightarrow> distinct (map (attemptID_of \<circ> fst) ds) \<Longrightarrow>
    (\<forall>(rec, d) \<in> set ds. readBefore rec nd \<and> (jr_State rec = AssignmentStateConfirmed \<longrightarrow> attemptID_of rec \<notin> launched nd)) \<Longrightarrow>
    resumeDecisions ne reconnect ds nd = (r, nd') \<Longrightarrow> steps UNIV nd nd'"
proof (induction ds arbitrary: nd)
  case Nil then show ?case using steps_weaken [OF steps_refl] by simp
next
  case (Cons x ds)
  obtain rec d where x: "x = (rec, d)" by fastforce
  obtain y nd1 where p: "resumeDecision ne reconnect rec d nd = (y, nd1)" by fastforce
  have b: "readBefore rec nd" and k: "jr_State rec = AssignmentStateConfirmed \<Longrightarrow> known rec nd"
    using Cons.prems(3) x by (auto simp: known_iff)
  note s1 = resumeDecision_steps [OF c Cons.prems(1) b k p]
  show ?case
  proof (cases y)
    case (Some e)
    then have "nd' = nd1" using Cons.prems(4) p x by simp
    then show ?thesis using steps_trans [OF s1 steps_refl [OF steps_inv [OF s1]], of UNIV] by simp
  next
    case None
    then have rest: "resumeDecisions ne reconnect ds nd1 = (r, nd')" using Cons.prems(4) p x by simp
    have later: "readBefore rec' nd1 \<and> (jr_State rec' = AssignmentStateConfirmed \<longrightarrow> attemptID_of rec' \<notin> launched nd1)"
      if m: "(rec', d') \<in> set ds" for rec' d'
    proof -
      have old: "readBefore rec' nd" "jr_State rec' = AssignmentStateConfirmed \<longrightarrow> attemptID_of rec' \<notin> launched nd"
        using Cons.prems(3) m by auto
      have "attemptID_of rec' \<noteq> attemptID_of rec" using Cons.prems(2) m x by (force simp: image_iff)
      with old readBefore_steps [OF old(1) s1] s1 show ?thesis by (auto simp: steps_def)
    qed
    have "steps UNIV nd1 nd'"
      by (rule Cons.IH [OF steps_inv [OF s1] _ _ rest]) (use Cons.prems(2) later in auto)
    from steps_UNIV [OF s1 this] show ?thesis .
  qed
qed

lemma resumeDurableState_steps:
  assumes c: "calm ne" and inv: "node_inv nd" and f: "resumeDurableState ne reconnect nd = Some (r, nd')"
  shows "steps UNIV nd nd'"
proof -
  obtain x1 nd1 where p1: "nodeRead ne (sto_Assignments (nodeStore ne)) nd = (x1, nd1)" by fastforce
  note r1 = nodeRead_steps [OF c inv p1] note i1 = steps_inv [OF r1(1)]
  show ?thesis
  proof (cases "\<exists>recs. x1 = Inr recs \<and> recs \<noteq> []")
    case False
    with f p1 have "nd' = nd1" by (auto simp: resumeDurableState_def split: sum.splits if_splits)
    with steps_weaken [OF r1(1)] show ?thesis by simp
  next
    case True
    then obtain recs where recs: "x1 = Inr recs" "recs \<noteq> []" by blast
    let ?o = "sort_key attemptID_of recs"
    obtain x2 nd2 where p2: "nodeRead ne (sto_Identity (nodeStore ne)) nd1 = (x2, nd2)" by fastforce
    note r2 = nodeRead_steps [OF c i1 p2]
    obtain x3 nd3 where p3: "resumeAttempts ne ?o nd2 = (x3, nd3)" by fastforce
    note r3 = resumeAttempts_steps [OF c steps_inv [OF r2(1)] p3]
    have s13: "steps {} nd1 nd3" using steps_trans [OF r2(1) r3] by simp
    have list: "distinct (map attemptID_of recs) \<and> (\<forall>rec \<in> set recs. sto_Assignment api (messageID_of rec) (storeOf nd1) = Inr rec)"
      using list_read [OF node_good [OF i1]] r1(2) recs(1) calm_api [OF c] by metis
    have fresh: "readBefore rec nd4 \<and> (jr_State rec = AssignmentStateConfirmed \<longrightarrow> attemptID_of rec \<notin> launched nd4)"
      if rec: "rec \<in> set recs" and s: "steps {} nd1 nd4" for rec nd4
    proof -
      from list rec have a: "sto_Assignment api (messageID_of rec) (storeOf nd1) = Inr rec" by blast
      then have "readBefore rec nd1" using node_good [OF i1] reach_refl by (auto simp: readBefore_def)
      moreover have "attemptID_of rec \<notin> launched nd4" if "jr_State rec = AssignmentStateConfirmed"
        using known_steps [OF known_read [OF i1 a that] s] by (simp add: known_def)
      ultimately show ?thesis using readBefore_steps [OF _ s] by blast
    qed
    have "nd' = nd3 \<or> (\<exists>request y nd4. resumeLoop ne request 0 nd3 = Some (y, nd4) \<and> (nd' = nd4 \<or>
        (\<exists>ds. length ds = length ?o \<and> resumeDecisions ne reconnect (zip ?o ds) nd4 = (r, nd'))))"
      using f p1 p2 p3 recs
      by (fastforce simp: resumeDurableState_def Let_def split: sum.splits option.splits if_splits)
    then show ?thesis
    proof (elim disjE exE conjE)
      assume "nd' = nd3"
      with steps_UNIV [OF r1(1) s13] show ?thesis by simp
    next
      fix request y nd4 assume l: "resumeLoop ne request 0 nd3 = Some (y, nd4)" and "nd' = nd4"
      have "steps {} nd3 nd4" by (rule steps_frame [OF steps_inv [OF s13]]) (use resumeLoop_frame [OF l] in simp_all)
      with \<open>nd' = nd4\<close> steps_UNIV [OF r1(1) steps_UNIV [OF s13]] show ?thesis by simp
    next
      fix request y nd4 ds assume l: "resumeLoop ne request 0 nd3 = Some (y, nd4)" and len: "length ds = length ?o"
        and d: "resumeDecisions ne reconnect (zip ?o ds) nd4 = (r, nd')"
      have s34: "steps {} nd3 nd4" by (rule steps_frame [OF steps_inv [OF s13]]) (use resumeLoop_frame [OF l] in simp_all)
      have s14: "steps {} nd1 nd4" using steps_trans [OF s13 s34] by simp
      have "map (attemptID_of \<circ> fst) (zip ?o ds) = map attemptID_of ?o"
        using len by (metis map_fst_zip map_map)
      moreover have "distinct (map attemptID_of ?o)" using list by (metis distinct_map distinct_sort set_sort)
      ultimately have "distinct (map (attemptID_of \<circ> fst) (zip ?o ds))" by simp
      moreover have "\<forall>(rec, d) \<in> set (zip ?o ds). readBefore rec nd4
          \<and> (jr_State rec = AssignmentStateConfirmed \<longrightarrow> attemptID_of rec \<notin> launched nd4)"
        using fresh [OF _ s14] set_zip_leftD by fastforce
      ultimately have "steps UNIV nd4 nd'" by (rule resumeDecisions_steps [OF c steps_inv [OF s14] _ _ d])
      from steps_UNIV [OF r1(1) steps_UNIV [OF s14 this]] show ?thesis .
    qed
  qed
qed

lemma node_reach_steps:
  assumes c: "calm ne" and r: "node_reach ne nd nd'" and inv: "node_inv nd"
  shows "steps UNIV nd nd'"
  using r inv
proof (induction rule: node_reach.induct)
  case (start nd)
  then show ?case using steps_weaken [OF steps_refl] by simp
next
  case (claim nd v assigned r u)
  then have s: "steps UNIV nd v" by blast
  from steps_UNIV [OF s handleClaim_steps [OF c steps_inv [OF s] claim.hyps(2)]] show ?case .
next
  case (resume nd v reconnect r u)
  then have s: "steps UNIV nd v" by blast
  from steps_UNIV [OF s resumeDurableState_steps [OF c steps_inv [OF s] resume.hyps(2)]] show ?case .
next
  case (flush nd v r w)
  then have s: "steps UNIV nd v" by blast
  have "reach (storeOf v) (wk_store w)"
    by (rule flushDurableSpool_reach [OF _ node_good [OF steps_inv [OF s]] flush.hyps(2)]) (use c in \<open>simp add: calm_def\<close>)
  then have "steps {} v (v\<lparr>nd_worker := w\<rparr>)" by (intro steps_same [OF steps_inv [OF s]]) simp_all
  from steps_UNIV [OF s this] show ?case .
next
  case (retire nd v a)
  then have s: "steps UNIV nd v" by blast
  have "steps {} v (retireActiveAttempt a v)"
    by (rule steps_frame [OF steps_inv [OF s]]) (simp_all add: retireActiveAttempt_def)
  from steps_UNIV [OF s this] show ?case .
next
  case (drain nd v b)
  then have s: "steps UNIV nd v" by blast
  have "steps {} v (setDraining b v)" by (rule steps_frame [OF steps_inv [OF s]]) (simp_all add: setDraining_def)
  from steps_UNIV [OF s this] show ?case .
next
  case (stop nd v)
  then have s: "steps UNIV nd v" by blast
  have "steps {} v (setStopping v)" by (rule steps_frame [OF steps_inv [OF s]]) (simp_all add: setStopping_def)
  from steps_UNIV [OF s this] show ?case .
qed

end

section \<open>The file store\<close>

text \<open>The attempt is past the states in which it may still be started.\<close>

definition begunAttempt :: "string \<Rightarrow> store \<Rightarrow> bool" where
  "begunAttempt a s \<longleftrightarrow> (\<exists>m e. map_of (st_entries s) m = Some e \<and> attemptID_of (je_Record e) = a
     \<and> jr_State (je_Record e) \<notin> {AssignmentStateReceived, AssignmentStateACKSent, AssignmentStateConfirmed})"

lemma steps_past_start:
  "assignment_step\<^sup>*\<^sup>* x y \<Longrightarrow> x \<notin> {AssignmentStateReceived, AssignmentStateACKSent, AssignmentStateConfirmed} \<Longrightarrow>
     y \<notin> {AssignmentStateReceived, AssignmentStateACKSent, AssignmentStateConfirmed}"
  by (induction rule: rtranclp_induct) (auto elim: assignment_step.cases)

lemma begunAttempt_mono:
  assumes "sound_store s" and "store_reach s t" and "begunAttempt a s"
  shows "begunAttempt a t"
proof -
  from assms(3) obtain m e where e: "map_of (st_entries s) m = Some e" "attemptID_of (je_Record e) = a"
    "jr_State (je_Record e) \<notin> {AssignmentStateReceived, AssignmentStateACKSent, AssignmentStateConfirmed}"
    unfolding begunAttempt_def by blast
  have "store_ok s" "session_ok s" using assms(1) by (simp_all add: sound_store_def)
  from reach_entries [OF assms(2) this e(1)] obtain f where f: "map_of (st_entries t) m = Some f" "entry_grows e f" by blast
  then show ?thesis
    using e(2) steps_past_start [OF _ e(3), of "jr_State (je_Record f)"]
    unfolding begunAttempt_def entry_grows_def by metis
qed

lemma Assignment_not_begun:
  assumes "sound_store s" and "Assignment m s = Inr old" and "jr_State old = AssignmentStateConfirmed"
  shows "\<not> begunAttempt (attemptID_of old) s"
proof
  assume "begunAttempt (attemptID_of old) s"
  then obtain n f where f: "map_of (st_entries s) n = Some f" "attemptID_of (je_Record f) = attemptID_of old"
    "jr_State (je_Record f) \<noteq> AssignmentStateConfirmed" unfolding begunAttempt_def by blast
  from Assignment_entry(1) [OF assms(1,2)] obtain e where e: "map_of (st_entries s) m = Some e" "je_Record e = old" by blast
  have "readyLocked s = None" using assms(2) by (auto simp: Assignment_def split: option.splits)
  note inv = store_inv_parts [OF sound_inv [OF assms(1) this]]
  from journal_inv_entry(3) [OF inv(5) e(1)] journal_inv_entry(3) [OF inv(5) f(1)] e f(2) have "m = n" by simp
  with e f assms(3) show False by simp
qed

lemma Assignments_read:
  assumes s: "sound_store s" and a: "Assignments s = Inr recs"
  shows "distinct (map attemptID_of recs) \<and> (\<forall>rec \<in> set recs. Assignment (messageID_of rec) s = Inr rec)"
proof -
  have ready: "readyLocked s = None" using a by (auto simp: Assignments_def split: option.splits)
  note inv = store_inv_parts [OF sound_inv [OF s ready]]
  let ?live = "filter (\<lambda>entry. \<not> je_Deleted entry) (map snd (st_entries s))"
  have recs: "recs = sort_key messageID_of (map je_Record ?live)"
    using a ready by (simp add: Assignments_def)
  have ok: "gomap_ok (st_entries s)" using inv(5) by (simp add: journal_inv_def)
  have read: "map_of (st_entries s) (messageID_of (je_Record e)) = Some e \<and> \<not> je_Deleted e" if "e \<in> set ?live" for e
  proof -
    from that obtain m where "(m, e) \<in> set (st_entries s)" "\<not> je_Deleted e" by auto
    with ok have "map_of (st_entries s) m = Some e" by (simp add: gomap_mem_iff)
    with journal_inv_entry(1) [OF inv(5) this] \<open>\<not> je_Deleted e\<close> show ?thesis by simp
  qed
  have inj: "e = f" if "e \<in> set (map snd (st_entries s))" "f \<in> set (map snd (st_entries s))"
    "attemptID_of (je_Record e) = attemptID_of (je_Record f)" for e f
  proof -
    from that(1,2) obtain m n where "(m, e) \<in> set (st_entries s)" "(n, f) \<in> set (st_entries s)" by auto
    with ok have m: "map_of (st_entries s) m = Some e" "map_of (st_entries s) n = Some f" by (simp_all add: gomap_mem_iff)
    from journal_inv_entry(3) [OF inv(5) m(1)] journal_inv_entry(3) [OF inv(5) m(2)] that(3) m show "e = f" by simp
  qed
  have "distinct (map snd (st_entries s))"
  proof -
    have "inj_on snd (set (st_entries s))"
    proof (rule inj_onI)
      fix x y assume x: "x \<in> set (st_entries s)" "y \<in> set (st_entries s)" "snd x = snd y"
      then have "map_of (st_entries s) (fst x) = Some (snd x)" "map_of (st_entries s) (fst y) = Some (snd y)"
        using ok gomap_mem_iff by (metis prod.collapse)+
      from journal_inv_entry(1) [OF inv(5) this(1)] journal_inv_entry(1) [OF inv(5) this(2)] x(3)
      show "x = y" by (simp add: prod_eq_iff)
    qed
    moreover have "distinct (st_entries s)" using ok by (simp add: gomap_ok_def distinct_map)
    ultimately show ?thesis by (simp add: distinct_map)
  qed
  then have "distinct ?live" by simp
  moreover have "inj_on (attemptID_of \<circ> je_Record) (set ?live)"
    by (rule inj_onI, rule inj) auto
  ultimately have "distinct (map (attemptID_of \<circ> je_Record) ?live)" by (simp only: distinct_map)
  then have "distinct (map attemptID_of recs)"
    unfolding recs by (metis distinct_map distinct_sort map_map set_sort)
  moreover have "Assignment (messageID_of rec) s = Inr rec" if "rec \<in> set recs" for rec
  proof -
    have "rec \<in> je_Record ` set ?live" using that unfolding recs by simp
    then obtain e where e: "e \<in> set ?live" "rec = je_Record e" by blast
    show ?thesis using read [OF e(1)] ready by (simp add: Assignment_def e(2))
  qed
  ultimately show ?thesis by blast
qed

lemma Advance_begins:
  assumes s: "sound_store s" and r: "store_reach s t" and io: "env_ok io" and a: "Assignment m s = Inr old"
    and adv: "AdvanceAssignment io m AssignmentStateStarted t = (Inr new, u)"
  shows "begunAttempt (attemptID_of old) u"
proof -
  from Assignment_entry(1) [OF s a] obtain e where e: "map_of (st_entries s) m = Some e" "je_Record e = old" by blast
  have "store_ok s" "session_ok s" using s by (simp_all add: sound_store_def)
  from reach_entries [OF r this e(1)] obtain f where f: "map_of (st_entries t) m = Some f" "entry_grows e f" by blast
  have id: "jr_Identity (je_Record f) = jr_Identity old" using f(2) e(2) by (simp add: entry_grows_def)
  let ?x = "liveEntry ((je_Record f)\<lparr>jr_State := AssignmentStateStarted, jr_UpdatedAt := nextNow io t\<rparr>)"
  have "u = t \<and> jr_State (je_Record f) = AssignmentStateStarted \<or> appendJournalLocked io ?x t = (None, u)"
    using adv f(1) by (auto simp: AdvanceAssignment_def Let_def split: option.splits if_splits prod.splits)
  then show ?thesis
  proof (elim disjE conjE)
    assume "u = t" "jr_State (je_Record f) = AssignmentStateStarted"
    with f(1) id show ?thesis unfolding begunAttempt_def by (intro exI [of _ m] exI [of _ f]) simp
  next
    assume "appendJournalLocked io ?x t = (None, u)"
    from entries_append_ok [OF this] id show ?thesis
      unfolding begunAttempt_def by (intro exI [of _ "messageID_of (je_Record ?x)"] exI [of _ ?x]) simp
  qed
qed

interpretation file_start: runtime_store_start fileRuntimeStore sound_store store_reach unackedEvents begunAttempt
proof
  show "env_ok io \<Longrightarrow> store_reach s (snd (sto_CreateAssignment fileRuntimeStore io rec s))" for io s rec
    using store_reach.call [OF store_reach.start, of io "OpCreate rec" s] by (simp add: fileRuntimeStore_def)
  show "env_ok io \<Longrightarrow> store_reach s (snd (sto_StoreAssignmentPayload fileRuntimeStore io p s))" for io s p
    using store_reach.call [OF store_reach.start, of io "OpStorePayload p" s] by (simp add: fileRuntimeStore_def)
  show "sound_store s \<Longrightarrow> store_reach s t \<Longrightarrow> begunAttempt a s \<Longrightarrow> begunAttempt a t" for s t a
    by (rule begunAttempt_mono)
  show "sound_store s \<Longrightarrow> sto_Assignment fileRuntimeStore m s = Inr old \<Longrightarrow>
      jr_State old = AssignmentStateConfirmed \<Longrightarrow> \<not> begunAttempt (attemptID_of old) s" for s m old
    using Assignment_not_begun by (simp add: fileRuntimeStore_simps)
  show "sound_store s \<Longrightarrow> sto_Assignments fileRuntimeStore s = Inr recs \<Longrightarrow>
      distinct (map attemptID_of recs) \<and> (\<forall>rec \<in> set recs. sto_Assignment fileRuntimeStore (messageID_of rec) s = Inr rec)" for s recs
    using Assignments_read by (simp add: fileRuntimeStore_def)
  show "sound_store s \<Longrightarrow> store_reach s t \<Longrightarrow> env_ok io \<Longrightarrow> sto_Assignment fileRuntimeStore m s = Inr old \<Longrightarrow>
      sto_AdvanceAssignment fileRuntimeStore io m AssignmentStateStarted t = (Inr new, u) \<Longrightarrow>
      begunAttempt (attemptID_of old) u" for s t io m old new u
    unfolding fileRuntimeStore_simps by (rule Advance_begins)
qed


section \<open>An offer for another node\<close>

definition foreign_env :: "store node_env" where
  "foreign_env = \<lparr>ne_worker = cut_off_env, ne_NodeID = ''node'', ne_AgentID = ''agent'', ne_Capacity = 1,
     ne_sha256 = (\<lambda>b. replicate 32 (CHR 0x00)), ne_now = (\<lambda>n. 1),
     ne_ack = (\<lambda>cs i. Inl (TextError ''connection refused'')), ne_reject = (\<lambda>cs r. Some (TextError ''connection refused'')),
     ne_resume = (\<lambda>cs r. Inl (TextError ''connection refused'')), ne_waitRetry = (\<lambda>cs n. Some ContextCanceled),
     ne_attemptDone = (\<lambda>a. None)\<rparr>"

definition foreign_offer :: run_assigned where
  "foreign_offer = \<lparr>ra_AttemptIdentity = \<lparr>sa_RunID = ''run'', sa_AttemptID = ''attempt'', sa_LeaseID = ''lease'',
       sa_FencingToken = 1, sa_NodeID = ''elsewhere'', sa_AgentID = ''agent'', sa_WorkerID = ''worker'', sa_RuntimeSessionID = ''session''\<rparr>,
     ra_OfferNo = 1, ra_OfferExpiresAt = 2, ra_AttemptDeadlineAt = 0, ra_RunDeadlineAt = 0, ra_Input = Some ''{}'', ra_Metadata = Some ''{}'',
     ra_NodeEnvelope = ''envelope'', ra_AgentInvocationToken = ''token''\<rparr>"

definition sample_node :: "store node_state" where
  "sample_node = \<lparr>nd_worker = appended_worker, nd_controls = [], nd_reservations = [], nd_assignmentOps = 0,
     nd_draining = False, nd_stopping = False, nd_leases = [], nd_started = []\<rparr>"

lemma foreign_refused:
  "\<exists>u. handleClaim foreign_env foreign_offer sample_node = Some (Some ErrSpoolRecordConflict, u) \<and> nd_started u = []"
  by (simp add: handleClaim_def handleClaimedAssignment_def nodeRead_def storeRead_def takeTurn_def localAttemptIdentity_def
      beginAssignment_def endAssignment_def foreign_env_def foreign_offer_def sample_node_def Let_def)


end
