(* ===== verification/Worker_Admission.thy ===== *)
theory Worker_Admission
  imports Worker_Start
begin

text \<open>
  Admission against the capacity of the worker, the identifiers it derives from an offer, and
  the return of its retry loops.
\<close>

section \<open>Capacity\<close>

lemma inflight_begin:
  "inflightCount (beginAssignment ne a nd) =
     inflightCount nd + (if \<not> nd_draining nd \<and> a \<notin> set (wk_active (nd_worker nd)) \<and> inflightCount nd < ne_Capacity ne
                           \<and> a \<notin> set (nd_reservations nd) then 1 else 0)"
  by (auto simp: inflightCount_def beginAssignment_def Let_def List.insert_def)

lemma inflight_end: "inflightCount (endAssignment a nd) \<le> inflightCount nd"
proof -
  have "length (filter P (removeAll a xs)) \<le> length (filter P xs)" for P and xs :: "string list"
    by (induction xs) auto
  then show ?thesis by (simp add: inflightCount_def endAssignment_def)
qed

lemma filter_remove_one:
  "distinct xs \<Longrightarrow> b \<in> set xs \<Longrightarrow> b \<notin> A \<Longrightarrow>
     length (filter (\<lambda>a. a \<notin> insert b A) xs) + 1 = length (filter (\<lambda>a. a \<notin> A) xs)"
proof (induction xs)
  case (Cons x xs)
  show ?case
  proof (cases "x = b")
    case True
    then have "filter (\<lambda>a. a \<notin> insert b A) xs = filter (\<lambda>a. a \<notin> A) xs"
      using Cons.prems(1) by (intro filter_cong) auto
    with True Cons.prems show ?thesis by simp
  next
    case False
    with Cons show ?thesis by auto
  qed
qed simp

text \<open>
  C32. Admission respects the capacity: as long as the attempts in flight (active or reserved)
  do not exceed the capacity, beginning and ending an assignment and registering an admitted
  attempt keep it so; a draining worker and one at its capacity admit nothing new.
\<close>

theorem admission_respects_capacity:
  assumes "inflightCount nd \<le> ne_Capacity ne" and "distinct (nd_reservations nd)"
  shows "inflightCount (beginAssignment ne a nd) \<le> ne_Capacity ne
    \<and> inflightCount (endAssignment a nd) \<le> ne_Capacity ne
    \<and> (fst (assignmentAdmitted b nd) \<and> \<not> activeAttempt b nd \<longrightarrow>
         inflightCount (registerAttempt b t nd) = inflightCount nd)
    \<and> ((nd_draining nd \<or> inflightCount nd = ne_Capacity ne) \<and> a \<notin> set (nd_reservations nd) \<longrightarrow>
         \<not> fst (assignmentAdmitted a (beginAssignment ne a nd)))"
proof (intro conjI)
  show "inflightCount (beginAssignment ne a nd) \<le> ne_Capacity ne" using assms(1) by (auto simp: inflight_begin)
  show "inflightCount (endAssignment a nd) \<le> ne_Capacity ne"
    using inflight_end assms(1) by (rule order_trans)
  show "fst (assignmentAdmitted b nd) \<and> \<not> activeAttempt b nd \<longrightarrow> inflightCount (registerAttempt b t nd) = inflightCount nd"
    using filter_remove_one [OF assms(2), of b "set (wk_active (nd_worker nd))"]
    by (auto simp: assignmentAdmitted_def activeAttempt_def inflightCount_def registerAttempt_def setLeaseExpiry_def)
  show "(nd_draining nd \<or> inflightCount nd = ne_Capacity ne) \<and> a \<notin> set (nd_reservations nd) \<longrightarrow>
      \<not> fst (assignmentAdmitted a (beginAssignment ne a nd))"
    by (auto simp: assignmentAdmitted_def beginAssignment_def Let_def)
qed

theorem admission_respects_capacity_witness:
  "ne_Capacity foreign_env = 1 \<and> inflightCount sample_node = 1
   \<and> inflightCount (beginAssignment foreign_env ''other'' sample_node) \<le> 1
   \<and> fst (assignmentAdmitted ''other'' (beginAssignment foreign_env ''other'' sample_node)) = False"
proof -
  have n: "inflightCount sample_node = 1" "ne_Capacity foreign_env = 1" "nd_reservations sample_node = []"
    by (simp_all add: inflightCount_def sample_node_def appended_worker_def foreign_env_def)
  from admission_respects_capacity [of sample_node foreign_env "''other''"] n show ?thesis by simp
qed

section \<open>Retry loops\<close>

text \<open>The control calls of \<open>k\<close> attempts.\<close>

abbreviation acksAfter :: "attempt_identity \<Rightarrow> 's node_state \<Rightarrow> nat \<Rightarrow> control_call list" where
  "acksAfter identity nd k \<equiv> nd_controls nd @ replicate k (ControlAck (sdkAttemptIdentity identity))"

text \<open>The \<open>k\<close>-th attempt ends the loop: an answer, an error that is not retried, or the end of the context.\<close>

definition ackSettles :: "'s node_env \<Rightarrow> attempt_identity \<Rightarrow> 's node_state \<Rightarrow> nat \<Rightarrow> nat \<Rightarrow> bool" where
  "ackSettles ne identity nd n k \<longleftrightarrow>
     (case ne_ack ne (acksAfter identity nd k) (sdkAttemptIdentity identity) of
        Inr confirmed \<Rightarrow> True
      | Inl e \<Rightarrow> runtimeErrorIsPermanent e \<or> leaseLost e
          \<or> ne_waitRetry ne (acksAfter identity nd (k + 1)) (n + k) \<noteq> None)"

lemma ack_returns:
  assumes "ackSettles ne identity nd n k" and "\<forall>j < k. \<not> ackSettles ne identity nd n j"
  shows "\<exists>r. ackAssignmentWithRetry ne identity n nd = Some (r, nd\<lparr>nd_controls := acksAfter identity nd (k + 1)\<rparr>)"
  using assms
proof (induction k arbitrary: n nd)
  case 0
  then show ?case
    by (subst ackAssignmentWithRetry.simps)
       (auto simp: ackSettles_def control_def Let_def split: sum.splits option.splits)
next
  case (Suc k)
  let ?nd1 = "control (ControlAck (sdkAttemptIdentity identity)) nd"
  have app: "acksAfter identity ?nd1 j = acksAfter identity nd (Suc j)" for j
    by (simp add: control_def)
  have shift: "ackSettles ne identity ?nd1 (n + 1) j = ackSettles ne identity nd n (Suc j)" for j
    unfolding ackSettles_def app by (simp split: sum.split)
  from Suc.prems have "\<not> ackSettles ne identity nd n 0" by blast
  then obtain e where e: "ne_ack ne (nd_controls nd) (sdkAttemptIdentity identity) = Inl e"
    "\<not> runtimeErrorIsPermanent e" "\<not> leaseLost e" "ne_waitRetry ne (nd_controls ?nd1) n = None"
    by (auto simp: ackSettles_def control_def split: sum.splits)
  have "\<exists>r. ackAssignmentWithRetry ne identity (n + 1) ?nd1 = Some (r, ?nd1\<lparr>nd_controls := acksAfter identity ?nd1 (k + 1)\<rparr>)"
    by (rule Suc.IH) (use Suc.prems shift in auto)
  moreover have "?nd1\<lparr>nd_controls := acksAfter identity ?nd1 (k + 1)\<rparr> = nd\<lparr>nd_controls := acksAfter identity nd (Suc k + 1)\<rparr>"
    unfolding app by (simp add: control_def)
  moreover have "ackAssignmentWithRetry ne identity n nd = ackAssignmentWithRetry ne identity (n + 1) ?nd1"
    using e by (subst ackAssignmentWithRetry.simps) (simp add: Let_def)
  ultimately show ?case by simp
qed



section \<open>Deterministic identifiers\<close>

lemma joinParts_alt: "joinParts v ps = v @ concat (map ((#) (CHR 0x00)) ps)"
  by (induction ps arbitrary: v) auto

lemma nul_separated_inj:
  "\<forall>p \<in> set ps. CHR 0x00 \<notin> set p \<Longrightarrow> \<forall>q \<in> set qs. CHR 0x00 \<notin> set q \<Longrightarrow> length ps = length qs \<Longrightarrow>
     concat (map ((#) (CHR 0x00)) ps) = concat (map ((#) (CHR 0x00)) qs) \<Longrightarrow> ps = qs"
proof (induction ps qs rule: list_induct2')
  case (4 p ps q qs)
  let ?c = "\<lambda>xs. concat (map ((#) (CHR 0x00)) xs)"
  have eq: "p @ ?c ps = q @ ?c qs" using "4.prems"(4) by simp
  have stop: "takeWhile ((\<noteq>) (CHR 0x00)) (x @ ?c xs) = x" if "CHR 0x00 \<notin> set x" for x xs
    using that by (induction x) (cases xs; auto)+
  have "p = q" using eq stop [of p ps] stop [of q qs] "4.prems"(1,2) by simp
  with eq 4 show ?case by simp
qed simp_all

lemma version_nibble_5: "(((b::nat) AND 15) OR 80) div 16 = 5" "((b AND 15) OR 80) < 256"
proof -
  have "b AND 15 = take_bit 4 b" by (simp add: take_bit_eq_mask mask_eq_exp_minus_1)
  then have "b AND 15 < 16" by (simp add: take_bit_eq_mod)
  from nibble_cases [OF this] show "((b AND 15) OR 80) div 16 = 5" and "((b AND 15) OR 80) < 256"
    by (elim disjE; simp)+
qed

lemma formatUUID_valid_5:
  assumes "16 \<le> length digest"
  shows "validRuntimeUUID (formatUUID (setUUIDBits 0x50 digest))"
proof -
  let ?w = "setUUIDBits 0x50 digest" and ?u = "formatUUID (setUUIDBits 0x50 digest)"
  have len: "16 \<le> length ?w" using assms by (simp add: setUUIDBits_def Let_def)
  have "?w ! 6 = char_of ((code (digest ! 6) AND 15) OR 80)"
    using assms by (simp add: setUUIDBits_def Let_def)
  then have nib: "code (?w ! 6) div 16 = 5" using version_nibble_5 by simp
  have "take 2 (drop 6 ?w) = [?w ! 6, ?w ! 7]"
    using len by (simp add: list_eq_iff_nth_eq less_Suc_eq numeral_eq_Suc)
  with nib have "?u ! 14 = hexChar 5"
    using len by (simp add: formatUUID_def nth_append)
  then have nz: "?u \<noteq> zeroUUID"
    by (auto simp: zeroUUID_def hexChar_def hexDigits_def)
  show ?thesis
    by (rule uuid_shape [OF _ _ _ _ _ _ formatUUID_def [of ?w] nz])
       (use len in \<open>auto dest: lowerHex_hexEncode\<close>)
qed

text \<open>
  The identifiers that the worker derives from an attempt and its lease are well formed
  whatever the digest (SHA-256 is a parameter, of which only the length of its output is used),
  and the text that is hashed determines its parts: two lists of the same number of parts that
  hold no NUL byte, as identifiers never do, are hashed as the same text only if they are equal.
\<close>

lemma deterministic_ids:
  assumes "\<And>text. length (sha256 text) = 32"
    and "\<forall>p \<in> set (parts @ other). CHR 0x00 \<notin> set p" and "length parts = length other"
  shows "validRuntimeUUID (deterministicRuntimeUUID sha256 parts)
    \<and> (joinRuntimeIdentityParts parts = joinRuntimeIdentityParts other \<longleftrightarrow> parts = other)"
proof
  show "validRuntimeUUID (deterministicRuntimeUUID sha256 parts)"
    unfolding deterministicRuntimeUUID_def by (rule formatUUID_valid_5) (simp add: assms(1))
  show "joinRuntimeIdentityParts parts = joinRuntimeIdentityParts other \<longleftrightarrow> parts = other"
    using nul_separated_inj [of parts other] assms(2,3)
    by (auto simp: joinRuntimeIdentityParts_def joinParts_alt)
qed

end
