(* ===== verification/Worker_RetryLog.thy ===== *)
theory Worker_RetryLog
  imports Worker_Assignment
begin

text \<open>
  The diagnostic log of automatic retries (runtime_worker_retry_log.go): the rate limiter per
  cause with its overflow bucket, the text of a line, the key of its cause, and the shape of
  platform codes. Properties: a cause is logged at most once per interval in bounded memory,
  and a line holds no text of the error's message.
\<close>

section \<open>The limiter\<close>

text \<open>\<^verbatim>\<open>time.Time.Sub\<close> saturates at the bounds of a duration.\<close>

definition timeSub :: "time \<Rightarrow> time \<Rightarrow> duration" where
  "timeSub t u = max minInt64 (min maxInt64 (t - u))"

record retry_entry =
  rl_last :: time
  rl_suppressed :: int

record retry_limiter =
  lm_entries :: "(string, retry_entry) gomap"
  lm_overflow :: retry_entry

definition runtimeRetryLogInterval :: duration where "runtimeRetryLogInterval = 30 * 1000000000"
definition runtimeRetryLogMaxCauses :: nat where "runtimeRetryLogMaxCauses = 64"

definition zeroLimiter :: retry_limiter where
  "zeroLimiter = \<lparr>lm_entries = [], lm_overflow = \<lparr>rl_last = 0, rl_suppressed = 0\<rparr>\<rparr>"

definition allowRuntimeRetryLogEntry ::
  "retry_entry \<Rightarrow> time \<Rightarrow> duration \<Rightarrow> (bool \<times> int) \<times> retry_entry" where
  "allowRuntimeRetryLogEntry entry now interval =
     (if \<not> isZeroTime (rl_last entry) \<and> timeSub now (rl_last entry) < interval
      then ((False, 0), entry\<lparr>rl_suppressed := add64 (rl_suppressed entry) 1\<rparr>)
      else ((True, rl_suppressed entry), entry\<lparr>rl_last := now, rl_suppressed := 0\<rparr>))"

text \<open>The loop of \<^verbatim>\<open>evictOldestExpiredLocked\<close> over the entries in the order of the \<^verbatim>\<open>range\<close>.\<close>

fun oldestExpired :: "time \<Rightarrow> duration \<Rightarrow> string \<Rightarrow> time \<Rightarrow> (string \<times> retry_entry) list \<Rightarrow> string" where
  "oldestExpired now interval oldestKey oldest [] = oldestKey"
| "oldestExpired now interval oldestKey oldest ((key, entry) # rest) =
     (if timeSub now (rl_last entry) < interval then oldestExpired now interval oldestKey oldest rest
      else if oldestKey = [] \<or> rl_last entry < oldest then oldestExpired now interval key (rl_last entry) rest
      else oldestExpired now interval oldestKey oldest rest)"

text \<open>
  Go visits a map in an unspecified order that may change from call to call: \<open>visit\<close> is the
  order of the keys in this call.
\<close>

definition inOrder :: "string list \<Rightarrow> (string, retry_entry) gomap \<Rightarrow> (string \<times> retry_entry) list" where
  "inOrder visit entries =
     concat (map (\<lambda>key. case map_of entries key of None \<Rightarrow> [] | Some entry \<Rightarrow> [(key, entry)]) visit)"

definition evictOldestExpiredLocked ::
  "string list \<Rightarrow> time \<Rightarrow> duration \<Rightarrow> retry_limiter \<Rightarrow> bool \<times> retry_limiter" where
  "evictOldestExpiredLocked visit now interval lm =
     (let oldestKey = oldestExpired now interval [] 0 (inOrder visit (lm_entries lm)) in
      if oldestKey = [] then (False, lm)
      else (True, lm\<lparr>lm_entries := AList.delete oldestKey (lm_entries lm)\<rparr>))"

definition allow ::
  "string list \<Rightarrow> string \<Rightarrow> time \<Rightarrow> duration \<Rightarrow> retry_limiter \<Rightarrow> (bool \<times> int) \<times> retry_limiter" where
  "allow visit key now interval lm =
     (case map_of (lm_entries lm) key of
        Some entry \<Rightarrow>
          (case allowRuntimeRetryLogEntry entry now interval of
             (r, entry1) \<Rightarrow> (r, lm\<lparr>lm_entries := AList.update key entry1 (lm_entries lm)\<rparr>))
      | None \<Rightarrow>
          (case (if runtimeRetryLogMaxCauses \<le> length (lm_entries lm)
                 then evictOldestExpiredLocked visit now interval lm else (True, lm)) of
             (False, lm1) \<Rightarrow>
               (case allowRuntimeRetryLogEntry (lm_overflow lm1) now interval of
                  (r, entry1) \<Rightarrow> (r, lm1\<lparr>lm_overflow := entry1\<rparr>))
           | (True, lm1) \<Rightarrow>
               if \<not> isZeroTime (rl_last (lm_overflow lm1)) \<and> timeSub now (rl_last (lm_overflow lm1)) < interval
               then ((False, 0), lm1\<lparr>lm_entries :=
                      AList.update key \<lparr>rl_last = rl_last (lm_overflow lm1), rl_suppressed = 1\<rparr> (lm_entries lm1)\<rparr>)
               else ((True, 0), lm1\<lparr>lm_entries :=
                      AList.update key \<lparr>rl_last = now, rl_suppressed = 0\<rparr> (lm_entries lm1)\<rparr>)))"

text \<open>A sequence of calls: key, time and order of the \<^verbatim>\<open>range\<close> of each.\<close>

type_synonym retry_call = "string \<times> time \<times> string list"

fun allowRun :: "duration \<Rightarrow> retry_call list \<Rightarrow> retry_limiter \<Rightarrow> (bool \<times> int) list \<times> retry_limiter" where
  "allowRun interval [] lm = ([], lm)"
| "allowRun interval ((key, now, visit) # calls) lm =
     (case allow visit key now interval lm of
        (r, lm1) \<Rightarrow> (case allowRun interval calls lm1 of (rs, lm2) \<Rightarrow> (r # rs, lm2)))"

section \<open>The rate of a cause\<close>

text \<open>
  What the limiter remembers of the last line of every cause (\<open>logged\<close>): it is older than the
  interval, or the entry of the cause, or else the overflow bucket, blocks the cause as long.
\<close>

definition remembers :: "duration \<Rightarrow> time \<Rightarrow> retry_limiter \<Rightarrow> string \<Rightarrow> time \<Rightarrow> bool" where
  "remembers interval now lm key t \<longleftrightarrow>
     t + interval \<le> now
     \<or> t \<le> (case map_of (lm_entries lm) key of Some entry \<Rightarrow> rl_last entry | None \<Rightarrow> rl_last (lm_overflow lm))"

definition limiter_inv :: "duration \<Rightarrow> time \<Rightarrow> (string \<Rightarrow> time option) \<Rightarrow> retry_limiter \<Rightarrow> bool" where
  "limiter_inv interval now logged lm \<longleftrightarrow>
     gomap_ok (lm_entries lm) \<and> length (lm_entries lm) \<le> runtimeRetryLogMaxCauses
     \<and> (\<forall>key t. logged key = Some t \<longrightarrow> 0 < t \<and> t \<le> now \<and> remembers interval now lm key t)"

lemma timeSub_less: "interval \<le> maxInt64 \<Longrightarrow> minInt64 < interval \<Longrightarrow> timeSub t u < interval \<longleftrightarrow> t < u + interval"
  by (auto simp: timeSub_def)

lemma oldestExpired_expired:
  assumes "oldestExpired now interval k0 t0 es = key" and "key \<noteq> k0"
  shows "\<exists>entry. (key, entry) \<in> set es \<and> \<not> timeSub now (rl_last entry) < interval"
  using assms by (induction now interval k0 t0 es rule: oldestExpired.induct) (auto split: if_splits)

lemma inOrder_mem: "(key, entry) \<in> set (inOrder visit m) \<Longrightarrow> map_of m key = Some entry"
  by (auto simp: inOrder_def split: option.splits)

lemma evict_spec:
  assumes "evictOldestExpiredLocked visit now interval lm = (True, lm1)"
  obtains key entry where "map_of (lm_entries lm) key = Some entry" "\<not> timeSub now (rl_last entry) < interval"
    "lm1 = lm\<lparr>lm_entries := AList.delete key (lm_entries lm)\<rparr>"
  using assms oldestExpired_expired [of now interval "[]" 0 "inOrder visit (lm_entries lm)"]
  by (auto simp: evictOldestExpiredLocked_def Let_def split: if_splits dest!: inOrder_mem)

lemma evict_inv:
  assumes "limiter_inv interval now logged lm" and "interval \<le> maxInt64" and "minInt64 < interval"
    and "evictOldestExpiredLocked visit now interval lm = (True, lm1)"
  shows "limiter_inv interval now logged lm1 \<and> length (lm_entries lm1) < runtimeRetryLogMaxCauses
    \<and> lm_overflow lm1 = lm_overflow lm \<and> (\<forall>k. map_of (lm_entries lm) k = None \<longrightarrow> map_of (lm_entries lm1) k = None)"
proof -
  obtain key entry where e: "map_of (lm_entries lm) key = Some entry" "\<not> timeSub now (rl_last entry) < interval"
    and lm1: "lm1 = lm\<lparr>lm_entries := AList.delete key (lm_entries lm)\<rparr>"
    using assms(4) by (rule evict_spec)
  have ok: "gomap_ok (lm_entries lm)" using assms(1) by (simp add: limiter_inv_def)
  have old: "rl_last entry + interval \<le> now" using e(2) timeSub_less [OF assms(2,3)] by (simp add: not_less)
  have "lm_entries lm \<noteq> []" using e(1) by auto
  then have "length (lm_entries lm1) < runtimeRetryLogMaxCauses"
    using assms(1) length_delete [OF ok e(1)] by (cases "lm_entries lm") (auto simp: limiter_inv_def lm1)
  moreover have "remembers interval now lm1 k t" if "logged k = Some t" for k t
  proof -
    have "remembers interval now lm k t" using assms(1) that by (simp add: limiter_inv_def)
    then show ?thesis using old e(1) by (cases "k = key") (auto simp: remembers_def lm1 split: option.splits)
  qed
  ultimately show ?thesis
    using assms(1) ok by (auto simp: limiter_inv_def lm1)
qed

lemma length_update_known: "map_of m k = Some v \<Longrightarrow> length (AList.update k u m) = length m"
  by (induction m) (auto split: if_splits)

lemma remembers_put:
  "remembers interval now (lm\<lparr>lm_entries := AList.update key entry (lm_entries lm)\<rparr>) k t \<longleftrightarrow>
     (if k = key then t + interval \<le> now \<or> t \<le> rl_last entry else remembers interval now lm k t)"
  by (simp add: remembers_def cong: option.case_cong)

text \<open>Storing an entry keeps the invariant when it blocks its cause as long as before, or anew.\<close>

lemma put_inv:
  assumes "limiter_inv interval now logged lm" and "0 < now"
    and "length (lm_entries lm) < runtimeRetryLogMaxCauses \<or> map_of (lm_entries lm) key \<noteq> None"
    and "logs \<Longrightarrow> rl_last entry = now"
    and "\<And>t. \<not> logs \<Longrightarrow> logged key = Some t \<Longrightarrow> t + interval \<le> now \<or> t \<le> rl_last entry"
  shows "limiter_inv interval now (if logs then logged(key \<mapsto> now) else logged)
    (lm\<lparr>lm_entries := AList.update key entry (lm_entries lm)\<rparr>)"
proof -
  have len: "length (AList.update key entry m) \<le> n" if "length m < n \<or> map_of m key \<noteq> None" "length m \<le> n"
    for m :: "(string, retry_entry) gomap" and n
    using that by (cases "map_of m key") (auto simp: update_fresh length_update_known)
  have "remembers interval now (lm\<lparr>lm_entries := AList.update key entry (lm_entries lm)\<rparr>) k t"
    if "(if logs then logged(key \<mapsto> now) else logged) k = Some t" for k t
    using assms that unfolding remembers_put by (auto simp: limiter_inv_def split: if_splits)
  then show ?thesis
    using assms(1,2) len [OF assms(3)] by (auto simp: limiter_inv_def split: if_splits)
qed

lemma blocked:
  assumes "limiter_inv interval now logged lm" and "interval \<le> maxInt64" "minInt64 < interval"
    and "logged key = Some t"
    and "l = (case map_of (lm_entries lm) key of Some entry \<Rightarrow> rl_last entry | None \<Rightarrow> rl_last (lm_overflow lm))"
  shows "t + interval \<le> now \<or> t \<le> l"
    and "isZeroTime l \<or> \<not> timeSub now l < interval \<Longrightarrow> t + interval \<le> now"
proof -
  have r: "0 < t" "t + interval \<le> now \<or> t \<le> l"
    using assms(1,4,5) by (auto simp: limiter_inv_def remembers_def)
  then show "t + interval \<le> now \<or> t \<le> l" by simp
  show "t + interval \<le> now" if "isZeroTime l \<or> \<not> timeSub now l < interval"
    using r that timeSub_less [OF assms(2,3)] by (auto simp: isZeroTime_def)
qed

lemma overflow_inv:
  assumes inv: "limiter_inv interval now logged lm" and "interval \<le> maxInt64" "minInt64 < interval" "0 < now"
    and fresh: "map_of (lm_entries lm) key = None"
    and call: "allowRuntimeRetryLogEntry (lm_overflow lm) now interval = ((logs, n), entry)"
  shows "limiter_inv interval now (if logs then logged(key \<mapsto> now) else logged) (lm\<lparr>lm_overflow := entry\<rparr>)"
proof -
  have grow: "remembers interval now (lm\<lparr>lm_overflow := entry\<rparr>) k t"
    if "remembers interval now lm k t" "t \<le> now" for k t
    using call that by (auto simp: remembers_def allowRuntimeRetryLogEntry_def split: if_splits option.splits)
  have "remembers interval now (lm\<lparr>lm_overflow := entry\<rparr>) key now" if logs
    using call that fresh by (auto simp: remembers_def allowRuntimeRetryLogEntry_def split: if_splits)
  with grow inv assms(4) show ?thesis by (auto simp: limiter_inv_def split: if_splits)
qed

lemma allow_tracked:
  assumes inv: "limiter_inv interval now logged lm" and I: "interval \<le> maxInt64" "minInt64 < interval" "0 < now"
    and e: "map_of (lm_entries lm) key = Some entry"
    and call: "allow visit key now interval lm = ((logs, n), lm')"
  shows "limiter_inv interval now (if logs then logged(key \<mapsto> now) else logged) lm'
    \<and> (logs \<longrightarrow> (\<forall>t. logged key = Some t \<longrightarrow> t + interval \<le> now))"
proof -
  obtain entry1 where a: "allowRuntimeRetryLogEntry entry now interval = ((logs, n), entry1)"
    and lm': "lm' = lm\<lparr>lm_entries := AList.update key entry1 (lm_entries lm)\<rparr>"
    using call e by (auto simp: allow_def split: prod.splits)
  have b: "t + interval \<le> now \<or> t \<le> rl_last entry"
    "isZeroTime (rl_last entry) \<or> \<not> timeSub now (rl_last entry) < interval \<Longrightarrow> t + interval \<le> now"
    if "logged key = Some t" for t
    using blocked [OF inv I(1,2) that] e by auto
  have "limiter_inv interval now (if logs then logged(key \<mapsto> now) else logged) lm'"
    unfolding lm' by (rule put_inv [OF inv I(3)])
      (use a b e in \<open>auto simp: allowRuntimeRetryLogEntry_def split: if_splits\<close>)
  with a b show ?thesis by (auto simp: allowRuntimeRetryLogEntry_def split: if_splits)
qed

lemma allow_new:
  assumes inv: "limiter_inv interval now logged lm" and I: "interval \<le> maxInt64" "minInt64 < interval" "0 < now"
    and fresh: "map_of (lm_entries lm) key = None" and room: "length (lm_entries lm) < runtimeRetryLogMaxCauses"
    and call: "(if \<not> isZeroTime (rl_last (lm_overflow lm)) \<and> timeSub now (rl_last (lm_overflow lm)) < interval
       then ((False, 0), lm\<lparr>lm_entries :=
              AList.update key \<lparr>rl_last = rl_last (lm_overflow lm), rl_suppressed = 1\<rparr> (lm_entries lm)\<rparr>)
       else ((True, 0), lm\<lparr>lm_entries :=
              AList.update key \<lparr>rl_last = now, rl_suppressed = 0\<rparr> (lm_entries lm)\<rparr>)) = ((logs, n), lm')"
  shows "limiter_inv interval now (if logs then logged(key \<mapsto> now) else logged) lm'
    \<and> (logs \<longrightarrow> (\<forall>t. logged key = Some t \<longrightarrow> t + interval \<le> now))"
proof -
  let ?l = "rl_last (lm_overflow lm)"
  have b: "t + interval \<le> now \<or> t \<le> ?l" "isZeroTime ?l \<or> \<not> timeSub now ?l < interval \<Longrightarrow> t + interval \<le> now"
    if "logged key = Some t" for t
    using blocked [OF inv I(1,2) that] fresh by auto
  have "limiter_inv interval now (if logs then logged(key \<mapsto> now) else logged)
      (lm\<lparr>lm_entries := AList.update key entry (lm_entries lm)\<rparr>)"
    if "logs \<Longrightarrow> rl_last entry = now" "\<not> logs \<Longrightarrow> rl_last entry = ?l" for entry
    by (rule put_inv [OF inv I(3)]) (use room b(1) that in auto)
  with call b(2) show ?thesis by (auto split: if_splits)
qed

lemma allow_inv:
  assumes inv: "limiter_inv interval now logged lm" and I: "interval \<le> maxInt64" "minInt64 < interval" "0 < now"
    and call: "allow visit key now interval lm = ((logs, n), lm')"
  shows "limiter_inv interval now (if logs then logged(key \<mapsto> now) else logged) lm'
    \<and> (logs \<longrightarrow> (\<forall>t. logged key = Some t \<longrightarrow> t + interval \<le> now))"
proof (cases "map_of (lm_entries lm) key")
  case (Some entry)
  from allow_tracked [OF inv I this call] show ?thesis .
next
  case fresh: None
  show ?thesis
  proof (cases "length (lm_entries lm) < runtimeRetryLogMaxCauses")
    case True
    show ?thesis by (rule allow_new [OF inv I fresh True]) (use call fresh True in \<open>simp add: allow_def\<close>)
  next
    case False
    obtain ok lm1 where ev: "evictOldestExpiredLocked visit now interval lm = (ok, lm1)" by fastforce
    show ?thesis
    proof (cases ok)
      case True
      with evict_inv [OF inv I(1,2)] ev
      have lm1: "limiter_inv interval now logged lm1" "length (lm_entries lm1) < runtimeRetryLogMaxCauses"
        "map_of (lm_entries lm1) key = None"
        using fresh by auto
      show ?thesis
        by (rule allow_new [OF lm1(1) I lm1(3,2)]) (use call fresh False ev True in \<open>simp add: allow_def\<close>)
    next
      case full: False
      have "lm1 = lm" using ev full by (auto simp: evictOldestExpiredLocked_def Let_def split: if_splits)
      then obtain entry where a: "allowRuntimeRetryLogEntry (lm_overflow lm) now interval = ((logs, n), entry)"
        and lm': "lm' = lm\<lparr>lm_overflow := entry\<rparr>"
        using call fresh False ev full by (auto simp: allow_def split: prod.splits)
      have "t + interval \<le> now" if "logs" "logged key = Some t" for t
        using blocked(2) [OF inv I(1,2) that(2)] a that(1) fresh
        by (auto simp: allowRuntimeRetryLogEntry_def split: if_splits)
      with overflow_inv [OF inv I fresh a] show ?thesis unfolding lm' by blast
    qed
  qed
qed

abbreviation callTimes :: "retry_call list \<Rightarrow> time list" where
  "callTimes calls \<equiv> map (\<lambda>c. fst (snd c)) calls"

lemma limiter_inv_later: "limiter_inv interval now logged lm \<Longrightarrow> now \<le> later \<Longrightarrow> limiter_inv interval later logged lm"
  by (fastforce simp: limiter_inv_def remembers_def)

lemma allow_step:
  assumes "limiter_inv interval now logged lm" and I: "interval \<le> maxInt64" "minInt64 < interval" and "0 < now"
    and "sorted (now # callTimes ((key, at, visit) # calls))"
  obtains logs n lm1 where "allow visit key at interval lm = ((logs, n), lm1)"
    "limiter_inv interval at logged lm" "limiter_inv interval at (if logs then logged(key \<mapsto> at) else logged) lm1"
    "0 < at" "sorted (at # callTimes calls)" "logs \<longrightarrow> (\<forall>t. logged key = Some t \<longrightarrow> t + interval \<le> at)"
proof -
  have le: "now \<le> at" "0 < at" "sorted (at # callTimes calls)" using assms(4,5) by auto
  obtain logs n lm1 where a: "allow visit key at interval lm = ((logs, n), lm1)"
    by (metis surj_pair)
  have inv: "limiter_inv interval at logged lm" by (rule limiter_inv_later [OF assms(1) le(1)])
  show ?thesis using allow_inv [OF inv I le(2) a] by (intro that [OF a inv _ le(2,3)]) auto
qed

text \<open>No line of a later call comes within the interval after a line that is already logged.\<close>

lemma allowRun_after:
  assumes "limiter_inv interval now logged lm" and "interval \<le> maxInt64" "minInt64 < interval" "0 < now"
    and "sorted (now # callTimes calls)" and "j < length calls"
    and "fst (fst (allowRun interval calls lm) ! j)" and "logged (fst (calls ! j)) = Some t"
  shows "t + interval \<le> fst (snd (calls ! j))"
  using assms
proof (induction calls arbitrary: now logged lm j t)
  case (Cons call calls)
  obtain key at visit where call: "call = (key, at, visit)" by (cases call)
  obtain logs n lm1 where a: "allow visit key at interval lm = ((logs, n), lm1)"
    and inv1: "limiter_inv interval at logged lm"
    and inv: "limiter_inv interval at (if logs then logged(key \<mapsto> at) else logged) lm1"
    and at: "0 < at" and sorted: "sorted (at # callTimes calls)"
    and now: "logs \<longrightarrow> (\<forall>t. logged key = Some t \<longrightarrow> t + interval \<le> at)"
    by (rule allow_step [OF Cons.prems(1-4) Cons.prems(5) [unfolded call]])
  let ?logged = "if logs then logged(key \<mapsto> at) else logged"
  show ?case
  proof (cases j)
    case 0
    with Cons.prems(7,8) now a show ?thesis by (simp add: call split: prod.splits)
  next
    case (Suc i)
    have i: "i < length calls" "fst (fst (allowRun interval calls lm1) ! i)"
      using Cons.prems(6,7) Suc a by (auto simp: call split: prod.splits)
    obtain t' where t': "?logged (fst (calls ! i)) = Some t'" "t \<le> t'"
      using Cons.prems(8) inv1 Suc
      by (cases "logs \<and> fst (calls ! i) = key") (auto simp: limiter_inv_def)
    from Cons.IH [OF inv Cons.prems(2,3) at sorted i t'(1)] t'(2) Suc show ?thesis by simp
  qed
qed simp

lemma allowRun_spaced:
  assumes "limiter_inv interval now logged lm" and "interval \<le> maxInt64" "minInt64 < interval" "0 < now"
    and "sorted (now # callTimes calls)" and "i < j" "j < length calls" "fst (calls ! i) = fst (calls ! j)"
    and "fst (fst (allowRun interval calls lm) ! i)" "fst (fst (allowRun interval calls lm) ! j)"
  shows "fst (snd (calls ! i)) + interval \<le> fst (snd (calls ! j))"
  using assms
proof (induction calls arbitrary: now logged lm i j)
  case (Cons call calls)
  obtain key at visit where call: "call = (key, at, visit)" by (cases call)
  obtain logs n lm1 where a: "allow visit key at interval lm = ((logs, n), lm1)"
    and inv1: "limiter_inv interval at logged lm"
    and inv: "limiter_inv interval at (if logs then logged(key \<mapsto> at) else logged) lm1"
    and at: "0 < at" and sorted: "sorted (at # callTimes calls)"
    and now: "logs \<longrightarrow> (\<forall>t. logged key = Some t \<longrightarrow> t + interval \<le> at)"
    by (rule allow_step [OF Cons.prems(1-4) Cons.prems(5) [unfolded call]])
  obtain j' where j: "j = Suc j'" using Cons.prems(6) by (cases j) auto
  have j': "j' < length calls" "fst (fst (allowRun interval calls lm1) ! j')"
    using Cons.prems(7,10) a by (auto simp: call j split: prod.splits)
  show ?case
  proof (cases i)
    case 0
    with Cons.prems(8,9) a inv have "logs" "fst (calls ! j') = key"
      by (auto simp: call j split: prod.splits)
    with allowRun_after [OF inv Cons.prems(2,3) at sorted j', of at] 0 show ?thesis by (simp add: call j)
  next
    case (Suc i')
    from Cons.IH [OF inv Cons.prems(2,3) at sorted _ j'(1) _ _ j'(2), of i'] Cons.prems(6,8,9) a Suc
    show ?thesis by (simp add: call j split: prod.splits)
  qed
qed simp

lemma allowRun_bounded:
  assumes "limiter_inv interval now logged lm" and "interval \<le> maxInt64" "minInt64 < interval" "0 < now"
    and "sorted (now # callTimes calls)"
  shows "length (lm_entries (snd (allowRun interval calls lm))) \<le> runtimeRetryLogMaxCauses"
  using assms
proof (induction calls arbitrary: now logged lm)
  case (Cons call calls)
  obtain key at visit where call: "call = (key, at, visit)" by (cases call)
  obtain logs n lm1 where a: "allow visit key at interval lm = ((logs, n), lm1)"
    and inv1: "limiter_inv interval at logged lm"
    and inv: "limiter_inv interval at (if logs then logged(key \<mapsto> at) else logged) lm1"
    and at: "0 < at" and sorted: "sorted (at # callTimes calls)"
    and now: "logs \<longrightarrow> (\<forall>t. logged key = Some t \<longrightarrow> t + interval \<le> at)"
    by (rule allow_step [OF Cons.prems(1-4) Cons.prems(5) [unfolded call]])
  from Cons.IH [OF inv Cons.prems(2,3) at sorted] a show ?case
    by (cases "allowRun interval calls lm1") (simp add: call)
qed (simp add: limiter_inv_def)

lemma zero_inv: "limiter_inv interval now (\<lambda>key. None) zeroLimiter"
  by (simp add: limiter_inv_def zeroLimiter_def)

text \<open>
  C34. The retry log is rate limited in bounded memory: in any sequence of calls whose clock does
  not go back, whatever order Go visits its map in, two lines of the same cause are at least the
  interval apart, also when the cause moved between its own entry and the overflow bucket, and at
  most 64 causes are tracked.
\<close>

theorem retry_log_rate_limited:
  assumes "sorted (callTimes calls)" and "\<forall>c \<in> set calls. 0 < fst (snd c)"
  shows "length (lm_entries (snd (allowRun runtimeRetryLogInterval calls zeroLimiter))) \<le> 64
    \<and> (\<forall>i j. i < j \<and> j < length calls \<and> fst (calls ! i) = fst (calls ! j)
         \<and> fst (fst (allowRun runtimeRetryLogInterval calls zeroLimiter) ! i)
         \<and> fst (fst (allowRun runtimeRetryLogInterval calls zeroLimiter) ! j)
       \<longrightarrow> fst (snd (calls ! i)) + runtimeRetryLogInterval \<le> fst (snd (calls ! j)))"
proof (cases calls)
  case Nil
  then show ?thesis by (simp add: zeroLimiter_def)
next
  case (Cons c cs)
  let ?now = "fst (snd c)"
  have I: "runtimeRetryLogInterval \<le> maxInt64" "minInt64 < runtimeRetryLogInterval"
    by (simp_all add: runtimeRetryLogInterval_def maxInt64_def minInt64_def)
  have now: "0 < ?now" "sorted (?now # callTimes calls)" using assms Cons by auto
  show ?thesis
    using allowRun_bounded [OF zero_inv I now] allowRun_spaced [OF zero_inv I now]
    by (simp add: runtimeRetryLogMaxCauses_def)
qed

theorem retry_log_rate_limited_witness:
  "map fst (fst (allowRun runtimeRetryLogInterval
      [(''claim'', 1000000000, []), (''claim'', 2000000000, []), (''claim'', 31000000000, [])] zeroLimiter)) = [True, False, True]
   \<and> 1000000000 + runtimeRetryLogInterval \<le> 31000000000"
proof -
  let ?cs = "[(''claim'', 1000000000, []), (''claim'', 2000000000, []), (''claim'', 31000000000, [])] :: retry_call list"
  have run: "map fst (fst (allowRun runtimeRetryLogInterval ?cs zeroLimiter)) = [True, False, True]"
    by (simp add: allow_def zeroLimiter_def allowRuntimeRetryLogEntry_def runtimeRetryLogMaxCauses_def
        runtimeRetryLogInterval_def isZeroTime_def timeSub_def maxInt64_def minInt64_def)
  then have "fst (fst (allowRun runtimeRetryLogInterval ?cs zeroLimiter) ! 0)"
    "fst (fst (allowRun runtimeRetryLogInterval ?cs zeroLimiter) ! 2)"
    by (auto simp: map_eq_Cons_conv)
  moreover have "sorted (callTimes ?cs)" "\<forall>c \<in> set ?cs. 0 < fst (snd c)" by simp_all
  from retry_log_rate_limited [OF this, THEN conjunct2, rule_format, of 0 2]
  have "fst (fst (allowRun runtimeRetryLogInterval ?cs zeroLimiter) ! 0) \<Longrightarrow>
      fst (fst (allowRun runtimeRetryLogInterval ?cs zeroLimiter) ! 2) \<Longrightarrow>
      1000000000 + runtimeRetryLogInterval \<le> 31000000000" by (simp del: allowRun.simps)
  ultimately have "1000000000 + runtimeRetryLogInterval \<le> 31000000000" by blast
  with run show ?thesis by blast
qed

section \<open>The text of a line\<close>

text \<open>
  An error as \<^verbatim>\<open>errors.As\<close> and \<^verbatim>\<open>errors.Is\<close> see it: the first \<^verbatim>\<open>*Error\<close> (status and code), the
  first WebSocket close code, the first capacity change (attached and current), the operation of
  the first \<^verbatim>\<open>*url.Error\<close>, which sentinels and which error types of the standard library are in
  the chain (for \<^verbatim>\<open>net.Error\<close> with its \<^verbatim>\<open>Timeout\<close>), and the types along \<^verbatim>\<open>errors.Unwrap\<close>: whether
  the base type has a name, and \<^verbatim>\<open>reflect.Type.String\<close>.
\<close>

record error_view =
  vw_Error :: "(int \<times> string) option"
  vw_CloseError :: "int option"
  vw_CapacityChanged :: "(int \<times> int) option"
  vw_URLOp :: "string option"
  vw_Canceled :: bool
  vw_DeadlineExceeded :: bool
  vw_TransportSwitching :: bool
  vw_ProtocolMismatch :: bool
  vw_ECONNREFUSED :: bool
  vw_ECONNRESET :: bool
  vw_EPIPE :: bool
  vw_EOF :: bool
  vw_UnexpectedEOF :: bool
  vw_DNSError :: bool
  vw_CertificateVerification :: bool
  vw_UnknownAuthority :: bool
  vw_HostnameError :: bool
  vw_CertificateInvalid :: bool
  vw_RecordHeader :: bool
  vw_AlertError :: bool
  vw_NetError :: "bool option"
  vw_Types :: "(bool \<times> string) list"

fun codeShapeLoop :: "nat \<Rightarrow> string \<Rightarrow> bool" where
  "codeShapeLoop index [] = True"
| "codeShapeLoop index (character # rest) =
     (if upperByte character then codeShapeLoop (index + 1) rest
      else if index > 0 \<and> (digitByte character \<or> character = CHR ''_'') then codeShapeLoop (index + 1) rest
      else False)"

definition runtimePlatformCodeShape :: "string \<Rightarrow> bool" where
  "runtimePlatformCodeShape v = (if length v < 2 \<or> length v > 64 then False else codeShapeLoop 0 v)"

definition runtimeLoggableCode :: "string \<Rightarrow> string" where
  "runtimeLoggableCode v = (if runtimePlatformCodeShape v then v else ''UNRECOGNIZED_CODE'')"

fun typeNameLoop :: "string \<Rightarrow> string \<Rightarrow> string" where
  "typeNameLoop name [] = name"
| "typeNameLoop name (character # rest) =
     (if smallByte character \<or> upperByte character \<or> digitByte character
         \<or> character = CHR ''_'' \<or> character = CHR ''.'' \<or> character = CHR ''*''
      then typeNameLoop name rest else ''unnamed'')"

definition runtimeErrorTypeName :: "bool \<times> string \<Rightarrow> string" where
  "runtimeErrorTypeName t = (if \<not> fst t then ''unnamed'' else typeNameLoop (snd t) (snd t))"

fun joinStrings :: "string \<Rightarrow> string list \<Rightarrow> string" where
  "joinStrings sep [] = []"
| "joinStrings sep [s] = s"
| "joinStrings sep (s # t # ss) = s @ sep @ joinStrings sep (t # ss)"

definition runtimeErrorTypeChain :: "error_view \<Rightarrow> string" where
  "runtimeErrorTypeChain err = joinStrings '' > '' (map runtimeErrorTypeName (take 4 (vw_Types err)))"

definition runtimeRetryErrorClass :: "error_view \<Rightarrow> string" where
  "runtimeRetryErrorClass err =
     (let operation = (case vw_URLOp err of
            None \<Rightarrow> []
          | Some op \<Rightarrow> if op \<in> {''Get'', ''Post'', ''Put'', ''Patch'', ''Delete'', ''Head''} then op @ '' request: '' else [])
      in if vw_DeadlineExceeded err then operation @ ''timeout''
         else if vw_Canceled err then operation @ ''canceled''
         else if vw_ECONNREFUSED err then operation @ ''connection refused''
         else if vw_ECONNRESET err then operation @ ''connection reset''
         else if vw_EPIPE err then operation @ ''broken pipe''
         else if vw_EOF err \<or> vw_UnexpectedEOF err then operation @ ''connection closed unexpectedly''
         else if vw_DNSError err then operation @ ''DNS lookup failed''
         else if vw_CertificateVerification err \<or> vw_UnknownAuthority err \<or> vw_HostnameError err
                 \<or> vw_CertificateInvalid err \<or> vw_RecordHeader err \<or> vw_AlertError err
         then operation @ ''TLS handshake failed''
         else if vw_NetError err = Some True then operation @ ''timeout''
         else if vw_ProtocolMismatch err then ''Runtime protocol mismatch''
         else if vw_NetError err \<noteq> None \<or> vw_URLOp err \<noteq> None then operation @ ''network error''
         else [])"

definition runtimeRetryLogText :: "error_view \<Rightarrow> string" where
  "runtimeRetryLogText err =
     (case vw_Error err of
        Some (status, errCode) \<Rightarrow> runtimeLoggableCode errCode @ '' (HTTP '' @ formatInt status @ '')''
      | None \<Rightarrow>
      (case vw_CloseError err of
        Some closeCode \<Rightarrow> ''WebSocket closed with code '' @ formatInt closeCode
      | None \<Rightarrow>
      (case vw_CapacityChanged err of
        Some (attached, current) \<Rightarrow>
          ''WebSocket attached with capacity '' @ formatInt attached @ ''; current capacity ''
            @ formatInt current @ '' applies on the next attach''
      | None \<Rightarrow>
          let cls = runtimeRetryErrorClass err in
          if cls \<noteq> [] then cls else ''unclassified error ('' @ runtimeErrorTypeChain err @ '')'')))"

text \<open>The messages that are folded are ASCII (see below), so runes are bytes.\<close>

fun foldDigits :: "bool \<Rightarrow> string \<Rightarrow> string" where
  "foldDigits previousDigit [] = []"
| "foldDigits previousDigit (character # rest) =
     (if digitByte character
      then (if previousDigit then [] else ''#'') @ foldDigits True rest
      else character # foldDigits False rest)"

definition runtimeRetryCause :: "error_view \<Rightarrow> string \<Rightarrow> string" where
  "runtimeRetryCause err message =
     (case vw_Error err of
        Some (status, errCode) \<Rightarrow> ''status:'' @ formatInt status @ '':'' @ runtimeLoggableCode errCode
      | None \<Rightarrow>
      (case vw_CloseError err of
        Some closeCode \<Rightarrow> ''ws_close:'' @ formatInt closeCode
      | None \<Rightarrow> ''message:'' @ foldDigits False message))"

text \<open>The log of the worker: the limiter and the lines that \<^verbatim>\<open>node.logf\<close> wrote.\<close>

definition logRuntimeRetry ::
  "string list \<Rightarrow> time \<Rightarrow> string \<Rightarrow> error_view option \<Rightarrow> retry_limiter \<times> string list \<Rightarrow> retry_limiter \<times> string list" where
  "logRuntimeRetry visit now operation err log =
     (case err of
        None \<Rightarrow> log
      | Some e \<Rightarrow>
          if vw_Canceled e \<or> vw_TransportSwitching e then log
          else let message = runtimeRetryLogText e in
            (case allow visit (operation @ CHR 0x00 # runtimeRetryCause e message) now runtimeRetryLogInterval (fst log) of
               ((logs, suppressed), lm) \<Rightarrow>
                 if \<not> logs then (lm, snd log)
                 else if suppressed > 0
                 then (lm, snd log @ [''runtime '' @ operation @ '' retrying: '' @ message @ '' ('' @ formatInt suppressed
                                        @ '' similar retries not logged)''])
                 else (lm, snd log @ [''runtime '' @ operation @ '' retrying: '' @ message])))"

section \<open>Lines hold no text of the message\<close>

definition loggable :: "char set" where
  "loggable = {c. upperByte c \<or> smallByte c \<or> digitByte c \<or> c \<in> set '' _.*():;>-''}"

lemma loggable_code [code_unfold]:
  "c \<in> loggable \<longleftrightarrow> upperByte c \<or> smallByte c \<or> digitByte c \<or> c \<in> set '' _.*():;>-''"
  by (simp add: loggable_def)

lemma loggable_literals [simp]:
  "CHR ''A'' \<in> loggable" "CHR ''B'' \<in> loggable" "CHR ''C'' \<in> loggable" "CHR ''D'' \<in> loggable"
  "CHR ''E'' \<in> loggable" "CHR ''F'' \<in> loggable" "CHR ''G'' \<in> loggable" "CHR ''H'' \<in> loggable"
  "CHR ''I'' \<in> loggable" "CHR ''J'' \<in> loggable" "CHR ''K'' \<in> loggable" "CHR ''L'' \<in> loggable"
  "CHR ''M'' \<in> loggable" "CHR ''N'' \<in> loggable" "CHR ''O'' \<in> loggable" "CHR ''P'' \<in> loggable"
  "CHR ''Q'' \<in> loggable" "CHR ''R'' \<in> loggable" "CHR ''S'' \<in> loggable" "CHR ''T'' \<in> loggable"
  "CHR ''U'' \<in> loggable" "CHR ''V'' \<in> loggable" "CHR ''W'' \<in> loggable" "CHR ''X'' \<in> loggable"
  "CHR ''Y'' \<in> loggable" "CHR ''Z'' \<in> loggable" "CHR ''a'' \<in> loggable" "CHR ''b'' \<in> loggable"
  "CHR ''c'' \<in> loggable" "CHR ''d'' \<in> loggable" "CHR ''e'' \<in> loggable" "CHR ''f'' \<in> loggable"
  "CHR ''g'' \<in> loggable" "CHR ''h'' \<in> loggable" "CHR ''i'' \<in> loggable" "CHR ''j'' \<in> loggable"
  "CHR ''k'' \<in> loggable" "CHR ''l'' \<in> loggable" "CHR ''m'' \<in> loggable" "CHR ''n'' \<in> loggable"
  "CHR ''o'' \<in> loggable" "CHR ''p'' \<in> loggable" "CHR ''q'' \<in> loggable" "CHR ''r'' \<in> loggable"
  "CHR ''s'' \<in> loggable" "CHR ''t'' \<in> loggable" "CHR ''u'' \<in> loggable" "CHR ''v'' \<in> loggable"
  "CHR ''w'' \<in> loggable" "CHR ''x'' \<in> loggable" "CHR ''y'' \<in> loggable" "CHR ''z'' \<in> loggable"
  "CHR '' '' \<in> loggable" "CHR ''_'' \<in> loggable" "CHR ''.'' \<in> loggable" "CHR ''*'' \<in> loggable"
  "CHR ''('' \<in> loggable" "CHR '')'' \<in> loggable" "CHR '':'' \<in> loggable" "CHR '';'' \<in> loggable"
  "CHR ''>'' \<in> loggable" "CHR ''-'' \<in> loggable"
  by code_simp+

lemma formatInt_loggable: "set (formatInt i) \<subseteq> loggable"
  using subsetD [OF natDigits_digits] by (auto simp: formatInt_def loggable_code)

lemma codeShape_loggable: "codeShapeLoop i s \<Longrightarrow> set s \<subseteq> loggable"
  by (induction i s rule: codeShapeLoop.induct) (auto simp: loggable_code split: if_splits)

lemma loggableCode_loggable: "set (runtimeLoggableCode v) \<subseteq> loggable"
proof (cases "runtimePlatformCodeShape v")
  case True
  then show ?thesis
    using codeShape_loggable [of 0 v] by (simp add: runtimeLoggableCode_def runtimePlatformCodeShape_def split: if_splits)
qed (simp add: runtimeLoggableCode_def)

lemma typeName_loggable: "set (runtimeErrorTypeName t) \<subseteq> loggable"
proof -
  have "typeNameLoop name s = ''unnamed'' \<or> typeNameLoop name s = name \<and> set s \<subseteq> loggable" for name s
    by (induction name s rule: typeNameLoop.induct) (auto simp: loggable_code)
  from this [of "snd t" "snd t"] show ?thesis by (auto simp: runtimeErrorTypeName_def)
qed

lemma joinStrings_subset: "set sep \<subseteq> A \<Longrightarrow> (\<And>s. s \<in> set ss \<Longrightarrow> set s \<subseteq> A) \<Longrightarrow> set (joinStrings sep ss) \<subseteq> A"
  by (induction sep ss rule: joinStrings.induct) auto

lemma typeChain_loggable: "set (runtimeErrorTypeChain err) \<subseteq> loggable"
  unfolding runtimeErrorTypeChain_def by (rule joinStrings_subset) (use typeName_loggable in auto)

lemma errorClass_loggable: "set (runtimeRetryErrorClass err) \<subseteq> loggable"
proof -
  define operation where "operation = (case vw_URLOp err of None \<Rightarrow> []
    | Some op \<Rightarrow> if op \<in> {''Get'', ''Post'', ''Put'', ''Patch'', ''Delete'', ''Head''} then op @ '' request: '' else [])"
  have op: "set operation \<subseteq> loggable" by (auto simp: operation_def split: option.splits if_splits)
  show ?thesis
    unfolding runtimeRetryErrorClass_def Let_def operation_def [symmetric] using op by auto
qed

text \<open>
  C35. A line of the retry log holds no text of the error: whatever code, close reason, URL
  operation and type names an error carries, the text of the line and the key of its cause consist
  of letters, digits and a few punctuation marks, and the code in it has the platform's shape or is
  replaced by one that has.
\<close>

theorem retry_log_text_is_safe:
  "set (runtimeRetryLogText err) \<subseteq> loggable
   \<and> set (runtimeRetryCause err (runtimeRetryLogText err)) \<subseteq> insert (CHR ''#'') loggable
   \<and> runtimePlatformCodeShape (runtimeLoggableCode errCode)"
proof (intro conjI)
  note parts = subsetD [OF formatInt_loggable] subsetD [OF loggableCode_loggable]
    subsetD [OF typeChain_loggable] subsetD [OF errorClass_loggable]
  show line: "set (runtimeRetryLogText err) \<subseteq> loggable"
    by (auto simp: runtimeRetryLogText_def Let_def dest: parts split: option.splits prod.splits if_splits)
  have fold: "set (foldDigits b s) \<subseteq> insert (CHR ''#'') (set s)" for b s
    by (induction b s rule: foldDigits.induct) auto
  have "set (foldDigits False (runtimeRetryLogText err)) \<subseteq> insert (CHR ''#'') loggable"
    using fold [of False "runtimeRetryLogText err"] line by blast
  then show "set (runtimeRetryCause err (runtimeRetryLogText err)) \<subseteq> insert (CHR ''#'') loggable"
    by (auto simp: runtimeRetryCause_def dest: parts split: option.splits prod.splits)
  show "runtimePlatformCodeShape (runtimeLoggableCode errCode)"
    by (simp add: runtimeLoggableCode_def runtimePlatformCodeShape_def upperByte_def code_def)
qed

end
