(* ===== verification/Go_Strings.thy ===== *)
theory Go_Strings
  imports Store_Types
begin

text \<open>
  The parts of Go's \<^verbatim>\<open>strings\<close> package that validation code uses, on strings as UTF-8 byte
  lists. \<^verbatim>\<open>TrimSpace\<close> strips the encodings of the Unicode white-space runes. \<^verbatim>\<open>ToLower\<close> is exact on
  ASCII and on the two other runes whose lower case is ASCII (Kelvin sign and dotted capital
  I); every other rune has a lower case outside ASCII and is kept, which no comparison with an
  ASCII literal can tell apart.
\<close>

section \<open>White space\<close>

definition unicodeSpaces :: "string list" where
  "unicodeSpaces =
     [[CHR 0x09], [CHR 0x0A], [CHR 0x0B], [CHR 0x0C], [CHR 0x0D], [CHR 0x20], [CHR 0xC2, CHR 0x85],
      [CHR 0xC2, CHR 0xA0], [CHR 0xE1, CHR 0x9A, CHR 0x80], [CHR 0xE2, CHR 0x80, CHR 0x80],
      [CHR 0xE2, CHR 0x80, CHR 0x81], [CHR 0xE2, CHR 0x80, CHR 0x82],
      [CHR 0xE2, CHR 0x80, CHR 0x83], [CHR 0xE2, CHR 0x80, CHR 0x84],
      [CHR 0xE2, CHR 0x80, CHR 0x85], [CHR 0xE2, CHR 0x80, CHR 0x86],
      [CHR 0xE2, CHR 0x80, CHR 0x87], [CHR 0xE2, CHR 0x80, CHR 0x88],
      [CHR 0xE2, CHR 0x80, CHR 0x89], [CHR 0xE2, CHR 0x80, CHR 0x8A],
      [CHR 0xE2, CHR 0x80, CHR 0xA8], [CHR 0xE2, CHR 0x80, CHR 0xA9],
      [CHR 0xE2, CHR 0x80, CHR 0xAF], [CHR 0xE2, CHR 0x81, CHR 0x9F],
      [CHR 0xE3, CHR 0x80, CHR 0x80]]"

fun isPrefix :: "'a list \<Rightarrow> 'a list \<Rightarrow> bool" where
  "isPrefix [] ys = True"
| "isPrefix (x # xs) [] = False"
| "isPrefix (x # xs) (y # ys) = (x = y \<and> isPrefix xs ys)"

definition spacePrefix :: "string list \<Rightarrow> string \<Rightarrow> nat" where
  "spacePrefix spaces s = (case List.find (\<lambda>p. isPrefix p s) spaces of None \<Rightarrow> 0 | Some p \<Rightarrow> length p)"

function trimWith :: "string list \<Rightarrow> string \<Rightarrow> string" where
  "trimWith spaces s =
     (let n = spacePrefix spaces s in if n = 0 \<or> s = [] then s else trimWith spaces (drop n s))"
  by pat_completeness auto
termination by (relation "measure (length \<circ> snd)") auto

declare trimWith.simps [simp del]

definition trimSpace :: "string \<Rightarrow> string" where
  "trimSpace s = rev (trimWith (map rev unicodeSpaces) (rev (trimWith unicodeSpaces s)))"

section \<open>Case\<close>

definition lowerByte :: "char \<Rightarrow> char" where
  "lowerByte c = (if 65 \<le> code c \<and> code c \<le> 90 then char_of (code c + 32) else c)"

lemma lowerByte_upper [simp]:
  "lowerByte (CHR ''A'') = CHR ''a''" "lowerByte (CHR ''B'') = CHR ''b''"
  "lowerByte (CHR ''C'') = CHR ''c''" "lowerByte (CHR ''D'') = CHR ''d''"
  "lowerByte (CHR ''E'') = CHR ''e''" "lowerByte (CHR ''F'') = CHR ''f''"
  "lowerByte (CHR ''G'') = CHR ''g''" "lowerByte (CHR ''H'') = CHR ''h''"
  "lowerByte (CHR ''I'') = CHR ''i''" "lowerByte (CHR ''J'') = CHR ''j''"
  "lowerByte (CHR ''K'') = CHR ''k''" "lowerByte (CHR ''L'') = CHR ''l''"
  "lowerByte (CHR ''M'') = CHR ''m''" "lowerByte (CHR ''N'') = CHR ''n''"
  "lowerByte (CHR ''O'') = CHR ''o''" "lowerByte (CHR ''P'') = CHR ''p''"
  "lowerByte (CHR ''Q'') = CHR ''q''" "lowerByte (CHR ''R'') = CHR ''r''"
  "lowerByte (CHR ''S'') = CHR ''s''" "lowerByte (CHR ''T'') = CHR ''t''"
  "lowerByte (CHR ''U'') = CHR ''u''" "lowerByte (CHR ''V'') = CHR ''v''"
  "lowerByte (CHR ''W'') = CHR ''w''" "lowerByte (CHR ''X'') = CHR ''x''"
  "lowerByte (CHR ''Y'') = CHR ''y''" "lowerByte (CHR ''Z'') = CHR ''z''"
  by code_simp+

lemma lowerByte_id [simp]: "\<not> (65 \<le> code c \<and> code c \<le> 90) \<Longrightarrow> lowerByte c = c"
  by (auto simp: lowerByte_def)

fun toLower :: "string \<Rightarrow> string" where
  "toLower [] = []"
| "toLower (a # s) =
     (case s of
        b # c # rest \<Rightarrow>
          if code a = 0xE2 \<and> code b = 0x84 \<and> code c = 0xAA then CHR ''k'' # toLower rest
          else if code a = 0xC4 \<and> code b = 0xB0 then CHR ''i'' # toLower (c # rest)
          else lowerByte a # toLower s
      | [b] \<Rightarrow>
          if code a = 0xC4 \<and> code b = 0xB0 then [CHR ''i''] else lowerByte a # toLower s
      | [] \<Rightarrow> [lowerByte a])"

text \<open>\<^verbatim>\<open>strings.EqualFold\<close> against an ASCII literal without \<open>k\<close> and \<open>s\<close>.\<close>

definition equalFoldASCII :: "string \<Rightarrow> string \<Rightarrow> bool" where
  "equalFoldASCII s literal \<longleftrightarrow> map lowerByte s = map lowerByte literal"

section \<open>Parts\<close>

definition hasSuffix :: "string \<Rightarrow> string \<Rightarrow> bool" where
  "hasSuffix s suffix \<longleftrightarrow> isPrefix (rev suffix) (rev s)"

fun splitOn :: "char \<Rightarrow> string \<Rightarrow> string list" where
  "splitOn sep [] = [[]]"
| "splitOn sep (c # cs) =
     (if c = sep then [] # splitOn sep cs
      else case splitOn sep cs of [] \<Rightarrow> [[c]] | p # ps \<Rightarrow> (c # p) # ps)"

lemma isPrefix_iff: "isPrefix xs ys \<longleftrightarrow> (\<exists>zs. ys = xs @ zs)"
  by (induction xs ys rule: isPrefix.induct) auto

lemma splitOn_not_Nil [simp]: "splitOn sep s \<noteq> []"
  by (cases s) (auto split: list.splits)

text \<open>Joining the parts with the separator gives the string back, and no part contains it.\<close>

fun joinWith :: "char \<Rightarrow> string list \<Rightarrow> string" where
  "joinWith sep [] = []"
| "joinWith sep [p] = p"
| "joinWith sep (p # q # ps) = p @ sep # joinWith sep (q # ps)"

lemma joinWith_Cons: "ps \<noteq> [] \<Longrightarrow> joinWith sep ((c # p) # ps) = c # joinWith sep (p # ps)"
  by (cases ps) auto

lemma join_splitOn: "joinWith sep (splitOn sep s) = s"
proof (induction s)
  case (Cons c s)
  obtain p ps where ps: "splitOn sep s = p # ps" by (cases "splitOn sep s") auto
  with Cons show ?case by (cases ps) (auto split: list.splits)
qed simp

lemma splitOn_parts: "p \<in> set (splitOn sep s) \<Longrightarrow> sep \<notin> set p"
proof (induction s arbitrary: p)
  case (Cons c s)
  obtain q qs where "splitOn sep s = q # qs" by (cases "splitOn sep s") auto
  with Cons show ?case by (auto split: if_splits)
qed simp

lemma set_splitOn: "p \<in> set (splitOn sep s) \<Longrightarrow> set p \<subseteq> set s"
proof (induction s arbitrary: p)
  case (Cons c s)
  obtain q qs where "splitOn sep s = q # qs" by (cases "splitOn sep s") auto
  with Cons show ?case by (fastforce split: if_splits)
qed simp

text \<open>A string that trims to itself has no white space at its ends.\<close>

lemma trimWith_suffix: "\<exists>zs. s = zs @ trimWith spaces s"
proof (induction spaces s rule: trimWith.induct)
  case (1 spaces s)
  show ?case
  proof (cases "spacePrefix spaces s = 0 \<or> s = []")
    case True then show ?thesis by (subst trimWith.simps) (auto simp: Let_def)
  next
    case False
    then obtain zs where "drop (spacePrefix spaces s) s = zs @ trimWith spaces (drop (spacePrefix spaces s) s)"
      using 1 [OF refl] by auto
    moreover have "trimWith spaces s = trimWith spaces (drop (spacePrefix spaces s) s)"
      using False by (subst trimWith.simps) (simp add: Let_def)
    ultimately show ?thesis by (metis append_take_drop_id append.assoc)
  qed
qed

lemma length_trimWith: "length (trimWith spaces s) \<le> length s"
  using trimWith_suffix [of s spaces] by (metis length_append le_add2)

text \<open>No white space of Unicode begins or ends with a printable ASCII byte other than the space.\<close>

lemma spaces_not_plain:
  "list_all (\<lambda>p. p \<noteq> [] \<and> \<not> (0x20 < code (hd p) \<and> code (hd p) \<le> 0x7e)
     \<and> \<not> (0x20 < code (last p) \<and> code (last p) \<le> 0x7e)) unicodeSpaces"
  by code_simp

lemma trimWith_plain:
  assumes "\<And>p. p \<in> set spaces \<Longrightarrow> p \<noteq> [] \<and> hd p \<noteq> hd s" and "s \<noteq> []"
  shows "trimWith spaces s = s"
proof -
  have "List.find (\<lambda>p. isPrefix p s) spaces = None"
    using assms by (fastforce simp: find_None_iff isPrefix_iff hd_append)
  then show ?thesis by (subst trimWith.simps) (simp add: spacePrefix_def)
qed

lemma trimSpace_plain:
  assumes "\<And>c. c \<in> set s \<Longrightarrow> 0x20 < code c \<and> code c \<le> 0x7e"
  shows "trimSpace s = s"
proof (cases "s = []")
  case True
  then show ?thesis by (simp add: trimSpace_def trimWith.simps Let_def)
next
  case False
  have "trimWith unicodeSpaces s = s"
    by (rule trimWith_plain) (use False assms [of "hd s"] spaces_not_plain in \<open>auto simp: list_all_iff\<close>)
  moreover have "trimWith (map rev unicodeSpaces) (rev s) = rev s"
    by (rule trimWith_plain)
      (use False assms [of "last s"] spaces_not_plain in \<open>auto simp: list_all_iff hd_rev\<close>)
  ultimately show ?thesis by (simp add: trimSpace_def)
qed

lemma toLower_lower: "(\<And>c. c \<in> set s \<Longrightarrow> code c < 65 \<or> 90 < code c \<and> code c < 128) \<Longrightarrow> toLower s = s"
proof (induction s)
  case (Cons a s)
  have "code a \<noteq> 0xE2 \<and> code a \<noteq> 0xC4 \<and> lowerByte a = a"
    using Cons.prems [of a] by (auto simp: lowerByte_def)
  moreover have "toLower s = s" using Cons by simp
  ultimately show ?case
    by (subst toLower.simps) (auto simp del: toLower.simps split: list.split)
qed simp

text \<open>Trimming leaves no white space in front, and text that does not begin with it is not trimmed away.\<close>

lemma find_member: "List.find P xs = Some p \<Longrightarrow> p \<in> set xs \<and> P p"
  by (auto simp: find_Some_iff)

lemma spacePrefix_zero:
  assumes "\<And>p. p \<in> set spaces \<Longrightarrow> p \<noteq> []" and "spacePrefix spaces s = 0" and "p \<in> set spaces"
  shows "\<not> isPrefix p s"
  using assms by (auto simp: spacePrefix_def find_None_iff split: option.splits dest!: find_member)

lemma trimWith_stops: "trimWith spaces s = [] \<or> spacePrefix spaces (trimWith spaces s) = 0"
proof (induction spaces s rule: trimWith.induct)
  case (1 spaces s)
  have "trimWith spaces s = (if spacePrefix spaces s = 0 \<or> s = [] then s else trimWith spaces (drop (spacePrefix spaces s) s))"
    by (subst trimWith.simps) (simp add: Let_def)
  with 1 show ?case by auto
qed

lemma trimWith_all: "trimWith spaces s = [] \<Longrightarrow> \<exists>ps. set ps \<subseteq> set spaces \<and> s = concat ps"
proof (induction spaces s rule: trimWith.induct)
  case (1 spaces s)
  show ?case
  proof (cases "spacePrefix spaces s = 0 \<or> s = []")
    case True
    with "1.prems" have "s = []" by (subst (asm) trimWith.simps) (auto simp: Let_def)
    then show ?thesis by (intro exI [of _ "[]"]) simp
  next
    case False
    then have "trimWith spaces (drop (spacePrefix spaces s) s) = []"
      using "1.prems" by (subst (asm) trimWith.simps) (simp add: Let_def)
    then obtain ps where ps: "set ps \<subseteq> set spaces" "drop (spacePrefix spaces s) s = concat ps"
      using "1.IH" False by blast
    obtain p where p: "p \<in> set spaces" "isPrefix p s" "spacePrefix spaces s = length p"
      using False by (auto simp: spacePrefix_def split: option.splits dest: find_member)
    then have "s = p @ concat ps" using ps(2) by (auto simp: isPrefix_iff)
    with p(1) ps(1) show ?thesis by (intro exI [of _ "p # ps"]) simp
  qed
qed

lemma unicodeSpaces_nonempty: "p \<in> set unicodeSpaces \<Longrightarrow> p \<noteq> []"
  by (auto simp: unicodeSpaces_def)

lemma trimSpace_starts:
  assumes "p \<in> set unicodeSpaces"
  shows "\<not> isPrefix p (trimSpace s)"
proof
  assume pre: "isPrefix p (trimSpace s)"
  let ?t = "trimWith unicodeSpaces s"
  obtain zs where "rev ?t = zs @ trimWith (map rev unicodeSpaces) (rev ?t)" using trimWith_suffix by blast
  then have "?t = trimSpace s @ rev zs" unfolding trimSpace_def by (metis rev_append rev_rev_ident)
  with pre have t: "isPrefix p ?t" by (auto simp: isPrefix_iff)
  from trimWith_stops [of unicodeSpaces s] show False
  proof
    assume "?t = []"
    with t unicodeSpaces_nonempty [OF assms] show False by (auto simp: isPrefix_iff)
  next
    assume "spacePrefix unicodeSpaces ?t = 0"
    from spacePrefix_zero [OF unicodeSpaces_nonempty this assms] t show False by simp
  qed
qed

lemma trimSpace_nonempty:
  assumes "s \<noteq> []" and "\<And>p. p \<in> set unicodeSpaces \<Longrightarrow> \<not> isPrefix p s"
  shows "trimSpace s \<noteq> []"
proof
  assume "trimSpace s = []"
  have "List.find (\<lambda>p. isPrefix p s) unicodeSpaces = None" using assms(2) by (simp add: find_None_iff)
  then have "trimWith unicodeSpaces s = s" by (subst trimWith.simps) (simp add: spacePrefix_def)
  with \<open>trimSpace s = []\<close> have "trimWith (map rev unicodeSpaces) (rev s) = []" by (simp add: trimSpace_def)
  from trimWith_all [OF this] obtain ps where ps: "set ps \<subseteq> rev ` set unicodeSpaces" "rev s = concat ps" by auto
  obtain qs q where q: "ps = qs @ [q]" using ps(2) assms(1) by (cases ps rule: rev_exhaust) auto
  then have "s = rev q @ rev (concat qs)" using ps(2) by (metis concat.simps concat_append append_Nil2 rev_append rev_rev_ident)
  moreover have "rev q \<in> set unicodeSpaces" using ps(1) q by auto
  ultimately show False using assms(2) by (auto simp: isPrefix_iff)
qed

end
