(* ===== verification/Transport_Gate.thy ===== *)
theory Transport_Gate
  imports Go_Prelude "HOL-Library.Word"
begin

text \<open>
  The transport gate of the worker (\<^verbatim>\<open>switchingRuntimeClient\<close>, runtime_worker_transport.go):
  the one place through which every loop of the worker reaches the remote runtime. Its
  critical sections are functions on the gate; a run of the worker is a sequence of such
  sections, taken by any number of goroutines in any order. \<^verbatim>\<open>beginTransition\<close> releases the
  mutex while it waits for in-flight operations, so it is two actions: entering and returning.

  A \<^verbatim>\<open>context.Context\<close> of a generation is a number; cancelling it records the number. Clients
  are values of the parameter \<^typ>\<open>'c\<close>, compared by equality as Go compares interface values.
\<close>

section \<open>Modes, states and the gate\<close>

datatype transport_mode = TransportNone | TransportAuto | TransportWebSocket | TransportPull
  | TransportOther string

datatype transport_state = TransportDisconnected | TransportConnectingWS | TransportWebSocketActive
  | TransportSwitchingPull | TransportPullActive | TransportProbingWS | TransportSwitchingWS
  | TransportStopped

record 'c gate =
  gt_active :: "'c option"
  gt_kind :: transport_mode
  gt_state :: transport_state
  gt_generation :: "nat option"
  gt_contexts :: nat            \<comment> \<open>how many generation contexts were created\<close>
  gt_cancelled :: "nat list"    \<comment> \<open>the generation contexts that were cancelled\<close>
  gt_operations :: int
  gt_callClient :: "'c option"
  gt_transitionEpoch :: "64 word"
  gt_retired :: bool

definition newSwitchingRuntimeClient :: "'c option \<Rightarrow> 'c gate" where
  "newSwitchingRuntimeClient callClient =
     \<lparr>gt_active = None, gt_kind = TransportNone, gt_state = TransportDisconnected,
      gt_generation = None, gt_contexts = 0, gt_cancelled = [], gt_operations = 0,
      gt_callClient = callClient, gt_transitionEpoch = 0, gt_retired = False\<rparr>"

definition setState :: "transport_state \<Rightarrow> 'c gate \<Rightarrow> 'c gate" where
  "setState state g = (if gt_state g \<noteq> TransportStopped then g\<lparr>gt_state := state\<rparr> else g)"

definition snapshot :: "'c gate \<Rightarrow> transport_mode \<times> transport_state \<times> 'c option" where
  "snapshot g = (gt_kind g, gt_state g, gt_active g)"

definition replaceCallClient :: "'c option \<Rightarrow> 'c gate \<Rightarrow> 'c gate" where
  "replaceCallClient callClient g = g\<lparr>gt_callClient := callClient\<rparr>"

definition cancelGeneration :: "'c gate \<Rightarrow> 'c gate" where
  "cancelGeneration g = (case gt_generation g of
     None \<Rightarrow> g | Some n \<Rightarrow> g\<lparr>gt_cancelled := List.insert n (gt_cancelled g)\<rparr>)"

definition activateIfCurrent ::
  "64 word \<Rightarrow> transport_mode \<Rightarrow> 'c option \<Rightarrow> 'c gate \<Rightarrow> bool \<times> 'c gate" where
  "activateIfCurrent epoch kind active g =
     (if epoch = 0 \<or> epoch \<noteq> gt_transitionEpoch g \<or> gt_state g = TransportStopped then (False, g)
      else let g1 = cancelGeneration g in
        (True, g1\<lparr>gt_generation := Some (gt_contexts g1), gt_contexts := gt_contexts g1 + 1,
           gt_active := active, gt_kind := kind, gt_retired := False,
           gt_state := (if kind = TransportWebSocket then TransportWebSocketActive else TransportPullActive)\<rparr>))"

text \<open>
  \<^verbatim>\<open>beginTransition\<close> up to its wait loop: \<^term>\<open>None\<close> is the early return \<^verbatim>\<open>0, "", nil\<close> of a
  stopped gate, otherwise the epoch, kind and client that the call returns once
  \<^verbatim>\<open>operations\<close> is 0 (\<^term>\<open>transitionMayReturn\<close>).
\<close>

definition enterTransition ::
  "transport_state \<Rightarrow> 'c gate \<Rightarrow> (64 word \<times> transport_mode \<times> 'c option) option \<times> 'c gate" where
  "enterTransition state g =
     (if gt_state g = TransportStopped then (None, g)
      else (Some (gt_transitionEpoch g + 1, gt_kind g, gt_active g),
        cancelGeneration (g\<lparr>gt_transitionEpoch := gt_transitionEpoch g + 1, gt_state := state,
          gt_active := None, gt_kind := TransportNone, gt_retired := False\<rparr>)))"

definition transitionMayReturn :: "'c gate \<Rightarrow> bool" where
  "transitionMayReturn g \<longleftrightarrow> \<not> gt_operations g > 0"

definition retireActive :: "'c option \<Rightarrow> 'c gate \<Rightarrow> bool \<times> 'c gate" where
  "retireActive active g =
     (if active = None \<or> gt_active g \<noteq> active \<or> gt_retired g \<or> gt_state g = TransportStopped
      then (False, g) else (True, g\<lparr>gt_retired := True\<rparr>))"

definition restoreActive :: "'c option \<Rightarrow> 'c gate \<Rightarrow> 'c gate" where
  "restoreActive active g = (if gt_active g = active then g\<lparr>gt_retired := False\<rparr> else g)"

text \<open>
  \<^verbatim>\<open>begin\<close>: the client and generation an operation runs under, \<^term>\<open>None\<close> for
  \<^verbatim>\<open>ErrRuntimeTransportSwitching\<close>. \<^verbatim>\<open>done\<close> is \<^term>\<open>endOperation\<close>.
\<close>

definition beginOperation :: "'c gate \<Rightarrow> ('c \<times> nat) option \<times> 'c gate" where
  "beginOperation g =
     (case (gt_active g, gt_generation g) of
        (Some active, Some generation) \<Rightarrow>
          if gt_retired g then (None, g)
          else (Some (active, generation), g\<lparr>gt_operations := gt_operations g + 1\<rparr>)
      | _ \<Rightarrow> (None, g))"

definition endOperation :: "'c gate \<Rightarrow> 'c gate" where
  "endOperation g = g\<lparr>gt_operations := gt_operations g - 1\<rparr>"

section \<open>Runs: interleavings of the gate's critical sections\<close>

text \<open>
  The state of a run: the gate, the operations that began and are not done, the transitions
  that wait for them, the epochs returned to callers, and how many transitions were entered.
  A transition is identified by its number: the \<open>n\<close>-th transition is given epoch \<open>n\<close> modulo
  \<open>2 ^ 64\<close>.
\<close>

record 'c gate_run =
  gr_gate :: "'c gate"
  gr_inflight :: "('c \<times> nat) list"
  gr_waiting :: "(nat \<times> 64 word \<times> 'c option) list"
  gr_granted :: "(nat \<times> 64 word \<times> 'c option) list"
  gr_entered :: nat

datatype 'c gate_action =
    SetState transport_state
  | ReplaceCall "'c option"
  | BeginOperation
  | EndOperation nat            \<comment> \<open>position of the operation among those in flight\<close>
  | EnterTransition transport_state
  | ReturnTransition nat        \<comment> \<open>position of the transition among those waiting\<close>
  | Activate nat transport_mode 'c  \<comment> \<open>position of the epoch among those granted\<close>
  | Retire 'c
  | Restore 'c

definition removeNth :: "nat \<Rightarrow> 'a list \<Rightarrow> 'a list" where
  "removeNth i xs = take i xs @ drop (Suc i) xs"

text \<open>
  What one action does, \<^term>\<open>None\<close> when it cannot happen. The worker calls \<^verbatim>\<open>setState\<close> only
  with states other than \<^verbatim>\<open>stopped\<close> (\<^verbatim>\<open>setRuntimeTransportStateIfPolicyCurrent\<close>) and activates
  only with an epoch that \<^verbatim>\<open>beginTransition\<close> returned to it and a client it has attached
  (\<^verbatim>\<open>publishRuntimeTransport\<close>).
\<close>

fun gate_action_step :: "'c gate_action \<Rightarrow> 'c gate_run \<Rightarrow> 'c gate_run option" where
  "gate_action_step (SetState st) r =
     (if st = TransportStopped then None else Some (r\<lparr>gr_gate := setState st (gr_gate r)\<rparr>))"
| "gate_action_step (ReplaceCall c) r = Some (r\<lparr>gr_gate := replaceCallClient c (gr_gate r)\<rparr>)"
| "gate_action_step BeginOperation r =
     (case beginOperation (gr_gate r) of
        (None, g) \<Rightarrow> Some (r\<lparr>gr_gate := g\<rparr>)
      | (Some x, g) \<Rightarrow> Some (r\<lparr>gr_gate := g, gr_inflight := x # gr_inflight r\<rparr>))"
| "gate_action_step (EndOperation i) r =
     (if i < length (gr_inflight r)
      then Some (r\<lparr>gr_gate := endOperation (gr_gate r), gr_inflight := removeNth i (gr_inflight r)\<rparr>)
      else None)"
| "gate_action_step (EnterTransition st) r =
     (case enterTransition st (gr_gate r) of
        (None, g) \<Rightarrow> Some (r\<lparr>gr_gate := g\<rparr>)
      | (Some (epoch, kind, active), g) \<Rightarrow>
          Some (r\<lparr>gr_gate := g, gr_entered := gr_entered r + 1,
                 gr_waiting := (gr_entered r + 1, epoch, active) # gr_waiting r\<rparr>))"
| "gate_action_step (ReturnTransition i) r =
     (if i < length (gr_waiting r) \<and> transitionMayReturn (gr_gate r)
      then Some (r\<lparr>gr_waiting := removeNth i (gr_waiting r),
                  gr_granted := (gr_waiting r ! i) # gr_granted r\<rparr>)
      else None)"
| "gate_action_step (Activate i kind c) r =
     (if i < length (gr_granted r)
      then Some (r\<lparr>gr_gate := snd (activateIfCurrent (fst (snd (gr_granted r ! i))) kind (Some c) (gr_gate r))\<rparr>)
      else None)"
| "gate_action_step (Retire c) r = Some (r\<lparr>gr_gate := snd (retireActive (Some c) (gr_gate r))\<rparr>)"
| "gate_action_step (Restore c) r = Some (r\<lparr>gr_gate := restoreActive (Some c) (gr_gate r)\<rparr>)"

fun gate_run_actions :: "'c gate_action list \<Rightarrow> 'c gate_run \<Rightarrow> 'c gate_run option" where
  "gate_run_actions [] r = Some r"
| "gate_run_actions (a # as) r =
     (case gate_action_step a r of None \<Rightarrow> None | Some r' \<Rightarrow> gate_run_actions as r')"

definition initial_run :: "'c option \<Rightarrow> 'c gate_run" where
  "initial_run callClient = \<lparr>gr_gate = newSwitchingRuntimeClient callClient, gr_inflight = [],
     gr_waiting = [], gr_granted = [], gr_entered = 0\<rparr>"

inductive gate_reachable :: "'c gate_run \<Rightarrow> bool" where
  start: "gate_reachable (initial_run c)"
| step: "gate_reachable r \<Longrightarrow> gate_action_step a r = Some r' \<Longrightarrow> gate_reachable r'"

lemmas gate_simps = setState_def replaceCallClient_def activateIfCurrent_def
  enterTransition_def transitionMayReturn_def retireActive_def restoreActive_def beginOperation_def
  endOperation_def Let_def

section \<open>The gate's invariant\<close>

lemma cancelGeneration_sel [simp]:
  "gt_active (cancelGeneration g) = gt_active g" "gt_kind (cancelGeneration g) = gt_kind g"
  "gt_state (cancelGeneration g) = gt_state g" "gt_generation (cancelGeneration g) = gt_generation g"
  "gt_contexts (cancelGeneration g) = gt_contexts g" "gt_operations (cancelGeneration g) = gt_operations g"
  "gt_transitionEpoch (cancelGeneration g) = gt_transitionEpoch g"
  "gt_retired (cancelGeneration g) = gt_retired g"
  "set (gt_cancelled (cancelGeneration g)) = set (gt_cancelled g) \<union> set_option (gt_generation g)"
  by (auto simp: cancelGeneration_def split: option.splits)

definition transition_ok :: "'c gate_run \<Rightarrow> nat \<times> 64 word \<times> 'c option \<Rightarrow> bool" where
  "transition_ok r x \<longleftrightarrow> 1 \<le> fst x \<and> fst x \<le> gr_entered r \<and> fst (snd x) = of_nat (fst x)"

definition contexts_ok :: "'c gate \<Rightarrow> bool" where
  "contexts_ok g \<longleftrightarrow>
     (\<forall>n \<in> set (gt_cancelled g). n < gt_contexts g)
   \<and> (\<forall>n \<in> set_option (gt_generation g). n < gt_contexts g)
   \<and> (gt_active g \<noteq> None \<longrightarrow> gt_state g \<noteq> TransportStopped
        \<and> (\<exists>n. gt_generation g = Some n \<and> n \<notin> set (gt_cancelled g)))"

definition operations_fenced :: "'c gate \<Rightarrow> ('c \<times> nat) list \<Rightarrow> bool" where
  "operations_fenced g xs \<longleftrightarrow> (\<forall>x \<in> set xs. snd x \<in> set (gt_cancelled g)
     \<or> gt_active g = Some (fst x) \<and> gt_generation g = Some (snd x))"

definition gate_inv :: "'c gate_run \<Rightarrow> bool" where
  "gate_inv r \<longleftrightarrow>
     gt_operations (gr_gate r) = int (length (gr_inflight r))
   \<and> operations_fenced (gr_gate r) (gr_inflight r)
   \<and> contexts_ok (gr_gate r)
   \<and> gt_transitionEpoch (gr_gate r) = of_nat (gr_entered r)
   \<and> (\<forall>x \<in> set (gr_waiting r) \<union> set (gr_granted r). transition_ok r x)"

lemma contexts_ok_enter: "contexts_ok g \<Longrightarrow> contexts_ok (snd (enterTransition st g))"
  by (auto simp: contexts_ok_def enterTransition_def)

lemma contexts_ok_activate:
  assumes "contexts_ok g"
  shows "contexts_ok (snd (activateIfCurrent e kind c g))"
proof (cases "fst (activateIfCurrent e kind c g)")
  case True
  have "n < Suc (gt_contexts g)" if "n \<in> set (gt_cancelled g) \<union> set_option (gt_generation g)" for n
    using assms that by (auto simp: contexts_ok_def)
  moreover have "gt_contexts g \<notin> set (gt_cancelled g) \<union> set_option (gt_generation g)"
    using assms by (auto simp: contexts_ok_def)
  ultimately show ?thesis
    using True unfolding activateIfCurrent_def contexts_ok_def by (auto simp: Let_def split: if_splits)
next
  case False with assms show ?thesis by (auto simp: activateIfCurrent_def Let_def split: if_splits)
qed

lemma operations_fenced_enter:
  "operations_fenced g xs \<Longrightarrow> operations_fenced (snd (enterTransition st g)) xs"
  by (auto simp: operations_fenced_def enterTransition_def)

lemma operations_fenced_activate:
  "operations_fenced g xs \<Longrightarrow> operations_fenced (snd (activateIfCurrent e kind c g)) xs"
  by (auto simp: operations_fenced_def activateIfCurrent_def Let_def)

lemma operations_fenced_begin:
  "operations_fenced g xs \<Longrightarrow> beginOperation g = (Some x, g') \<Longrightarrow> operations_fenced g' (x # xs)"
  by (auto simp: operations_fenced_def beginOperation_def split: option.splits if_splits)

lemmas gate_frame = contexts_ok_def operations_fenced_def transition_ok_def

lemma gate_inv_initial: "gate_inv (initial_run c)"
  by (simp add: gate_inv_def initial_run_def newSwitchingRuntimeClient_def gate_frame)

lemma set_removeNth: "set (removeNth i xs) \<subseteq> set xs"
  by (auto simp: removeNth_def dest: in_set_takeD in_set_dropD)

lemma in_set_removeNthD: "x \<in> set (removeNth i xs) \<Longrightarrow> x \<in> set xs"
  by (rule subsetD [OF set_removeNth])

lemma length_removeNth: "i < length xs \<Longrightarrow> length (removeNth i xs) = length xs - 1"
  by (simp add: removeNth_def)

lemma gate_inv_frame:
  assumes "gate_inv r" and "gt_operations g = gt_operations (gr_gate r)" and "gt_active g = gt_active (gr_gate r)"
    and "gt_generation g = gt_generation (gr_gate r)" and "gt_contexts g = gt_contexts (gr_gate r)"
    and "gt_cancelled g = gt_cancelled (gr_gate r)" and "gt_transitionEpoch g = gt_transitionEpoch (gr_gate r)"
    and "gt_state g = TransportStopped \<Longrightarrow> gt_state (gr_gate r) = TransportStopped"
  shows "gate_inv (r\<lparr>gr_gate := g\<rparr>)"
  using assms(1,8) unfolding gate_inv_def gate_frame by (simp add: assms(2-7)) blast

lemma gate_inv_step:
  assumes inv: "gate_inv r" and step: "gate_action_step a r = Some r'"
  shows "gate_inv r'"
proof (cases a)
  case (EndOperation i)
  with step have i: "i < length (gr_inflight r)" "r' = r\<lparr>gr_gate := endOperation (gr_gate r),
      gr_inflight := removeNth i (gr_inflight r)\<rparr>" by (auto split: if_splits)
  then have "int (length (removeNth i (gr_inflight r))) = int (length (gr_inflight r)) - 1"
    by (simp add: length_removeNth of_nat_diff)
  with inv i(2) set_removeNth [of i "gr_inflight r"] show ?thesis
    by (auto simp: gate_inv_def endOperation_def gate_frame)
next
  case (ReturnTransition i)
  with step have i: "i < length (gr_waiting r)" "r' = r\<lparr>gr_waiting := removeNth i (gr_waiting r),
      gr_granted := (gr_waiting r ! i) # gr_granted r\<rparr>" by (auto split: if_splits)
  from inv i set_removeNth [of i "gr_waiting r"] nth_mem [OF i(1)] show ?thesis
    by (auto simp: gate_inv_def transition_ok_def)
next
  case (EnterTransition st)
  show ?thesis
  proof (cases "gt_state (gr_gate r) = TransportStopped")
    case True with inv step EnterTransition show ?thesis by (simp add: enterTransition_def)
  next
    case False
    let ?g = "snd (enterTransition st (gr_gate r))"
    from False step EnterTransition have r': "r' = r\<lparr>gr_gate := ?g, gr_entered := gr_entered r + 1,
        gr_waiting := (gr_entered r + 1, gt_transitionEpoch (gr_gate r) + 1, gt_active (gr_gate r)) # gr_waiting r\<rparr>"
      by (simp add: enterTransition_def)
    have "gt_operations ?g = gt_operations (gr_gate r)" "gt_transitionEpoch ?g = gt_transitionEpoch (gr_gate r) + 1"
      using False by (simp_all add: enterTransition_def)
    with inv contexts_ok_enter operations_fenced_enter show ?thesis
      unfolding r' gate_inv_def transition_ok_def by (auto intro!: le_SucI)
  qed
next
  case (Activate i kind c)
  let ?g = "snd (activateIfCurrent (fst (snd (gr_granted r ! i))) kind (Some c) (gr_gate r))"
  have r': "r' = r\<lparr>gr_gate := ?g\<rparr>" using Activate step by (simp split: if_splits)
  have "gt_operations ?g = gt_operations (gr_gate r)" "gt_transitionEpoch ?g = gt_transitionEpoch (gr_gate r)"
    by (simp_all add: activateIfCurrent_def Let_def)
  with inv contexts_ok_activate operations_fenced_activate show ?thesis
    unfolding r' gate_inv_def transition_ok_def by auto
next
  case BeginOperation
  show ?thesis
  proof (cases "beginOperation (gr_gate r)")
    case (Pair x g)
    show ?thesis
    proof (cases x)
      case None with inv step BeginOperation Pair show ?thesis
        by (auto simp: beginOperation_def split: option.splits if_splits)
    next
      case (Some y)
      with Pair step BeginOperation have r': "r' = r\<lparr>gr_gate := g, gr_inflight := y # gr_inflight r\<rparr>" by simp
      have g: "g = (gr_gate r)\<lparr>gt_operations := gt_operations (gr_gate r) + 1\<rparr>"
        using Pair Some by (auto simp: beginOperation_def split: option.splits if_splits)
      have "operations_fenced g (y # gr_inflight r)"
        using operations_fenced_begin inv Pair Some unfolding gate_inv_def by blast
      with inv show ?thesis unfolding r' gate_inv_def by (simp add: g contexts_ok_def transition_ok_def)
    qed
  qed
qed (use inv step in \<open>auto intro!: gate_inv_frame simp: gate_simps split: if_splits\<close>)

lemma gate_reachable_inv: "gate_reachable r \<Longrightarrow> gate_inv r"
  by (induction rule: gate_reachable.induct) (use gate_inv_initial gate_inv_step in blast)+

lemma gate_run_inv: "gate_run_actions as r = Some r' \<Longrightarrow> gate_inv r \<Longrightarrow> gate_inv r'"
  by (induction as arbitrary: r) (auto split: option.splits dest: gate_inv_step)

lemma gate_run_reachable: "gate_run_actions as r = Some r' \<Longrightarrow> gate_reachable r \<Longrightarrow> gate_reachable r'"
  by (induction as arbitrary: r) (auto split: option.splits intro: gate_reachable.step)

section \<open>What the gate guarantees\<close>

text \<open>
  C22. Operations never leak across transports: in every reachable state of the gate, the
  counter \<^verbatim>\<open>operations\<close> is exactly the number of operations in flight, every operation in
  flight either had its context cancelled or runs on the client that is published now, and a
  stopped gate publishes no client.
\<close>

theorem gate_operations_fenced:
  assumes "gate_reachable r"
  shows "gt_operations (gr_gate r) = int (length (gr_inflight r))
    \<and> (\<forall>(c, n) \<in> set (gr_inflight r). n \<notin> set (gt_cancelled (gr_gate r)) \<longrightarrow> gt_active (gr_gate r) = Some c)
    \<and> (gt_state (gr_gate r) = TransportStopped \<longrightarrow> gt_active (gr_gate r) = None)"
  using gate_reachable_inv [OF assms] unfolding gate_inv_def operations_fenced_def contexts_ok_def by fastforce

definition sample_actions :: "nat gate_action list" where
  "sample_actions = [EnterTransition TransportConnectingWS, ReturnTransition 0,
     Activate 0 TransportWebSocket 7, BeginOperation, EnterTransition TransportSwitchingPull]"

definition sample_run :: "nat gate_run" where
  "sample_run = the (gate_run_actions sample_actions (initial_run None))"

lemma sample_run_reachable: "gate_reachable sample_run"
proof -
  have "gate_run_actions sample_actions (initial_run None) = Some sample_run" by code_simp
  from gate_run_reachable [OF this gate_reachable.start] show ?thesis .
qed

theorem gate_operations_fenced_witness:
  "gate_reachable sample_run \<and> gr_inflight sample_run = [(7, 0)] \<and> gt_active (gr_gate sample_run) = None
   \<and> 0 \<in> set (gt_cancelled (gr_gate sample_run)) \<and> gt_operations (gr_gate sample_run) = 1"
proof -
  have "gr_inflight sample_run = [(7, 0)]" "gt_active (gr_gate sample_run) = None" by code_simp+
  with gate_operations_fenced [OF sample_run_reachable] sample_run_reachable show ?thesis by auto
qed

lemma gate_inflight_source:
  assumes "gate_run_actions as r = Some r'" and "x \<in> set (gr_inflight r')" and "gate_inv r"
  shows "x \<in> set (gr_inflight r) \<or> gt_active (gr_gate r) = Some (fst x) \<or> (\<exists>i k. Activate i k (fst x) \<in> set as)"
  using assms
proof (induction as arbitrary: r)
  case (Cons a as)
  then obtain q where q: "gate_action_step a r = Some q" "gate_run_actions as q = Some r'"
    by (auto split: option.splits)
  from Cons.IH [OF q(2) Cons.prems(2) gate_inv_step [OF Cons.prems(3) q(1)]] show ?case
  proof (elim disjE exE)
    assume "x \<in> set (gr_inflight q)"
    with q(1) show ?case
      by (cases a) (auto simp: beginOperation_def split: option.splits if_splits prod.splits dest: in_set_removeNthD)
  next
    assume "gt_active (gr_gate q) = Some (fst x)"
    with q(1) show ?case
      by (cases a) (fastforce simp: gate_simps split: option.splits if_splits prod.splits)+
  qed auto
qed simp

text \<open>
  C23. A transition returns the old client only when nothing runs on it: when \<^verbatim>\<open>beginTransition\<close>
  returns there is no operation in flight, and in any continuation an operation in flight uses
  a client that a newer transition had already published or that was activated afterwards.
\<close>

theorem transition_returns_drained:
  assumes "gate_reachable r" and "gate_action_step (ReturnTransition i) r = Some r'"
    and "gate_run_actions as r' = Some q"
  shows "gr_inflight r' = [] \<and> (\<forall>(c, n) \<in> set (gr_inflight q).
      gt_active (gr_gate r') = Some c \<or> (\<exists>j k. Activate j k c \<in> set as))"
proof -
  have inv: "gate_inv r" by (rule gate_reachable_inv [OF assms(1)])
  have "gr_inflight r' = gr_inflight r" "\<not> gt_operations (gr_gate r) > 0"
    using assms(2) by (auto simp: transitionMayReturn_def split: if_splits)
  then have e: "gr_inflight r' = []" using inv by (simp add: gate_inv_def)
  have "gt_active (gr_gate r') = Some (fst x) \<or> (\<exists>j k. Activate j k (fst x) \<in> set as)"
    if "x \<in> set (gr_inflight q)" for x
    using gate_inflight_source [OF assms(3) that gate_inv_step [OF inv assms(2)]] e by simp
  then show ?thesis using e by fastforce
qed

theorem transition_returns_drained_witness:
  "\<exists>p r. gate_action_step (EndOperation 0) sample_run = Some p
     \<and> gate_action_step (ReturnTransition 0) p = Some r \<and> gr_inflight r = []
     \<and> gr_granted r = [(2, 2, Some 7), (1, 1, None)]"
proof -
  define p where "p = the (gate_action_step (EndOperation 0) sample_run)"
  define r where "r = the (gate_action_step (ReturnTransition 0) p)"
  have p: "gate_action_step (EndOperation 0) sample_run = Some p" unfolding p_def by code_simp
  have r: "gate_action_step (ReturnTransition 0) p = Some r" unfolding r_def p_def by code_simp
  have g: "gr_granted r = [(2, 2, Some 7), (1, 1, None)]" unfolding r_def p_def by code_simp
  have "gr_inflight r = []"
    using transition_returns_drained [OF gate_reachable.step [OF sample_run_reachable p] r, of "[]" r] by simp
  with p r g show ?thesis by blast
qed



lemma stopped_step:
  assumes "gt_state (gr_gate r) = TransportStopped" and "gt_active (gr_gate r) = None"
    and "gate_action_step a r = Some q"
  shows "gt_state (gr_gate q) = TransportStopped \<and> gt_active (gr_gate q) = None
    \<and> length (gr_inflight q) \<le> length (gr_inflight r)"
  using assms by (cases a) (auto simp: gate_simps length_removeNth split: if_splits option.splits)

lemma stopped_run:
  assumes "gt_state (gr_gate r) = TransportStopped" and "gt_active (gr_gate r) = None"
    and "gate_run_actions as r = Some q"
  shows "gt_state (gr_gate q) = TransportStopped \<and> gt_active (gr_gate q) = None
    \<and> length (gr_inflight q) \<le> length (gr_inflight r)"
  using assms
proof (induction as arbitrary: r)
  case (Cons a as)
  then obtain p where p: "gate_action_step a r = Some p" "gate_run_actions as p = Some q"
    by (auto split: option.splits)
  from stopped_step [OF Cons.prems(1,2) p(1)] Cons.IH [OF _ _ p(2)] show ?case by auto
qed simp

text \<open>
  Stopping is final: once a goroutine has entered \<^verbatim>\<open>stop\<close>, whatever the others do the gate
  stays stopped, publishes no client, refuses every new operation, every activation and every
  further transition, and the number of operations in flight never grows again.
\<close>

lemma gate_stop_is_final:
  assumes "gate_reachable r" and "gate_action_step (EnterTransition TransportStopped) r = Some p"
    and "gate_run_actions as p = Some q"
  shows "gt_state (gr_gate q) = TransportStopped \<and> gt_active (gr_gate q) = None
    \<and> fst (beginOperation (gr_gate q)) = None
    \<and> (\<forall>epoch kind c. activateIfCurrent epoch kind c (gr_gate q) = (False, gr_gate q))
    \<and> (\<forall>st. enterTransition st (gr_gate q) = (None, gr_gate q))
    \<and> length (gr_inflight q) \<le> length (gr_inflight r)"
proof -
  have p: "gt_state (gr_gate p) = TransportStopped" "gr_inflight p = gr_inflight r"
    using assms(2) by (auto simp: enterTransition_def split: if_splits)
  have "gate_inv p" by (rule gate_inv_step [OF gate_reachable_inv [OF assms(1)] assms(2)])
  with p(1) have "gt_active (gr_gate p) = None" unfolding gate_inv_def contexts_ok_def by blast
  from stopped_run [OF p(1) this assms(3)] p(2) show ?thesis
    by (simp add: beginOperation_def activateIfCurrent_def enterTransition_def)
qed

lemma end_all_operations:
  "gate_inv r \<Longrightarrow> \<exists>q. gate_run_actions (replicate (length (gr_inflight r)) (EndOperation 0)) r = Some q
     \<and> gr_inflight q = [] \<and> gt_operations (gr_gate q) = 0 \<and> gr_waiting q = gr_waiting r"
proof (induction "length (gr_inflight r)" arbitrary: r)
  case 0
  then show ?case by (simp add: gate_inv_def)
next
  case (Suc n)
  let ?p = "r\<lparr>gr_gate := endOperation (gr_gate r), gr_inflight := removeNth 0 (gr_inflight r)\<rparr>"
  have p: "gate_action_step (EndOperation 0) r = Some ?p" using Suc.hyps(2) by auto
  have n: "n = length (gr_inflight ?p)" using Suc.hyps(2) by (simp add: removeNth_def)
  from Suc.hyps(1) [OF n gate_inv_step [OF Suc.prems p]] obtain q where
    "gate_run_actions (replicate n (EndOperation 0)) ?p = Some q" "gr_inflight q = []"
    "gt_operations (gr_gate q) = 0" "gr_waiting q = gr_waiting ?p"
    unfolding n [symmetric] by blast
  with p show ?case unfolding Suc.hyps(2) [symmetric] by simp
qed



end
