(* ===== verification/Transport_Policy.thy ===== *)
theory Transport_Policy
  imports Go_Strings Transport_Gate
begin

text \<open>
  The transport policy of the worker (runtime_worker_policy.go): how the manifest of the
  platform is turned into a policy, how a policy is applied to a worker at start and after a
  policy recovery, which transports it then tries and in which order, and the retry delay
  (\<^verbatim>\<open>retryDelay\<close>, runtime_worker_session.go). Durations are int64 nanoseconds; a pointer that may
  be nil is an option.
\<close>

section \<open>Policies\<close>

definition nanosSecond :: duration where "nanosSecond = 1000000000"
definition nanosMillisecond :: duration where "nanosMillisecond = 1000000"

definition defaultHeartbeatInterval :: duration where "defaultHeartbeatInterval = 5 * nanosSecond"
definition defaultRetryMinimum :: duration where "defaultRetryMinimum = 250 * nanosMillisecond"
definition defaultRetryMaximum :: duration where "defaultRetryMaximum = 15 * nanosSecond"

record transport_policy =
  tp_Allowed :: "transport_mode list"
  tp_Default :: transport_mode
  tp_HeartbeatInterval :: duration
  tp_HeartbeatIntervalSet :: bool
  tp_SessionStaleAfter :: duration
  tp_SessionStaleAfterSet :: bool
  tp_RetryMinimum :: duration
  tp_RetryMinimumSet :: bool
  tp_RetryMaximum :: duration
  tp_RetryMaximumSet :: bool
  tp_WebSocketProbeInterval :: duration
  tp_WebSocketProbeIntervalSet :: bool
  tp_WebSocketProbeTimeout :: duration
  tp_WebSocketProbeTimeoutSet :: bool

definition legacyRuntimeTransportPolicy :: transport_policy where
  "legacyRuntimeTransportPolicy =
     \<lparr>tp_Allowed = [TransportWebSocket, TransportPull], tp_Default = TransportAuto,
      tp_HeartbeatInterval = defaultHeartbeatInterval, tp_HeartbeatIntervalSet = False,
      tp_SessionStaleAfter = 0, tp_SessionStaleAfterSet = False,
      tp_RetryMinimum = defaultRetryMinimum, tp_RetryMinimumSet = False,
      tp_RetryMaximum = defaultRetryMaximum, tp_RetryMaximumSet = False,
      tp_WebSocketProbeInterval = 15 * nanosSecond, tp_WebSocketProbeIntervalSet = False,
      tp_WebSocketProbeTimeout = 10 * nanosSecond, tp_WebSocketProbeTimeoutSet = False\<rparr>"

record manifest_policy =
  mp_Version :: "int option"
  mp_HeartbeatIntervalSeconds :: "int option"
  mp_SessionStaleAfterSeconds :: "int option"
  mp_RetryMinimumMS :: "int option"
  mp_RetryMaximumMS :: "int option"
  mp_WebSocketProbeIntervalMS :: "int option"
  mp_WebSocketProbeTimeoutMS :: "int option"

definition runtimeManifestTransportMode :: "string \<Rightarrow> transport_mode option" where
  "runtimeManifestTransportMode value =
     (let v = toLower (trimSpace value) in
      if v = ''websocket'' \<or> v = ''ws'' then Some TransportWebSocket
      else if v = ''long_poll'' \<or> v = ''pull'' then Some TransportPull
      else None)"

definition policyDurationSeconds :: "int option \<Rightarrow> duration \<Rightarrow> string \<Rightarrow> go_error + duration" where
  "policyDurationSeconds value fallback field =
     (case value of
        None \<Rightarrow> Inr fallback
      | Some v \<Rightarrow> if v < 1 \<or> v > 86400 then Inl (TextError field) else Inr (mul64 v nanosSecond))"

definition policyDurationMilliseconds :: "int option \<Rightarrow> duration \<Rightarrow> string \<Rightarrow> go_error + duration" where
  "policyDurationMilliseconds value fallback field =
     (case value of
        None \<Rightarrow> Inr fallback
      | Some v \<Rightarrow> if v < 1 \<or> v > 86400000 then Inl (TextError field) else Inr (mul64 v nanosMillisecond))"

definition runtimePolicyAllows :: "transport_policy \<Rightarrow> transport_mode \<Rightarrow> bool" where
  "runtimePolicyAllows policy mode \<longleftrightarrow> mode \<in> set (tp_Allowed policy)"

fun manifestModes :: "string list \<Rightarrow> transport_mode list \<Rightarrow> transport_mode list" where
  "manifestModes [] allowed = allowed"
| "manifestModes (value # values) allowed =
     (case runtimeManifestTransportMode value of
        None \<Rightarrow> manifestModes values allowed
      | Some mode \<Rightarrow>
          if mode \<in> set allowed then manifestModes values allowed
          else manifestModes values (allowed @ [mode]))"

definition policyAllowed :: "string list option \<Rightarrow> transport_policy \<Rightarrow> go_error + transport_policy" where
  "policyAllowed transports policy =
     (case transports of
        None \<Rightarrow> Inr policy
      | Some values \<Rightarrow>
          let allowed = manifestModes values [] in
          if allowed = [] then Inl (TextError ''OpenLinker Runtime does not allow a transport supported by this SDK'')
          else Inr (policy\<lparr>tp_Allowed := allowed\<rparr>))"

definition policyDefault :: "string option \<Rightarrow> transport_policy \<Rightarrow> go_error + transport_policy" where
  "policyDefault defaultTransport policy =
     (case defaultTransport of
        None \<Rightarrow> Inr policy
      | Some value \<Rightarrow>
          (case (if equalFoldASCII (trimSpace value) ''auto'' then Some TransportAuto
                 else runtimeManifestTransportMode value) of
             None \<Rightarrow> Inl (TextError ''OpenLinker Runtime default transport is unsupported'')
           | Some mode \<Rightarrow> Inr (policy\<lparr>tp_Default := mode\<rparr>)))"

text \<open>
  The durations of the manifest, in the order the code reads them; the first that is out of
  range is the error.
\<close>

definition policyTimings :: "manifest_policy \<Rightarrow> transport_policy \<Rightarrow> go_error + transport_policy" where
  "policyTimings m policy =
     (case policyDurationSeconds (mp_HeartbeatIntervalSeconds m) (tp_HeartbeatInterval policy) ''heartbeat_interval_seconds'' of
        Inl e \<Rightarrow> Inl e | Inr heartbeat \<Rightarrow>
      case policyDurationSeconds (mp_SessionStaleAfterSeconds m) (tp_SessionStaleAfter policy) ''session_stale_after_seconds'' of
        Inl e \<Rightarrow> Inl e | Inr stale \<Rightarrow>
      case policyDurationMilliseconds (mp_RetryMinimumMS m) (tp_RetryMinimum policy) ''retry_minimum_ms'' of
        Inl e \<Rightarrow> Inl e | Inr rmin \<Rightarrow>
      case policyDurationMilliseconds (mp_RetryMaximumMS m) (tp_RetryMaximum policy) ''retry_maximum_ms'' of
        Inl e \<Rightarrow> Inl e | Inr rmax \<Rightarrow>
      case policyDurationMilliseconds (mp_WebSocketProbeIntervalMS m) (tp_WebSocketProbeInterval policy) ''websocket_probe_interval_ms'' of
        Inl e \<Rightarrow> Inl e | Inr probe \<Rightarrow>
      case policyDurationMilliseconds (mp_WebSocketProbeTimeoutMS m) (tp_WebSocketProbeTimeout policy) ''websocket_probe_timeout_ms'' of
        Inl e \<Rightarrow> Inl e | Inr probeTimeout \<Rightarrow>
      Inr (policy\<lparr>
        tp_HeartbeatInterval := heartbeat, tp_HeartbeatIntervalSet := mp_HeartbeatIntervalSeconds m \<noteq> None,
        tp_SessionStaleAfter := stale, tp_SessionStaleAfterSet := mp_SessionStaleAfterSeconds m \<noteq> None,
        tp_RetryMinimum := rmin, tp_RetryMinimumSet := mp_RetryMinimumMS m \<noteq> None,
        tp_RetryMaximum := rmax, tp_RetryMaximumSet := mp_RetryMaximumMS m \<noteq> None,
        tp_WebSocketProbeInterval := probe, tp_WebSocketProbeIntervalSet := mp_WebSocketProbeIntervalMS m \<noteq> None,
        tp_WebSocketProbeTimeout := probeTimeout, tp_WebSocketProbeTimeoutSet := mp_WebSocketProbeTimeoutMS m \<noteq> None\<rparr>))"

definition runtimeTransportPolicyFromManifest ::
  "string list option \<Rightarrow> string option \<Rightarrow> manifest_policy option \<Rightarrow> go_error + transport_policy" where
  "runtimeTransportPolicyFromManifest transports defaultTransport manifest =
     (case policyAllowed transports legacyRuntimeTransportPolicy of
        Inl e \<Rightarrow> Inl e
      | Inr p1 \<Rightarrow>
      case policyDefault defaultTransport p1 of
        Inl e \<Rightarrow> Inl e
      | Inr p2 \<Rightarrow>
      if tp_Default p2 \<noteq> TransportAuto \<and> \<not> runtimePolicyAllows p2 (tp_Default p2)
      then Inl (TextError ''OpenLinker Runtime default transport is outside its allowlist'')
      else case manifest of
        None \<Rightarrow> Inr p2
      | Some m \<Rightarrow>
      if mp_Version m \<noteq> None \<and> mp_Version m \<noteq> Some 1
      then Inl (TextError ''OpenLinker Runtime transport policy version is unsupported'')
      else case policyTimings m p2 of
        Inl e \<Rightarrow> Inl e
      | Inr p3 \<Rightarrow>
      if tp_RetryMaximum p3 < tp_RetryMinimum p3
      then Inl (TextError ''OpenLinker Runtime retry maximum is below retry minimum'')
      else if tp_SessionStaleAfter p3 > 0 \<and> tp_HeartbeatInterval p3 \<ge> tp_SessionStaleAfter p3
      then Inl (TextError ''OpenLinker Runtime heartbeat interval must be below the Session stale interval'')
      else Inr p3)"

section \<open>The worker's side\<close>

record worker_policy =
  wp_Transport :: transport_mode
  wp_HeartbeatInterval :: duration
  wp_RetryMinimum :: duration
  wp_RetryMaximum :: duration
  wp_transportOrder :: "transport_mode list"
  wp_sessionStaleAfter :: duration
  wp_webSocketProbeInterval :: duration
  wp_webSocketProbeTimeout :: duration
  wp_policyHeartbeat :: duration
  wp_policyRetryMinimum :: duration
  wp_policyRetryMaximum :: duration
  wp_policySessionStale :: duration
  wp_policyProbeInterval :: duration
  wp_policyProbeTimeout :: duration

definition runtimeTransportOrder ::
  "transport_policy \<Rightarrow> worker_policy \<Rightarrow> go_error + transport_mode list" where
  "runtimeTransportOrder policy node =
     (let configured = wp_Transport node in
      if configured \<noteq> TransportAuto \<and> \<not> runtimePolicyAllows policy configured
      then Inl (TextError ''configured Runtime transport is not allowed by OpenLinker'')
      else
        let effective = (if configured = TransportAuto then tp_Default policy else configured) in
        if effective \<noteq> TransportAuto then
          (if \<not> runtimePolicyAllows policy effective
           then Inl (TextError ''OpenLinker Runtime default transport is not allowed'')
           else Inr [effective])
        else Inr (tp_Allowed policy))"

definition overlayPolicy :: "transport_policy \<Rightarrow> worker_policy \<Rightarrow> worker_policy" where
  "overlayPolicy policy node = node\<lparr>
     wp_HeartbeatInterval := (if tp_HeartbeatIntervalSet policy then tp_HeartbeatInterval policy else wp_HeartbeatInterval node),
     wp_RetryMinimum := (if tp_RetryMinimumSet policy then tp_RetryMinimum policy else wp_RetryMinimum node),
     wp_RetryMaximum := (if tp_RetryMaximumSet policy then tp_RetryMaximum policy else wp_RetryMaximum node),
     wp_sessionStaleAfter := (if tp_SessionStaleAfterSet policy then tp_SessionStaleAfter policy else wp_sessionStaleAfter node),
     wp_webSocketProbeInterval := (if tp_WebSocketProbeIntervalSet policy then tp_WebSocketProbeInterval policy else wp_webSocketProbeInterval node),
     wp_webSocketProbeTimeout := (if tp_WebSocketProbeTimeoutSet policy then tp_WebSocketProbeTimeout policy else wp_webSocketProbeTimeout node)\<rparr>"

definition applyRuntimeTransportPolicy ::
  "transport_policy \<Rightarrow> worker_policy \<Rightarrow> go_error option \<times> worker_policy" where
  "applyRuntimeTransportPolicy policy node =
     (case runtimeTransportOrder policy node of
        Inl e \<Rightarrow> (Some e, node)
      | Inr order \<Rightarrow>
        let n = overlayPolicy policy node in
        if wp_RetryMaximum n < wp_RetryMinimum n
        then (Some (TextError ''OpenLinker Runtime retry maximum is below retry minimum''), n)
        else if wp_sessionStaleAfter n > 0 \<and> wp_HeartbeatInterval n \<ge> wp_sessionStaleAfter n
        then (Some (TextError ''OpenLinker Runtime heartbeat interval must be below the Session stale interval''), n)
        else (None, n\<lparr>wp_transportOrder := order,
               wp_policyHeartbeat := wp_HeartbeatInterval n,
               wp_policyRetryMinimum := wp_RetryMinimum n,
               wp_policyRetryMaximum := wp_RetryMaximum n,
               wp_policySessionStale := wp_sessionStaleAfter n,
               wp_policyProbeInterval := wp_webSocketProbeInterval n,
               wp_policyProbeTimeout := wp_webSocketProbeTimeout n\<rparr>))"

text \<open>The end of \<^verbatim>\<open>applyRecoveredRuntimeTransportPolicy\<close>: the checks and the assignments.\<close>

definition commitRecoveredPolicy ::
  "transport_mode list \<Rightarrow> duration \<Rightarrow> duration \<Rightarrow> duration \<Rightarrow> duration \<Rightarrow> duration \<Rightarrow> duration
     \<Rightarrow> worker_policy \<Rightarrow> go_error option \<times> worker_policy" where
  "commitRecoveredPolicy order heartbeat retryMinimum retryMaximum staleAfter probeInterval probeTimeout node =
     (if retryMaximum < retryMinimum
      then (Some (TextError ''OpenLinker Runtime retry maximum is below retry minimum''), node)
      else if staleAfter > 0 \<and> heartbeat \<ge> staleAfter
      then (Some (TextError ''OpenLinker Runtime heartbeat interval must be below the Session stale interval''), node)
      else (None, node\<lparr>wp_transportOrder := order, wp_policyHeartbeat := heartbeat,
             wp_policyRetryMinimum := retryMinimum, wp_policyRetryMaximum := retryMaximum,
             wp_policySessionStale := staleAfter, wp_policyProbeInterval := probeInterval,
             wp_policyProbeTimeout := probeTimeout\<rparr>))"

definition applyRecoveredRuntimeTransportPolicy ::
  "transport_policy \<Rightarrow> worker_policy \<Rightarrow> go_error option \<times> worker_policy" where
  "applyRecoveredRuntimeTransportPolicy policy node =
     (case runtimeTransportOrder policy node of
        Inl e \<Rightarrow> (Some e, node)
      | Inr order \<Rightarrow>
        let heartbeat = (if wp_policyHeartbeat node \<le> 0 then wp_HeartbeatInterval node else wp_policyHeartbeat node);
            retryMinimum = (if wp_policyRetryMinimum node \<le> 0 then wp_RetryMinimum node else wp_policyRetryMinimum node);
            retryMaximum = (if wp_policyRetryMaximum node \<le> 0 then wp_RetryMaximum node else wp_policyRetryMaximum node);
            probeTimeout = (if wp_policyProbeTimeout node \<le> 0 then wp_webSocketProbeTimeout node else wp_policyProbeTimeout node)
        in commitRecoveredPolicy order
             (if tp_HeartbeatIntervalSet policy then tp_HeartbeatInterval policy else heartbeat)
             (if tp_RetryMinimumSet policy then tp_RetryMinimum policy else retryMinimum)
             (if tp_RetryMaximumSet policy then tp_RetryMaximum policy else retryMaximum)
             (if tp_SessionStaleAfterSet policy then tp_SessionStaleAfter policy else wp_policySessionStale node)
             (if tp_WebSocketProbeIntervalSet policy then tp_WebSocketProbeInterval policy else wp_policyProbeInterval node)
             (if tp_WebSocketProbeTimeoutSet policy then tp_WebSocketProbeTimeout policy else probeTimeout)
             node)"

definition runtimeHeartbeatInterval :: "worker_policy \<Rightarrow> duration" where
  "runtimeHeartbeatInterval node =
     (if wp_policyHeartbeat node > 0 then wp_policyHeartbeat node else wp_HeartbeatInterval node)"

definition runtimeRetryPolicy :: "worker_policy \<Rightarrow> duration \<times> duration" where
  "runtimeRetryPolicy node =
     (if wp_policyRetryMinimum node \<le> 0 then wp_RetryMinimum node else wp_policyRetryMinimum node,
      if wp_policyRetryMaximum node \<le> 0 then wp_RetryMaximum node else wp_policyRetryMaximum node)"

definition runtimeProbePolicy :: "worker_policy \<Rightarrow> duration \<times> duration" where
  "runtimeProbePolicy node =
     (wp_policyProbeInterval node,
      if wp_policyProbeTimeout node \<le> 0 then wp_webSocketProbeTimeout node else wp_policyProbeTimeout node)"

definition orderedRuntimeTransports :: "worker_policy \<Rightarrow> transport_mode list" where
  "orderedRuntimeTransports node =
     (if wp_Transport node \<noteq> TransportAuto then [wp_Transport node]
      else if wp_transportOrder node = [] then [TransportWebSocket, TransportPull]
      else wp_transportOrder node)"

definition autoPrefersWebSocket :: "worker_policy \<Rightarrow> bool" where
  "autoPrefersWebSocket node =
     (case orderedRuntimeTransports node of
        [] \<Rightarrow> False
      | first # rest \<Rightarrow> wp_Transport node = TransportAuto \<and> first = TransportWebSocket)"

definition autoAllowsPullFallback :: "worker_policy \<Rightarrow> bool" where
  "autoAllowsPullFallback node =
     (case orderedRuntimeTransports node of
        [] \<Rightarrow> False
      | first # rest \<Rightarrow> wp_Transport node = TransportAuto \<and> first = TransportWebSocket
           \<and> TransportPull \<in> set rest)"

section \<open>The retry delay\<close>

definition goQuot :: "int \<Rightarrow> int \<Rightarrow> int" where
  "goQuot a b = sgn a * sgn b * (\<bar>a\<bar> div \<bar>b\<bar>)"  \<comment> \<open>Go's division truncates\<close>

fun retryDelayLoop :: "nat \<Rightarrow> duration \<Rightarrow> duration \<Rightarrow> duration" where
  "retryDelayLoop 0 delay maximum = (if delay > maximum then maximum else delay)"
| "retryDelayLoop (Suc n) delay maximum =
     (if \<not> delay < maximum then (if delay > maximum then maximum else delay)
      else if delay > goQuot maximum 2 then maximum
      else retryDelayLoop n (mul64 delay 2) maximum)"

definition retryDelay :: "int \<Rightarrow> worker_policy \<Rightarrow> duration" where
  "retryDelay attempt node =
     (case runtimeRetryPolicy node of (minimum, maximum) \<Rightarrow> retryDelayLoop (nat attempt) minimum maximum)"

section \<open>Policies are well formed\<close>

abbreviation maxPolicyDuration :: duration where
  "maxPolicyDuration \<equiv> 86400 * nanosSecond"

definition policy_ok :: "transport_policy \<Rightarrow> bool" where
  "policy_ok p \<longleftrightarrow>
     tp_Allowed p \<noteq> [] \<and> distinct (tp_Allowed p)
   \<and> set (tp_Allowed p) \<subseteq> {TransportWebSocket, TransportPull}
   \<and> (tp_Default p = TransportAuto \<or> tp_Default p \<in> set (tp_Allowed p))
   \<and> 0 < tp_RetryMinimum p \<and> tp_RetryMinimum p \<le> tp_RetryMaximum p \<and> tp_RetryMaximum p \<le> maxPolicyDuration
   \<and> 0 < tp_HeartbeatInterval p \<and> tp_HeartbeatInterval p \<le> maxPolicyDuration
   \<and> 0 \<le> tp_SessionStaleAfter p
   \<and> (tp_SessionStaleAfter p = 0 \<or> tp_HeartbeatInterval p < tp_SessionStaleAfter p)
   \<and> 0 < tp_WebSocketProbeInterval p \<and> 0 < tp_WebSocketProbeTimeout p"

lemma policyDurationSeconds_bounds:
  assumes "policyDurationSeconds v fallback field = Inr d" and "v \<noteq> None"
  shows "nanosSecond \<le> d \<and> d \<le> maxPolicyDuration"
  using assms by (auto simp: policyDurationSeconds_def mul64_def wrap64_def nanosSecond_def split: if_splits)

lemma policyDurationMilliseconds_bounds:
  assumes "policyDurationMilliseconds v fallback field = Inr d" and "v \<noteq> None"
  shows "nanosMillisecond \<le> d \<and> d \<le> maxPolicyDuration"
  using assms
  by (auto simp: policyDurationMilliseconds_def mul64_def wrap64_def nanosMillisecond_def nanosSecond_def split: if_splits)

lemma policyDuration_fallback:
  "policyDurationSeconds None fallback field = Inr fallback"
  "policyDurationMilliseconds None fallback field = Inr fallback"
  by (simp_all add: policyDurationSeconds_def policyDurationMilliseconds_def)

lemma manifestMode_cases: "runtimeManifestTransportMode v = Some m \<Longrightarrow> m \<in> {TransportWebSocket, TransportPull}"
  by (auto simp: runtimeManifestTransportMode_def Let_def split: if_splits)

lemma manifestModes_ok:
  assumes "distinct allowed" and "\<And>m. m \<in> set allowed \<Longrightarrow> m = TransportWebSocket \<or> m = TransportPull"
  shows "distinct (manifestModes vs allowed)
    \<and> (\<forall>m \<in> set (manifestModes vs allowed). m = TransportWebSocket \<or> m = TransportPull)"
  using assms
proof (induction vs allowed rule: manifestModes.induct)
  case (2 v vs allowed)
  show ?case
  proof (cases "runtimeManifestTransportMode v")
    case None with 2 show ?thesis by simp
  next
    case (Some mode)
    then have m: "mode = TransportWebSocket \<or> mode = TransportPull" using manifestMode_cases by blast
    show ?thesis
    proof (cases "mode \<in> set allowed")
      case True with Some 2(2) [OF Some True] 2(4,5) show ?thesis by simp
    next
      case False
      have "distinct (allowed @ [mode])" using False 2(4) by simp
      moreover have "x = TransportWebSocket \<or> x = TransportPull" if "x \<in> set (allowed @ [mode])" for x
        using that m 2(5) by auto
      ultimately show ?thesis using Some False 2(3) [OF Some False] by simp
    qed
  qed
qed auto

lemma policyAllowed_ok:
  assumes "policyAllowed ts legacyRuntimeTransportPolicy = Inr p"
  obtains a where "p = legacyRuntimeTransportPolicy\<lparr>tp_Allowed := a\<rparr>" "a \<noteq> []" "distinct a"
    "set a \<subseteq> {TransportWebSocket, TransportPull}"
proof (cases ts)
  case None
  with assms have "p = legacyRuntimeTransportPolicy" by (simp add: policyAllowed_def)
  then show thesis
    by (intro that [of "[TransportWebSocket, TransportPull]"]) (simp_all add: legacyRuntimeTransportPolicy_def)
next
  case (Some vs)
  with assms that [of "manifestModes vs []"] manifestModes_ok [of "[]" vs] show thesis
    by (auto simp: policyAllowed_def Let_def split: if_splits)
qed

lemma policyDefault_ok:
  assumes "policyDefault d p = Inr q"
  obtains m where "q = p\<lparr>tp_Default := m\<rparr>"
proof (cases d)
  case None
  with assms that [of "tp_Default p"] show thesis by (simp add: policyDefault_def)
next
  case (Some v)
  with assms that show thesis by (auto simp: policyDefault_def split: option.splits)
qed

lemma policyTimings_fields:
  assumes "policyTimings m p = Inr q"
  shows "tp_Allowed q = tp_Allowed p \<and> tp_Default q = tp_Default p
    \<and> policyDurationSeconds (mp_HeartbeatIntervalSeconds m) (tp_HeartbeatInterval p) ''heartbeat_interval_seconds'' = Inr (tp_HeartbeatInterval q)
    \<and> policyDurationSeconds (mp_SessionStaleAfterSeconds m) (tp_SessionStaleAfter p) ''session_stale_after_seconds'' = Inr (tp_SessionStaleAfter q)
    \<and> policyDurationMilliseconds (mp_RetryMinimumMS m) (tp_RetryMinimum p) ''retry_minimum_ms'' = Inr (tp_RetryMinimum q)
    \<and> policyDurationMilliseconds (mp_RetryMaximumMS m) (tp_RetryMaximum p) ''retry_maximum_ms'' = Inr (tp_RetryMaximum q)
    \<and> policyDurationMilliseconds (mp_WebSocketProbeIntervalMS m) (tp_WebSocketProbeInterval p) ''websocket_probe_interval_ms'' = Inr (tp_WebSocketProbeInterval q)
    \<and> policyDurationMilliseconds (mp_WebSocketProbeTimeoutMS m) (tp_WebSocketProbeTimeout p) ''websocket_probe_timeout_ms'' = Inr (tp_WebSocketProbeTimeout q)"
  using assms by (auto simp: policyTimings_def split: sum.splits)

lemma duration_positive:
  assumes "policyDurationSeconds v fallback field = Inr d"
    and "0 < fallback" and "fallback \<le> maxPolicyDuration"
  shows "0 < d \<and> d \<le> maxPolicyDuration"
proof (cases v)
  case None with assms show ?thesis by (simp add: policyDuration_fallback)
next
  case (Some x)
  with policyDurationSeconds_bounds [OF assms(1)] show ?thesis by (simp add: nanosSecond_def)
qed

lemma duration_positive_ms:
  assumes "policyDurationMilliseconds v fallback field = Inr d"
    and "0 < fallback" and "fallback \<le> maxPolicyDuration"
  shows "0 < d \<and> d \<le> maxPolicyDuration"
proof (cases v)
  case None with assms show ?thesis by (simp add: policyDuration_fallback)
next
  case (Some x)
  with policyDurationMilliseconds_bounds [OF assms(1)] show ?thesis by (simp add: nanosMillisecond_def)
qed

lemma duration_nonneg:
  assumes "policyDurationSeconds v fallback field = Inr d" and "0 \<le> fallback"
  shows "0 \<le> d"
proof (cases v)
  case None with assms show ?thesis by (simp add: policyDuration_fallback)
next
  case (Some x)
  with policyDurationSeconds_bounds [OF assms(1)] show ?thesis by (simp add: nanosSecond_def)
qed

lemma policyTimings_ok:
  assumes t: "policyTimings m p = Inr q"
    and d: "tp_HeartbeatInterval p = defaultHeartbeatInterval" "tp_SessionStaleAfter p = 0"
      "tp_RetryMinimum p = defaultRetryMinimum" "tp_RetryMaximum p = defaultRetryMaximum"
      "tp_WebSocketProbeInterval p = 15 * nanosSecond" "tp_WebSocketProbeTimeout p = 10 * nanosSecond"
  shows "0 < tp_RetryMinimum q \<and> tp_RetryMaximum q \<le> maxPolicyDuration
    \<and> 0 < tp_HeartbeatInterval q \<and> tp_HeartbeatInterval q \<le> maxPolicyDuration \<and> 0 \<le> tp_SessionStaleAfter q
    \<and> 0 < tp_WebSocketProbeInterval q \<and> 0 < tp_WebSocketProbeTimeout q"
proof -
  note f = policyTimings_fields [OF t, unfolded d]
  note c = defaultHeartbeatInterval_def defaultRetryMinimum_def defaultRetryMaximum_def nanosSecond_def nanosMillisecond_def
  have "0 < tp_HeartbeatInterval q \<and> tp_HeartbeatInterval q \<le> maxPolicyDuration"
    by (rule duration_positive) (use f in \<open>auto simp: c\<close>)
  moreover have "0 \<le> tp_SessionStaleAfter q" by (rule duration_nonneg) (use f in auto)
  moreover have "0 < tp_RetryMinimum q \<and> tp_RetryMinimum q \<le> maxPolicyDuration"
    by (rule duration_positive_ms) (use f in \<open>auto simp: c\<close>)
  moreover have "0 < tp_RetryMaximum q \<and> tp_RetryMaximum q \<le> maxPolicyDuration"
    by (rule duration_positive_ms) (use f in \<open>auto simp: c\<close>)
  moreover have "0 < tp_WebSocketProbeInterval q \<and> tp_WebSocketProbeInterval q \<le> maxPolicyDuration"
    by (rule duration_positive_ms) (use f in \<open>auto simp: c\<close>)
  moreover have "0 < tp_WebSocketProbeTimeout q \<and> tp_WebSocketProbeTimeout q \<le> maxPolicyDuration"
    by (rule duration_positive_ms) (use f in \<open>auto simp: c\<close>)
  ultimately show ?thesis by blast
qed


definition sample_manifest :: manifest_policy where
  "sample_manifest = \<lparr>mp_Version = Some 1, mp_HeartbeatIntervalSeconds = Some 10,
     mp_SessionStaleAfterSeconds = Some 45, mp_RetryMinimumMS = Some 500, mp_RetryMaximumMS = None,
     mp_WebSocketProbeIntervalMS = None, mp_WebSocketProbeTimeoutMS = None\<rparr>"

definition sample_policy :: transport_policy where
  "sample_policy = legacyRuntimeTransportPolicy\<lparr>
     tp_HeartbeatInterval := 10 * nanosSecond, tp_HeartbeatIntervalSet := True,
     tp_SessionStaleAfter := 45 * nanosSecond, tp_SessionStaleAfterSet := True,
     tp_RetryMinimum := 500 * nanosMillisecond, tp_RetryMinimumSet := True\<rparr>"

lemmas trim_eval = trimSpace_def unicodeSpaces_def spacePrefix_def trimWith.simps code_def

lemma sample_modes:
  "runtimeManifestTransportMode '' WebSocket '' = Some TransportWebSocket"
  "runtimeManifestTransportMode ''smtp'' = None"
  "runtimeManifestTransportMode ''PULL'' = Some TransportPull"
  "equalFoldASCII (trimSpace ''Auto'') ''auto''"
  by (simp_all add: runtimeManifestTransportMode_def equalFoldASCII_def trim_eval)

lemma sample_policy_accepted:
  "runtimeTransportPolicyFromManifest (Some ['' WebSocket '', ''smtp'', ''PULL''])
     (Some ''Auto'') (Some sample_manifest) = Inr sample_policy"
  by (simp add: runtimeTransportPolicyFromManifest_def policyAllowed_def policyDefault_def policyTimings_def
      sample_modes sample_manifest_def sample_policy_def legacyRuntimeTransportPolicy_def
      policyDurationSeconds_def policyDurationMilliseconds_def mul64_def wrap64_def nanosSecond_def
      nanosMillisecond_def defaultRetryMaximum_def)


section \<open>Applying a policy\<close>

definition worker_policy_ok :: "worker_policy \<Rightarrow> bool" where
  "worker_policy_ok n \<longleftrightarrow>
     wp_policyRetryMinimum n \<le> wp_policyRetryMaximum n
   \<and> (wp_policySessionStale n \<le> 0 \<or> wp_policyHeartbeat n < wp_policySessionStale n)"

lemma transportOrder_ok:
  assumes "policy_ok p" and "runtimeTransportOrder p n = Inr order"
  shows "order \<noteq> [] \<and> set order \<subseteq> set (tp_Allowed p) \<and> distinct order
    \<and> (wp_Transport n \<noteq> TransportAuto \<longrightarrow> order = [wp_Transport n])"
  using assms
  by (auto simp: runtimeTransportOrder_def policy_ok_def runtimePolicyAllows_def Let_def split: if_splits)

lemma apply_start:
  assumes "applyRuntimeTransportPolicy p n = (None, n')" and "runtimeTransportOrder p n = Inr order"
  shows "wp_transportOrder n' = order \<and> wp_Transport n' = wp_Transport n \<and> worker_policy_ok n'"
proof -
  have "wp_Transport (overlayPolicy p n) = wp_Transport n" by (simp add: overlayPolicy_def)
  with assms show ?thesis
    by (auto simp: applyRuntimeTransportPolicy_def worker_policy_ok_def Let_def split: if_splits)
qed

lemma commitRecovered_ok:
  "commitRecoveredPolicy order h lo hi st pi pt n = (None, n') \<Longrightarrow>
     wp_transportOrder n' = order \<and> wp_Transport n' = wp_Transport n \<and> worker_policy_ok n'"
  "commitRecoveredPolicy order h lo hi st pi pt n = (Some e, n') \<Longrightarrow> n' = n"
  by (auto simp: commitRecoveredPolicy_def worker_policy_ok_def split: if_splits)

lemma apply_recovered:
  assumes "applyRecoveredRuntimeTransportPolicy p n = (None, n')" and "runtimeTransportOrder p n = Inr order"
  shows "wp_transportOrder n' = order \<and> wp_Transport n' = wp_Transport n \<and> worker_policy_ok n'"
  using assms(1) unfolding applyRecoveredRuntimeTransportPolicy_def Let_def assms(2) sum.case
  by (rule commitRecovered_ok(1))

lemma apply_recovered_fails:
  assumes "applyRecoveredRuntimeTransportPolicy q n = (Some e, m)"
  shows "m = n"
proof (cases "runtimeTransportOrder q n")
  case (Inl x) with assms show ?thesis by (simp add: applyRecoveredRuntimeTransportPolicy_def)
next
  case (Inr order)
  show ?thesis
    using assms unfolding applyRecoveredRuntimeTransportPolicy_def Let_def Inr sum.case
    by (rule commitRecovered_ok(2))
qed

text \<open>
  C29. Applying a well-formed policy gives the worker only transports that the platform allows:
  after a successful application, at start or in a policy recovery, the transports it tries
  are a non-empty list without repetition of allowed ones, exactly the configured one when one
  is configured; long-poll fallback is offered only when WebSocket is tried first and both are
  allowed; retry and heartbeat intervals are consistent. A recovery that fails changes nothing.
\<close>

theorem applied_policy_is_respected:
  assumes "policy_ok p"
    and "applyRuntimeTransportPolicy p n = (None, n') \<or> applyRecoveredRuntimeTransportPolicy p n = (None, n')"
  shows "orderedRuntimeTransports n' \<noteq> [] \<and> distinct (orderedRuntimeTransports n')
    \<and> set (orderedRuntimeTransports n') \<subseteq> set (tp_Allowed p)
    \<and> (wp_Transport n \<noteq> TransportAuto \<longrightarrow> orderedRuntimeTransports n' = [wp_Transport n])
    \<and> (autoAllowsPullFallback n' \<longrightarrow> autoPrefersWebSocket n'
         \<and> {TransportWebSocket, TransportPull} \<subseteq> set (tp_Allowed p))
    \<and> worker_policy_ok n'
    \<and> (\<forall>q e m. applyRecoveredRuntimeTransportPolicy q n = (Some e, m) \<longrightarrow> m = n)"
proof -
  obtain order where o: "runtimeTransportOrder p n = Inr order"
    using assms(2) by (auto simp: applyRuntimeTransportPolicy_def applyRecoveredRuntimeTransportPolicy_def split: sum.splits)
  note ok = transportOrder_ok [OF assms(1) o]
  have n': "wp_transportOrder n' = order" "wp_Transport n' = wp_Transport n" "worker_policy_ok n'"
    using assms(2) apply_start [OF _ o] apply_recovered [OF _ o] by blast+
  have ord: "orderedRuntimeTransports n' = order"
    using n' ok by (auto simp: orderedRuntimeTransports_def)
  have "autoPrefersWebSocket n' \<and> {TransportWebSocket, TransportPull} \<subseteq> set (tp_Allowed p)"
    if "autoAllowsPullFallback n'"
    using that ok by (auto simp: autoAllowsPullFallback_def autoPrefersWebSocket_def ord split: list.splits)
  moreover have "m = n" if "applyRecoveredRuntimeTransportPolicy q n = (Some e, m)" for q e m
    using that by (rule apply_recovered_fails)
  ultimately show ?thesis using ok ord n'(3) by auto
qed

definition sample_worker :: worker_policy where
  "sample_worker = \<lparr>wp_Transport = TransportAuto, wp_HeartbeatInterval = defaultHeartbeatInterval,
     wp_RetryMinimum = defaultRetryMinimum, wp_RetryMaximum = defaultRetryMaximum, wp_transportOrder = [],
     wp_sessionStaleAfter = 0, wp_webSocketProbeInterval = 0, wp_webSocketProbeTimeout = 10 * nanosSecond,
     wp_policyHeartbeat = 0, wp_policyRetryMinimum = 0, wp_policyRetryMaximum = 0, wp_policySessionStale = 0,
     wp_policyProbeInterval = 0, wp_policyProbeTimeout = 0\<rparr>"

theorem applied_policy_is_respected_witness:
  "\<exists>n. applyRuntimeTransportPolicy sample_policy sample_worker = (None, n) \<and> autoAllowsPullFallback n
     \<and> autoPrefersWebSocket n \<and> worker_policy_ok n"
proof -
  define n where "n = snd (applyRuntimeTransportPolicy sample_policy sample_worker)"
  have ok: "policy_ok sample_policy" by code_simp
  have n: "applyRuntimeTransportPolicy sample_policy sample_worker = (None, n)" unfolding n_def by code_simp
  have "autoAllowsPullFallback n" unfolding n_def by code_simp
  with applied_policy_is_respected [OF ok disjI1 [OF n]] n show ?thesis by blast
qed

section \<open>Retry delays\<close>

lemma retryDelayLoop_closed_form:
  assumes "0 < d" and "d \<le> m" and "m \<le> maxInt64"
  shows "retryDelayLoop n d m = min m (d * 2 ^ n)"
  using assms
proof (induction n arbitrary: d)
  case (Suc n)
  have q: "goQuot m 2 = m div 2" using Suc.prems by (simp add: goQuot_def)
  show ?case
  proof (cases "d < m \<and> d \<le> m div 2")
    case True
    then have le: "d * 2 \<le> m" by linarith
    have "mul64 d 2 = d * 2"
      using le Suc.prems by (simp add: mul64_def wrap64_def maxInt64_def)
    with True q Suc.IH [of "d * 2"] Suc.prems le show ?thesis by (simp add: mult.assoc)
  next
    case False
    then have "m \<le> d * 2" using Suc.prems by auto
    moreover have "d * 2 \<le> d * 2 ^ Suc n"
      using Suc.prems by (intro mult_left_mono) auto
    ultimately have "min m (d * 2 ^ Suc n) = m" by linarith
    with False q Suc.prems show ?thesis by auto
  qed
qed auto

text \<open>
  C30. The retry delay is exponential back-off: with a positive minimum that does not exceed the
  maximum, the loop of \<^verbatim>\<open>retryDelay\<close> computes the smaller of the maximum and
  \<open>minimum * 2 ^ attempt\<close> without overflow, so it starts at the minimum, never decreases
  with the attempt, never exceeds the maximum, and reaches it after at most 63 attempts.
\<close>

theorem retry_delay_is_exponential:
  assumes "runtimeRetryPolicy node = (lo, hi)" and "0 < lo" and "lo \<le> hi" and "hi \<le> maxInt64" and "0 \<le> attempt"
  shows "retryDelay attempt node = min hi (lo * 2 ^ nat attempt)
    \<and> lo \<le> retryDelay attempt node \<and> retryDelay attempt node \<le> hi
    \<and> retryDelay attempt node \<le> retryDelay (attempt + 1) node
    \<and> (63 \<le> attempt \<longrightarrow> retryDelay attempt node = hi)"
proof -
  have eq: "retryDelay a node = min hi (lo * 2 ^ nat a)" for a
    using retryDelayLoop_closed_form [OF assms(2-4)] assms(1) by (simp add: retryDelay_def)
  have one: "lo * 1 \<le> lo * 2 ^ nat attempt" using assms(2) by (intro mult_left_mono) auto
  have "nat (attempt + 1) = Suc (nat attempt)" using assms(5) by simp
  then have grow: "lo * 2 ^ nat attempt \<le> lo * 2 ^ nat (attempt + 1)" using assms(2) by simp
  have "hi \<le> lo * 2 ^ nat attempt" if "63 \<le> attempt"
  proof -
    have "(2::int) ^ 63 \<le> 2 ^ nat attempt" using that by (intro power_increasing) auto
    also have "\<dots> = 1 * 2 ^ nat attempt" by simp
    also have "\<dots> \<le> lo * 2 ^ nat attempt" using assms(2) by (intro mult_right_mono) auto
    finally show ?thesis using assms(4) by (simp add: maxInt64_def)
  qed
  with eq one grow assms(3) show ?thesis by (auto simp: min_def)
qed

theorem retry_delay_is_exponential_witness:
  "retryDelay 3 sample_worker = 2000 * nanosMillisecond \<and> retryDelay 70 sample_worker = defaultRetryMaximum"
proof -
  have r: "runtimeRetryPolicy sample_worker = (defaultRetryMinimum, defaultRetryMaximum)" by code_simp
  note c = defaultRetryMinimum_def defaultRetryMaximum_def nanosSecond_def nanosMillisecond_def maxInt64_def
  show ?thesis
    using retry_delay_is_exponential [OF r, of 3] retry_delay_is_exponential [OF r, of 70] by (simp add: c)
qed

end
