(* ===== verification/Platform_Client.thy ===== *)
theory Platform_Client
  imports Go_Strings Go_Format Store_Errors
begin

text \<open>
  Idempotency keys (idempotency.go, and the check of delegated calls in
  runtime_worker_attempt.go) and the signature of task callbacks (webhook.go). HMAC-SHA256 and
  the random source are parameters. Properties: keys that are accepted or generated are legal
  and the two checks agree; a callback is accepted exactly when its signature decodes to the
  HMAC of its body, and the body that was read is left for the handler.
\<close>

section \<open>Idempotency keys\<close>

definition base64Digits :: string where
  "base64Digits = ''ABCDEFGHIJKLMNOPQRSTUVWXYZabcdefghijklmnopqrstuvwxyz0123456789-_''"

definition base64Digit :: "nat \<Rightarrow> char" where
  "base64Digit n = base64Digits ! (n mod 64)"

text \<open>\<^verbatim>\<open>base64.RawURLEncoding.EncodeToString\<close>: no padding.\<close>

fun rawURLEncode :: "bytes \<Rightarrow> string" where
  "rawURLEncode [] = []"
| "rawURLEncode [a] = (let n = code a * 16 in [base64Digit (n div 64), base64Digit n])"
| "rawURLEncode [a, b] =
     (let n = (code a * 256 + code b) * 4
      in [base64Digit (n div 4096), base64Digit (n div 64), base64Digit n])"
| "rawURLEncode (a # b # c # rest) =
     (let n = (code a * 256 + code b) * 256 + code c
      in base64Digit (n div 262144) # base64Digit (n div 4096) # base64Digit (n div 64) # base64Digit n
           # rawURLEncode rest)"

definition errInvalidIdempotencyKey :: go_error where
  "errInvalidIdempotencyKey =
     TextError ''openlinker: idempotency key must contain 1 to 255 printable ASCII bytes without surrounding spaces''"

definition maxIdempotencyKeyBytes :: nat where "maxIdempotencyKeyBytes = 255"

fun printableLoop :: "go_error \<Rightarrow> string \<Rightarrow> go_error option" where
  "printableLoop err [] = None"
| "printableLoop err (c # cs) = (if code c < 0x20 \<or> code c > 0x7e then Some err else printableLoop err cs)"

definition validateIdempotencyKey :: "string \<Rightarrow> go_error option" where
  "validateIdempotencyKey key =
     (if length key = 0 \<or> length key > maxIdempotencyKeyBytes \<or> key ! 0 = CHR '' '' \<or> key ! (length key - 1) = CHR '' ''
      then Some errInvalidIdempotencyKey
      else printableLoop errInvalidIdempotencyKey key)"

text \<open>\<open>random\<close> is what \<^verbatim>\<open>rand.Read\<close> delivers: 32 bytes or an error.\<close>

definition resolveRunIdempotencyKey :: "(go_error + bytes) \<Rightarrow> string \<Rightarrow> go_error + string" where
  "resolveRunIdempotencyKey random explicit =
     (case (if explicit = [] then
              (case random of
                 Inl e \<Rightarrow> Inl (WrapError e ''openlinker: generate idempotency key'')
               | Inr r \<Rightarrow> Inr (''olrun_'' @ rawURLEncode r))
            else Inr explicit) of
        Inl e \<Rightarrow> Inl e
      | Inr key \<Rightarrow> (case validateIdempotencyKey key of Some e \<Rightarrow> Inl e | None \<Rightarrow> Inr key))"

definition delegatedKeyInvalid :: go_error where
  "delegatedKeyInvalid =
     TextError ''idempotency key must contain 1 to 255 printable ASCII bytes without surrounding spaces''"

definition validateDelegatedIdempotencyKey :: "string \<Rightarrow> go_error option" where
  "validateDelegatedIdempotencyKey key =
     (if length key = 0 then Some (TextError ''idempotency key is required for delegated Agent calls'')
      else if length key > 255 \<or> key ! 0 = CHR '' '' \<or> key ! (length key - 1) = CHR '' ''
      then Some delegatedKeyInvalid
      else printableLoop delegatedKeyInvalid key)"

section \<open>Task callbacks\<close>

record callback_options =
  co_Secret :: string
  co_Token :: string
  co_Authentication :: "string option"  \<comment> \<open>passed on as it is\<close>
  co_Metadata :: "string option"        \<comment> \<open>passed on as it is\<close>
  co_EventTypes :: "string list"

record callback_config =
  cb_URL :: string
  cb_Token :: string
  cb_Secret :: string
  cb_Authentication :: "string option"
  cb_Metadata :: "string option"
  cb_EventTypes :: "string list"

definition GenerateTaskCallbackSecret :: "(go_error + bytes) \<Rightarrow> go_error + string" where
  "GenerateTaskCallbackSecret random =
     (case random of
        Inl e \<Rightarrow> Inl (WrapError e ''openlinker: generate task callback secret'')
      | Inr b \<Rightarrow> Inr (hexEncode b))"

definition NewWebhookRunCallback ::
  "(go_error + bytes) \<Rightarrow> string \<Rightarrow> callback_options \<Rightarrow> go_error + callback_config" where
  "NewWebhookRunCallback random url opts =
     (let trimmedURL = trimSpace url in
      if trimmedURL = [] then Inl (TextError ''openlinker: task callback URL is required'')
      else case (if trimSpace (co_Secret opts) = [] then GenerateTaskCallbackSecret random
                 else Inr (trimSpace (co_Secret opts))) of
        Inl e \<Rightarrow> Inl e
      | Inr secret \<Rightarrow>
          Inr \<lparr>cb_URL = trimmedURL, cb_Token = trimSpace (co_Token opts), cb_Secret = secret,
               cb_Authentication = co_Authentication opts, cb_Metadata = co_Metadata opts,
               cb_EventTypes = co_EventTypes opts\<rparr>)"

definition trimPrefix :: "string \<Rightarrow> string \<Rightarrow> string" where
  "trimPrefix s prefix = (if isPrefix prefix s then drop (length prefix) s else s)"

definition normalizeTaskCallbackSignature :: "string \<Rightarrow> string" where
  "normalizeTaskCallbackSignature signature = trimPrefix (toLower (trimSpace signature)) ''sha256=''"

text \<open>\<open>hmac\<close> is HMAC-SHA256: key, then message.\<close>

definition SignTaskCallbackPayload :: "(bytes \<Rightarrow> bytes \<Rightarrow> bytes) \<Rightarrow> bytes \<Rightarrow> string \<Rightarrow> string" where
  "SignTaskCallbackPayload hmac payload secret = hexEncode (hmac secret payload)"

definition VerifyTaskCallbackSignature ::
  "(bytes \<Rightarrow> bytes \<Rightarrow> bytes) \<Rightarrow> bytes \<Rightarrow> string \<Rightarrow> string \<Rightarrow> bool" where
  "VerifyTaskCallbackSignature hmac payload secret signature =
     (let expected = normalizeTaskCallbackSignature (SignTaskCallbackPayload hmac payload secret);
          actual = normalizeTaskCallbackSignature signature
      in if expected = [] \<or> actual = [] then False
         else case hexDecode expected of
                None \<Rightarrow> False
              | Some expectedBytes \<Rightarrow>
                  (case hexDecode actual of
                     None \<Rightarrow> False
                   | Some actualBytes \<Rightarrow>
                       if length expectedBytes \<noteq> length actualBytes then False
                       else expectedBytes = actualBytes))"

text \<open>
  The body of a request: the bytes it delivers and the error, if any, that the read after them
  reports (no error is the end of the body). A reader limited to \<open>n\<close> bytes reads nothing when
  \<open>n\<close> is not positive.
\<close>

type_synonym request_body = "bytes \<times> go_error option"

definition readAllLimited :: "request_body \<Rightarrow> int \<Rightarrow> go_error + bytes" where
  "readAllLimited body n =
     (if n \<le> int (length (fst body)) then Inr (take (nat n) (fst body))
      else case snd body of None \<Rightarrow> Inr (fst body) | Some e \<Rightarrow> Inl e)"

definition readLimitedBody :: "request_body option \<Rightarrow> int \<Rightarrow> go_error + bytes" where
  "readLimitedBody body maxBytes =
     (case body of
        None \<Rightarrow> Inr []
      | Some b \<Rightarrow>
          (case readAllLimited b (add64 maxBytes 1) of
             Inl e \<Rightarrow> Inl (WrapError e ''openlinker: read task callback request body'')
           | Inr data \<Rightarrow>
               if int (length data) > maxBytes then 
                 Inl (TextError (''openlinker: task callback request body exceeds '' @ formatInt maxBytes @ '' bytes''))
               else Inr data))"

text \<open>
  The request: its body and the value of the header X-OpenLinker-Signature. The result is the body
  that was read and whether it is signed; the request is left with the body that was read.
\<close>

record callback_request =
  cr_Body :: "request_body option"
  cr_Signature :: string

definition VerifyTaskCallbackRequest ::
  "(bytes \<Rightarrow> bytes \<Rightarrow> bytes) \<Rightarrow> callback_request option \<Rightarrow> string \<Rightarrow> int
     \<Rightarrow> (go_error + bytes \<times> bool) \<times> callback_request option" where
  "VerifyTaskCallbackRequest hmac request secret maxBytes =
     (case request of
        None \<Rightarrow> (Inl (TextError ''openlinker: task callback request is nil''), None)
      | Some r \<Rightarrow>
          (case readLimitedBody (cr_Body r) (if maxBytes \<le> 0 then 2 ^ 20 else maxBytes) of
             Inl e \<Rightarrow> (Inl e, Some (r\<lparr>cr_Body := None\<rparr>))
           | Inr body \<Rightarrow>
               let r1 = r\<lparr>cr_Body := Some (body, None)\<rparr> in
               if cr_Signature r1 = [] then (Inr (body, False), Some r1)
               else (Inr (body, VerifyTaskCallbackSignature hmac body secret (cr_Signature r1)), Some r1)))"

section \<open>Keys\<close>

lemma printableLoop_iff: "printableLoop err s = None \<longleftrightarrow> (\<forall>c \<in> set s. 0x20 \<le> code c \<and> code c \<le> 0x7e)"
  by (induction s) auto

lemma base64Digits_plain: "list_all (\<lambda>c. 0x20 < code c \<and> code c \<le> 0x7e) base64Digits"
  by code_simp

lemma base64Digits_distinct: "distinct base64Digits" by code_simp

lemma base64Digit_plain: "0x20 < code (base64Digit n) \<and> code (base64Digit n) \<le> 0x7e"
proof -
  have "base64Digit n \<in> set base64Digits"
    unfolding base64Digit_def by (rule nth_mem) (simp add: base64Digits_def)
  with base64Digits_plain show ?thesis by (auto simp: list_all_iff)
qed

lemma base64Digit_inj: "base64Digit m = base64Digit n \<longleftrightarrow> m mod 64 = n mod 64"
  unfolding base64Digit_def using base64Digits_distinct
  by (subst nth_eq_iff_index_eq) (simp_all add: base64Digits_def)

lemma base64_group_inj:
  fixes m n :: nat
  assumes "m < 16777216" "n < 16777216" and "m mod 64 = n mod 64" "m div 64 mod 64 = n div 64 mod 64"
    "m div 4096 mod 64 = n div 4096 mod 64" "m div 262144 mod 64 = n div 262144 mod 64"
  shows "m = n"
proof -
  have "m div 262144 < 64" "n div 262144 < 64" using assms(1,2) by (simp_all add: less_mult_imp_div_less)
  with assms(6) have d3: "m div 262144 = n div 262144" by simp
  have step: "m div (64 * k) = n div (64 * k) \<Longrightarrow> m div k mod 64 = n div k mod 64 \<Longrightarrow> m div k = n div k" for k
    by (metis div_mult2_eq div_mult_mod_eq mult.commute)
  from step [of 4096] d3 assms(5) have "m div 4096 = n div 4096" by simp
  with step [of 64] assms(4) have "m div 64 = n div 64" by simp
  with step [of 1] assms(3) show ?thesis by simp
qed

lemma code_eq: "code a = code b \<longleftrightarrow> a = b"
  by (metis char_of_code)

lemma byte_split:
  fixes a b c d :: nat
  assumes "b < 256" "d < 256" and "a * 256 + b = c * 256 + d"
  shows "a = c \<and> b = d"
proof -
  have "a = (a * 256 + b) div 256" "c = (c * 256 + d) div 256" using assms(1,2) by simp_all
  then have "a = c" using assms(3) by metis
  with assms(3) show ?thesis by simp
qed

lemma rawURLEncode_inj: "length xs = length ys \<Longrightarrow> rawURLEncode xs = rawURLEncode ys \<Longrightarrow> xs = ys"
proof (induction xs arbitrary: ys rule: rawURLEncode.induct)
  case (2 a)
  from "2.prems"(1) obtain b where ys: "ys = [b]" by (cases ys) auto
  let ?m = "code a * 16" and ?n = "code b * 16"
  have "?m < 4096" "?n < 4096" "?m < 16777216" "?n < 16777216"
    using code_less_256 [of a] code_less_256 [of b] by linarith+
  then have "?m = ?n"
    using "2.prems"(2) by (intro base64_group_inj [of ?m ?n]) (simp_all only: ys rawURLEncode.simps Let_def
      base64Digit_inj list.inject div_less)
  then show ?case by (simp add: ys code_eq)
next
  case (3 a b)
  from "3.prems"(1) obtain c d where ys: "ys = [c, d]" by (cases ys rule: rawURLEncode.cases) auto
  note lt = code_less_256 [of a] code_less_256 [of b] code_less_256 [of c] code_less_256 [of d]
  let ?m = "(code a * 256 + code b) * 4" and ?n = "(code c * 256 + code d) * 4"
  have "?m < 262144" "?n < 262144" "?m < 16777216" "?n < 16777216" using lt by (simp_all del: code_less_256)
  then have "?m = ?n"
    using "3.prems"(2) by (intro base64_group_inj [of ?m ?n]) (simp_all only: ys rawURLEncode.simps Let_def
      base64Digit_inj list.inject div_less)
  then have "code a * 256 + code b = code c * 256 + code d" by simp
  from byte_split [OF lt(2) lt(4) this] show ?case by (simp add: ys code_eq)
next
  case (4 a b c rest)
  from "4.prems"(1) obtain d e f rest' where ys: "ys = d # e # f # rest'" by (cases ys rule: rawURLEncode.cases) auto
  note lt = code_less_256 [of a] code_less_256 [of b] code_less_256 [of c]
    code_less_256 [of d] code_less_256 [of e] code_less_256 [of f]
  let ?m = "(code a * 256 + code b) * 256 + code c" and ?n = "(code d * 256 + code e) * 256 + code f"
  have eq: "rawURLEncode rest = rawURLEncode rest'" and "?m = ?n"
    using "4.prems"(2) base64_group_inj [of ?m ?n] lt by (simp_all add: ys Let_def base64Digit_inj)
  then have ab: "code a * 256 + code b = code d * 256 + code e" and "c = f"
    using byte_split [OF lt(3) lt(6), of "code a * 256 + code b" "code d * 256 + code e"] by (auto simp: code_eq)
  from byte_split [OF lt(2) lt(5) ab] have "a = d" "b = e" by (auto simp: code_eq)
  with \<open>c = f\<close> "4.IH" [OF refl _ eq] "4.prems"(1) show ?case by (simp add: ys)
qed simp

lemma rawURLEncode_plain: "c \<in> set (rawURLEncode xs) \<Longrightarrow> 0x20 < code c \<and> code c \<le> 0x7e"
  using base64Digit_plain by (induction xs rule: rawURLEncode.induct) (auto simp: Let_def)

lemma length_rawURLEncode: "length (rawURLEncode xs) \<le> 2 * length xs"
  by (induction xs rule: rawURLEncode.induct) (auto simp: Let_def)

definition legalKey :: "string \<Rightarrow> bool" where
  "legalKey key \<longleftrightarrow> 1 \<le> length key \<and> length key \<le> 255 \<and> hd key \<noteq> CHR '' '' \<and> last key \<noteq> CHR '' ''
     \<and> list_all (\<lambda>c. 0x20 \<le> code c \<and> code c \<le> 0x7e) key"

lemma validate_iff: "validateIdempotencyKey key = None \<longleftrightarrow> legalKey key"
  by (cases key) (auto simp: validateIdempotencyKey_def legalKey_def maxIdempotencyKeyBytes_def printableLoop_iff
      list_all_iff last_conv_nth)

lemma generated_legal:
  assumes "length random = 32"
  shows "legalKey (''olrun_'' @ rawURLEncode random)"
proof -
  let ?r = "rawURLEncode random"
  have len: "length ?r \<le> 64" using length_rawURLEncode [of random] assms by simp
  have "\<exists>a b c rest. random = a # b # c # rest" using assms by (auto simp: numeral_eq_Suc length_Suc_conv)
  then have "?r \<noteq> []" by (auto simp: Let_def)
  then have "last ?r \<in> set ?r" by simp
  then have "last ?r \<noteq> CHR '' ''" using rawURLEncode_plain [of "last ?r" random] by (auto simp: code_def)
  moreover have "list_all (\<lambda>c. 0x20 \<le> code c \<and> code c \<le> 0x7e) ''olrun_''" by code_simp
  moreover have "list_all (\<lambda>c. 0x20 \<le> code c \<and> code c \<le> 0x7e) ?r"
    using rawURLEncode_plain by (fastforce simp: list_all_iff)
  ultimately show ?thesis using len \<open>?r \<noteq> []\<close> by (simp add: legalKey_def)
qed

text \<open>
  C37. Idempotency keys: a resolved key is legal (1 to 255 printable ASCII bytes without
  surrounding spaces), an explicit legal key is used as it is and an illegal one refused, a run
  without a key always gets one when the random source delivers its 32 bytes, different random
  bytes give different keys, and the check of delegated calls accepts exactly the same keys.
\<close>

theorem idempotency_keys_legal:
  assumes "length random = 32" and "length other = 32"
  shows "(\<forall>key. resolveRunIdempotencyKey (Inr random) explicit = Inr key \<longrightarrow> legalKey key)
    \<and> (explicit \<noteq> [] \<longrightarrow> resolveRunIdempotencyKey (Inr random) explicit =
         (if legalKey explicit then Inr explicit else Inl errInvalidIdempotencyKey))
    \<and> (\<exists>key. resolveRunIdempotencyKey (Inr random) [] = Inr key)
    \<and> (resolveRunIdempotencyKey (Inr random) [] = resolveRunIdempotencyKey (Inr other) [] \<longleftrightarrow> random = other)
    \<and> (validateDelegatedIdempotencyKey explicit = None \<longleftrightarrow> validateIdempotencyKey explicit = None)"
proof (intro conjI allI impI)
  have err: "validateIdempotencyKey key = (if legalKey key then None else Some errInvalidIdempotencyKey)" for key
  proof -
    have "printableLoop e s = None \<or> printableLoop e s = Some e" for e s by (induction s) auto
    then have "validateIdempotencyKey key \<in> {None, Some errInvalidIdempotencyKey}"
      by (auto simp: validateIdempotencyKey_def)
    then show ?thesis using validate_iff [of key] by auto
  qed
  have gen: "resolveRunIdempotencyKey (Inr r) [] = Inr (''olrun_'' @ rawURLEncode r)" if "length r = 32" for r
    using generated_legal [OF that] by (simp add: resolveRunIdempotencyKey_def err)
  show "legalKey key" if "resolveRunIdempotencyKey (Inr random) explicit = Inr key" for key
    using that generated_legal [OF assms(1)] by (auto simp: resolveRunIdempotencyKey_def err split: if_splits)
  show "resolveRunIdempotencyKey (Inr random) explicit =
      (if legalKey explicit then Inr explicit else Inl errInvalidIdempotencyKey)" if "explicit \<noteq> []"
    using that by (simp add: resolveRunIdempotencyKey_def err)
  show "\<exists>key. resolveRunIdempotencyKey (Inr random) [] = Inr key" using gen [OF assms(1)] by blast
  show "resolveRunIdempotencyKey (Inr random) [] = resolveRunIdempotencyKey (Inr other) [] \<longleftrightarrow> random = other"
    using gen [OF assms(1)] gen [OF assms(2)] rawURLEncode_inj [of random other] assms by auto
  show "validateDelegatedIdempotencyKey explicit = None \<longleftrightarrow> validateIdempotencyKey explicit = None"
    by (auto simp: validateDelegatedIdempotencyKey_def validateIdempotencyKey_def maxIdempotencyKeyBytes_def
        printableLoop_iff)
qed

theorem idempotency_keys_legal_witness:
  "(\<exists>key. resolveRunIdempotencyKey (Inr (replicate 32 (CHR 0x00))) [] = Inr key)
   \<and> resolveRunIdempotencyKey (Inr (replicate 32 (CHR 0x00))) [] \<noteq> resolveRunIdempotencyKey (Inr (replicate 32 (CHR 0x01))) []
   \<and> resolveRunIdempotencyKey (Inr (replicate 32 (CHR 0x00))) ''order-7'' = Inr ''order-7''"
proof -
  define r0 :: bytes where "r0 = replicate 32 (CHR 0x00)"
  define r1 :: bytes where "r1 = replicate 32 (CHR 0x01)"
  have r: "length r0 = 32" "length r1 = 32" "r0 \<noteq> r1" by (simp_all add: r0_def r1_def)
  have key: "legalKey ''order-7''" "''order-7'' \<noteq> []" by code_simp+
  show ?thesis
    using idempotency_keys_legal [OF r(1,2), of "''order-7''"] r(3) key
    unfolding r0_def [symmetric] r1_def [symmetric] by metis
qed

section \<open>Signatures\<close>

lemma normalize_signature:
  "normalizeTaskCallbackSignature (hexEncode bs) = hexEncode bs"
  "normalizeTaskCallbackSignature (''sha256='' @ hexEncode bs) = hexEncode bs"
proof -
  have hex: "0x20 < code c \<and> code c \<le> 0x7e \<and> (code c < 65 \<or> 90 < code c)" if "c \<in> set (hexEncode bs)" for c
    using lowerHex_hexEncode [OF that] by (auto simp: lowerHex_def)
  have "list_all (\<lambda>c. 0x20 < code c \<and> code c \<le> 0x7e \<and> (code c < 65 \<or> 90 < code c)) ''sha256=''" by code_simp
  then have pre: "0x20 < code c \<and> code c \<le> 0x7e \<and> (code c < 65 \<or> 90 < code c)"
    if "c \<in> set (''sha256='' @ hexEncode bs)" for c
    using that hex unfolding list_all_iff set_append Un_iff by (elim disjE) (erule bspec, assumption)+
  have id: "toLower (trimSpace s) = s"
    if "\<And>c. c \<in> set s \<Longrightarrow> 0x20 < code c \<and> code c \<le> 0x7e \<and> (code c < 65 \<or> 90 < code c)" for s
    using that by (subst trimSpace_plain) (fastforce intro!: toLower_lower)+
  have "\<not> isPrefix ''sha256='' (hexEncode bs)"
  proof
    assume "isPrefix ''sha256='' (hexEncode bs)"
    then have "CHR ''s'' \<in> set (hexEncode bs)" by (auto simp: isPrefix_iff)
    from lowerHex_hexEncode [OF this] show False by (simp add: lowerHex_def code_def)
  qed
  then show "normalizeTaskCallbackSignature (hexEncode bs) = hexEncode bs"
    using id [OF hex] by (simp add: normalizeTaskCallbackSignature_def trimPrefix_def)
  have "toLower (trimSpace (''sha256='' @ hexEncode bs)) = ''sha256='' @ hexEncode bs" by (rule id [OF pre])
  moreover have "trimPrefix (p @ v) p = v" for p v by (auto simp: trimPrefix_def isPrefix_iff)
  ultimately show "normalizeTaskCallbackSignature (''sha256='' @ hexEncode bs) = hexEncode bs"
    by (simp only: normalizeTaskCallbackSignature_def)
qed

lemma verify_iff:
  assumes "hmac secret payload \<noteq> []"
  shows "VerifyTaskCallbackSignature hmac payload secret signature \<longleftrightarrow>
    hexDecode (normalizeTaskCallbackSignature signature) = Some (hmac secret payload)"
proof -
  have "hexEncode (hmac secret payload) \<noteq> []" using assms by (cases "hmac secret payload") auto
  then show ?thesis
    using assms by (auto simp: VerifyTaskCallbackSignature_def SignTaskCallbackPayload_def normalize_signature Let_def
        split: option.splits)
qed

text \<open>
  C36. The signature of a task callback round trips, and nothing else is accepted: a signature
  is accepted exactly when, without white space, case and the optional prefix, it decodes to the
  HMAC of the body under the secret. HMAC is a parameter whose output is 32 bytes long.
\<close>

theorem callback_signature_round_trip:
  assumes "\<And>k m. length (hmac k m) = 32"
  shows "VerifyTaskCallbackSignature hmac payload secret (SignTaskCallbackPayload hmac payload secret)
    \<and> VerifyTaskCallbackSignature hmac payload secret (''sha256='' @ SignTaskCallbackPayload hmac payload secret)
    \<and> (VerifyTaskCallbackSignature hmac payload secret signature \<longleftrightarrow>
         hexDecode (normalizeTaskCallbackSignature signature) = Some (hmac secret payload))
    \<and> (VerifyTaskCallbackSignature hmac payload secret (SignTaskCallbackPayload hmac other key) \<longleftrightarrow>
         hmac key other = hmac secret payload)"
proof -
  have "hmac secret payload \<noteq> []" using assms [of secret payload] by auto
  note iff = verify_iff [of hmac, OF this]
  show ?thesis unfolding iff by (simp add: SignTaskCallbackPayload_def normalize_signature del: hexEncode.simps append.simps)
qed

theorem callback_signature_round_trip_witness:
  "VerifyTaskCallbackSignature (\<lambda>k m. replicate 32 (CHR ''x'')) ''body'' ''secret''
     (''sha256='' @ SignTaskCallbackPayload (\<lambda>k m. replicate 32 (CHR ''x'')) ''body'' ''secret'')"
  by (rule callback_signature_round_trip [of "\<lambda>k m. replicate 32 (CHR ''x'')", THEN conjunct2, THEN conjunct1]) simp

section \<open>Requests\<close>

text \<open>
  Verifying a callback request: a body within the limit (one MiB when none is given) is
  returned whole together with whether it is signed, and the request is left with that body; a
  larger body and a body that fails to read are errors. This needs a limit below the largest
  int64, see \<open>callback_limit_overflow\<close>.
\<close>

lemma callback_request_verified:
  assumes "limit = (if maxBytes \<le> 0 then 2 ^ 20 else maxBytes)" and "maxBytes < maxInt64"
    and "cr_Body r = Some (body, failure)" and "cr_Signature r \<noteq> []"
  shows "(int (length body) \<le> limit \<and> failure = None \<longrightarrow>
      VerifyTaskCallbackRequest hmac (Some r) secret maxBytes =
        (Inr (body, VerifyTaskCallbackSignature hmac body secret (cr_Signature r)), Some r))
    \<and> (int (length body) > limit \<longrightarrow> (\<exists>e. fst (VerifyTaskCallbackRequest hmac (Some r) secret maxBytes) = Inl e))
    \<and> (int (length body) \<le> limit \<and> failure \<noteq> None \<longrightarrow>
        (\<exists>e. fst (VerifyTaskCallbackRequest hmac (Some r) secret maxBytes) = Inl e))"
proof -
  have lim: "0 < limit" "limit < maxInt64" using assms(1,2) by (auto simp: maxInt64_def)
  then have add: "add64 limit 1 = limit + 1" by (intro add64_succ) auto
  have r: "r\<lparr>cr_Body := Some (body, None)\<rparr> = r" if "failure = None"
    using that assms(3) by simp
  show ?thesis
    using r lim assms(3,4) unfolding VerifyTaskCallbackRequest_def assms(1) [symmetric]
    by (auto simp: readLimitedBody_def readAllLimited_def add Let_def)
qed

definition sampleHMAC :: "bytes \<Rightarrow> bytes \<Rightarrow> bytes" where
  "sampleHMAC key message = replicate 32 (CHR ''x'')"

text \<open>With the largest int64 as limit the sum wraps around and the body is read as empty.\<close>

lemma callback_limit_overflow: "readLimitedBody (Some (body, failure)) maxInt64 = Inr []"
  unfolding readLimitedBody_def readAllLimited_def add64_succ_max by (simp add: minInt64_def maxInt64_def)

end
