(* ===== verification/Worker_Authority.thy ===== *)
theory Worker_Authority
  imports Go_Strings Go_Format Store_State
begin

text \<open>
  The authority an assignment may carry in its metadata (runtime_worker_authority.go). It is
  taken out of the metadata, and accepted only when it is complete and canonical. URL and IP
  address parsing, IDNA, SHA-256 and the strict JSON decoder are parameters.
\<close>

section \<open>Data\<close>

record authority_wire =
  aw_PrincipalScopeID :: string
  aw_Source :: string
  aw_ExecutionProfile :: string
  aw_BrowserInteractionPolicy :: string
  aw_BrowserInteractionPolicyGeneration :: int
  aw_BrowserMutationOrigins :: "string list option"   \<comment> \<open>\<^term>\<open>None\<close> is the nil slice\<close>
  aw_BrowserMutationOriginsSHA256 :: string

record authority_context =
  ax_PrincipalScopeID :: string
  ax_RuntimeSessionID :: string
  ax_RuntimeSessionEpoch :: int
  ax_RuntimeAttachmentID :: string
  ax_ExecutionProfile :: string
  ax_BrowserInteractionPolicy :: string
  ax_BrowserInteractionPolicyGeneration :: int
  ax_BrowserMutationOrigins :: "string list"
  ax_BrowserMutationOriginsSHA256 :: string

text \<open>What the code reads of \<^verbatim>\<open>url.Parse\<close> (with \<^verbatim>\<open>Hostname\<close> and \<^verbatim>\<open>Port\<close>) and of \<^verbatim>\<open>netip.ParseAddr\<close>.\<close>

record url_parts =
  ur_Scheme :: string
  ur_User :: bool
  ur_Opaque :: string
  ur_Host :: string
  ur_Path :: string
  ur_RawPath :: string
  ur_RawQuery :: string
  ur_Fragment :: string
  ur_ForceQuery :: bool
  ur_Hostname :: string
  ur_Port :: string

record ip_addr =
  ip_Is4In6 :: bool
  ip_Is6 :: bool
  ip_String :: string

record authority_env =
  au_parseURL :: "string \<Rightarrow> url_parts option"
  au_parseAddr :: "string \<Rightarrow> ip_addr option"
  au_toASCII :: "string \<Rightarrow> string option"   \<comment> \<open>\<^verbatim>\<open>idna.Lookup.ToASCII(strings.ToLower(host))\<close>\<close>
  au_sha256 :: "bytes \<Rightarrow> bytes"

definition errRuntimeAuthorityInvalid :: go_error where
  "errRuntimeAuthorityInvalid = TextError ''runtime authority metadata is invalid''"

definition runtimeAuthorityMetadataKey :: string where
  "runtimeAuthorityMetadataKey = ''_openlinker_runtime_authority''"

section \<open>Checks of text\<close>

text \<open>A loop over the runes of a string that returns false at the first one outside a set of ASCII bytes.\<close>

definition scopeByte :: "char \<Rightarrow> bool" where
  "scopeByte c \<longleftrightarrow> smallByte c \<or> upperByte c \<or> digitByte c \<or> c \<in> set ''._:-''"

definition validRuntimePrincipalScopeID :: "string \<Rightarrow> bool" where
  "validRuntimePrincipalScopeID v =
     (if v = [] \<or> length v > 256 \<or> trimSpace v \<noteq> v then False else list_all scopeByte v)"

definition validLabel :: "string \<Rightarrow> bool" where
  "validLabel label =
     (if label = [] \<or> length label > 63 \<or> hd label = CHR ''-'' \<or> last label = CHR ''-'' then False
      else list_all (\<lambda>c. smallByte c \<or> digitByte c \<or> c = CHR ''-'') label)"

definition validRuntimeAuthorityDomain :: "string \<Rightarrow> bool" where
  "validRuntimeAuthorityDomain host =
     (if host = [] \<or> length host > 253 then False else list_all validLabel (splitOn (CHR ''.'') host))"

definition ambiguousPart :: "string \<Rightarrow> bool" where
  "ambiguousPart part =
     (if part = [] then False
      else let hex = isPrefix ''0x'' part; digits = (if hex then drop 2 part else part) in
        if digits = [] then False
        else list_all (\<lambda>c. digitByte c \<or> (hex \<and> 97 \<le> code c \<and> code c \<le> 102)) digits)"

definition ambiguousRuntimeAuthorityIPv4Domain :: "string \<Rightarrow> bool" where
  "ambiguousRuntimeAuthorityIPv4Domain host =
     (let parts = splitOn (CHR ''.'') (toLower host) in
      if length parts = 0 \<or> length parts > 4 then False else list_all ambiguousPart parts)"

section \<open>Canonical origins\<close>

text \<open>\<^verbatim>\<open>strconv.ParseUint(s, 10, 16)\<close>.\<close>

fun decimalVal :: "nat \<Rightarrow> string \<Rightarrow> nat" where
  "decimalVal n [] = n"
| "decimalVal n (c # cs) = decimalVal (10 * n + (code c - 48)) cs"

definition parseUint16 :: "string \<Rightarrow> nat option" where
  "parseUint16 s =
     (if s = [] \<or> \<not> list_all digitByte s then None
      else if decimalVal 0 s > 65535 then None else Some (decimalVal 0 s))"

definition canonicalHost :: "authority_env \<Rightarrow> string \<Rightarrow> go_error + string" where
  "canonicalHost env host =
     (case au_parseAddr env host of
        Some address \<Rightarrow>
          if ip_Is4In6 address then Inl errRuntimeAuthorityInvalid
          else if ip_Is6 address then Inr (''['' @ ip_String address @ '']'')
          else Inr (ip_String address)
      | None \<Rightarrow>
          (case au_toASCII env host of
             None \<Rightarrow> Inl errRuntimeAuthorityInvalid
           | Some ascii \<Rightarrow>
               if \<not> validRuntimeAuthorityDomain ascii \<or> ambiguousRuntimeAuthorityIPv4Domain ascii
               then Inl errRuntimeAuthorityInvalid
               else Inr (toLower ascii)))"

definition canonicalRuntimeBrowserMutationOrigin :: "authority_env \<Rightarrow> string \<Rightarrow> go_error + string" where
  "canonicalRuntimeBrowserMutationOrigin env raw =
     (if raw = [] \<or> trimSpace raw \<noteq> raw \<or> CHR ''%'' \<in> set raw then Inl errRuntimeAuthorityInvalid
      else case au_parseURL env raw of
        None \<Rightarrow> Inl errRuntimeAuthorityInvalid
      | Some parsed \<Rightarrow>
          if ur_Scheme parsed \<noteq> ''https'' \<or> ur_User parsed \<or> ur_Opaque parsed \<noteq> [] \<or> ur_Host parsed = []
             \<or> ur_Path parsed \<noteq> [] \<or> ur_RawPath parsed \<noteq> [] \<or> ur_RawQuery parsed \<noteq> [] \<or> ur_Fragment parsed \<noteq> []
             \<or> ur_ForceQuery parsed
          then Inl errRuntimeAuthorityInvalid
          else let host = ur_Hostname parsed in
            if host = [] \<or> hasSuffix host ''.'' then Inl errRuntimeAuthorityInvalid
            else case (if ur_Port parsed = [] then Some []
                       else case parseUint16 (ur_Port parsed) of
                              None \<Rightarrow> None
                            | Some n \<Rightarrow> if n = 0 then None else if n = 443 then Some [] else Some (natDigits n)) of
              None \<Rightarrow> Inl errRuntimeAuthorityInvalid
            | Some port \<Rightarrow>
                (case canonicalHost env host of
                   Inl e \<Rightarrow> Inl e
                 | Inr h \<Rightarrow> Inr (''https://'' @ h @ (if port \<noteq> [] then CHR '':'' # port else []))))"

text \<open>The loop: canonical forms in order, each once.\<close>

fun canonicalLoop :: "authority_env \<Rightarrow> string list \<Rightarrow> string list \<Rightarrow> go_error + string list" where
  "canonicalLoop env canonical [] = Inr canonical"
| "canonicalLoop env canonical (raw # rest) =
     (case canonicalRuntimeBrowserMutationOrigin env raw of
        Inl e \<Rightarrow> Inl e
      | Inr origin \<Rightarrow>
          if origin \<in> set canonical then canonicalLoop env canonical rest
          else canonicalLoop env (canonical @ [origin]) rest)"

text \<open>
  \<^verbatim>\<open>json.Marshal\<close> of the canonical origins, which hold no character that JSON escapes:
  they consist of the scheme, a domain or address, and a port.
\<close>

fun encodeStrings :: "string list \<Rightarrow> string" where
  "encodeStrings [] = []"
| "encodeStrings [s] = CHR 0x22 # s @ [CHR 0x22]"
| "encodeStrings (s # t # ss) = CHR 0x22 # s @ CHR 0x22 # CHR '','' # encodeStrings (t # ss)"

definition canonicalRuntimeBrowserMutationOrigins ::
  "authority_env \<Rightarrow> string list option \<Rightarrow> go_error + string list \<times> string" where
  "canonicalRuntimeBrowserMutationOrigins env origins =
     (case origins of
        None \<Rightarrow> Inl errRuntimeAuthorityInvalid
      | Some os \<Rightarrow>
          if length os > 32 then Inl errRuntimeAuthorityInvalid
          else case canonicalLoop env [] os of
            Inl e \<Rightarrow> Inl e
          | Inr cs \<Rightarrow>
              let canonical = sort cs
              in Inr (canonical, hexEncode (au_sha256 env (CHR ''['' # encodeStrings canonical @ '']''))))"

section \<open>The authority\<close>

definition noBrowserFields :: "authority_wire \<Rightarrow> bool" where
  "noBrowserFields wire \<longleftrightarrow> aw_BrowserInteractionPolicy wire = [] \<and> aw_BrowserInteractionPolicyGeneration wire = 0
     \<and> aw_BrowserMutationOrigins wire = None \<and> aw_BrowserMutationOriginsSHA256 wire = []"

definition validateRuntimeAuthorityWire :: "authority_env \<Rightarrow> authority_wire option \<Rightarrow> go_error option" where
  "validateRuntimeAuthorityWire env w =
     (case w of
        None \<Rightarrow> Some errRuntimeAuthorityInvalid
      | Some wire \<Rightarrow>
          if aw_ExecutionProfile wire = [] then
            (if \<not> noBrowserFields wire then Some errRuntimeAuthorityInvalid else None)
          else if aw_ExecutionProfile wire = ''standard'' then
            (if \<not> noBrowserFields wire then Some errRuntimeAuthorityInvalid else None)
          else if aw_ExecutionProfile wire \<noteq> ''browser'' then Some errRuntimeAuthorityInvalid
          else case aw_BrowserMutationOrigins wire of
            None \<Rightarrow> Some errRuntimeAuthorityInvalid
          | Some origins \<Rightarrow>
              if aw_BrowserInteractionPolicyGeneration wire < 1 \<or> length origins > 32
                 \<or> length (aw_BrowserMutationOriginsSHA256 wire) \<noteq> sha256_Size * 2
              then Some errRuntimeAuthorityInvalid
              else case canonicalRuntimeBrowserMutationOrigins env (Some origins) of
                Inl e \<Rightarrow> Some errRuntimeAuthorityInvalid
              | Inr (canonical, digest) \<Rightarrow>
                  if digest \<noteq> aw_BrowserMutationOriginsSHA256 wire \<or> length canonical \<noteq> length origins
                  then Some errRuntimeAuthorityInvalid
                  else if \<not> list_all2 (=) canonical origins then Some errRuntimeAuthorityInvalid
                  else if aw_BrowserInteractionPolicy wire = ''restricted'' then
                    (if length canonical \<noteq> 0 then Some errRuntimeAuthorityInvalid else None)
                  else if aw_BrowserInteractionPolicy wire = ''full'' then
                    (if length canonical = 0 then Some errRuntimeAuthorityInvalid else None)
                  else Some errRuntimeAuthorityInvalid)"

text \<open>
  The metadata is a map (\<^term>\<open>None\<close> is nil) whose values are decoded by \<open>decode\<close> (encoding and
  strict decoding of JSON); \<open>ready\<close> is the attachment ID of the session, if it is attached. The
  result is the authority, if there is one, and the metadata that is left.
\<close>

definition runtimeAuthorityFromMetadata ::
  "authority_env \<Rightarrow> ('v \<Rightarrow> authority_wire option) \<Rightarrow> (string, 'v) gomap option \<Rightarrow> runtime_identity
     \<Rightarrow> string option \<Rightarrow> (go_error + authority_context option) \<times> (string, 'v) gomap option" where
  "runtimeAuthorityFromMetadata env decode metadata identity ready =
     (case metadata of
        None \<Rightarrow> (Inr None, None)
      | Some m \<Rightarrow>
          let found = map_of m runtimeAuthorityMetadataKey;
              m1 = Some (AList.delete runtimeAuthorityMetadataKey m)
          in case found of
               None \<Rightarrow> (Inr None, m1)
             | Some v \<Rightarrow>
               (case ready of
                  None \<Rightarrow> (Inl errRuntimeAuthorityInvalid, m1)
                | Some attachmentID \<Rightarrow>
                  (case decode v of
                     None \<Rightarrow> (Inl errRuntimeAuthorityInvalid, m1)
                   | Some wire \<Rightarrow>
                       if aw_Source wire \<noteq> ''core'' \<or> \<not> validRuntimePrincipalScopeID (aw_PrincipalScopeID wire)
                          \<or> \<not> validRuntimeID (ri_RuntimeSessionID identity) \<or> ri_SessionEpoch identity < 1
                          \<or> \<not> validRuntimeID attachmentID
                       then (Inl errRuntimeAuthorityInvalid, m1)
                       else if validateRuntimeAuthorityWire env (Some wire) \<noteq> None
                       then (Inl errRuntimeAuthorityInvalid, m1)
                       else (Inr (Some
                         \<lparr>ax_PrincipalScopeID = aw_PrincipalScopeID wire,
                          ax_RuntimeSessionID = ri_RuntimeSessionID identity,
                          ax_RuntimeSessionEpoch = ri_SessionEpoch identity,
                          ax_RuntimeAttachmentID = attachmentID,
                          ax_ExecutionProfile = aw_ExecutionProfile wire,
                          ax_BrowserInteractionPolicy = aw_BrowserInteractionPolicy wire,
                          ax_BrowserInteractionPolicyGeneration = aw_BrowserInteractionPolicyGeneration wire,
                          ax_BrowserMutationOrigins =
                            (case aw_BrowserMutationOrigins wire of None \<Rightarrow> [] | Some os \<Rightarrow> os),
                          ax_BrowserMutationOriginsSHA256 = aw_BrowserMutationOriginsSHA256 wire\<rparr>), m1))))"

section \<open>What an accepted authority guarantees\<close>

lemma canonicalLoop_spec:
  assumes "canonicalLoop env canonical raws = Inr cs" and "distinct canonical"
  shows "distinct cs \<and> Inr ` set cs = Inr ` set canonical \<union> canonicalRuntimeBrowserMutationOrigin env ` set raws"
  using assms
proof (induction env canonical raws rule: canonicalLoop.induct)
  case (2 env canonical raw rest)
  then obtain origin where o: "canonicalRuntimeBrowserMutationOrigin env raw = Inr origin"
    by (cases "canonicalRuntimeBrowserMutationOrigin env raw") auto
  show ?case
  proof (cases "origin \<in> set canonical")
    case True
    with "2.IH"(1) [OF o True] "2.prems" o show ?thesis by auto
  next
    case False
    with "2.IH"(2) [OF o False] "2.prems" o show ?thesis by auto
  qed
qed simp

lemma validated_browser:
  assumes "validateRuntimeAuthorityWire env (Some wire) = None" and "aw_ExecutionProfile wire = ''browser''"
  obtains origins where "aw_BrowserMutationOrigins wire = Some origins"
    "canonicalRuntimeBrowserMutationOrigins env (Some origins) = Inr (origins, aw_BrowserMutationOriginsSHA256 wire)"
    "1 \<le> aw_BrowserInteractionPolicyGeneration wire"
    "aw_BrowserInteractionPolicy wire = ''restricted'' \<and> origins = [] \<or> aw_BrowserInteractionPolicy wire = ''full'' \<and> origins \<noteq> []"
  using assms
  by (auto simp: validateRuntimeAuthorityWire_def list.rel_eq split: option.splits sum.splits if_splits)

lemma browser_origins:
  assumes "validateRuntimeAuthorityWire env (Some wire) = None" and "aw_ExecutionProfile wire = ''browser''"
  obtains origins where "aw_BrowserMutationOrigins wire = Some origins" "length origins \<le> 32"
    "sorted_wrt (<) origins" "canonicalRuntimeBrowserMutationOrigin env ` set origins = Inr ` set origins"
    "aw_BrowserMutationOriginsSHA256 wire = hexEncode (au_sha256 env (CHR ''['' # encodeStrings origins @ '']''))"
    "1 \<le> aw_BrowserInteractionPolicyGeneration wire"
    "aw_BrowserInteractionPolicy wire = (if origins = [] then ''restricted'' else ''full'')"
proof -
  obtain origins where os: "aw_BrowserMutationOrigins wire = Some origins"
    "canonicalRuntimeBrowserMutationOrigins env (Some origins) = Inr (origins, aw_BrowserMutationOriginsSHA256 wire)"
    "1 \<le> aw_BrowserInteractionPolicyGeneration wire"
    "aw_BrowserInteractionPolicy wire = ''restricted'' \<and> origins = [] \<or> aw_BrowserInteractionPolicy wire = ''full'' \<and> origins \<noteq> []"
    by (rule validated_browser [OF assms])
  from os(2) obtain cs where cs: "canonicalLoop env [] origins = Inr cs" "sort cs = origins" "length origins \<le> 32"
    "aw_BrowserMutationOriginsSHA256 wire = hexEncode (au_sha256 env (CHR ''['' # encodeStrings origins @ '']''))"
    by (auto simp: canonicalRuntimeBrowserMutationOrigins_def Let_def split: if_splits sum.splits)
  have "distinct cs" "Inr ` set cs = canonicalRuntimeBrowserMutationOrigin env ` set origins"
    using canonicalLoop_spec [OF cs(1)] by auto
  then have "sorted_wrt (<) origins" "canonicalRuntimeBrowserMutationOrigin env ` set origins = Inr ` set origins"
    using cs(2) by (auto simp: strict_sorted_iff)
  with os(1,3,4) cs(3,4) show thesis by (intro that) auto
qed


definition sample_authority_env :: authority_env where
  "sample_authority_env =
     \<lparr>au_parseURL = (\<lambda>raw. if isPrefix ''https://'' raw then Some \<lparr>ur_Scheme = ''https'', ur_User = False,
          ur_Opaque = [], ur_Host = drop 8 raw, ur_Path = [], ur_RawPath = [], ur_RawQuery = [], ur_Fragment = [],
          ur_ForceQuery = False, ur_Hostname = drop 8 raw, ur_Port = []\<rparr> else None),
      au_parseAddr = (\<lambda>host. None), au_toASCII = Some, au_sha256 = (\<lambda>text. replicate 32 (CHR 0x00))\<rparr>"

definition sample_wire :: authority_wire where
  "sample_wire =
     \<lparr>aw_PrincipalScopeID = ''user:7'', aw_Source = ''core'', aw_ExecutionProfile = ''browser'',
      aw_BrowserInteractionPolicy = ''full'', aw_BrowserInteractionPolicyGeneration = 1,
      aw_BrowserMutationOrigins = Some [''https://a.example'', ''https://b.example''],
      aw_BrowserMutationOriginsSHA256 = replicate 64 (CHR ''0'')\<rparr>"

definition sample_runtime_identity :: runtime_identity where
  "sample_runtime_identity = \<lparr>ri_WorkerID = ''worker'', ri_RuntimeSessionID = ''session'', ri_SessionEpoch = 1\<rparr>"

lemma sample_origin:
  assumes "host \<in> {''a.example'', ''b.example''}"
  shows "canonicalRuntimeBrowserMutationOrigin sample_authority_env (''https://'' @ host) = Inr (''https://'' @ host)"
proof -
  have "list_all (\<lambda>h. list_all (\<lambda>c. code c < 65 \<or> 90 < code c \<and> code c < 128) h) [''a.example'', ''b.example'']"
    by code_simp
  then have low: "toLower host = host" using assms by (intro toLower_lower) (auto simp only: list_all_iff list.set)
  have "list_all (\<lambda>h. trimSpace (''https://'' @ h) = ''https://'' @ h \<and> CHR ''%'' \<notin> set (''https://'' @ h) \<and> h \<noteq> []
      \<and> \<not> hasSuffix h ''.'' \<and> validRuntimeAuthorityDomain h
      \<and> \<not> list_all ambiguousPart (splitOn (CHR ''.'') h)) [''a.example'', ''b.example'']" by code_simp
  then have h: "trimSpace (''https://'' @ host) = ''https://'' @ host" "CHR ''%'' \<notin> set (''https://'' @ host)" "host \<noteq> []"
    "\<not> hasSuffix host ''.''" "validRuntimeAuthorityDomain host" "\<not> list_all ambiguousPart (splitOn (CHR ''.'') host)"
    using assms by (auto simp only: list_all_iff list.set)
  have "canonicalHost sample_authority_env host = Inr host"
    using h(5,6) by (simp add: canonicalHost_def sample_authority_env_def low ambiguousRuntimeAuthorityIPv4Domain_def Let_def)
  moreover have "au_parseURL sample_authority_env (''https://'' @ host) = Some \<lparr>ur_Scheme = ''https'', ur_User = False,
      ur_Opaque = [], ur_Host = host, ur_Path = [], ur_RawPath = [], ur_RawQuery = [], ur_Fragment = [],
      ur_ForceQuery = False, ur_Hostname = host, ur_Port = []\<rparr>"
    by (simp add: sample_authority_env_def)
  ultimately show ?thesis
    using h(1-4) unfolding canonicalRuntimeBrowserMutationOrigin_def by (simp del: append.simps)
qed

lemma sample_accepted: "validateRuntimeAuthorityWire sample_authority_env (Some sample_wire) = None"
proof -
  have o: "canonicalRuntimeBrowserMutationOrigin sample_authority_env ''https://a.example'' = Inr ''https://a.example''"
    "canonicalRuntimeBrowserMutationOrigin sample_authority_env ''https://b.example'' = Inr ''https://b.example''"
    using sample_origin [of "''a.example''"] sample_origin [of "''b.example''"] by simp_all
  let ?os = "[''https://a.example'', ''https://b.example'']"
  have loop: "canonicalLoop sample_authority_env [] ?os = Inr ?os" using o by simp
  have srt: "sort ?os = ?os" and hex: "hexEncode (replicate 32 (CHR 0x00)) = replicate 64 (CHR ''0'')" by code_simp+
  have "au_sha256 sample_authority_env msg = replicate 32 (CHR 0x00)" for msg by (simp add: sample_authority_env_def)
  then have "canonicalRuntimeBrowserMutationOrigins sample_authority_env (Some ?os) = Inr (?os, replicate 64 (CHR ''0''))"
    unfolding canonicalRuntimeBrowserMutationOrigins_def option.case loop sum.case Let_def srt by (simp add: hex)
  then show ?thesis
    by (simp add: validateRuntimeAuthorityWire_def sample_wire_def sha256_Size_def)
qed


end
