(* ===== verification/Go_Utf8.thy ===== *)
theory Go_Utf8
  imports Go_Strings
begin

text \<open>
  UTF-8 as Go decodes it: the length of the first rune of a byte string, validity, and the runes
  of a valid string, each given by its bytes.
\<close>

definition contByte :: "char \<Rightarrow> bool" where "contByte c \<longleftrightarrow> 0x80 \<le> code c \<and> code c \<le> 0xBF"

text \<open>The legal range of the second byte depends on the first.\<close>

definition secondByte :: "nat \<Rightarrow> char \<Rightarrow> bool" where
  "secondByte b c \<longleftrightarrow>
     (if b = 0xE0 then 0xA0 \<le> code c \<and> code c \<le> 0xBF
      else if b = 0xED then 0x80 \<le> code c \<and> code c \<le> 0x9F
      else if b = 0xF0 then 0x90 \<le> code c \<and> code c \<le> 0xBF
      else if b = 0xF4 then 0x80 \<le> code c \<and> code c \<le> 0x8F
      else contByte c)"

text \<open>The number of bytes of the first rune, 0 when the bytes do not begin with one.\<close>

fun runeSize :: "string \<Rightarrow> nat" where
  "runeSize [] = 0"
| "runeSize (c # cs) =
     (let b = code c in
      if b < 0x80 then 1
      else if 0xC2 \<le> b \<and> b \<le> 0xDF then (case cs of d # _ \<Rightarrow> if contByte d then 2 else 0 | _ \<Rightarrow> 0)
      else if 0xE0 \<le> b \<and> b \<le> 0xEF then
        (case cs of d # e # _ \<Rightarrow> if secondByte b d \<and> contByte e then 3 else 0 | _ \<Rightarrow> 0)
      else if 0xF0 \<le> b \<and> b \<le> 0xF4 then
        (case cs of d # e # f # _ \<Rightarrow> if secondByte b d \<and> contByte e \<and> contByte f then 4 else 0 | _ \<Rightarrow> 0)
      else 0)"

lemma runeSize_le: "runeSize s \<le> length s"
  by (cases s) (auto simp: Let_def split: list.splits)

function utf8Valid :: "string \<Rightarrow> bool" where
  "utf8Valid s = (if s = [] then True else if runeSize s = 0 then False else utf8Valid (drop (runeSize s) s))"
  by pat_completeness auto
termination by (relation "measure length") auto

declare utf8Valid.simps [simp del]

function utf8Runes :: "string \<Rightarrow> string list" where
  "utf8Runes s = (if s = [] \<or> runeSize s = 0 then [] else take (runeSize s) s # utf8Runes (drop (runeSize s) s))"
  by pat_completeness auto
termination by (relation "measure length") auto

declare utf8Runes.simps [simp del]

lemma concat_utf8Runes: "utf8Valid s \<Longrightarrow> concat (utf8Runes s) = s"
proof (induction s rule: utf8Runes.induct)
  case (1 s)
  then show ?case
    by (subst utf8Runes.simps) (use "1.prems" in \<open>auto simp: utf8Valid.simps [of s] split: if_splits\<close>)
qed

lemma utf8Runes_nonempty: "r \<in> set (utf8Runes s) \<Longrightarrow> r \<noteq> []"
  by (induction s rule: utf8Runes.induct) (subst (asm) utf8Runes.simps, auto split: if_splits)

lemma utf8Runes_Nil_iff: "utf8Valid s \<Longrightarrow> utf8Runes s = [] \<longleftrightarrow> s = []"
  by (metis concat.simps(1) concat_utf8Runes utf8Runes.simps)

text \<open>A prefix of the runes of a valid string is valid and has just these runes.\<close>

lemma runeSize_take: "runeSize s = n \<Longrightarrow> n \<noteq> 0 \<Longrightarrow> runeSize (take n s @ rest) = n"
  by (cases s) (auto simp: Let_def numeral_eq_Suc split: list.splits if_splits)

lemma utf8Runes_take: "utf8Runes (concat (take n (utf8Runes s))) = take n (utf8Runes s)"
proof (induction s arbitrary: n rule: utf8Runes.induct)
  case (1 s)
  show ?case
  proof (cases "s = [] \<or> runeSize s = 0 \<or> n = 0")
    case True
    then show ?thesis by (auto simp: utf8Runes.simps [of s] utf8Runes.simps [of "[]"])
  next
    case False
    then obtain m where n: "n = Suc m" and z: "s \<noteq> []" "runeSize s \<noteq> 0" by (cases n) auto
    let ?h = "take (runeSize s) s" and ?t = "concat (take m (utf8Runes (drop (runeSize s) s)))"
    have runes: "take n (utf8Runes s) = ?h # take m (utf8Runes (drop (runeSize s) s))"
      by (subst utf8Runes.simps) (simp add: n z)
    have size: "runeSize (?h @ ?t) = runeSize s" by (rule runeSize_take [OF refl z(2)])
    have len: "length ?h = runeSize s" using runeSize_le [of s] by simp
    have "utf8Runes (?h @ ?t) = ?h # utf8Runes ?t"
      by (subst utf8Runes.simps) (use size len z in auto)
    with 1 z runes show ?thesis by simp
  qed
qed

lemma utf8Runes_ascii: "(\<And>c. c \<in> set s \<Longrightarrow> code c < 0x80) \<Longrightarrow> utf8Runes s = map (\<lambda>c. [c]) s \<and> utf8Valid s"
proof (induction s)
  case (Cons c s)
  then show ?case by (subst utf8Runes.simps, subst utf8Valid.simps) (simp add: Let_def)
qed (simp add: utf8Runes.simps utf8Valid.simps)

lemma utf8Valid_take: "utf8Valid (concat (take n (utf8Runes s)))"
proof (induction s arbitrary: n rule: utf8Runes.induct)
  case (1 s)
  show ?case
  proof (cases "s = [] \<or> runeSize s = 0 \<or> n = 0")
    case True
    then show ?thesis by (auto simp: utf8Runes.simps [of s] utf8Valid.simps [of "[]"])
  next
    case False
    then obtain m where n: "n = Suc m" and z: "s \<noteq> []" "runeSize s \<noteq> 0" by (cases n) auto
    let ?h = "take (runeSize s) s" and ?t = "concat (take m (utf8Runes (drop (runeSize s) s)))"
    have runes: "take n (utf8Runes s) = ?h # take m (utf8Runes (drop (runeSize s) s))"
      by (subst utf8Runes.simps) (simp add: n z)
    have size: "runeSize (?h @ ?t) = runeSize s" by (rule runeSize_take [OF refl z(2)])
    have len: "length ?h = runeSize s" using runeSize_le [of s] by simp
    have "utf8Valid (?h @ ?t) = utf8Valid ?t"
      by (subst utf8Valid.simps) (use size len z in auto)
    with 1 z runes show ?thesis by simp
  qed
qed

end
