(* ===== verification/Worker_Attempt.thy ===== *)
theory Worker_Attempt
  imports Worker_Assignment Worker_Authority Platform_Client Go_Utf8
begin

text \<open>
  The execution of a started attempt (runtime_worker_attempt.go): decoding the assignment,
  running the handler, which may emit events and call other agents, and persisting its final
  events and its result. Publishing through extensions and reading delegated runs, which the
  handler may also do, are left out: neither changes the store or the attempt. A handler is taken
  to use its context before it returns. The properties are in Worker_Outcome.
\<close>

section \<open>Values\<close>

text \<open>
  A Go map that becomes a JSON object is given by its encoding, \<^term>\<open>None\<close> when it holds a value
  that cannot be encoded; where the map may be nil it is an option of that. Any other value is
  given by what \<^verbatim>\<open>encoding/json\<close> makes of it: nothing, an object (the encoding of the decoded
  object) or another text, null included.
\<close>

type_synonym json_object = "bytes option"

datatype json_encoding = EncodesObject bytes | EncodesOther bytes

datatype go_any = AnyNil | AnyMap "json_object option" | AnyValue "json_encoding option"

definition runtimeObject :: "go_any \<Rightarrow> go_error + json_object option" where
  "runtimeObject v =
     (case v of
        AnyNil \<Rightarrow> Inr (Some (Some ''{}''))
      | AnyMap typed \<Rightarrow> Inr typed
      | AnyValue None \<Rightarrow> Inl (TextError ''runtime value is not JSON encodable'')
      | AnyValue (Some (EncodesObject object)) \<Rightarrow> Inr (Some (Some object))
      | AnyValue (Some (EncodesOther raw)) \<Rightarrow>
          Inr (Some (Some (CHR ''{'' # CHR 0x22 # ''value'' @ CHR 0x22 # '':'' @ raw @ ''}''))))"

definition runtimeOptionalObject :: "go_any \<Rightarrow> go_error + json_object option" where
  "runtimeOptionalObject v = (if v = AnyNil then Inr None else runtimeObject v)"

definition marshalMap :: "json_object option \<Rightarrow> bytes option" where
  "marshalMap m = (case m of None \<Rightarrow> Some ''null'' | Some object \<Rightarrow> object)"

record handler_error =
  he_Code :: string
  he_Message :: string
  he_Retryable :: bool

record runtime_event =
  ru_EventType :: string
  ru_Payload :: go_any

record runtime_result =
  rn_Status :: string
  rn_Output :: go_any
  rn_Events :: "runtime_event list"
  rn_Error :: "handler_error option"
  rn_DurationMS :: int

record run_error =
  rx_ErrorCode :: string
  rx_Message :: string
  rx_RetryableHint :: bool

record result_payload =
  rp_AttemptIdentity :: sdk_identity
  rp_ResultID :: string
  rp_Status :: string
  rp_Output :: "json_object option"
  rp_Error :: "run_error option"
  rp_DurationMS :: int
  rp_FinalClientEventSeq :: int

section \<open>Results\<close>

definition boundedRuntimeText :: "string \<Rightarrow> nat \<Rightarrow> string \<Rightarrow> string" where
  "boundedRuntimeText v maximum fallback =
     (let trimmed = trimSpace v;
          v1 = (if trimmed = [] \<or> \<not> utf8Valid trimmed then fallback else trimmed);
          runes = utf8Runes v1
      in if length runes > maximum then concat (take maximum runes) else v1)"

definition runtimeFailurePayload :: "attempt_identity \<Rightarrow> string \<Rightarrow> string \<Rightarrow> int \<Rightarrow> result_payload" where
  "runtimeFailurePayload identity errCode message durationMS =
     \<lparr>rp_AttemptIdentity = sdkAttemptIdentity identity, rp_ResultID = [], rp_Status = ''failed'', rp_Output = None,
      rp_Error = Some \<lparr>rx_ErrorCode = boundedRuntimeText errCode 120 ''HANDLER_ERROR'',
                       rx_Message = boundedRuntimeText message 500 ''runtime handler failed'',
                       rx_RetryableHint = False\<rparr>,
      rp_DurationMS = durationMS, rp_FinalClientEventSeq = 0\<rparr>"

definition runtimeResultPayload :: "attempt_identity \<Rightarrow> runtime_result \<Rightarrow> go_error + result_payload" where
  "runtimeResultPayload identity result =
     (if rn_Status result \<noteq> ''success'' \<and> rn_Status result \<noteq> ''failed''
      then Inr (runtimeFailurePayload identity ''RESULT_STATUS_INVALID''
                  ''runtime handler returned an invalid result status'' (rn_DurationMS result))
      else if rn_Status result = ''failed'' \<or> rn_Error result \<noteq> None then
        let agentErr = (case rn_Error result of
              Some e \<Rightarrow> e
            | None \<Rightarrow> \<lparr>he_Code = ''HANDLER_ERROR'', he_Message = ''runtime handler returned a failed result'', he_Retryable = False\<rparr>);
            payload = runtimeFailurePayload identity (he_Code agentErr) (he_Message agentErr) (rn_DurationMS result)
        in Inr (payload\<lparr>rp_Error := map_option (\<lambda>e. e\<lparr>rx_RetryableHint := he_Retryable agentErr\<rparr>) (rp_Error payload)\<rparr>)
      else case runtimeObject (rn_Output result) of
        Inl e \<Rightarrow> Inl e
      | Inr output \<Rightarrow>
          Inr \<lparr>rp_AttemptIdentity = sdkAttemptIdentity identity, rp_ResultID = [], rp_Status = ''success'',
               rp_Output = output, rp_Error = None, rp_DurationMS = rn_DurationMS result,
               rp_FinalClientEventSeq = 0\<rparr>)"

definition normalizeRuntimeResult :: "runtime_result \<Rightarrow> runtime_result" where
  "normalizeRuntimeResult result =
     (let r1 = (if rn_Status result = [] then result\<lparr>rn_Status := ''success''\<rparr> else result)
      in if rn_Output r1 = AnyNil \<and> rn_Error r1 = None then r1\<lparr>rn_Output := AnyMap (Some (Some ''{}''))\<rparr> else r1)"

text \<open>An error of the handler: whether it is \<^verbatim>\<open>context.Canceled\<close>, and its text.\<close>

record handler_failure =
  hf_Canceled :: bool
  hf_Text :: string

definition normalizeHandlerError :: "handler_failure \<Rightarrow> handler_error" where
  "normalizeHandlerError err =
     (if hf_Canceled err
      then \<lparr>he_Code = ''HANDLER_CANCELED'', he_Message = ''runtime handler execution was canceled'', he_Retryable = False\<rparr>
      else \<lparr>he_Code = ''HANDLER_ERROR'', he_Message = boundedRuntimeText (hf_Text err) 500 ''runtime handler failed'',
            he_Retryable = False\<rparr>)"

text \<open>Durations saturate in Go; the clamp makes that invisible.\<close>

definition maxDurationMS :: "time \<Rightarrow> time \<Rightarrow> int" where
  "maxDurationMS startedAt now =
     (let milliseconds = (now - startedAt) div 1000000
      in if milliseconds < 1 then 1 else if milliseconds > 2 ^ 31 - 1 then 2 ^ 31 - 1 else milliseconds)"

section \<open>The handler\<close>

text \<open>
  A handler that ends is a tree: it returns a result or an error, panics, emits an event and goes
  on with the error it got, or calls another agent and goes on with the reply.
\<close>

record call_options =
  cl_IdempotencyKey :: string
  cl_Reason :: string
  cl_Metadata :: go_any

record agent_request =
  ag_NodeEnvelope :: string
  ag_AgentInvocationToken :: string
  ag_IdempotencyKey :: string
  ag_TargetAgentID :: string
  ag_Input :: "json_object option"
  ag_Metadata :: "json_object option"
  ag_Reason :: string

record run_summary =
  su_RunID :: string
  su_Status :: string
  su_DispatchState :: string

datatype handler =
    HandlerReturn "handler_failure + runtime_result"
  | HandlerPanic
  | HandlerEmit string go_any "go_error option \<Rightarrow> handler"
  | HandlerCallAgent string go_any call_options "go_error + run_summary \<Rightarrow> handler"

text \<open>What the handler is given, beside the operations.\<close>

record 'v run_context =
  rc_RunID :: string
  rc_AgentID :: string
  rc_AttemptIdentity :: sdk_identity
  rc_Authority :: "authority_context option"
  rc_AttemptDeadlineAt :: time
  rc_RunDeadlineAt :: time
  rc_Input :: "(string, 'v) gomap option"
  rc_Metadata :: "(string, 'v) gomap option"

record active_attempt =
  at_identity :: attempt_identity
  at_payload :: assignment_payload

text \<open>
  The environment of an execution: the worker's, the checks and decoders of JSON, the random
  source, the clock, the flag \<^verbatim>\<open>canceled\<close> and the error of the attempt's context by the time of
  the \<open>n\<close>-th store call, the answers of other agents, and the user's handler. \<^term>\<open>Some None\<close> is
  a JSON null that decodes to a nil map.
\<close>

record ('s, 'v) attempt_env =
  xe_worker :: "'s worker_env"
  xe_authority :: authority_env
  xe_decodeMap :: "bytes \<Rightarrow> (string, 'v) gomap option option"
  xe_decodeAuthority :: "'v \<Rightarrow> authority_wire option"
  xe_attachment :: "string option"
  xe_encodeResult :: "result_payload \<Rightarrow> bytes option"
  xe_random :: "nat \<Rightarrow> bytes option"
  xe_now :: "nat \<Rightarrow> time"
  xe_canceled :: "nat \<Rightarrow> bool"
  xe_ctxErr :: "nat \<Rightarrow> go_error option"
  xe_callAgent :: "nat \<Rightarrow> agent_request \<Rightarrow> go_error + run_summary option"
  xe_handle :: "'v run_context \<Rightarrow> handler"

record 's attempt_state =
  as_worker :: "'s worker_state"
  as_finished :: bool

definition attemptTurn :: "'s attempt_state \<Rightarrow> nat" where
  "attemptTurn st = wk_turn (as_worker st)"

definition setFinished :: "'s attempt_state \<Rightarrow> 's attempt_state" where
  "setFinished st = st\<lparr>as_finished := True\<rparr>"

text \<open>\<^verbatim>\<open>fatal\<close> is a channel that keeps the first report; the list keeps them all.\<close>

definition reportFatal :: "go_error \<Rightarrow> 's attempt_state \<Rightarrow> 's attempt_state" where
  "reportFatal err st = st\<lparr>as_worker := (as_worker st)\<lparr>wk_fatal := wk_fatal (as_worker st) @ [err]\<rparr>\<rparr>"

section \<open>Persisting events and results\<close>

definition jsonError :: go_error where "jsonError = TextError ''json: unsupported value''"

definition eventTypePart :: "string \<Rightarrow> bool" where
  "eventTypePart part \<longleftrightarrow> part \<noteq> [] \<and> smallByte (hd part)
     \<and> list_all (\<lambda>c. smallByte c \<or> digitByte c \<or> c = CHR ''_'') part"

text \<open>\<^verbatim>\<open>^[a-z][a-z0-9_]*(\.[a-z][a-z0-9_]*)+$\<close>\<close>

definition runtimeEventTypePattern :: "string \<Rightarrow> bool" where
  "runtimeEventTypePattern s \<longleftrightarrow>
     (let parts = splitOn (CHR ''.'') s in 2 \<le> length parts \<and> list_all eventTypePart parts)"

definition persistRuntimeEvent ::
  "('s, 'v) attempt_env \<Rightarrow> active_attempt \<Rightarrow> string \<Rightarrow> go_any \<Rightarrow> 's attempt_state \<Rightarrow> go_error option \<times> 's attempt_state" where
  "persistRuntimeEvent xe a eventType payload st =
     (if \<not> runtimeEventTypePattern eventType
         \<or> eventType \<in> {''run.completed'', ''run.failed'', ''run.canceled'', ''run.stream.gap''}
      then (Some (TextError ''invalid or Core-owned runtime Event type''), st)
      else case runtimeObject payload of
        Inl e \<Rightarrow> (Some e, st)
      | Inr payloadMap \<Rightarrow>
      (case marshalMap payloadMap of
         None \<Rightarrow> (Some jsonError, st)
       | Some raw \<Rightarrow>
      (case storeRead (xe_worker xe) (sto_Assignment (we_store (xe_worker xe)) (ai_AssignmentMessageID (at_identity a)))
              (as_worker st) of
         (Inl e, w1) \<Rightarrow> (Some e, st\<lparr>as_worker := w1\<rparr>)
       | (Inr journal, w1) \<Rightarrow>
           let probe = \<lparr>er_AttemptIdentity = sdkAttemptIdentity (at_identity a),
                 er_ClientEventID = ''00000000-0000-4000-8000-000000000001'',
                 er_ClientEventSeq = add64 (jr_LastClientEventSeq journal) 1,
                 er_EventType = eventType, er_Payload = raw\<rparr>
           in if we_tooLarge (xe_worker xe) (CallAppendEvent probe)
              then (Some ErrRuntimeMessageTooLarge, st\<lparr>as_worker := w1\<rparr>)
              else (case storeCall (xe_worker xe) (\<lambda>io. sto_AppendEvent (we_store (xe_worker xe)) io (at_identity a) eventType raw) w1 of
                      ((r, err), w2) \<Rightarrow> (err, st\<lparr>as_worker := w2\<rparr>)))))"

definition runtimeMaxMessageBytes :: nat where "runtimeMaxMessageBytes = 4 * 1024 * 1024"

definition stampResult :: "string \<Rightarrow> int \<Rightarrow> result_payload \<Rightarrow> result_payload" where
  "stampResult resultID finalSeq payload = payload\<lparr>rp_ResultID := resultID, rp_FinalClientEventSeq := finalSeq\<rparr>"

text \<open>The payload that is stored: the handler's, or a failure when it cannot be encoded or is too large.\<close>

definition encodedResult ::
  "('s, 'v) attempt_env \<Rightarrow> attempt_identity \<Rightarrow> string \<Rightarrow> int \<Rightarrow> runtime_result \<Rightarrow> go_error + result_payload \<times> bytes" where
  "encodedResult xe identity resultID finalSeq result =
     (let payload = stampResult resultID finalSeq
            (case runtimeResultPayload identity result of
               Inr p \<Rightarrow> p
             | Inl e \<Rightarrow> runtimeFailurePayload identity ''RESULT_INVALID''
                         ''runtime handler result was not JSON encodable'' (rn_DurationMS result))
      in case xe_encodeResult xe payload of
           None \<Rightarrow> Inl jsonError
         | Some raw \<Rightarrow>
             if length raw > runtimeMaxMessageBytes then
               let failure = stampResult resultID finalSeq
                     (runtimeFailurePayload identity ''RESULT_TOO_LARGE''
                        ''runtime handler result exceeded the 4 MiB runtime limit'' (rn_DurationMS result))
               in case xe_encodeResult xe failure of None \<Rightarrow> Inl jsonError | Some raw1 \<Rightarrow> Inr (failure, raw1)
             else Inr (payload, raw))"

definition persistRunResult ::
  "('s, 'v) attempt_env \<Rightarrow> active_attempt \<Rightarrow> runtime_result \<Rightarrow> 's attempt_state \<Rightarrow> go_error option \<times> 's attempt_state" where
  "persistRunResult xe a result st =
     (case storeRead (xe_worker xe) (sto_Assignment (we_store (xe_worker xe)) (ai_AssignmentMessageID (at_identity a)))
             (as_worker st) of
        (Inl e, w1) \<Rightarrow> (Some e, st\<lparr>as_worker := w1\<rparr>)
      | (Inr journal, w1) \<Rightarrow>
      (case newRuntimeUUID (xe_random xe (wk_turn w1)) of
         Inl e \<Rightarrow> (Some e, st\<lparr>as_worker := w1\<rparr>)
       | Inr resultID \<Rightarrow>
       (case encodedResult xe (at_identity a) resultID (jr_LastClientEventSeq journal) result of
          Inl e \<Rightarrow> (Some e, st\<lparr>as_worker := w1\<rparr>)
        | Inr (payload, raw) \<Rightarrow>
          (case storeCall (xe_worker xe) (\<lambda>io. sto_StoreResult (we_store (xe_worker xe)) io
                  \<lparr>rs_Version = 0, rs_Identity = at_identity a, rs_ResultID = resultID,
                   rs_FinalClientEventSeq = jr_LastClientEventSeq journal, rs_Status = rp_Status payload,
                   rs_Payload = raw, rs_CreatedAt = 0\<rparr>) w1 of
             (err, w2) \<Rightarrow> (err, st\<lparr>as_worker := w2\<rparr>)))))"

definition failedResult :: "string \<Rightarrow> string \<Rightarrow> int \<Rightarrow> runtime_result" where
  "failedResult errCode message durationMS =
     \<lparr>rn_Status = ''failed'', rn_Output = AnyNil, rn_Events = [],
      rn_Error = Some \<lparr>he_Code = errCode, he_Message = message, he_Retryable = False\<rparr>, rn_DurationMS = durationMS\<rparr>"

definition persistAttemptFailure ::
  "('s, 'v) attempt_env \<Rightarrow> active_attempt \<Rightarrow> time \<Rightarrow> string \<Rightarrow> string \<Rightarrow> 's attempt_state \<Rightarrow> 's attempt_state" where
  "persistAttemptFailure xe a startedAt errCode message st =
     (let st1 = setFinished st in
      if xe_canceled xe (attemptTurn st1) then st1
      else case persistRunResult xe a
                  (failedResult errCode message (maxDurationMS startedAt (xe_now xe (attemptTurn st1)))) st1 of
             (Some e, st2) \<Rightarrow> reportFatal e st2
           | (None, st2) \<Rightarrow> st2)"

section \<open>Executing the handler\<close>

definition emit ::
  "('s, 'v) attempt_env \<Rightarrow> active_attempt \<Rightarrow> string \<Rightarrow> go_any \<Rightarrow> 's attempt_state \<Rightarrow> go_error option \<times> 's attempt_state" where
  "emit xe a eventType payload st =
     (if as_finished st \<or> xe_canceled xe (attemptTurn st) then (Some ContextCanceled, st)
      else case persistRuntimeEvent xe a eventType payload st of
        (Some e, st1) \<Rightarrow> (Some e, if durableRuntimeErrorIsFatal e then reportFatal e st1 else st1)
      | (None, st1) \<Rightarrow> (None, st1))"

definition attemptOver :: "('s, 'v) attempt_env \<Rightarrow> 's attempt_state \<Rightarrow> bool" where
  "attemptOver xe st \<longleftrightarrow> as_finished st \<or> xe_canceled xe (attemptTurn st) \<or> xe_ctxErr xe (attemptTurn st) \<noteq> None"

definition callAgentForAttempt ::
  "('s, 'v) attempt_env \<Rightarrow> active_attempt \<Rightarrow> string \<Rightarrow> go_any \<Rightarrow> call_options \<Rightarrow> 's attempt_state
     \<Rightarrow> (go_error + run_summary) \<times> 's attempt_state" where
  "callAgentForAttempt xe a targetAgentID input options st =
     (if attemptOver xe st then (Inl ContextCanceled, st)
      else case runtimeObject input of
        Inl e \<Rightarrow> (Inl e, st)
      | Inr inputMap \<Rightarrow>
      (case runtimeOptionalObject (cl_Metadata options) of
         Inl e \<Rightarrow> (Inl e, st)
       | Inr metadata \<Rightarrow>
       (case validateDelegatedIdempotencyKey (cl_IdempotencyKey options) of
          Some e \<Rightarrow> (Inl e, st)
        | None \<Rightarrow>
        if attemptOver xe st then (Inl ContextCanceled, st)
        else case xe_callAgent xe (attemptTurn st)
                \<lparr>ag_NodeEnvelope = pl_NodeEnvelope (at_payload a),
                 ag_AgentInvocationToken = pl_AgentInvocationToken (at_payload a),
                 ag_IdempotencyKey = cl_IdempotencyKey options, ag_TargetAgentID = targetAgentID,
                 ag_Input = inputMap, ag_Metadata = metadata, ag_Reason = cl_Reason options\<rparr> of
          Inl e \<Rightarrow> (Inl e, st)
        | Inr None \<Rightarrow>
            let e = WrapError ErrRuntimeProtocolMismatch ''delegated Agent response'' in (Inl e, reportFatal e st)
        | Inr (Some summary) \<Rightarrow> (Inr summary, st))))"

text \<open>How the handler ended, \<^term>\<open>None\<close> for a panic.\<close>

primrec runHandler ::
  "handler \<Rightarrow> ('s, 'v) attempt_env \<Rightarrow> active_attempt \<Rightarrow> 's attempt_state
     \<Rightarrow> (handler_failure + runtime_result) option \<times> 's attempt_state" where
  "runHandler (HandlerReturn r) xe a st = (Some r, st)"
| "runHandler HandlerPanic xe a st = (None, st)"
| "runHandler (HandlerEmit eventType payload k) xe a st =
     (case emit xe a eventType payload st of (err, st1) \<Rightarrow> runHandler (k err) xe a st1)"
| "runHandler (HandlerCallAgent targetAgentID input options k) xe a st =
     (case callAgentForAttempt xe a targetAgentID input options st of (r, st1) \<Rightarrow> runHandler (k r) xe a st1)"

definition handlerResult :: "(handler_failure + runtime_result) option \<Rightarrow> runtime_result" where
  "handlerResult outcome =
     (let result = \<lparr>rn_Status = ''success'', rn_Output = AnyNil, rn_Events = [], rn_Error = None, rn_DurationMS = 0\<rparr> in
      case outcome of
        None \<Rightarrow> result\<lparr>rn_Status := ''failed'',
                  rn_Error := Some \<lparr>he_Code = ''HANDLER_PANIC'', he_Message = ''runtime handler panicked'', he_Retryable = False\<rparr>\<rparr>
      | Some (Inl err) \<Rightarrow> result\<lparr>rn_Status := ''failed'', rn_Error := Some (normalizeHandlerError err)\<rparr>
      | Some (Inr raw) \<Rightarrow>
          let normalized = normalizeRuntimeResult raw
          in result\<lparr>rn_Status := rn_Status normalized, rn_Output := rn_Output normalized,
                    rn_Error := rn_Error normalized, rn_Events := rn_Events normalized\<rparr>)"

text \<open>The loop over the final events: the error of the first one that is not persisted.\<close>

fun persistFinalEvents ::
  "('s, 'v) attempt_env \<Rightarrow> active_attempt \<Rightarrow> runtime_event list \<Rightarrow> 's attempt_state \<Rightarrow> go_error option \<times> 's attempt_state" where
  "persistFinalEvents xe a [] st = (None, st)"
| "persistFinalEvents xe a (event # rest) st =
     (case persistRuntimeEvent xe a (ru_EventType event) (ru_Payload event) st of
        (Some e, st1) \<Rightarrow> (Some e, st1)
      | (None, st1) \<Rightarrow> persistFinalEvents xe a rest st1)"

definition deadlineExceeded :: "('s, 'v) attempt_env \<Rightarrow> 's attempt_state \<Rightarrow> bool" where
  "deadlineExceeded xe st \<longleftrightarrow>
     (case xe_ctxErr xe (attemptTurn st) of None \<Rightarrow> False | Some e \<Rightarrow> errorIs e ContextDeadlineExceeded)"

text \<open>From the return of the handler on.\<close>

definition concludeAttempt ::
  "('s, 'v) attempt_env \<Rightarrow> active_attempt \<Rightarrow> time \<Rightarrow> runtime_result \<Rightarrow> 's attempt_state \<Rightarrow> 's attempt_state" where
  "concludeAttempt xe a startedAt handled st =
     (if xe_canceled xe (attemptTurn st) then st
      else
        let result = (if deadlineExceeded xe st
              then failedResult ''ATTEMPT_DEADLINE_EXCEEDED'' ''Attempt deadline elapsed during handler execution'' 0
              else handled)
        in case persistFinalEvents xe a (rn_Events result) st of
             (Some e, st1) \<Rightarrow>
               if durableRuntimeErrorIsFatal e then reportFatal e st1
               else persistAttemptFailure xe a startedAt ''HANDLER_EVENT_INVALID''
                      ''runtime handler returned an invalid final Event'' st1
           | (None, st1) \<Rightarrow>
               (case persistRunResult xe a (result\<lparr>rn_DurationMS := maxDurationMS startedAt (xe_now xe (attemptTurn st1))\<rparr>) st1 of
                  (Some e, st2) \<Rightarrow> reportFatal e st2
                | (None, st2) \<Rightarrow> st2))"

definition executeAttempt ::
  "('s, 'v) attempt_env \<Rightarrow> active_attempt \<Rightarrow> 's attempt_state \<Rightarrow> 's attempt_state" where
  "executeAttempt xe a st =
     (let now = xe_now xe (attemptTurn st) in
      case xe_decodeMap xe (pl_Input (at_payload a)) of
        None \<Rightarrow> persistAttemptFailure xe a now ''ASSIGNMENT_INPUT_INVALID'' ''assignment input could not be decoded'' st
      | Some input \<Rightarrow>
      (case (if pl_Metadata (at_payload a) \<noteq> ''null'' then xe_decodeMap xe (pl_Metadata (at_payload a)) else Some (Some [])) of
         None \<Rightarrow> persistAttemptFailure xe a now ''ASSIGNMENT_METADATA_INVALID'' ''assignment metadata could not be decoded'' st
       | Some metadata \<Rightarrow>
       if deadlineExceeded xe st
       then persistAttemptFailure xe a now ''ATTEMPT_DEADLINE_EXCEEDED'' ''Attempt deadline elapsed before handler execution'' st
       else case storeRead (xe_worker xe) (sto_Identity (we_store (xe_worker xe))) (as_worker st) of
         (identity, w1) \<Rightarrow>
           let st1 = st\<lparr>as_worker := w1\<rparr> in
           (case runtimeAuthorityFromMetadata (xe_authority xe) (xe_decodeAuthority xe) metadata identity (xe_attachment xe) of
              (Inl e, metadata1) \<Rightarrow>
                persistAttemptFailure xe a now ''ASSIGNMENT_AUTHORITY_INVALID'' ''assignment Runtime authority is invalid'' st1
            | (Inr authority, metadata1) \<Rightarrow>
                (case runHandler (xe_handle xe
                        \<lparr>rc_RunID = ai_RunID (at_identity a), rc_AgentID = ai_AgentID (at_identity a),
                         rc_AttemptIdentity = sdkAttemptIdentity (at_identity a), rc_Authority = authority,
                         rc_AttemptDeadlineAt = pl_AttemptDeadlineAt (at_payload a),
                         rc_RunDeadlineAt = pl_RunDeadlineAt (at_payload a), rc_Input = input, rc_Metadata = metadata1\<rparr>)
                        xe a st1 of
                   (outcome, st2) \<Rightarrow> concludeAttempt xe a now (handlerResult outcome) (setFinished st2)))))"

end
