(* ===== verification/Runtime_Messages.thy ===== *)
theory Runtime_Messages
  imports Worker_Attempt
begin

text \<open>
  The messages of the runtime protocol (runtime_types.go, runtime_contract.go) and the checks the
  client makes before it sends one and after it receives one (runtime_http.go). Enumerations that
  are Go strings stay strings. A check gives the error it returns, if any.
\<close>

section \<open>Texts, identifiers and features\<close>

definition runtimeText :: "string \<Rightarrow> nat \<Rightarrow> bool" where
  "runtimeText v maximum \<longleftrightarrow> v \<noteq> [] \<and> trimSpace v \<noteq> [] \<and> utf8Valid v \<and> length (utf8Runes v) \<le> maximum"

definition runtimeUUID :: "string \<Rightarrow> bool" where
  "runtimeUUID v =
     (if length v \<noteq> 36 \<or> v ! 8 \<noteq> CHR ''-'' \<or> v ! 13 \<noteq> CHR ''-'' \<or> v ! 18 \<noteq> CHR ''-'' \<or> v ! 23 \<noteq> CHR ''-'' then False
      else if \<not> list_all (\<lambda>i. i = 8 \<or> i = 13 \<or> i = 18 \<or> i = 23
                 \<or> \<not> ((code (v ! i) < 48 \<or> 57 < code (v ! i)) \<and> (code (v ! i) < 97 \<or> 102 < code (v ! i)))) [0..<length v] then False
      else v \<noteq> ''00000000-0000-0000-0000-000000000000'')"

definition runtimeContractDigest :: string where
  "runtimeContractDigest = ''4be9b2fe09eeedf0e37119075134064be88f93b301c502cdfa21a6cb978c6481''"

definition runtimeRequiredFeatures :: "string list" where
  "runtimeRequiredFeatures = [''lease_fence'', ''assignment_confirm'', ''renew'', ''resume'', ''event_ack'', ''result_ack'',
     ''cancel'', ''persistent_spool'', ''session_drain'']"

text \<open>The loop over the features received: the set seen, \<^term>\<open>None\<close> for an illegal or repeated one.\<close>

fun seenFeatures :: "string list \<Rightarrow> string list \<Rightarrow> string list option" where
  "seenFeatures seen [] = Some seen"
| "seenFeatures seen (feature # rest) =
     (if \<not> runtimeText feature 100 then None
      else if feature \<in> set seen then None
      else seenFeatures (feature # seen) rest)"

definition hasRuntimeFeatures :: "string list \<Rightarrow> string list \<Rightarrow> bool" where
  "hasRuntimeFeatures got required =
     (case seenFeatures [] got of None \<Rightarrow> False | Some seen \<Rightarrow> list_all (\<lambda>feature. feature \<in> set seen) required)"

definition runtimeMaxNodeCapacity :: int where "runtimeMaxNodeCapacity = 1024"

definition runtimeCapacity :: "int \<Rightarrow> int \<Rightarrow> bool" where
  "runtimeCapacity capacity inflight \<longleftrightarrow> capacity \<ge> 0 \<and> capacity \<le> runtimeMaxNodeCapacity
     \<and> inflight \<ge> 0 \<and> inflight \<le> runtimeMaxNodeCapacity"

definition runtimeInvocationCapability :: "string \<Rightarrow> string \<Rightarrow> bool" where
  "runtimeInvocationCapability v pre =
     (if v = [] \<or> v \<noteq> trimSpace v \<or> length v > 8192 \<or> \<not> utf8Valid v \<or> \<not> isPrefix pre v then False
      else let parts = splitOn (CHR ''.'') v in
        if length parts \<noteq> 4 then False else list_all (\<lambda>part. part \<noteq> []) parts)"

section \<open>Enumerations\<close>

definition runtimeRunStatus :: "string \<Rightarrow> bool" where
  "runtimeRunStatus status \<longleftrightarrow> status \<in> {''running'', ''success'', ''failed'', ''timeout'', ''canceled''}"

definition runtimeDispatchState :: "string \<Rightarrow> bool" where
  "runtimeDispatchState st \<longleftrightarrow> st \<in> {''pending'', ''offered'', ''executing'', ''retry_wait'', ''terminal'', ''dead_letter''}"

definition runtimeResultClassification :: "string \<Rightarrow> bool" where
  "runtimeResultClassification c \<longleftrightarrow>
     c \<in> {''success'', ''retryable_failure'', ''non_retryable_failure'', ''timeout'', ''canceled'', ''dead_letter''}"

definition runtimeCancelState :: "string \<Rightarrow> bool" where
  "runtimeCancelState st \<longleftrightarrow>
     st \<in> {''requested'', ''delivered'', ''stopping'', ''stopped'', ''unsupported'', ''failed'', ''unconfirmed''}"

definition runtimeAssignmentRejectOutcome :: "string \<Rightarrow> bool" where
  "runtimeAssignmentRejectOutcome outcome \<longleftrightarrow> outcome = ''offer_rejected'' \<or> outcome = ''lease_revoked''"

definition runtimeResumeAction :: "resume_action \<Rightarrow> bool" where
  "runtimeResumeAction action =
     (case action of
        ActionContinueExecution \<Rightarrow> True | ActionUploadEvents \<Rightarrow> True | ActionUploadResult \<Rightarrow> True
      | ActionStopExecution \<Rightarrow> True | ActionClearSpool \<Rightarrow> True | ActionOther a \<Rightarrow> False)"

definition validRuntimeErrorCode :: "string \<Rightarrow> bool" where
  "validRuntimeErrorCode c \<longleftrightarrow> c \<in> set
     [''BAD_REQUEST'', ''UNAUTHORIZED'', ''FORBIDDEN'', ''PERMISSION_DENIED'', ''NOT_FOUND'', ''CONFLICT'',
      ''VALIDATION_FAILED'', ''RATE_LIMITED'', ''INTERNAL_ERROR'', ''SERVICE_UNAVAILABLE'',
      ''IDEMPOTENCY_KEY_REUSED'', ''RUN_ALREADY_TERMINAL'', ''STALE_LEASE'', ''LEASE_EXPIRED'',
      ''LEASE_IDENTITY_MISMATCH'', ''RESULT_ID_CONFLICT'', ''EVENT_ID_CONFLICT'', ''NODE_AT_CAPACITY'',
      ''RUNTIME_CLIENT_UPGRADE_REQUIRED'', ''RUNTIME_REQUIRED_FEATURE_MISSING'', ''RUN_CANCEL_REQUESTED'',
      ''RUN_CANCEL_UNCONFIRMED'', ''RUNTIME_RETRY_EXHAUSTED'', ''RUNTIME_DISPATCH_TIMEOUT'',
      ''RUN_DEADLINE_EXCEEDED'', ''EVENTS_MISSING'', ''REPLAY_INPUT_UNAVAILABLE'',
      ''ENDPOINT_RESULT_UNKNOWN'', ''RUNTIME_SESSION_CONFLICT'', ''RUNTIME_SPOOL_CORRUPT'']"

section \<open>Messages\<close>

record hello =
  hl_NodeID :: string
  hl_AgentID :: string
  hl_WorkerID :: string
  hl_RuntimeSessionID :: string
  hl_SessionEpoch :: int
  hl_NodeVersion :: string
  hl_Capacity :: int
  hl_Features :: "string list"
  hl_ContractDigest :: string

record ready =
  ry_CoreInstanceID :: string
  ry_AttachmentID :: string
  ry_Features :: "string list"
  ry_OfferTTLSeconds :: int
  ry_LeaseTTLSeconds :: int
  ry_DatabaseTime :: time

record session_close =
  sc_NodeID :: string
  sc_AgentID :: string
  sc_WorkerID :: string
  sc_RuntimeSessionID :: string
  sc_SessionEpoch :: int
  sc_Status :: string
  sc_Reason :: string

record drain_payload =
  dr_DeadlineAt :: time
  dr_ReasonCode :: string
  dr_Capacity :: int
  dr_Inflight :: int

record result_ack =
  rk_ResultID :: string
  rk_Classification :: string
  rk_RunStatus :: string
  rk_DispatchState :: string
  rk_Replayed :: bool
  rk_NextAttemptAt :: "time option"

record run_cancel =
  rl_CancellationID :: string
  rl_AttemptIdentity :: sdk_identity
  rl_ReasonCode :: string
  rl_DeadlineAt :: time

record cancel_ack =
  ck_CancellationID :: string
  ck_AttemptIdentity :: sdk_identity
  ck_CancelState :: string
  ck_ErrorCode :: string

record cancellation_state =
  cz_CancellationID :: string
  cz_CancelState :: string
  cz_UpdatedAt :: time
  cz_ErrorCode :: string

record lease_revoked =
  lv_AttemptIdentity :: sdk_identity
  lv_ReasonCode :: string
  lv_DispatchState :: string
  lv_RunStatus :: string

record error_body =
  eb_Code :: string
  eb_Message :: string
  eb_Retryable :: bool
  eb_MissingEventRanges :: "event_range list"
  eb_CurrentRunStatus :: string
  eb_CurrentDispatchState :: string

record pending_command =
  pc_Type :: string
  pc_Payload :: bytes

record decoded_command =
  dc_Type :: string
  dc_Cancel :: "run_cancel option"
  dc_Drain :: "drain_payload option"
  dc_Revoke :: "lease_revoked option"

section \<open>Checks\<close>

definition invalidMessage :: "string \<Rightarrow> go_error option" where
  "invalidMessage what = Some (TextError (''openlinker: '' @ what))"

definition validateRuntimeAttemptIdentity :: "sdk_identity \<Rightarrow> go_error option" where
  "validateRuntimeAttemptIdentity v =
     (if \<not> runtimeUUID (sa_RunID v) \<or> \<not> runtimeUUID (sa_AttemptID v) \<or> \<not> runtimeUUID (sa_LeaseID v)
         \<or> \<not> runtimeUUID (sa_NodeID v) \<or> \<not> runtimeUUID (sa_AgentID v) \<or> \<not> runtimeUUID (sa_RuntimeSessionID v)
         \<or> sa_FencingToken v < 1 \<or> \<not> runtimeText (sa_WorkerID v) 200
      then invalidMessage ''invalid runtime Attempt identity'' else None)"

definition validateRuntimeHello :: "hello \<Rightarrow> go_error option" where
  "validateRuntimeHello v =
     (if \<not> runtimeUUID (hl_NodeID v) \<or> \<not> runtimeUUID (hl_AgentID v) \<or> \<not> runtimeUUID (hl_RuntimeSessionID v)
         \<or> \<not> runtimeText (hl_WorkerID v) 200 \<or> hl_SessionEpoch v < 1 \<or> \<not> runtimeText (hl_NodeVersion v) 100
         \<or> hl_Capacity v < 0 \<or> hl_Capacity v > runtimeMaxNodeCapacity
         \<or> hl_ContractDigest v \<noteq> runtimeContractDigest \<or> \<not> hasRuntimeFeatures (hl_Features v) runtimeRequiredFeatures
      then invalidMessage ''invalid runtime hello'' else None)"

definition validateRuntimeReady :: "ready \<Rightarrow> go_error option" where
  "validateRuntimeReady v =
     (if \<not> runtimeUUID (ry_CoreInstanceID v) \<or> \<not> runtimeUUID (ry_AttachmentID v) \<or> ry_OfferTTLSeconds v < 1
         \<or> ry_LeaseTTLSeconds v < 1 \<or> isZeroTime (ry_DatabaseTime v)
         \<or> \<not> hasRuntimeFeatures (ry_Features v) runtimeRequiredFeatures
      then invalidMessage ''invalid runtime ready response'' else None)"

definition validateRuntimeSessionClose :: "session_close \<Rightarrow> go_error option" where
  "validateRuntimeSessionClose v =
     (if \<not> runtimeUUID (sc_NodeID v) \<or> \<not> runtimeUUID (sc_AgentID v) \<or> \<not> runtimeUUID (sc_RuntimeSessionID v)
         \<or> \<not> runtimeText (sc_WorkerID v) 200 \<or> sc_SessionEpoch v < 1
         \<or> (sc_Status v \<noteq> ''offline'' \<and> sc_Status v \<noteq> ''closed'') \<or> \<not> runtimeText (sc_Reason v) 200
      then invalidMessage ''invalid runtime session close'' else None)"

definition validateRuntimeDrain :: "drain_payload \<Rightarrow> go_error option" where
  "validateRuntimeDrain v =
     (if isZeroTime (dr_DeadlineAt v) \<or> \<not> runtimeText (dr_ReasonCode v) 120 \<or> dr_Capacity v \<noteq> 0 \<or> dr_Inflight v < 0
      then invalidMessage ''invalid runtime drain'' else None)"

text \<open>Input and payloads are given by their JSON text: the nil map is null.\<close>

definition validateRuntimeAssignment :: "run_assigned \<Rightarrow> go_error option" where
  "validateRuntimeAssignment v =
     (case validateRuntimeAttemptIdentity (ra_AttemptIdentity v) of
        Some e \<Rightarrow> Some e
      | None \<Rightarrow>
          if ra_OfferNo v < 1 \<or> isZeroTime (ra_OfferExpiresAt v) \<or> isZeroTime (ra_AttemptDeadlineAt v)
             \<or> isZeroTime (ra_RunDeadlineAt v) \<or> ra_Input v = Some ''null''
             \<or> \<not> runtimeInvocationCapability (ra_NodeEnvelope v) ''ol_ctx_v2.''
             \<or> \<not> runtimeInvocationCapability (ra_AgentInvocationToken v) ''ol_inv_v2.''
          then invalidMessage ''invalid runtime assignment'' else None)"

definition coreOwnedEventTypes :: "string list" where
  "coreOwnedEventTypes = [''run.completed'', ''run.failed'', ''run.canceled'', ''run.stream.gap'']"

definition validateRuntimeEvent :: "event_request \<Rightarrow> go_error option" where
  "validateRuntimeEvent v =
     (case validateRuntimeAttemptIdentity (er_AttemptIdentity v) of
        Some e \<Rightarrow> Some e
      | None \<Rightarrow>
          if \<not> runtimeUUID (er_ClientEventID v) \<or> er_ClientEventSeq v < 1 \<or> \<not> runtimeEventTypePattern (er_EventType v)
             \<or> er_Payload v = ''null''
          then invalidMessage ''invalid runtime Event''
          else if er_EventType v \<in> set coreOwnedEventTypes then invalidMessage ''runtime Event type is reserved by Core''
          else None)"

definition validateRuntimeResult :: "result_payload \<Rightarrow> go_error option" where
  "validateRuntimeResult v =
     (case validateRuntimeAttemptIdentity (rp_AttemptIdentity v) of
        Some e \<Rightarrow> Some e
      | None \<Rightarrow>
          if \<not> runtimeUUID (rp_ResultID v) \<or> rp_DurationMS v < 0 \<or> rp_DurationMS v > 2 ^ 31 - 1 \<or> rp_FinalClientEventSeq v < 0
          then invalidMessage ''invalid runtime Result''
          else if rp_Status v = ''success'' then
            (if rp_Output v = None \<or> rp_Error v \<noteq> None
             then invalidMessage ''successful runtime Result requires output only'' else None)
          else if rp_Status v = ''failed'' then
            (case rp_Error v of
               None \<Rightarrow> invalidMessage ''failed runtime Result requires error only''
             | Some e \<Rightarrow>
                 if rp_Output v \<noteq> None \<or> \<not> runtimeText (rx_ErrorCode e) 120 \<or> \<not> runtimeText (rx_Message e) 500
                 then invalidMessage ''failed runtime Result requires error only'' else None)
          else invalidMessage ''invalid runtime Result status'')"

definition validateRuntimeResultAck :: "result_ack \<Rightarrow> go_error option" where
  "validateRuntimeResultAck v =
     (let hasNextAttempt = (rk_NextAttemptAt v \<noteq> None); c = rk_Classification v in
      if \<not> runtimeUUID (rk_ResultID v) \<or> \<not> runtimeResultClassification c \<or> \<not> runtimeRunStatus (rk_RunStatus v)
         \<or> \<not> runtimeDispatchState (rk_DispatchState v)
         \<or> (case rk_NextAttemptAt v of None \<Rightarrow> False | Some t \<Rightarrow> isZeroTime t)
      then invalidMessage ''invalid runtime result acknowledgement''
      else if c = ''success'' then
        (if rk_RunStatus v \<noteq> ''success'' \<or> rk_DispatchState v \<noteq> ''terminal'' \<or> hasNextAttempt
         then invalidMessage ''inconsistent runtime success acknowledgement'' else None)
      else if c = ''non_retryable_failure'' then
        (if rk_RunStatus v \<noteq> ''failed'' \<or> rk_DispatchState v \<noteq> ''terminal'' \<or> hasNextAttempt
         then invalidMessage ''inconsistent runtime failure acknowledgement'' else None)
      else if c = ''timeout'' then
        (if rk_RunStatus v \<noteq> ''timeout'' \<or> rk_DispatchState v \<noteq> ''terminal'' \<or> hasNextAttempt
         then invalidMessage ''inconsistent runtime timeout acknowledgement'' else None)
      else if c = ''canceled'' then
        (if rk_RunStatus v \<noteq> ''canceled'' \<or> rk_DispatchState v \<noteq> ''terminal'' \<or> hasNextAttempt
         then invalidMessage ''inconsistent runtime cancellation acknowledgement'' else None)
      else if c = ''dead_letter'' then
        (if rk_RunStatus v \<noteq> ''failed'' \<or> rk_DispatchState v \<noteq> ''dead_letter'' \<or> hasNextAttempt
         then invalidMessage ''inconsistent runtime dead-letter acknowledgement'' else None)
      else if c = ''retryable_failure'' then
        (if rk_RunStatus v \<noteq> ''running'' then invalidMessage ''inconsistent runtime retry acknowledgement''
         else if rk_DispatchState v = ''retry_wait'' then
           (if \<not> hasNextAttempt then invalidMessage ''retry_wait acknowledgement requires next_attempt_at'' else None)
         else if rk_DispatchState v \<in> {''pending'', ''offered'', ''executing''} then
           (if hasNextAttempt then invalidMessage ''progressed retry acknowledgement cannot retain next_attempt_at'' else None)
         else invalidMessage ''inconsistent runtime retry dispatch state'')
      else None)"

fun seenActions :: "resume_action list \<Rightarrow> resume_action list \<Rightarrow> go_error + resume_action list" where
  "seenActions seen [] = Inr seen"
| "seenActions seen (action # rest) =
     (if \<not> runtimeResumeAction action then Inl (TextError ''openlinker: invalid runtime resume action'')
      else if action \<in> set seen then Inl (TextError ''openlinker: duplicate runtime resume action'')
      else seenActions (action # seen) rest)"

definition validateRuntimeResumeDecision :: "resume_accepted \<Rightarrow> go_error option" where
  "validateRuntimeResumeDecision v =
     (case validateRuntimeAttemptIdentity (rd_AttemptIdentity v) of
        Some e \<Rightarrow> Some e
      | None \<Rightarrow>
      if (case rd_LeaseExpiresAt v of None \<Rightarrow> False | Some t \<Rightarrow> isZeroTime t)
      then invalidMessage ''invalid runtime resumed lease expiry''
      else case seenActions [] (rd_AllowedActions v) of
        Inl e \<Rightarrow> Some e
      | Inr seen \<Rightarrow>
          (case rd_Decision v of
             ResumeContinue \<Rightarrow>
               if rd_LeaseExpiresAt v = None \<or> length seen \<noteq> 3 \<or> ActionContinueExecution \<notin> set seen
                  \<or> ActionUploadEvents \<notin> set seen \<or> ActionUploadResult \<notin> set seen
               then invalidMessage ''invalid continue_execution resume decision'' else None
           | ResumeUploadSpool \<Rightarrow>
               if rd_LeaseExpiresAt v \<noteq> None \<or> length seen = 0 \<or> length seen > 2 \<or> ActionContinueExecution \<in> set seen
                  \<or> ActionStopExecution \<in> set seen \<or> ActionClearSpool \<in> set seen
               then invalidMessage ''invalid upload_spool_only resume decision'' else None
           | ResumeResultAcked \<Rightarrow>
               if rd_LeaseExpiresAt v \<noteq> None \<or> length seen \<noteq> 1 \<or> ActionClearSpool \<notin> set seen
               then invalidMessage ''invalid result_already_acked resume decision'' else None
           | ResumeRevoked \<Rightarrow>
               if rd_LeaseExpiresAt v \<noteq> None \<or> length seen \<noteq> 2 \<or> ActionStopExecution \<notin> set seen
                  \<or> ActionClearSpool \<notin> set seen
               then invalidMessage ''invalid lease_revoked resume decision'' else None
           | ResumeOther d \<Rightarrow> invalidMessage ''invalid runtime resume decision''))"

definition validateRuntimeCancel :: "run_cancel \<Rightarrow> go_error option" where
  "validateRuntimeCancel v =
     (if \<not> runtimeUUID (rl_CancellationID v) \<or> \<not> runtimeText (rl_ReasonCode v) 120 \<or> isZeroTime (rl_DeadlineAt v)
      then invalidMessage ''invalid runtime cancellation command''
      else validateRuntimeAttemptIdentity (rl_AttemptIdentity v))"

definition validateRuntimeCancelAck :: "cancel_ack \<Rightarrow> go_error option" where
  "validateRuntimeCancelAck v =
     (if \<not> runtimeUUID (ck_CancellationID v) then invalidMessage ''invalid runtime cancellation acknowledgement''
      else case validateRuntimeAttemptIdentity (ck_AttemptIdentity v) of
        Some e \<Rightarrow> Some e
      | None \<Rightarrow>
          if ck_CancelState v \<in> {''delivered'', ''stopping'', ''stopped''} then
            (if ck_ErrorCode v \<noteq> []
             then invalidMessage ''successful runtime cancellation acknowledgement cannot include error_code'' else None)
          else if ck_CancelState v \<in> {''unsupported'', ''failed''} then
            (if \<not> runtimeText (ck_ErrorCode v) 120
             then invalidMessage ''failed runtime cancellation acknowledgement requires error_code'' else None)
          else invalidMessage ''invalid runtime cancellation acknowledgement state'')"

definition validateRuntimeCancellationState :: "cancellation_state \<Rightarrow> go_error option" where
  "validateRuntimeCancellationState v =
     (if \<not> runtimeUUID (cz_CancellationID v) \<or> \<not> runtimeCancelState (cz_CancelState v) \<or> isZeroTime (cz_UpdatedAt v)
      then invalidMessage ''invalid runtime cancellation state''
      else if cz_CancelState v \<in> {''requested'', ''delivered'', ''stopping'', ''stopped''} then
        (if cz_ErrorCode v \<noteq> []
         then invalidMessage ''successful runtime cancellation state cannot include error_code'' else None)
      else if cz_CancelState v \<in> {''unsupported'', ''failed'', ''unconfirmed''} then
        (if \<not> runtimeText (cz_ErrorCode v) 120
         then invalidMessage ''failed runtime cancellation state requires error_code'' else None)
      else None)"

fun errorRangesOk :: "int \<Rightarrow> event_range list \<Rightarrow> bool" where
  "errorRangesOk previous [] = True"
| "errorRangesOk previous ((start, stop) # rest) =
     (if start < 1 \<or> stop < start \<or> start \<le> previous then False else errorRangesOk stop rest)"

definition validateRuntimeErrorBody :: "error_body \<Rightarrow> go_error option" where
  "validateRuntimeErrorBody v =
     (if \<not> validRuntimeErrorCode (eb_Code v) \<or> \<not> runtimeText (eb_Message v) 500
         \<or> (eb_CurrentRunStatus v \<noteq> [] \<and> \<not> runtimeRunStatus (eb_CurrentRunStatus v))
         \<or> (eb_CurrentDispatchState v \<noteq> [] \<and> \<not> runtimeDispatchState (eb_CurrentDispatchState v))
      then invalidMessage ''invalid runtime error envelope''
      else if \<not> errorRangesOk 0 (eb_MissingEventRanges v) then invalidMessage ''invalid runtime error event ranges''
      else None)"

text \<open>The loop over pending ranges: the end of the last one, \<^term>\<open>None\<close> when they are not ascending.\<close>

fun resumeRangesEnd :: "int \<Rightarrow> event_range list \<Rightarrow> int option" where
  "resumeRangesEnd previous [] = Some previous"
| "resumeRangesEnd previous ((start, stop) # rest) =
     (if start \<le> previous \<or> stop < start then None else resumeRangesEnd stop rest)"

fun validateResumeAttempts :: "resume_request \<Rightarrow> sdk_identity list \<Rightarrow> resume_attempt list \<Rightarrow> go_error option" where
  "validateResumeAttempts v seen [] = None"
| "validateResumeAttempts v seen (attempt # rest) =
     (let identity = rt_AttemptIdentity attempt in
      case validateRuntimeAttemptIdentity identity of
        Some e \<Rightarrow> Some e
      | None \<Rightarrow>
      if sa_NodeID identity \<noteq> rq_NodeID v \<or> sa_AgentID identity \<noteq> rq_AgentID v \<or> sa_WorkerID identity \<noteq> rq_WorkerID v
         \<or> rt_LastAckedClientEventSeq attempt < 0
         \<or> (rt_PendingResultID attempt = []) \<noteq> (rt_FinalClientEventSeq attempt = None)
      then invalidMessage ''invalid runtime resume Attempt''
      else if identity \<in> set seen then invalidMessage ''duplicate runtime resume Attempt''
      else case resumeRangesEnd (rt_LastAckedClientEventSeq attempt) (rt_PendingClientEventRanges attempt) of
        None \<Rightarrow> invalidMessage ''invalid runtime resume event ranges''
      | Some previous \<Rightarrow>
          if (case rt_FinalClientEventSeq attempt of
                None \<Rightarrow> False
              | Some final \<Rightarrow> \<not> runtimeUUID (rt_PendingResultID attempt) \<or> final < previous)
          then invalidMessage ''invalid runtime pending Result''
          else validateResumeAttempts v (identity # seen) rest)"

definition validateRuntimeResume :: "resume_request \<Rightarrow> go_error option" where
  "validateRuntimeResume v =
     (if \<not> runtimeUUID (rq_NodeID v) \<or> \<not> runtimeUUID (rq_AgentID v) \<or> \<not> runtimeUUID (rq_RuntimeSessionID v)
         \<or> \<not> runtimeText (rq_WorkerID v) 200 \<or> length (rq_Attempts v) > 1024
      then invalidMessage ''invalid runtime resume identity''
      else validateResumeAttempts v [] (rq_Attempts v))"

section \<open>Decoding\<close>

text \<open>
  A strict JSON decoder (unknown fields and trailing text are errors) is a parameter; the limits
  around it are the code's.
\<close>

definition decodeRuntimeResponse :: "(bytes \<Rightarrow> go_error + 'a) \<Rightarrow> bytes \<Rightarrow> go_error + 'a" where
  "decodeRuntimeResponse decode raw =
     (if length raw > runtimeMaxMessageBytes \<or> trimSpace raw = []
      then Inl (TextError ''runtime response is empty or too large'') else decode raw)"

record command_decoders =
  cd_cancel :: "bytes \<Rightarrow> go_error + run_cancel"
  cd_drain :: "bytes \<Rightarrow> go_error + drain_payload"
  cd_revoke :: "bytes \<Rightarrow> go_error + lease_revoked"

definition emptyCommand :: "string \<Rightarrow> decoded_command" where
  "emptyCommand ty = \<lparr>dc_Type = ty, dc_Cancel = None, dc_Drain = None, dc_Revoke = None\<rparr>"

definition decodeRuntimePendingCommand :: "command_decoders \<Rightarrow> pending_command \<Rightarrow> go_error + decoded_command" where
  "decodeRuntimePendingCommand cd command =
     (if pc_Type command = ''run.cancel'' then
        (case decodeRuntimeResponse (cd_cancel cd) (pc_Payload command) of
           Inl e \<Rightarrow> Inl e
         | Inr payload \<Rightarrow>
             (case validateRuntimeCancel payload of
                Some e \<Rightarrow> Inl e
              | None \<Rightarrow> Inr ((emptyCommand (pc_Type command))\<lparr>dc_Cancel := Some payload\<rparr>)))
      else if pc_Type command = ''runtime.drain'' then
        (case decodeRuntimeResponse (cd_drain cd) (pc_Payload command) of
           Inl e \<Rightarrow> Inl e
         | Inr payload \<Rightarrow>
             (case validateRuntimeDrain payload of
                Some e \<Rightarrow> Inl (TextError ''openlinker: invalid runtime drain command'')
              | None \<Rightarrow> Inr ((emptyCommand (pc_Type command))\<lparr>dc_Drain := Some payload\<rparr>)))
      else if pc_Type command = ''run.lease.revoked'' then
        (case decodeRuntimeResponse (cd_revoke cd) (pc_Payload command) of
           Inl e \<Rightarrow> Inl e
         | Inr payload \<Rightarrow>
             if validateRuntimeAttemptIdentity (lv_AttemptIdentity payload) \<noteq> None \<or> \<not> runtimeText (lv_ReasonCode payload) 120
                \<or> \<not> runtimeDispatchState (lv_DispatchState payload) \<or> \<not> runtimeRunStatus (lv_RunStatus payload)
             then Inl (TextError ''openlinker: invalid runtime lease revocation command'')
             else Inr ((emptyCommand (pc_Type command))\<lparr>dc_Revoke := Some payload\<rparr>))
      else Inl (TextError ''openlinker: unknown runtime command type''))"

end
