(* ===== verification/Worker_Result.thy ===== *)
theory Worker_Result
  imports Runtime_Messages
begin

text \<open>
  Properties of the result the worker stores for an attempt: the check that the client makes
  before it sends a result accepts it, and the cases in which the output of a handler is not
  reported.
\<close>

section \<open>The payload of a result\<close>

lemma no_space_prefix: "list_all (\<lambda>q. \<not> isPrefix q s) unicodeSpaces \<Longrightarrow> p \<in> set unicodeSpaces \<Longrightarrow> \<not> isPrefix p s"
  by (simp add: list_all_iff)

lemma bounded_text:
  assumes "utf8Valid fallback" and "fallback \<noteq> []" and "list_all (\<lambda>q. \<not> isPrefix q fallback) unicodeSpaces" and "0 < maximum"
  shows "runtimeText (boundedRuntimeText v maximum fallback) maximum"
proof -
  define s where "s = (if trimSpace v = [] \<or> \<not> utf8Valid (trimSpace v) then fallback else trimSpace v)"
  have s: "utf8Valid s" "s \<noteq> []" using assms(1,2) by (auto simp: s_def)
  have sp: "\<not> isPrefix p s" if "p \<in> set unicodeSpaces" for p
    using that trimSpace_starts [OF that] no_space_prefix [OF assms(3) that] by (simp add: s_def)
  let ?b = "boundedRuntimeText v maximum fallback"
  have eq: "?b = (if length (utf8Runes s) > maximum then concat (take maximum (utf8Runes s)) else s)"
    by (simp add: boundedRuntimeText_def Let_def s_def)
  have pre: "?b = concat (take maximum (utf8Runes s))"
    using concat_utf8Runes [OF s(1)] by (simp add: eq)
  have "utf8Runes s \<noteq> []" using s by (simp add: utf8Runes_Nil_iff)
  then obtain r rs where "utf8Runes s = r # rs" by (cases "utf8Runes s") auto
  moreover obtain m where "maximum = Suc m" using assms(4) by (cases maximum) auto
  ultimately have "?b \<noteq> []" using utf8Runes_nonempty [of r s] unfolding pre by simp
  moreover have "trimSpace ?b \<noteq> []"
  proof (rule trimSpace_nonempty [OF \<open>?b \<noteq> []\<close>])
    fix p assume p: "p \<in> set unicodeSpaces"
    have "s = ?b @ concat (drop maximum (utf8Runes s))"
      unfolding pre using concat_utf8Runes [OF s(1)] by (metis append_take_drop_id concat_append)
    with sp [OF p] show "\<not> isPrefix p ?b" by (metis append.assoc isPrefix_iff)
  qed
  ultimately show ?thesis by (simp add: runtimeText_def pre utf8Valid_take utf8Runes_take)
qed

lemma ascii_valid: "list_all (\<lambda>c. code c < 0x80) s \<Longrightarrow> utf8Valid s"
  using utf8Runes_ascii by (auto simp: list_all_iff)

lemma failure_texts: "runtimeText (boundedRuntimeText c 120 ''HANDLER_ERROR'') 120"
  "runtimeText (boundedRuntimeText m 500 ''runtime handler failed'') 500"
proof -
  have "list_all (\<lambda>c. code c < 0x80) ''HANDLER_ERROR''" "list_all (\<lambda>c. code c < 0x80) ''runtime handler failed''"
    by code_simp+
  then have u: "utf8Valid ''HANDLER_ERROR''" "utf8Valid ''runtime handler failed''" using ascii_valid by blast+
  have p: "list_all (\<lambda>q. \<not> isPrefix q ''HANDLER_ERROR'') unicodeSpaces"
    "list_all (\<lambda>q. \<not> isPrefix q ''runtime handler failed'') unicodeSpaces" by code_simp+
  show "runtimeText (boundedRuntimeText c 120 ''HANDLER_ERROR'') 120" by (rule bounded_text [OF u(1) _ p(1)]) simp_all
  show "runtimeText (boundedRuntimeText m 500 ''runtime handler failed'') 500" by (rule bounded_text [OF u(2) _ p(2)]) simp_all
qed

text \<open>What the check needs beside the texts.\<close>

definition stampable :: "attempt_identity \<Rightarrow> string \<Rightarrow> int \<Rightarrow> int \<Rightarrow> bool" where
  "stampable identity resultID finalSeq duration \<longleftrightarrow> validateRuntimeAttemptIdentity (sdkAttemptIdentity identity) = None
     \<and> runtimeUUID resultID \<and> 0 \<le> finalSeq \<and> 0 \<le> duration \<and> duration \<le> 2 ^ 31 - 1"

lemma failure_valid:
  assumes "stampable identity resultID finalSeq duration"
  shows "validateRuntimeResult (stampResult resultID finalSeq
      ((runtimeFailurePayload identity c m duration)\<lparr>rp_Error :=
        map_option (\<lambda>e. e\<lparr>rx_RetryableHint := hint\<rparr>) (rp_Error (runtimeFailurePayload identity c m duration))\<rparr>)) = None"
    and "validateRuntimeResult (stampResult resultID finalSeq (runtimeFailurePayload identity c m duration)) = None"
  using assms failure_texts
  by (simp_all add: stampable_def validateRuntimeResult_def stampResult_def runtimeFailurePayload_def)

definition nilMapOutput :: "runtime_result \<Rightarrow> bool" where
  "nilMapOutput result \<longleftrightarrow> rn_Status result = ''success'' \<and> rn_Error result = None \<and> rn_Output result = AnyMap None"

lemma payload_valid:
  assumes "stampable identity resultID finalSeq (rn_DurationMS result)"
    and "runtimeResultPayload identity result = Inr p" and "\<not> nilMapOutput result"
  shows "validateRuntimeResult (stampResult resultID finalSeq p) = None"
proof -
  let ?failure = "\<lambda>e. runtimeFailurePayload identity (he_Code e) (he_Message e) (rn_DurationMS result)"
  consider (invalid) "rn_Status result \<noteq> ''success'' \<and> rn_Status result \<noteq> ''failed''"
    | (failed) "rn_Status result = ''failed'' \<or> rn_Status result = ''success'' \<and> rn_Error result \<noteq> None"
    | (success) "rn_Status result = ''success''" "rn_Error result = None" by blast
  then show ?thesis
  proof cases
    case invalid
    with assms(2) failure_valid(2) [OF assms(1)] show ?thesis by (auto simp: runtimeResultPayload_def)
  next
    case failed
    define e where "e = (case rn_Error result of Some x \<Rightarrow> x
      | None \<Rightarrow> \<lparr>he_Code = ''HANDLER_ERROR'', he_Message = ''runtime handler returned a failed result'', he_Retryable = False\<rparr>)"
    from failed assms(2) have
      "p = (?failure e)\<lparr>rp_Error := map_option (\<lambda>x. x\<lparr>rx_RetryableHint := he_Retryable e\<rparr>) (rp_Error (?failure e))\<rparr>"
      unfolding e_def by (auto simp: runtimeResultPayload_def Let_def)
    with failure_valid(1) [OF assms(1)] show ?thesis by simp
  next
    case success
    with assms obtain out where "runtimeObject (rn_Output result) = Inr out" "out \<noteq> None"
      "p = \<lparr>rp_AttemptIdentity = sdkAttemptIdentity identity, rp_ResultID = [], rp_Status = ''success'', rp_Output = out,
            rp_Error = None, rp_DurationMS = rn_DurationMS result, rp_FinalClientEventSeq = 0\<rparr>"
      by (auto simp: runtimeResultPayload_def runtimeObject_def nilMapOutput_def
          split: go_any.splits option.splits json_encoding.splits sum.splits)
    with assms(1) show ?thesis by (auto simp: stampable_def validateRuntimeResult_def stampResult_def)
  qed
qed

lemma maxDurationMS_range: "0 \<le> maxDurationMS t now" "maxDurationMS t now \<le> 2 ^ 31 - 1"
  by (simp_all add: maxDurationMS_def Let_def)

lemma runtimeUUID_iff: "runtimeUUID v = validRuntimeUUID v"
proof -
  have hex: "(\<lambda>i. i = 8 \<or> i = 13 \<or> i = 18 \<or> i = 23
      \<or> \<not> ((code (v ! i) < 48 \<or> 57 < code (v ! i)) \<and> (code (v ! i) < 97 \<or> 102 < code (v ! i)))) = uuidHexAt v"
    by (auto simp: uuidHexAt_def fun_eq_iff not_less)
  show ?thesis unfolding runtimeUUID_def validRuntimeUUID_def zeroUUID_def hex by argo
qed


text \<open>
  C40. An output that is not JSON encodable is only caught when it is not a map: any other such
  value is encoded as a failed result, while a map that holds one passes \<^verbatim>\<open>runtimeObject\<close> unchecked,
  the payload cannot be encoded, and persisting the result ends in an error, with the spool as the
  rest of the program left it.
\<close>

theorem unencodable_map_is_not_reported:
  assumes "\<forall>p. rp_Output p = Some None \<longrightarrow> xe_encodeResult xe p = None"
    and "rn_Status result = ''success''" and "rn_Error result = None"
  shows "(rn_Output result = AnyMap (Some None) \<longrightarrow>
      (\<exists>e w. persistRunResult xe a result st = (Some e, st\<lparr>as_worker := w\<rparr>)
        \<and> wk_store w = we_others (xe_worker xe) (attemptTurn st) (wk_store (as_worker st))))
    \<and> (rn_Output result = AnyValue None \<longrightarrow> encodedResult xe identity resultID finalSeq result = Inr (payload, raw) \<longrightarrow>
        rp_Status payload = ''failed'')"
proof (intro conjI impI)
  assume "rn_Output result = AnyMap (Some None)"
  with assms have "encodedResult xe i resultID finalSeq result = Inl jsonError" for i resultID finalSeq
    by (simp add: encodedResult_def runtimeResultPayload_def runtimeObject_def stampResult_def Let_def)
  then show "\<exists>e w. persistRunResult xe a result st = (Some e, st\<lparr>as_worker := w\<rparr>)
        \<and> wk_store w = we_others (xe_worker xe) (attemptTurn st) (wk_store (as_worker st))"
    by (auto simp: persistRunResult_def storeRead_def takeTurn_def attemptTurn_def Let_def split: sum.splits)
next
  assume "rn_Output result = AnyValue None" and "encodedResult xe identity resultID finalSeq result = Inr (payload, raw)"
  with assms(2,3) show "rp_Status payload = ''failed''"
    by (auto simp: encodedResult_def runtimeResultPayload_def runtimeObject_def runtimeFailurePayload_def stampResult_def Let_def
        split: option.splits if_splits)
qed

section \<open>A handler that panics\<close>

definition panic_env :: "(store, string) attempt_env" where
  "panic_env = \<lparr>xe_worker = cut_off_env, xe_authority = sample_authority_env, xe_decodeMap = (\<lambda>b. Some (Some [])),
     xe_decodeAuthority = (\<lambda>v. None), xe_attachment = None, xe_encodeResult = (\<lambda>p. Some ''{}''),
     xe_random = (\<lambda>n. Some (replicate 16 (CHR 0x00))), xe_now = (\<lambda>n. 0), xe_canceled = (\<lambda>n. False),
     xe_ctxErr = (\<lambda>n. None), xe_callAgent = (\<lambda>n r. Inr None),
     xe_handle = (\<lambda>c. HandlerEmit ''progress.step'' AnyNil (\<lambda>e. HandlerPanic))\<rparr>"

definition sample_active :: active_attempt where
  "sample_active = \<lparr>at_identity = sample_attempt, at_payload = \<lparr>pl_Version = 1, pl_Identity = sample_attempt, pl_Input = ''{}'',
     pl_Metadata = ''null'', pl_NodeEnvelope = ''envelope'', pl_AgentInvocationToken = ''token'', pl_OfferExpiresAt = 0,
     pl_AttemptDeadlineAt = 0, pl_RunDeadlineAt = 0, pl_CreatedAt = 0\<rparr>\<rparr>"

definition uuid_identity :: attempt_identity where
  "uuid_identity = sample_attempt\<lparr>ai_RunID := ''11111111-1111-4111-8111-111111111111'',
     ai_AttemptID := ''11111111-1111-4111-8111-111111111112'', ai_LeaseID := ''11111111-1111-4111-8111-111111111113'',
     ai_NodeID := ''11111111-1111-4111-8111-111111111114'', ai_AgentID := ''11111111-1111-4111-8111-111111111115'',
     ai_RuntimeSessionID := ''11111111-1111-4111-8111-111111111116'', ai_WorkerID := ''worker'', ai_FencingToken := 1\<rparr>"

lemma uuid_identity_valid: "validateRuntimeAttemptIdentity (sdkAttemptIdentity uuid_identity) = None"
proof -
  have "list_all runtimeUUID [''11111111-1111-4111-8111-111111111111'', ''11111111-1111-4111-8111-111111111112'',
      ''11111111-1111-4111-8111-111111111113'', ''11111111-1111-4111-8111-111111111114'',
      ''11111111-1111-4111-8111-111111111115'', ''11111111-1111-4111-8111-111111111116'']" by code_simp
  moreover have "runtimeText ''worker'' 200" by code_simp
  ultimately show ?thesis
    by (simp add: validateRuntimeAttemptIdentity_def sdkAttemptIdentity_def uuid_identity_def)
qed


theorem unencodable_map_is_not_reported_witness:
  "\<exists>e w. persistRunResult (panic_env\<lparr>xe_encodeResult := \<lambda>p. if rp_Output p = Some None then None else Some ''{}''\<rparr>) sample_active
     \<lparr>rn_Status = ''success'', rn_Output = AnyMap (Some None), rn_Events = [], rn_Error = None, rn_DurationMS = 1\<rparr>
     \<lparr>as_worker = appended_worker, as_finished = True\<rparr> = (Some e, \<lparr>as_worker = w, as_finished = True\<rparr>)
     \<and> wk_store w = appended_store"
proof -
  let ?xe = "panic_env\<lparr>xe_encodeResult := \<lambda>p. if rp_Output p = Some None then None else Some ''{}''\<rparr>"
    and ?r = "\<lparr>rn_Status = ''success'', rn_Output = AnyMap (Some None), rn_Events = [], rn_Error = None, rn_DurationMS = 1\<rparr>"
  have "\<forall>p. rp_Output p = Some None \<longrightarrow> xe_encodeResult ?xe p = None" by simp
  from unencodable_map_is_not_reported [OF this, of ?r sample_active "\<lparr>as_worker = appended_worker, as_finished = True\<rparr>"]
  show ?thesis by (simp add: panic_env_def cut_off_env_def appended_worker_def)
qed

end
