(* ===== verification/Worker_Outcome.thy ===== *)
theory Worker_Outcome
  imports Worker_Result
begin

text \<open>
  No outcome of a handler is dropped. What the execution of an attempt needs of the store is a
  locale that extends the contract of Worker_Contract; the file store satisfies it.
\<close>

section \<open>The contract of an execution\<close>

locale runtime_store_execution = runtime_store_contract api good reach unacked
  for api :: "'s runtime_store" and good :: "'s \<Rightarrow> bool" and reach :: "'s \<Rightarrow> 's \<Rightarrow> bool"
    and unacked :: "string \<Rightarrow> 's \<Rightarrow> int set" +
  fixes stored :: "attempt_identity \<Rightarrow> 's \<Rightarrow> bool"  \<comment> \<open>the result of the attempt is in the spool\<close>
  assumes append_reach: "env_ok io \<Longrightarrow> reach s (snd (sto_AppendEvent api io i ty p s))"
    and result_reach: "env_ok io \<Longrightarrow> reach s (snd (sto_StoreResult api io r s))"
    and result_stored: "good s \<Longrightarrow> env_ok io \<Longrightarrow> sto_StoreResult api io r s = (None, t) \<Longrightarrow> stored (rs_Identity r) t"
begin

text \<open>The rest of the program keeps the contract.\<close>

definition steady :: "'s worker_env \<Rightarrow> bool" where
  "steady env \<longleftrightarrow> we_store env = api \<and> (\<forall>n. env_ok (we_io env n)) \<and> (\<forall>n s. good s \<longrightarrow> reach s (we_others env n s))"

abbreviation spool :: "'s attempt_state \<Rightarrow> 's" where
  "spool st \<equiv> wk_store (as_worker st)"

abbreviation fatals :: "'s attempt_state \<Rightarrow> go_error list" where
  "fatals st \<equiv> wk_fatal (as_worker st)"

text \<open>A step of the execution: calls of the contract, and fatal errors are only added.\<close>

definition advances :: "'s attempt_state \<Rightarrow> 's attempt_state \<Rightarrow> bool" where
  "advances st st' \<longleftrightarrow> reach (spool st) (spool st') \<and> (\<exists>es. fatals st' = fatals st @ es)
     \<and> (as_finished st \<longrightarrow> as_finished st')"

lemma advances_refl [simp]: "advances st st"
  by (simp add: advances_def reach_refl)

lemma advances_trans: "advances st u \<Longrightarrow> advances u v \<Longrightarrow> advances st v"
  unfolding advances_def by (metis append.assoc reach_trans)

lemma advances_good: "good (spool st) \<Longrightarrow> advances st u \<Longrightarrow> good (spool u)"
  using reach_good by (auto simp: advances_def)

lemma advances_finished [simp]: "advances st u \<Longrightarrow> advances st (setFinished u)"
  by (auto simp: advances_def setFinished_def)

lemma advances_fatal: "advances st u \<Longrightarrow> advances st (reportFatal e u) \<and> fatals (reportFatal e u) \<noteq> fatals st"
  by (auto simp: advances_def reportFatal_def)

lemma advances_worker:
  "reach (spool st) (wk_store w) \<Longrightarrow> wk_fatal w = fatals st \<Longrightarrow> advances st (st\<lparr>as_worker := w\<rparr>)"
  by (simp add: advances_def)

lemma read_step:
  assumes "steady env" and "good (wk_store w)" and "storeRead env f w = (r, w')"
  shows "reach (wk_store w) (wk_store w') \<and> wk_fatal w' = wk_fatal w"
  using assms by (auto simp: storeRead_def takeTurn_def Let_def steady_def)

lemma call_step:
  assumes "steady env" and "good (wk_store w)" and "storeCall env f w = (r, w')"
    and "\<And>io s. env_ok io \<Longrightarrow> reach s (snd (f io s))"
  shows "reach (wk_store w) (wk_store w') \<and> wk_fatal w' = wk_fatal w
    \<and> (\<exists>io s. env_ok io \<and> good s \<and> f io s = (r, wk_store w'))"
proof -
  let ?io = "we_io env (wk_turn w)" and ?s = "we_others env (wk_turn w) (wk_store w)"
  have io: "env_ok ?io" and s: "reach (wk_store w) ?s" "good ?s"
    using assms(1,2) reach_good by (auto simp: steady_def)
  obtain t where t: "f ?io ?s = (r, t)" "wk_store w' = t" "wk_fatal w' = wk_fatal w"
    using assms(3) by (auto simp: storeCall_def takeTurn_def Let_def split: prod.splits)
  have "reach ?s t" using assms(4) [OF io, of ?s] t(1) by simp
  with s(1) have "reach (wk_store w) t" by (rule reach_trans)
  with io s(2) t show ?thesis by blast
qed

lemma event_step:
  assumes "steady (xe_worker xe)" and "good (spool st)" and "persistRuntimeEvent xe a eventType payload st = (r, st')"
  shows "advances st st'"
proof -
  have api: "we_store (xe_worker xe) = api" using assms(1) by (simp add: steady_def)
  have "st' = st \<or> (\<exists>m x w1. storeRead (xe_worker xe) (sto_Assignment api m) (as_worker st) = (x, w1) \<and>
      (st' = st\<lparr>as_worker := w1\<rparr> \<or> (\<exists>raw y w2. storeCall (xe_worker xe) (\<lambda>io. sto_AppendEvent api io (at_identity a) eventType raw) w1 = (y, w2)
         \<and> st' = st\<lparr>as_worker := w2\<rparr>)))"
    using assms(3) unfolding persistRuntimeEvent_def api
    by (auto simp: Let_def split: if_splits sum.splits option.splits prod.splits) blast
  then consider "st' = st"
    | m x w1 where "storeRead (xe_worker xe) (sto_Assignment api m) (as_worker st) = (x, w1)" "st' = st\<lparr>as_worker := w1\<rparr>"
    | m x w1 raw y w2 where "storeRead (xe_worker xe) (sto_Assignment api m) (as_worker st) = (x, w1)"
        "storeCall (xe_worker xe) (\<lambda>io. sto_AppendEvent api io (at_identity a) eventType raw) w1 = (y, w2)"
        "st' = st\<lparr>as_worker := w2\<rparr>"
    by blast
  then show ?thesis
  proof cases
    case 1
    then show ?thesis by simp
  next
    case (2 m x w1)
    from read_step [OF assms(1,2) 2(1)] show ?thesis unfolding 2(2) by (auto intro: advances_worker)
  next
    case (3 m x w1 raw y w2)
    note r = read_step [OF assms(1,2) 3(1)]
    have g: "good (wk_store w1)" using assms(2) r reach_good by blast
    from call_step [OF assms(1) g 3(2) append_reach] r reach_trans show ?thesis
      unfolding 3(3) by (intro advances_worker) metis+
  qed
qed

lemma result_step:
  assumes "steady (xe_worker xe)" and "good (spool st)" and "persistRunResult xe a result st = (r, st')"
  shows "advances st st' \<and> (r = None \<longrightarrow> stored (at_identity a) (spool st'))"
proof -
  have api: "we_store (xe_worker xe) = api" using assms(1) by (simp add: steady_def)
  have "\<exists>m x w1. storeRead (xe_worker xe) (sto_Assignment api m) (as_worker st) = (x, w1) \<and>
      (r \<noteq> None \<and> st' = st\<lparr>as_worker := w1\<rparr> \<or> (\<exists>q w2. rs_Identity q = at_identity a
         \<and> storeCall (xe_worker xe) (\<lambda>io. sto_StoreResult api io q) w1 = (r, w2) \<and> st' = st\<lparr>as_worker := w2\<rparr>))"
    using assms(3) unfolding persistRunResult_def api
    by (force split: sum.splits prod.splits)
  then obtain m x w1 where read: "storeRead (xe_worker xe) (sto_Assignment api m) (as_worker st) = (x, w1)"
    and rest: "r \<noteq> None \<and> st' = st\<lparr>as_worker := w1\<rparr> \<or> (\<exists>q w2. rs_Identity q = at_identity a
         \<and> storeCall (xe_worker xe) (\<lambda>io. sto_StoreResult api io q) w1 = (r, w2) \<and> st' = st\<lparr>as_worker := w2\<rparr>)" by blast
  note step = read_step [OF assms(1,2) read]
  have g: "good (wk_store w1)" using assms(2) step reach_good by blast
  from rest show ?thesis
  proof (elim disjE exE conjE)
    assume "r \<noteq> None" "st' = st\<lparr>as_worker := w1\<rparr>"
    with step show ?thesis by (auto intro: advances_worker)
  next
    fix q w2
    assume c: "rs_Identity q = at_identity a"
      "storeCall (xe_worker xe) (\<lambda>io. sto_StoreResult api io q) w1 = (r, w2)" "st' = st\<lparr>as_worker := w2\<rparr>"
    from call_step [OF assms(1) g c(2) result_reach] obtain io s where
      s: "reach (wk_store w1) (wk_store w2)" "wk_fatal w2 = wk_fatal w1" "env_ok io" "good s"
      "sto_StoreResult api io q s = (r, wk_store w2)" by blast
    have "advances st st'" unfolding c(3) using step s(1,2) by (intro advances_worker) (auto intro: reach_trans)
    moreover have "stored (at_identity a) (spool st')" if "r = None"
      using result_stored [OF s(4,3), of q "wk_store w2"] s(5) that c(1,3) by simp
    ultimately show ?thesis by blast
  qed
qed

text \<open>The execution is over: it is cancelled, or fatal, or the result is stored.\<close>

definition recorded :: "('s, 'v) attempt_env \<Rightarrow> active_attempt \<Rightarrow> 's attempt_state \<Rightarrow> 's attempt_state \<Rightarrow> bool" where
  "recorded xe a st st' \<longleftrightarrow> advances st st' \<and> as_finished st'
     \<and> ((\<exists>n. xe_canceled xe n) \<or> fatals st' \<noteq> fatals st \<or> stored (at_identity a) (spool st'))"

lemma recorded_after: "advances st u \<Longrightarrow> recorded xe a u v \<Longrightarrow> recorded xe a st v"
  unfolding recorded_def using advances_trans [of st u v]
  by (auto simp: advances_def)

lemma recorded_result:
  assumes "steady (xe_worker xe)" and "good (spool st)" and "as_finished st"
    and "persistRunResult xe a result st = (r, u)"
  shows "recorded xe a st (case r of Some e \<Rightarrow> reportFatal e u | None \<Rightarrow> u)"
proof -
  have step: "advances st u" "r = None \<Longrightarrow> stored (at_identity a) (spool u)"
    using result_step [OF assms(1,2,4)] by auto
  have fin: "as_finished u" using step(1) assms(3) by (simp add: advances_def)
  show ?thesis
  proof (cases r)
    case None
    with step fin show ?thesis by (simp add: recorded_def)
  next
    case (Some e)
    with advances_fatal [OF step(1), of e] fin show ?thesis by (simp add: recorded_def reportFatal_def)
  qed
qed

lemma recorded_failure:
  assumes "steady (xe_worker xe)" and "good (spool st)"
  shows "recorded xe a st (persistAttemptFailure xe a startedAt errCode message st)"
proof (cases "xe_canceled xe (attemptTurn (setFinished st))")
  case True
  then show ?thesis
    by (auto simp: persistAttemptFailure_def Let_def recorded_def) (simp add: setFinished_def)
next
  case False
  define result where
    "result = failedResult errCode message (maxDurationMS startedAt (xe_now xe (attemptTurn (setFinished st))))"
  obtain r u where p: "persistRunResult xe a result (setFinished st) = (r, u)" by fastforce
  have "recorded xe a (setFinished st) (case r of Some e \<Rightarrow> reportFatal e u | None \<Rightarrow> u)"
    by (rule recorded_result [OF assms(1) _ _ p]) (simp_all add: assms(2) setFinished_def)
  moreover have "persistAttemptFailure xe a startedAt errCode message st = (case r of Some e \<Rightarrow> reportFatal e u | None \<Rightarrow> u)"
    using False p by (simp add: persistAttemptFailure_def Let_def result_def split: option.splits)
  ultimately show ?thesis using recorded_after [of st "setFinished st"] by simp
qed

lemma final_events_step:
  assumes "steady (xe_worker xe)"
  shows "good (spool st) \<Longrightarrow> persistFinalEvents xe a events st = (r, st') \<Longrightarrow> advances st st'"
proof (induction events arbitrary: st)
  case (Cons event rest)
  obtain x u where e: "persistRuntimeEvent xe a (ru_EventType event) (ru_Payload event) st = (x, u)" by fastforce
  note step = event_step [OF assms Cons.prems(1) e]
  show ?case
  proof (cases x)
    case None
    with Cons.prems(2) e Cons.IH [OF advances_good [OF Cons.prems(1) step]] step show ?thesis
      by (auto intro: advances_trans)
  next
    case (Some y)
    with Cons.prems(2) e step show ?thesis by simp
  qed
qed simp

lemma recorded_conclude:
  assumes "steady (xe_worker xe)" and "good (spool st)" and "as_finished st"
  shows "recorded xe a st (concludeAttempt xe a startedAt handled st)"
proof (cases "xe_canceled xe (attemptTurn st)")
  case True
  then show ?thesis using assms(3) by (auto simp: concludeAttempt_def recorded_def)
next
  case False
  define result where "result = (if deadlineExceeded xe st
    then failedResult ''ATTEMPT_DEADLINE_EXCEEDED'' ''Attempt deadline elapsed during handler execution'' 0 else handled)"
  obtain r u where ev: "persistFinalEvents xe a (rn_Events result) st = (r, u)" by fastforce
  have step: "advances st u" by (rule final_events_step [OF assms(1,2) ev])
  have u: "good (spool u)" "as_finished u" using advances_good [OF assms(2) step] step assms(3) by (auto simp: advances_def)
  show ?thesis
  proof (cases r)
    case None
    define timed where "timed = result\<lparr>rn_DurationMS := maxDurationMS startedAt (xe_now xe (attemptTurn u))\<rparr>"
    obtain x v where p: "persistRunResult xe a timed u = (x, v)" by fastforce
    have "concludeAttempt xe a startedAt handled st = (case x of Some e \<Rightarrow> reportFatal e v | None \<Rightarrow> v)"
      using False ev None p unfolding timed_def result_def
      by (simp add: concludeAttempt_def Let_def split: option.splits)
    then show ?thesis using recorded_after [OF step recorded_result [OF assms(1) u p]] by simp
  next
    case (Some e)
    then have "concludeAttempt xe a startedAt handled st =
        (if durableRuntimeErrorIsFatal e then reportFatal e u
         else persistAttemptFailure xe a startedAt ''HANDLER_EVENT_INVALID'' ''runtime handler returned an invalid final Event'' u)"
      using False ev unfolding result_def by (simp add: concludeAttempt_def Let_def)
    moreover have "recorded xe a st (reportFatal e u)"
      using advances_fatal [OF step, of e] u(2) by (simp add: recorded_def reportFatal_def)
    ultimately show ?thesis using recorded_after [OF step recorded_failure [OF assms(1) u(1)]] by simp
  qed
qed

lemma emit_step:
  assumes "steady (xe_worker xe)" and "good (spool st)" and "emit xe a eventType payload st = (r, st')"
  shows "advances st st'"
proof (cases "as_finished st \<or> xe_canceled xe (attemptTurn st)")
  case True
  with assms(3) show ?thesis by (auto simp: emit_def)
next
  case False
  obtain x u where e: "persistRuntimeEvent xe a eventType payload st = (x, u)" by fastforce
  from event_step [OF assms(1,2) e] advances_fatal [of st u] False assms(3) e show ?thesis
    by (auto simp: emit_def split: option.splits if_splits)
qed

lemma call_agent_step: "callAgentForAttempt xe a target input options st = (r, st') \<Longrightarrow> advances st st'"
  using advances_fatal [OF advances_refl, of st]
  by (auto simp: callAgentForAttempt_def Let_def split: if_splits sum.splits option.splits)

lemma handler_step:
  assumes "steady (xe_worker xe)"
  shows "good (spool st) \<Longrightarrow> runHandler h xe a st = (r, st') \<Longrightarrow> advances st st'"
proof (induction h arbitrary: st)
  case (HandlerEmit eventType payload k)
  obtain err u where e: "emit xe a eventType payload st = (err, u)" by fastforce
  note step = emit_step [OF assms HandlerEmit.prems(1) e]
  from HandlerEmit.IH [OF rangeI advances_good [OF HandlerEmit.prems(1) step]] HandlerEmit.prems(2) e step
  show ?case by (auto intro: advances_trans)
next
  case (HandlerCallAgent target input options k)
  obtain x u where c: "callAgentForAttempt xe a target input options st = (x, u)" by fastforce
  note step = call_agent_step [OF c]
  from HandlerCallAgent.IH [OF rangeI advances_good [OF HandlerCallAgent.prems(1) step]] HandlerCallAgent.prems(2) c step
  show ?case by (auto intro: advances_trans)
qed simp_all

lemma recorded_execution:
  assumes "steady (xe_worker xe)" and "good (spool st)"
  shows "recorded xe a st (executeAttempt xe a st)"
proof -
  obtain identity w1 where id: "storeRead (xe_worker xe) (sto_Identity (we_store (xe_worker xe))) (as_worker st) = (identity, w1)"
    by fastforce
  let ?st1 = "st\<lparr>as_worker := w1\<rparr>"
  have s1: "advances st ?st1" using read_step [OF assms id] by (intro advances_worker) auto
  have g1: "good (spool ?st1)" by (rule advances_good [OF assms(2) s1])
  have conclude: "recorded xe a st (concludeAttempt xe a now res (setFinished u))"
    if "runHandler h xe a ?st1 = (x, u)" for h x u now res
  proof -
    have s: "advances st (setFinished u)" using advances_trans [OF s1 handler_step [OF assms(1) g1 that]] by simp
    show ?thesis
      by (rule recorded_after [OF s recorded_conclude [OF assms(1)]])
         (use advances_good [OF assms(2) s] in \<open>simp_all add: setFinished_def\<close>)
  qed
  note failure = recorded_failure [OF assms] recorded_after [OF s1 recorded_failure [OF assms(1) g1]]
  show ?thesis
    using failure conclude
    by (simp add: executeAttempt_def Let_def id split: option.split sum.split prod.split)
qed

end

section \<open>The file store\<close>

definition resultStored :: "attempt_identity \<Rightarrow> store \<Rightarrow> bool" where
  "resultStored identity s \<longleftrightarrow>
     (case map_of (st_results s) (ai_AttemptID identity) of None \<Rightarrow> False | Some r \<Rightarrow> rs_Identity r = identity)"

lemma StoreResult_stored:
  assumes "sound_store s" and "env_ok io" and "StoreResult io r s = (None, t)"
  shows "resultStored (rs_Identity r) t"
proof -
  obtain q where ready: "readyLocked s = None" and q: "storeResultLocked io q s = (None, t)" "rs_Identity q = rs_Identity r"
    using assms(3) by (auto simp: StoreResult_def Let_def split: option.splits)
  from storeResult_success [OF sound_inv [OF assms(1) ready] assms(2) q(1)] q(2)
  show ?thesis by (simp add: resultStored_def)
qed

interpretation file_execution:
  runtime_store_execution fileRuntimeStore sound_store store_reach unackedEvents resultStored
proof
  show "env_ok io \<Longrightarrow> store_reach s (snd (sto_AppendEvent fileRuntimeStore io i ty p s))" for io s i ty p
    using store_reach.call [OF store_reach.start, of io "OpAppendEvent i ty p" s] by (simp add: fileRuntimeStore_def)
  show "env_ok io \<Longrightarrow> store_reach s (snd (sto_StoreResult fileRuntimeStore io r s))" for io s r
    using store_reach.call [OF store_reach.start, of io "OpStoreResult r" s] by (simp add: fileRuntimeStore_def)
  show "sound_store s \<Longrightarrow> env_ok io \<Longrightarrow> sto_StoreResult fileRuntimeStore io r s = (None, t) \<Longrightarrow>
      resultStored (rs_Identity r) t" for s io r t
    using StoreResult_stored by (simp add: fileRuntimeStore_def)
qed

text \<open>
  C12. No outcome of an attempt is dropped: whatever the handler does (it returns a result or an
  error, panics, emits events, calls other agents), whatever the assignment holds and whatever the
  file system answers, when the execution is over the attempt no longer accepts events, the store
  has only been changed by its operations, and either the attempt was cancelled, or a fatal error
  was reported, or the result of the attempt is in the spool.
\<close>

theorem every_outcome_is_recorded:
  assumes "live_store (wk_store (as_worker st))" and "we_store (xe_worker xe) = fileRuntimeStore"
    and "\<forall>n. env_ok (we_io (xe_worker xe) n)"
    and "\<forall>n s. sound_store s \<longrightarrow> store_reach s (we_others (xe_worker xe) n s)"
    and "st' = executeAttempt xe a st"
  shows "as_finished st' \<and> store_reach (wk_store (as_worker st)) (wk_store (as_worker st'))
    \<and> ((\<exists>n. xe_canceled xe n) \<or> wk_fatal (as_worker st') \<noteq> wk_fatal (as_worker st)
       \<or> resultStored (at_identity a) (wk_store (as_worker st')))"
proof -
  have "file_execution.steady (xe_worker xe)" using assms(2-4) by (simp add: file_execution.steady_def)
  from file_execution.recorded_execution [OF this live_sound [OF assms(1)], of a] assms(5)
  show ?thesis by (auto simp: file_execution.recorded_def file_execution.advances_def)
qed

theorem every_outcome_is_recorded_witness:
  "let st' = executeAttempt panic_env sample_active \<lparr>as_worker = appended_worker, as_finished = False\<rparr>
   in as_finished st' \<and> store_reach appended_store (wk_store (as_worker st'))
      \<and> (wk_fatal (as_worker st') \<noteq> [] \<or> resultStored sample_attempt (wk_store (as_worker st')))"
proof -
  let ?st = "\<lparr>as_worker = appended_worker, as_finished = False\<rparr>"
  have "live_store (wk_store (as_worker ?st))" by (simp add: appended_worker_def appended_live)
  from every_outcome_is_recorded [OF this _ _ _ refl, of panic_env sample_active] show ?thesis
    by (simp add: panic_env_def cut_off_env_def sample_env store_reach.start appended_worker_def sample_active_def Let_def)
qed

end
