(* ===== verification/Runtime_Client.thy ===== *)
theory Runtime_Client
  imports Runtime_Messages
begin

text \<open>
  The HTTP client of the runtime protocol (\<^verbatim>\<open>Runtime\<close>, runtime_http.go and runtime_client.go): one
  definition per call, with its checks of the request and of the response. The HTTP exchange and
  the strict JSON decoders are parameters. The client keeps the attachment of its session; the
  calls it sends are recorded in order. A failure to read the body of a response counts as a
  failure of the exchange. Each call runs as one step: the lock of the attachment is
  held from the check of the attachment to the end of the exchange.
\<close>

section \<open>Messages of the client only\<close>

record claim_request =
  cq_RuntimeSessionID :: string
  cq_Capacity :: int
  cq_Inflight :: int

record confirm_message =
  cm_AttemptIdentity :: sdk_identity
  cm_AttemptNo :: int
  cm_LeaseExpiresAt :: time

record rejected_message =
  rj_AttemptIdentity :: sdk_identity
  rj_Outcome :: string
  rj_DispatchState :: string

record lease_renew =
  lw_AttemptIdentity :: sdk_identity
  lw_LastClientEventSeq :: int
  lw_Capacity :: int
  lw_Inflight :: int

record lease_renewed =
  lz_AttemptIdentity :: sdk_identity
  lz_LeaseExpiresAt :: time
  lz_PendingCommand :: "pending_command option"

record event_acknowledged =
  en_ClientEventID :: string
  en_ClientEventSeq :: int
  en_Sequence :: int
  en_Replayed :: bool

record commands_response =
  cp_Commands :: "pending_command list option"
  cp_DatabaseTime :: time

text \<open>The zero values of Go, which a response without a body leaves in place.\<close>

definition zeroSdkIdentity :: sdk_identity where
  "zeroSdkIdentity = \<lparr>sa_RunID = [], sa_AttemptID = [], sa_LeaseID = [], sa_FencingToken = 0, sa_NodeID = [], sa_AgentID = [],
     sa_WorkerID = [], sa_RuntimeSessionID = []\<rparr>"

definition zeroReady :: ready where
  "zeroReady = \<lparr>ry_CoreInstanceID = [], ry_AttachmentID = [], ry_Features = [], ry_OfferTTLSeconds = 0,
     ry_LeaseTTLSeconds = 0, ry_DatabaseTime = 0\<rparr>"

definition zeroDrain :: drain_payload where
  "zeroDrain = \<lparr>dr_DeadlineAt = 0, dr_ReasonCode = [], dr_Capacity = 0, dr_Inflight = 0\<rparr>"

definition zeroAssigned :: run_assigned where
  "zeroAssigned = \<lparr>ra_AttemptIdentity = zeroSdkIdentity, ra_OfferNo = 0, ra_OfferExpiresAt = 0, ra_AttemptDeadlineAt = 0,
     ra_RunDeadlineAt = 0, ra_Input = Some ''null'', ra_Metadata = Some ''null'', ra_NodeEnvelope = [], ra_AgentInvocationToken = []\<rparr>"

definition zeroConfirm :: confirm_message where
  "zeroConfirm = \<lparr>cm_AttemptIdentity = zeroSdkIdentity, cm_AttemptNo = 0, cm_LeaseExpiresAt = 0\<rparr>"

definition zeroRejected :: rejected_message where
  "zeroRejected = \<lparr>rj_AttemptIdentity = zeroSdkIdentity, rj_Outcome = [], rj_DispatchState = []\<rparr>"

definition zeroRenewed :: lease_renewed where
  "zeroRenewed = \<lparr>lz_AttemptIdentity = zeroSdkIdentity, lz_LeaseExpiresAt = 0, lz_PendingCommand = None\<rparr>"

definition zeroEventAck :: event_acknowledged where
  "zeroEventAck = \<lparr>en_ClientEventID = [], en_ClientEventSeq = 0, en_Sequence = 0, en_Replayed = False\<rparr>"

definition zeroResultAck :: result_ack where
  "zeroResultAck = \<lparr>rk_ResultID = [], rk_Classification = [], rk_RunStatus = [], rk_DispatchState = [], rk_Replayed = False,
     rk_NextAttemptAt = None\<rparr>"

definition zeroCommands :: commands_response where
  "zeroCommands = \<lparr>cp_Commands = None, cp_DatabaseTime = 0\<rparr>"

definition zeroCancellation :: cancellation_state where
  "zeroCancellation = \<lparr>cz_CancellationID = [], cz_CancelState = [], cz_UpdatedAt = 0, cz_ErrorCode = []\<rparr>"

section \<open>The exchange\<close>

datatype runtime_body =
    BodyNone | BodyHello hello | BodyDrain drain_payload | BodyClose session_close | BodyClaim claim_request
  | BodyAck sdk_identity | BodyReject assignment_reject | BodyRenew lease_renew | BodyEvent event_request
  | BodyResult result_payload | BodyResume resume_request | BodyCancelAck cancel_ack

record http_call =
  hc_Method :: string
  hc_Path :: string
  hc_Query :: "(string \<times> string) list"
  hc_Body :: runtime_body
  hc_Attachment :: "string option"
  hc_FallbackReason :: "string option"

text \<open>
  The parameters: the exchange, given the calls before (an error, or status and body of the
  response), the fallback reason in the context, and the decoders.
\<close>

record client_env =
  hv_do :: "http_call list \<Rightarrow> http_call \<Rightarrow> go_error + int \<times> bytes"
  hv_reason :: string
  hv_error :: "bytes \<Rightarrow> go_error + error_body"
  hv_ready :: "bytes \<Rightarrow> go_error + ready"
  hv_drain :: "bytes \<Rightarrow> go_error + drain_payload"
  hv_assigned :: "bytes \<Rightarrow> go_error + run_assigned"
  hv_confirm :: "bytes \<Rightarrow> go_error + confirm_message"
  hv_rejected :: "bytes \<Rightarrow> go_error + rejected_message"
  hv_renewed :: "bytes \<Rightarrow> go_error + lease_renewed"
  hv_eventAck :: "bytes \<Rightarrow> go_error + event_acknowledged"
  hv_resultAck :: "bytes \<Rightarrow> go_error + result_ack"
  hv_decisions :: "bytes \<Rightarrow> go_error + resume_accepted list"
  hv_commands :: "bytes \<Rightarrow> go_error + commands_response"
  hv_cancellation :: "bytes \<Rightarrow> go_error + cancellation_state"
  hv_command :: command_decoders

record client =
  cl_attachmentID :: string
  cl_calls :: "http_call list"

definition runtimeFallbackReasonFromContext :: "string \<Rightarrow> string" where
  "runtimeFallbackReasonFromContext reason =
     (if reason \<in> {''explicit'', ''websocket_unavailable'', ''policy_forced'', ''recovery''} then reason else [])"

text \<open>\<^verbatim>\<open>url.PathEscape\<close>.\<close>

definition pathByte :: "char \<Rightarrow> bool" where
  "pathByte c \<longleftrightarrow> smallByte c \<or> upperByte c \<or> digitByte c \<or> c \<in> set ''-_.~$&+=:@''"

definition upperHexChar :: "nat \<Rightarrow> char" where
  "upperHexChar n = ''0123456789ABCDEF'' ! n"

definition pathEscape :: "string \<Rightarrow> string" where
  "pathEscape s = concat (map (\<lambda>c. if pathByte c then [c]
     else [CHR ''%'', upperHexChar (code c div 16), upperHexChar (code c mod 16)]) s)"

definition runtimeRunPath :: "string \<Rightarrow> string \<Rightarrow> string" where
  "runtimeRunPath runID action = ''/agent-runtime/runs/'' @ pathEscape runID @ ''/'' @ action"

definition sessionsPath :: string where "sessionsPath = ''/agent-runtime/sessions''"

definition sessionPath :: "string \<Rightarrow> string \<Rightarrow> string" where
  "sessionPath sessionID action = ''/agent-runtime/sessions/'' @ pathEscape sessionID @ ''/'' @ action"

definition parseRuntimeError :: "client_env \<Rightarrow> int \<Rightarrow> bytes \<Rightarrow> go_error" where
  "parseRuntimeError hv status raw =
     (if length raw > runtimeMaxMessageBytes \<or> trimSpace raw = []
      then TextError ''openlinker: runtime error response is empty or too large''
      else case decodeRuntimeResponse (hv_error hv) raw of
        Inl e \<Rightarrow> WrapError e ''openlinker: decode runtime error response''
      | Inr body \<Rightarrow>
          (case validateRuntimeErrorBody body of
             Some e \<Rightarrow> e
           | None \<Rightarrow> ApiError status (eb_Code body) (eb_Message body) (Some (eb_MissingEventRanges body))))"

text \<open>\<open>out\<close> is the decoder of the response with the zero value of its type, \<^term>\<open>None\<close> for a nil target.\<close>

definition doRuntimeWithAttachment ::
  "client_env \<Rightarrow> string \<Rightarrow> string \<Rightarrow> (string \<times> string) list \<Rightarrow> runtime_body
     \<Rightarrow> ((bytes \<Rightarrow> go_error + 'a) \<times> 'a) option \<Rightarrow> string \<Rightarrow> client \<Rightarrow> (go_error + int \<times> 'a option) \<times> client" where
  "doRuntimeWithAttachment hv meth path query body out attachmentID c =
     (if path \<noteq> sessionsPath \<and> \<not> runtimeUUID attachmentID
      then (Inl (TextError ''openlinker: runtime attachment is not established''), c)
      else
        let reason = runtimeFallbackReasonFromContext (hv_reason hv);
            call = \<lparr>hc_Method = meth, hc_Path = path, hc_Query = query, hc_Body = body,
              hc_Attachment = (if path \<noteq> sessionsPath then Some attachmentID else None),
              hc_FallbackReason = (if path = sessionsPath \<and> reason \<noteq> [] then Some reason else None)\<rparr>;
            c1 = c\<lparr>cl_calls := cl_calls c @ [call]\<rparr>
        in case hv_do hv (cl_calls c) call of
             Inl e \<Rightarrow> (Inl e, c1)
           | Inr (status, raw) \<Rightarrow>
               if status < 200 \<or> status \<ge> 300 then (Inl (parseRuntimeError hv status raw), c1)
               else if status = 204 then (Inr (status, map_option snd out), c1)
               else (case out of
                       None \<Rightarrow> (Inl (TextError ''openlinker: unexpected runtime response body''), c1)
                     | Some (decode, z) \<Rightarrow>
                         (case decodeRuntimeResponse decode raw of
                            Inl e \<Rightarrow> (Inl (WrapError e ''openlinker: decode runtime response''), c1)
                          | Inr v \<Rightarrow> (Inr (status, Some v), c1))))"

text \<open>\<^verbatim>\<open>doRuntime\<close> with a target: status and value.\<close>

definition doRuntime ::
  "client_env \<Rightarrow> string \<Rightarrow> string \<Rightarrow> (string \<times> string) list \<Rightarrow> runtime_body \<Rightarrow> (bytes \<Rightarrow> go_error + 'a) \<Rightarrow> 'a
     \<Rightarrow> client \<Rightarrow> (go_error + int \<times> 'a) \<times> client" where
  "doRuntime hv meth path query body decode z c =
     (case doRuntimeWithAttachment hv meth path query body (Some (decode, z)) (cl_attachmentID c) c of
        (Inl e, c1) \<Rightarrow> (Inl e, c1)
      | (Inr (status, v), c1) \<Rightarrow> (Inr (status, case v of None \<Rightarrow> z | Some x \<Rightarrow> x), c1))"

text \<open>A call whose result is the decoded value when it passes a check.\<close>

definition checked :: "(go_error + int \<times> 'a) \<times> client \<Rightarrow> ('a \<Rightarrow> go_error option) \<Rightarrow> (go_error + 'a) \<times> client" where
  "checked r check =
     (case r of
        (Inl e, c) \<Rightarrow> (Inl e, c)
      | (Inr (status, v), c) \<Rightarrow> (case check v of Some e \<Rightarrow> (Inl e, c) | None \<Rightarrow> (Inr v, c)))"

section \<open>The session\<close>

definition createRuntimeSession :: "client_env \<Rightarrow> hello \<Rightarrow> client \<Rightarrow> (go_error + ready) \<times> client" where
  "createRuntimeSession hv h c =
     (case validateRuntimeHello h of
        Some e \<Rightarrow> (Inl e, c)
      | None \<Rightarrow>
      (case doRuntimeWithAttachment hv ''POST'' sessionsPath [] (BodyHello h) (Some (hv_ready hv, zeroReady)) [] c of
         (Inl e, c1) \<Rightarrow> (Inl e, c1)
       | (Inr (status, v), c1) \<Rightarrow>
           let r = (case v of None \<Rightarrow> zeroReady | Some x \<Rightarrow> x) in
           (case validateRuntimeReady r of
              Some e \<Rightarrow> (Inl e, c1)
            | None \<Rightarrow> (Inr r, c1\<lparr>cl_attachmentID := ry_AttachmentID r\<rparr>))))"

definition heartbeatRuntimeSession :: "client_env \<Rightarrow> hello \<Rightarrow> client \<Rightarrow> (go_error + ready) \<times> client" where
  "heartbeatRuntimeSession hv h c =
     (case validateRuntimeHello h of
        Some e \<Rightarrow> (Inl e, c)
      | None \<Rightarrow>
      if \<not> runtimeUUID (cl_attachmentID c) then (Inl (TextError ''openlinker: runtime attachment is not established''), c)
      else checked (doRuntime hv ''POST'' (sessionPath (hl_RuntimeSessionID h) ''heartbeat'') [] (BodyHello h) (hv_ready hv) zeroReady c)
        (\<lambda>r. case validateRuntimeReady r of
               Some e \<Rightarrow> Some e
             | None \<Rightarrow> if ry_AttachmentID r \<noteq> cl_attachmentID c
                       then invalidMessage ''runtime heartbeat attachment mismatch'' else None))"

definition drainRuntimeSession :: "client_env \<Rightarrow> string \<Rightarrow> drain_payload \<Rightarrow> client \<Rightarrow> (go_error + drain_payload) \<times> client" where
  "drainRuntimeSession hv sessionID request c =
     (if \<not> runtimeUUID sessionID then (Inl (TextError ''openlinker: invalid runtime drain Session''), c)
      else case validateRuntimeDrain request of
        Some e \<Rightarrow> (Inl e, c)
      | None \<Rightarrow>
          checked (doRuntime hv ''POST'' (sessionPath sessionID ''drain'') [] (BodyDrain request) (hv_drain hv) zeroDrain c)
            (\<lambda>response. case validateRuntimeDrain response of
               Some e \<Rightarrow> Some (WrapError e ''openlinker: invalid runtime drain acknowledgement'') | None \<Rightarrow> None))"

definition closeRuntimeSession :: "client_env \<Rightarrow> session_close \<Rightarrow> client \<Rightarrow> go_error option \<times> client" where
  "closeRuntimeSession hv request c =
     (case validateRuntimeSessionClose request of
        Some e \<Rightarrow> (Some e, c)
      | None \<Rightarrow>
      if \<not> runtimeUUID (cl_attachmentID c) then (Some (TextError ''openlinker: runtime attachment is not established''), c)
      else case doRuntimeWithAttachment hv ''POST'' (sessionPath (sc_RuntimeSessionID request) ''close'') [] (BodyClose request)
                  (None :: ((bytes \<Rightarrow> go_error + unit) \<times> unit) option) (cl_attachmentID c) c of
        (Inl e, c1) \<Rightarrow> (Some e, c1)
      | (Inr (status, v), c1) \<Rightarrow>
          if status \<noteq> 204 then (Some (TextError ''openlinker: runtime close did not return 204''), c1)
          else (None, c1\<lparr>cl_attachmentID := []\<rparr>))"

section \<open>Assignments and leases\<close>

definition runtimeMaxPullWaitSeconds :: int where "runtimeMaxPullWaitSeconds = 30"

definition claimRuntimeRun :: "client_env \<Rightarrow> int \<Rightarrow> claim_request \<Rightarrow> client \<Rightarrow> (go_error + run_assigned option) \<times> client" where
  "claimRuntimeRun hv waitSeconds request c =
     (if waitSeconds < 0 \<or> waitSeconds > runtimeMaxPullWaitSeconds \<or> \<not> runtimeUUID (cq_RuntimeSessionID request)
         \<or> \<not> runtimeCapacity (cq_Capacity request) (cq_Inflight request)
      then (Inl (TextError ''openlinker: invalid runtime claim''), c)
      else case doRuntime hv ''POST'' ''/agent-runtime/runs/claim'' [(''wait'', formatInt waitSeconds)] (BodyClaim request)
                  (hv_assigned hv) zeroAssigned c of
        (Inl e, c1) \<Rightarrow> (Inl e, c1)
      | (Inr (status, assigned), c1) \<Rightarrow>
          if status = 204 then (Inr None, c1)
          else case validateRuntimeAssignment assigned of
            Some e \<Rightarrow> (Inl e, c1)
          | None \<Rightarrow>
              if sa_RuntimeSessionID (ra_AttemptIdentity assigned) \<noteq> cq_RuntimeSessionID request
              then (Inl (TextError ''openlinker: runtime claim returned an assignment for another session''), c1)
              else (Inr (Some assigned), c1))"

definition ackRuntimeAssignment :: "client_env \<Rightarrow> sdk_identity \<Rightarrow> client \<Rightarrow> (go_error + confirm_message) \<times> client" where
  "ackRuntimeAssignment hv request c =
     (case validateRuntimeAttemptIdentity request of
        Some e \<Rightarrow> (Inl e, c)
      | None \<Rightarrow>
          checked (doRuntime hv ''POST'' (runtimeRunPath (sa_RunID request) ''assignment-ack'') [] (BodyAck request)
                    (hv_confirm hv) zeroConfirm c)
            (\<lambda>confirmed. if cm_AttemptIdentity confirmed \<noteq> request \<or> cm_AttemptNo confirmed < 1
                            \<or> isZeroTime (cm_LeaseExpiresAt confirmed)
                         then invalidMessage ''invalid runtime assignment confirmation'' else None))"

text \<open>Every value of \<^typ>\<open>reject_reason\<close> passes \<^verbatim>\<open>runtimeRejectReason\<close>.\<close>

definition rejectRuntimeAssignment :: "client_env \<Rightarrow> assignment_reject \<Rightarrow> client \<Rightarrow> (go_error + rejected_message) \<times> client" where
  "rejectRuntimeAssignment hv request c =
     (if validateRuntimeAttemptIdentity (aj_AttemptIdentity request) \<noteq> None
         \<or> \<not> runtimeCapacity (aj_Capacity request) (aj_Inflight request)
      then (Inl (TextError ''openlinker: invalid runtime assignment rejection''), c)
      else checked (doRuntime hv ''POST'' (runtimeRunPath (sa_RunID (aj_AttemptIdentity request)) ''assignment-reject'') []
                     (BodyReject request) (hv_rejected hv) zeroRejected c)
        (\<lambda>rejected. if rj_AttemptIdentity rejected \<noteq> aj_AttemptIdentity request
                       \<or> \<not> runtimeAssignmentRejectOutcome (rj_Outcome rejected) \<or> \<not> runtimeDispatchState (rj_DispatchState rejected)
                    then invalidMessage ''invalid runtime assignment rejection response'' else None))"

definition renewRuntimeLease :: "client_env \<Rightarrow> lease_renew \<Rightarrow> client \<Rightarrow> (go_error + lease_renewed) \<times> client" where
  "renewRuntimeLease hv request c =
     (if validateRuntimeAttemptIdentity (lw_AttemptIdentity request) \<noteq> None \<or> lw_LastClientEventSeq request < 0
         \<or> \<not> runtimeCapacity (lw_Capacity request) (lw_Inflight request)
      then (Inl (TextError ''openlinker: invalid runtime lease renewal''), c)
      else checked (doRuntime hv ''POST'' (runtimeRunPath (sa_RunID (lw_AttemptIdentity request)) ''lease-renew'') []
                     (BodyRenew request) (hv_renewed hv) zeroRenewed c)
        (\<lambda>renewed. if lz_AttemptIdentity renewed \<noteq> lw_AttemptIdentity request \<or> isZeroTime (lz_LeaseExpiresAt renewed)
                   then invalidMessage ''invalid runtime lease response''
                   else case lz_PendingCommand renewed of
                     None \<Rightarrow> None
                   | Some command \<Rightarrow>
                       (case decodeRuntimePendingCommand (hv_command hv) command of
                          Inl e \<Rightarrow> Some (WrapError e ''openlinker: invalid runtime pending command'')
                        | Inr d \<Rightarrow> None)))"

section \<open>Events, results, resumption and commands\<close>

definition appendRuntimeEvent :: "client_env \<Rightarrow> event_request \<Rightarrow> client \<Rightarrow> (go_error + event_acknowledged) \<times> client" where
  "appendRuntimeEvent hv request c =
     (case validateRuntimeEvent request of
        Some e \<Rightarrow> (Inl e, c)
      | None \<Rightarrow>
          checked (doRuntime hv ''POST'' (runtimeRunPath (sa_RunID (er_AttemptIdentity request)) ''events'') []
                    (BodyEvent request) (hv_eventAck hv) zeroEventAck c)
            (\<lambda>ack. if en_ClientEventID ack \<noteq> er_ClientEventID request \<or> en_ClientEventSeq ack \<noteq> er_ClientEventSeq request
                      \<or> en_Sequence ack < 1
                   then invalidMessage ''runtime event acknowledgement mismatch'' else None))"

definition finalizeRuntimeResult :: "client_env \<Rightarrow> result_payload \<Rightarrow> client \<Rightarrow> (go_error + result_ack) \<times> client" where
  "finalizeRuntimeResult hv request c =
     (case validateRuntimeResult request of
        Some e \<Rightarrow> (Inl e, c)
      | None \<Rightarrow>
          checked (doRuntime hv ''POST'' (runtimeRunPath (sa_RunID (rp_AttemptIdentity request)) ''result'') []
                    (BodyResult request) (hv_resultAck hv) zeroResultAck c)
            (\<lambda>ack. if rk_ResultID ack \<noteq> rp_ResultID request
                   then invalidMessage ''runtime result acknowledgement mismatch'' else validateRuntimeResultAck ack))"

text \<open>The loop over the decisions, in step with the attempts.\<close>

fun checkDecisions :: "resume_attempt list \<Rightarrow> resume_accepted list \<Rightarrow> go_error option" where
  "checkDecisions (attempt # attempts) (decision # decisions) =
     (if rd_AttemptIdentity decision \<noteq> rt_AttemptIdentity attempt
      then invalidMessage ''runtime resume response order mismatch''
      else case validateRuntimeResumeDecision decision of
        Some e \<Rightarrow> Some e | None \<Rightarrow> checkDecisions attempts decisions)"
| "checkDecisions attempts decisions = None"

definition resumeRuntimeRuns :: "client_env \<Rightarrow> resume_request \<Rightarrow> client \<Rightarrow> (go_error + resume_accepted list) \<times> client" where
  "resumeRuntimeRuns hv request c =
     (case validateRuntimeResume request of
        Some e \<Rightarrow> (Inl e, c)
      | None \<Rightarrow>
          checked (doRuntime hv ''POST'' ''/agent-runtime/runs/resume'' [] (BodyResume request) (hv_decisions hv) [] c)
            (\<lambda>decisions. if length decisions \<noteq> length (rq_Attempts request)
                         then invalidMessage ''runtime resume response count mismatch''
                         else checkDecisions (rq_Attempts request) decisions))"

fun checkCommands :: "command_decoders \<Rightarrow> pending_command list \<Rightarrow> go_error option" where
  "checkCommands cd [] = None"
| "checkCommands cd (command # rest) =
     (case decodeRuntimePendingCommand cd command of
        Inl e \<Rightarrow> Some (WrapError e ''openlinker: invalid runtime command'') | Inr d \<Rightarrow> checkCommands cd rest)"

definition pollRuntimeCommands :: "client_env \<Rightarrow> string \<Rightarrow> int \<Rightarrow> client \<Rightarrow> (go_error + commands_response) \<times> client" where
  "pollRuntimeCommands hv sessionID waitSeconds c =
     (if \<not> runtimeUUID sessionID \<or> waitSeconds < 0 \<or> waitSeconds > runtimeMaxPullWaitSeconds
      then (Inl (TextError ''openlinker: invalid runtime command poll''), c)
      else checked (doRuntime hv ''GET'' ''/agent-runtime/commands''
                     [(''runtime_session_id'', sessionID), (''wait'', formatInt waitSeconds)] BodyNone (hv_commands hv) zeroCommands c)
        (\<lambda>response. case cp_Commands response of
             None \<Rightarrow> invalidMessage ''invalid runtime commands response''
           | Some commands \<Rightarrow>
               if isZeroTime (cp_DatabaseTime response) then invalidMessage ''invalid runtime commands response''
               else checkCommands (hv_command hv) commands))"

definition ackRuntimeCancel :: "client_env \<Rightarrow> cancel_ack \<Rightarrow> client \<Rightarrow> (go_error + cancellation_state) \<times> client" where
  "ackRuntimeCancel hv request c =
     (case validateRuntimeCancelAck request of
        Some e \<Rightarrow> (Inl e, c)
      | None \<Rightarrow>
          checked (doRuntime hv ''POST'' (runtimeRunPath (sa_RunID (ck_AttemptIdentity request)) ''cancel-ack'') []
                    (BodyCancelAck request) (hv_cancellation hv) zeroCancellation c)
            (\<lambda>st. if cz_CancellationID st \<noteq> ck_CancellationID request
                  then invalidMessage ''runtime cancellation acknowledgement mismatch''
                  else validateRuntimeCancellationState st))"

section \<open>The client as a transition system\<close>

datatype client_op =
    OpCreateSession hello | OpHeartbeatSession hello | OpDrainSession string drain_payload | OpCloseSession session_close
  | OpClaimRun int claim_request | OpAckAssignment sdk_identity | OpRejectAssignment assignment_reject | OpRenewLease lease_renew
  | OpSendEvent event_request | OpFinalize result_payload | OpResumeRuns resume_request | OpPoll string int
  | OpAckCancel cancel_ack

fun run_client :: "client_env \<Rightarrow> client_op \<Rightarrow> client \<Rightarrow> client" where
  "run_client hv (OpCreateSession h) c = snd (createRuntimeSession hv h c)"
| "run_client hv (OpHeartbeatSession h) c = snd (heartbeatRuntimeSession hv h c)"
| "run_client hv (OpDrainSession i r) c = snd (drainRuntimeSession hv i r c)"
| "run_client hv (OpCloseSession r) c = snd (closeRuntimeSession hv r c)"
| "run_client hv (OpClaimRun w r) c = snd (claimRuntimeRun hv w r c)"
| "run_client hv (OpAckAssignment r) c = snd (ackRuntimeAssignment hv r c)"
| "run_client hv (OpRejectAssignment r) c = snd (rejectRuntimeAssignment hv r c)"
| "run_client hv (OpRenewLease r) c = snd (renewRuntimeLease hv r c)"
| "run_client hv (OpSendEvent r) c = snd (appendRuntimeEvent hv r c)"
| "run_client hv (OpFinalize r) c = snd (finalizeRuntimeResult hv r c)"
| "run_client hv (OpResumeRuns r) c = snd (resumeRuntimeRuns hv r c)"
| "run_client hv (OpPoll i w) c = snd (pollRuntimeCommands hv i w c)"
| "run_client hv (OpAckCancel r) c = snd (ackRuntimeCancel hv r c)"

definition newClient :: client where "newClient = \<lparr>cl_attachmentID = [], cl_calls = []\<rparr>"

inductive client_reach :: "client_env \<Rightarrow> client \<Rightarrow> bool" for hv where
  new: "client_reach hv newClient"
| call: "client_reach hv c \<Longrightarrow> client_reach hv (run_client hv op c)"

text \<open>The platform answered a session creation among these calls with this attachment.\<close>

definition issued :: "client_env \<Rightarrow> http_call list \<Rightarrow> string \<Rightarrow> bool" where
  "issued hv calls attachment \<longleftrightarrow>
     (\<exists>pre call post status raw r. calls = pre @ call # post \<and> hc_Path call = sessionsPath
        \<and> hv_do hv pre call = Inr (status, raw) \<and> hv_ready hv raw = Inr r \<and> validateRuntimeReady r = None
        \<and> ry_AttachmentID r = attachment)"

definition requestValid :: "runtime_body \<Rightarrow> bool" where
  "requestValid body =
     (case body of
        BodyNone \<Rightarrow> True
      | BodyHello h \<Rightarrow> validateRuntimeHello h = None
      | BodyDrain r \<Rightarrow> validateRuntimeDrain r = None
      | BodyClose r \<Rightarrow> validateRuntimeSessionClose r = None
      | BodyClaim r \<Rightarrow> runtimeUUID (cq_RuntimeSessionID r) \<and> runtimeCapacity (cq_Capacity r) (cq_Inflight r)
      | BodyAck i \<Rightarrow> validateRuntimeAttemptIdentity i = None
      | BodyReject r \<Rightarrow> validateRuntimeAttemptIdentity (aj_AttemptIdentity r) = None \<and> runtimeCapacity (aj_Capacity r) (aj_Inflight r)
      | BodyRenew r \<Rightarrow> validateRuntimeAttemptIdentity (lw_AttemptIdentity r) = None \<and> 0 \<le> lw_LastClientEventSeq r
          \<and> runtimeCapacity (lw_Capacity r) (lw_Inflight r)
      | BodyEvent r \<Rightarrow> validateRuntimeEvent r = None
      | BodyResult r \<Rightarrow> validateRuntimeResult r = None
      | BodyResume r \<Rightarrow> validateRuntimeResume r = None
      | BodyCancelAck r \<Rightarrow> validateRuntimeCancelAck r = None)"

text \<open>What holds of every call that is sent, given the calls before it.\<close>

definition sentOk :: "client_env \<Rightarrow> http_call list \<Rightarrow> http_call \<Rightarrow> bool" where
  "sentOk hv pre call \<longleftrightarrow> requestValid (hc_Body call)
     \<and> (case hc_Attachment call of
          None \<Rightarrow> hc_Path call = sessionsPath
        | Some attachment \<Rightarrow> hc_Path call \<noteq> sessionsPath \<and> hc_FallbackReason call = None
            \<and> runtimeUUID attachment \<and> issued hv pre attachment)"

definition client_inv :: "client_env \<Rightarrow> client \<Rightarrow> bool" where
  "client_inv hv c \<longleftrightarrow> (cl_attachmentID c = [] \<or> issued hv (cl_calls c) (cl_attachmentID c))
     \<and> (\<forall>i < length (cl_calls c). sentOk hv (take i (cl_calls c)) (cl_calls c ! i))"

lemma not_uuid_nil: "\<not> runtimeUUID []"
  by (simp add: runtimeUUID_def)

lemma other_paths:
  "sessionPath i a \<noteq> sessionsPath" "runtimeRunPath i a \<noteq> sessionsPath"
  "''/agent-runtime/runs/claim'' \<noteq> sessionsPath" "''/agent-runtime/runs/resume'' \<noteq> sessionsPath"
  "''/agent-runtime/commands'' \<noteq> sessionsPath"
  by (simp_all add: sessionPath_def runtimeRunPath_def sessionsPath_def)

text \<open>One call: nothing is sent, or one request with this body to this path.\<close>

definition sends :: "client_env \<Rightarrow> string \<Rightarrow> runtime_body \<Rightarrow> client \<Rightarrow> client \<Rightarrow> bool" where
  "sends hv path body c c' \<longleftrightarrow> cl_attachmentID c' = cl_attachmentID c
     \<and> (cl_calls c' = cl_calls c \<or> (\<exists>call. cl_calls c' = cl_calls c @ [call] \<and> hc_Path call = path \<and> hc_Body call = body
          \<and> hc_Attachment call = Some (cl_attachmentID c) \<and> hc_FallbackReason call = None \<and> runtimeUUID (cl_attachmentID c)))"

lemma do_sends:
  assumes "path \<noteq> sessionsPath"
  shows "sends hv path body c (snd (doRuntimeWithAttachment hv meth path query body out (cl_attachmentID c) c))"
    and "sends hv path body c (snd (doRuntime hv meth path query body decode z c))"
    and "sends hv path body c (snd (checked (doRuntime hv meth path query body decode z c) check))"
proof -
  have w: "sends hv path body c (snd (doRuntimeWithAttachment hv meth path query body out (cl_attachmentID c) c))" for out :: "((bytes \<Rightarrow> go_error + 'x) \<times> 'x) option"
    using assms by (auto simp: doRuntimeWithAttachment_def sends_def Let_def split: sum.splits option.splits prod.splits)
  show "sends hv path body c (snd (doRuntimeWithAttachment hv meth path query body out (cl_attachmentID c) c))" by (rule w)
  have d: "snd (doRuntime hv meth path query body decode z c)
      = snd (doRuntimeWithAttachment hv meth path query body (Some (decode, z)) (cl_attachmentID c) c)"
    by (simp add: doRuntime_def split: sum.splits prod.splits)
  have "snd (checked r check) = snd r" for r by (simp add: checked_def split: sum.splits prod.splits option.splits)
  with d w show "sends hv path body c (snd (doRuntime hv meth path query body decode z c))"
    "sends hv path body c (snd (checked (doRuntime hv meth path query body decode z c) check))" by simp_all
qed

lemma issued_append: "issued hv calls a \<Longrightarrow> issued hv (calls @ more_calls) a"
  unfolding issued_def by (metis append.assoc append_Cons)

lemma sends_inv:
  assumes "client_inv hv c" and "sends hv path body c c'" and "path \<noteq> sessionsPath" and "requestValid body"
  shows "client_inv hv c'"
  using assms(2)
  unfolding sends_def
proof (elim conjE disjE exE)
  assume "cl_attachmentID c' = cl_attachmentID c" "cl_calls c' = cl_calls c"
  with assms(1) show ?thesis by (simp add: client_inv_def)
next
  fix call
  assume same: "cl_attachmentID c' = cl_attachmentID c" and calls: "cl_calls c' = cl_calls c @ [call]"
    and call: "hc_Path call = path" "hc_Body call = body" "hc_Attachment call = Some (cl_attachmentID c)"
      "hc_FallbackReason call = None" "runtimeUUID (cl_attachmentID c)"
  have iss: "issued hv (cl_calls c) (cl_attachmentID c)" using assms(1) call(5) not_uuid_nil by (auto simp: client_inv_def)
  then have "sentOk hv (cl_calls c) call" using call assms(3,4) by (simp add: sentOk_def)
  with assms(1) iss issued_append [OF iss, of "[call]"] show ?thesis
    by (auto simp: client_inv_def same calls nth_append less_Suc_eq)
qed

lemma create_inv:
  assumes "client_inv hv c"
  shows "client_inv hv (snd (createRuntimeSession hv h c))"
proof (cases "validateRuntimeHello h")
  case (Some e)
  with assms show ?thesis by (simp add: createRuntimeSession_def)
next
  case None
  let ?reason = "runtimeFallbackReasonFromContext (hv_reason hv)"
  define call where "call = \<lparr>hc_Method = ''POST'', hc_Path = sessionsPath, hc_Query = [], hc_Body = BodyHello h,
    hc_Attachment = None, hc_FallbackReason = (if ?reason \<noteq> [] then Some ?reason else None)\<rparr>"
  let ?c1 = "c\<lparr>cl_calls := cl_calls c @ [call]\<rparr>"
  have sent: "sentOk hv (cl_calls c) call" using None by (simp add: sentOk_def call_def requestValid_def)
  have inv1: "client_inv hv (?c1\<lparr>cl_attachmentID := a\<rparr>)" if "a = cl_attachmentID c \<or> issued hv (cl_calls c @ [call]) a" for a
    using assms sent that issued_append [of hv "cl_calls c" _ "[call]"] by (auto simp: client_inv_def nth_append less_Suc_eq)
  have new: "issued hv (cl_calls c @ [call]) (ry_AttachmentID r)"
    if "hv_do hv (cl_calls c) call = Inr (status, raw)" "hv_ready hv raw = Inr r" "validateRuntimeReady r = None" for status raw r
    using that unfolding issued_def by (intro exI [of _ "cl_calls c"]) (auto simp: call_def)
  have zero: "validateRuntimeReady zeroReady \<noteq> None"
    by (simp add: validateRuntimeReady_def zeroReady_def invalidMessage_def not_uuid_nil)
  have do_eq: "doRuntimeWithAttachment hv ''POST'' sessionsPath [] (BodyHello h) (Some (hv_ready hv, zeroReady)) [] c =
      (case hv_do hv (cl_calls c) call of
         Inl e \<Rightarrow> (Inl e, ?c1)
       | Inr (status, raw) \<Rightarrow>
           if status < 200 \<or> status \<ge> 300 then (Inl (parseRuntimeError hv status raw), ?c1)
           else if status = 204 then (Inr (status, Some zeroReady), ?c1)
           else (case decodeRuntimeResponse (hv_ready hv) raw of
                   Inl e \<Rightarrow> (Inl (WrapError e ''openlinker: decode runtime response''), ?c1)
                 | Inr v \<Rightarrow> (Inr (status, Some v), ?c1)))"
    by (auto simp: doRuntimeWithAttachment_def Let_def call_def split: sum.splits)
  have "snd (createRuntimeSession hv h c) = ?c1
      \<or> (\<exists>status raw r. hv_do hv (cl_calls c) call = Inr (status, raw) \<and> hv_ready hv raw = Inr r
           \<and> validateRuntimeReady r = None \<and> snd (createRuntimeSession hv h c) = ?c1\<lparr>cl_attachmentID := ry_AttachmentID r\<rparr>)"
    using None zero unfolding createRuntimeSession_def do_eq
    by (auto simp: decodeRuntimeResponse_def Let_def
        split: sum.splits option.splits prod.splits if_splits)
  with inv1 [of "cl_attachmentID c"] inv1 new show ?thesis by auto
qed

lemma close_inv:
  assumes "client_inv hv c"
  shows "client_inv hv (snd (closeRuntimeSession hv r c))"
proof -
  let ?p = "sessionPath (sc_RuntimeSessionID r) ''close''"
  let ?c1 = "snd (doRuntimeWithAttachment hv ''POST'' ?p [] (BodyClose r) (None :: ((bytes \<Rightarrow> go_error + unit) \<times> unit) option)
      (cl_attachmentID c) c)"
  have "client_inv hv ?c1" if "validateRuntimeSessionClose r = None"
    by (rule sends_inv [OF assms do_sends(1) [OF other_paths(1)] other_paths(1)]) (simp add: requestValid_def that)
  moreover have "client_inv hv (d\<lparr>cl_attachmentID := []\<rparr>)" if "client_inv hv d" for d using that by (simp add: client_inv_def)
  ultimately show ?thesis using assms
    by (auto simp: closeRuntimeSession_def split: option.splits sum.splits prod.splits)
qed

lemma run_client_inv:
  assumes "client_inv hv c"
  shows "client_inv hv (run_client hv op c)"
proof -
  note step = sends_inv [OF assms do_sends(3)] and plain = sends_inv [OF assms do_sends(2)]
  show ?thesis
  proof (cases op)
    case (OpClaimRun w r)
    have "snd (claimRuntimeRun hv w r c) = c \<or> requestValid (BodyClaim r)
        \<and> snd (claimRuntimeRun hv w r c) = snd (doRuntime hv ''POST'' ''/agent-runtime/runs/claim'' [(''wait'', formatInt w)] (BodyClaim r)
                  (hv_assigned hv) zeroAssigned c)"
      by (auto simp: claimRuntimeRun_def requestValid_def split: sum.splits option.splits prod.splits)
    with OpClaimRun assms plain [OF other_paths(3,3)] show ?thesis by auto
  qed (auto simp: heartbeatRuntimeSession_def drainRuntimeSession_def ackRuntimeAssignment_def rejectRuntimeAssignment_def
      renewRuntimeLease_def appendRuntimeEvent_def finalizeRuntimeResult_def resumeRuntimeRuns_def pollRuntimeCommands_def
      ackRuntimeCancel_def requestValid_def other_paths not_less
      intro!: assms create_inv close_inv step split: option.splits)
qed


section \<open>A session\<close>

definition sample_hello :: hello where
  "sample_hello = \<lparr>hl_NodeID = ''11111111-1111-4111-8111-111111111114'', hl_AgentID = ''11111111-1111-4111-8111-111111111115'',
     hl_WorkerID = ''worker'', hl_RuntimeSessionID = ''11111111-1111-4111-8111-111111111116'', hl_SessionEpoch = 1,
     hl_NodeVersion = ''1.0'', hl_Capacity = 4, hl_Features = runtimeRequiredFeatures, hl_ContractDigest = runtimeContractDigest\<rparr>"

definition sample_ready :: ready where
  "sample_ready = \<lparr>ry_CoreInstanceID = ''11111111-1111-4111-8111-111111111117'',
     ry_AttachmentID = ''11111111-1111-4111-8111-111111111118'', ry_Features = runtimeRequiredFeatures, ry_OfferTTLSeconds = 30,
     ry_LeaseTTLSeconds = 60, ry_DatabaseTime = 1\<rparr>"

definition sample_client_env :: client_env where
  "sample_client_env = (let e = TextError ''unexpected'' in
     \<lparr>hv_do = (\<lambda>cs call. Inr (200, ''{}'')), hv_reason = [], hv_error = (\<lambda>b. Inl e), hv_ready = (\<lambda>b. Inr sample_ready),
      hv_drain = (\<lambda>b. Inl e), hv_assigned = (\<lambda>b. Inl e), hv_confirm = (\<lambda>b. Inl e), hv_rejected = (\<lambda>b. Inl e),
      hv_renewed = (\<lambda>b. Inl e), hv_eventAck = (\<lambda>b. Inl e), hv_resultAck = (\<lambda>b. Inl e), hv_decisions = (\<lambda>b. Inl e),
      hv_commands = (\<lambda>b. Inl e), hv_cancellation = (\<lambda>b. Inl e),
      hv_command = \<lparr>cd_cancel = (\<lambda>b. Inl e), cd_drain = (\<lambda>b. Inl e), cd_revoke = (\<lambda>b. Inl e)\<rparr>\<rparr>)"

lemma sample_session: "validateRuntimeHello sample_hello = None" "validateRuntimeReady sample_ready = None"
  "runtimeUUID ''11111111-1111-4111-8111-111111111118''" "runtimeUUID ''11111111-1111-4111-8111-111111111116''"
  by code_simp+


end
