(* ===== verification/Worker_Cancel.thy ===== *)
theory Worker_Cancel
  imports Worker_Start Runtime_Client Transport_Policy
begin

text \<open>
  Commands of the platform for running attempts (runtime_worker_cancel.go): cancellation with its
  acknowledgements, revocation of a lease, draining, the command loop and the renewal of leases.
  Commands of extensions are left out. Loops that may not end are partial functions. The time at
  which something happens is given by the acknowledgements sent or the store calls made before.
\<close>

section \<open>State\<close>

text \<open>How the wait for the handler ends.\<close>

datatype stop_wait = HandlerDone | StopTimerFired | WorkerContextDone

record 's cancel_env =
  ca_node :: "'s node_env"
  ca_decoders :: command_decoders
  ca_ack :: "cancel_ack list \<Rightarrow> cancel_ack \<Rightarrow> go_error option"
  ca_clock :: "cancel_ack list \<Rightarrow> time"
  ca_waitRetry :: "cancel_ack list \<Rightarrow> nat \<Rightarrow> go_error option"
  ca_stopWait :: "string \<Rightarrow> time \<Rightarrow> stop_wait"
  ca_timerFires :: "nat \<Rightarrow> bool"  \<comment> \<open>whether the \<open>n\<close>-th wait of a renewal loop ends with its timer\<close>
  ca_renew :: "nat \<Rightarrow> lease_renew \<Rightarrow> go_error + lease_renewed option"
  ca_contextErr :: "nat \<Rightarrow> bool"
  ca_poll :: "nat \<Rightarrow> go_error + pending_command list option"
  ca_pollRetry :: "nat \<Rightarrow> bool"

record 's cancel_state =
  cs_node :: "'s node_state"
  cs_acks :: "cancel_ack list"
  cs_canceled :: "string list"
  cs_finished :: "string list"
  cs_cancellations :: "string list"
  cs_launched :: "run_cancel list"  \<comment> \<open>the goroutines that run \<^verbatim>\<open>handleCancelCommand\<close>, in order\<close>

definition cancelRead :: "'s cancel_env \<Rightarrow> ('s \<Rightarrow> 'a) \<Rightarrow> 's cancel_state \<Rightarrow> 'a \<times> 's cancel_state" where
  "cancelRead ce f st = (case nodeRead (ca_node ce) f (cs_node st) of (r, nd) \<Rightarrow> (r, st\<lparr>cs_node := nd\<rparr>))"

definition setCanceled :: "string \<Rightarrow> 's cancel_state \<Rightarrow> 's cancel_state" where
  "setCanceled attemptID st = st\<lparr>cs_canceled := List.insert attemptID (cs_canceled st)\<rparr>"

lemma setCanceled_acks [simp]: "cs_acks (setCanceled attemptID st) = cs_acks st"
  by (simp add: setCanceled_def)

definition cancelFatal :: "go_error \<Rightarrow> 's cancel_state \<Rightarrow> 's cancel_state" where
  "cancelFatal err st = st\<lparr>cs_node := (cs_node st)\<lparr>nd_worker := (nd_worker (cs_node st))\<lparr>wk_fatal :=
     wk_fatal (nd_worker (cs_node st)) @ [err]\<rparr>\<rparr>\<rparr>"

definition contextEnded :: "'s cancel_env \<Rightarrow> 's cancel_state \<Rightarrow> bool" where
  "contextEnded ce st \<longleftrightarrow> we_stopped (ne_worker (ca_node ce)) (wk_turn (nd_worker (cs_node st)))"

definition beginCancellation :: "string \<Rightarrow> 's cancel_state \<Rightarrow> bool \<times> 's cancel_state" where
  "beginCancellation cancellationID st =
     (if cancellationID \<in> set (cs_cancellations st) then (False, st)
      else (True, st\<lparr>cs_cancellations := cancellationID # cs_cancellations st\<rparr>))"

definition finishCancellation :: "string \<Rightarrow> 's cancel_state \<Rightarrow> 's cancel_state" where
  "finishCancellation cancellationID st = st\<lparr>cs_cancellations := removeAll cancellationID (cs_cancellations st)\<rparr>"

definition assignmentByAttempt :: "'s runtime_store \<Rightarrow> string \<Rightarrow> 's \<Rightarrow> go_error + journal_record" where
  "assignmentByAttempt api attemptID s =
     (case sto_Assignments api s of
        Inl e \<Rightarrow> Inl e
      | Inr records \<Rightarrow>
          (case List.find (\<lambda>record. attemptID_of record = attemptID) records of
             None \<Rightarrow> Inl ErrAssignmentNotFound | Some record \<Rightarrow> Inr record))"

section \<open>Acknowledgements\<close>

definition cancelAck :: "run_cancel \<Rightarrow> string \<Rightarrow> string \<Rightarrow> cancel_ack" where
  "cancelAck command status errorCode =
     \<lparr>ck_CancellationID = rl_CancellationID command, ck_AttemptIdentity = rl_AttemptIdentity command,
      ck_CancelState = status, ck_ErrorCode = errorCode\<rparr>"

definition sendCancelAck :: "'s cancel_env \<Rightarrow> cancel_ack \<Rightarrow> 's cancel_state \<Rightarrow> go_error option \<times> 's cancel_state" where
  "sendCancelAck ce ack st = (ca_ack ce (cs_acks st) ack, st\<lparr>cs_acks := cs_acks st @ [ack]\<rparr>)"

definition ackCancelOnce ::
  "'s cancel_env \<Rightarrow> run_cancel \<Rightarrow> string \<Rightarrow> string \<Rightarrow> 's cancel_state \<Rightarrow> go_error option \<times> 's cancel_state" where
  "ackCancelOnce ce command status errorCode st = sendCancelAck ce (cancelAck command status errorCode) st"

partial_function (option) ackCancelUntil ::
  "'s cancel_env \<Rightarrow> run_cancel \<Rightarrow> string \<Rightarrow> string \<Rightarrow> nat \<Rightarrow> 's cancel_state \<Rightarrow> (go_error option \<times> 's cancel_state) option" where
  "ackCancelUntil ce command status errorCode attempt st =
     (case sendCancelAck ce (cancelAck command status errorCode) st of
        (None, st1) \<Rightarrow> Some (None, st1)
      | (Some e, st1) \<Rightarrow>
          if runtimeErrorIsPermanent e
             \<or> (\<not> isZeroTime (rl_DeadlineAt command) \<and> \<not> ca_clock ce (cs_acks st1) < rl_DeadlineAt command)
          then Some (Some e, st1)
          else case ca_waitRetry ce (cs_acks st1) attempt of
                 Some ctxErr \<Rightarrow> Some (Some ctxErr, st1)
               | None \<Rightarrow> ackCancelUntil ce command status errorCode (attempt + 1) st1)"

section \<open>Commands\<close>

definition retireCanceled :: "'s cancel_env \<Rightarrow> journal_record \<Rightarrow> bool \<Rightarrow> 's cancel_state \<Rightarrow> 's cancel_state" where
  "retireCanceled ce record active st =
     (let w = nd_worker (cs_node st);
          nd1 = (cs_node st)\<lparr>nd_worker := w\<lparr>wk_spoolAllowed := AList.delete (attemptID_of record) (wk_spoolAllowed w)\<rparr>\<rparr>
      in case nodeRetire (ca_node ce) record True nd1 of
           (cleanupErr, nd2) \<Rightarrow>
             let st1 = st\<lparr>cs_node := (if active then retireActiveAttempt (attemptID_of record) nd2 else nd2)\<rparr>
             in case cleanupErr of
                  None \<Rightarrow> st1
                | Some e \<Rightarrow> if contextEnded ce st1 then st1 else cancelFatal e st1)"

text \<open>From the stopped acknowledgement on.\<close>

definition confirmStopped ::
  "'s cancel_env \<Rightarrow> run_cancel \<Rightarrow> journal_record \<Rightarrow> bool \<Rightarrow> 's cancel_state \<Rightarrow> 's cancel_state option" where
  "confirmStopped ce command record active st =
     (case ackCancelUntil ce command ''stopped'' [] 0 st of
        None \<Rightarrow> None
      | Some (Some e, st1) \<Rightarrow> Some st1
      | Some (None, st1) \<Rightarrow> Some (retireCanceled ce record active st1))"

definition shutdownTimeout :: int where "shutdownTimeout = 10 * 10 ^ 9"

definition handleCancelCommand :: "'s cancel_env \<Rightarrow> run_cancel \<Rightarrow> 's cancel_state \<Rightarrow> 's cancel_state option" where
  "handleCancelCommand ce command st =
     (let attemptID = sa_AttemptID (rl_AttemptIdentity command);
          mismatch = (\<lambda>st1. map_option snd (ackCancelUntil ce command ''failed'' ''ATTEMPT_IDENTITY_MISMATCH'' 0 st1))
      in case cancelRead ce (assignmentByAttempt (nodeStore (ca_node ce)) attemptID) st of
           (Inl e, st1) \<Rightarrow> mismatch st1
         | (Inr record, st1) \<Rightarrow>
             if sdkAttemptIdentity (jr_Identity record) \<noteq> rl_AttemptIdentity command then mismatch st1
             else case ackCancelOnce ce command ''stopping'' [] st1 of
               (err, st2) \<Rightarrow>
                 if \<not> activeAttempt (attemptID_of record) (cs_node st2) then confirmStopped ce command record False st2
                 else
                   let st3 = setCanceled (attemptID_of record) st2;
                       waitUntil = (if isZeroTime (rl_DeadlineAt command)
                                    then ca_clock ce (cs_acks st3) + shutdownTimeout else rl_DeadlineAt command)
                   in case ca_stopWait ce (attemptID_of record) waitUntil of
                        HandlerDone \<Rightarrow> confirmStopped ce command record True st3
                      | StopTimerFired \<Rightarrow>
                          map_option snd (ackCancelUntil ce command ''failed'' ''CANCEL_DEADLINE_EXCEEDED'' 0 st3)
                      | WorkerContextDone \<Rightarrow> Some st3)"

definition revokeLocal :: "'s cancel_env \<Rightarrow> journal_record \<Rightarrow> 's cancel_state \<Rightarrow> 's cancel_state" where
  "revokeLocal ce record st =
     st\<lparr>cs_node := (cs_node st)\<lparr>nd_worker := revokeLocalAttempt (ne_worker (ca_node ce)) record (nd_worker (cs_node st))\<rparr>\<rparr>"

definition handleLeaseRevoke :: "'s cancel_env \<Rightarrow> lease_revoked \<Rightarrow> 's cancel_state \<Rightarrow> 's cancel_state" where
  "handleLeaseRevoke ce command st =
     (case cancelRead ce (assignmentByAttempt (nodeStore (ca_node ce)) (sa_AttemptID (lv_AttemptIdentity command))) st of
        (Inl e, st1) \<Rightarrow> st1
      | (Inr record, st1) \<Rightarrow>
          if sdkAttemptIdentity (jr_Identity record) \<noteq> lv_AttemptIdentity command then st1 else revokeLocal ce record st1)"

definition handleDecodedCommand :: "'s cancel_env \<Rightarrow> decoded_command \<Rightarrow> 's cancel_state \<Rightarrow> 's cancel_state" where
  "handleDecodedCommand ce command st =
     (if dc_Type command = ''run.cancel'' then
        (case dc_Cancel command of
           None \<Rightarrow> st
         | Some cancel \<Rightarrow>
             (case beginCancellation (rl_CancellationID cancel) st of
                (False, st1) \<Rightarrow> st1
              | (True, st1) \<Rightarrow> st1\<lparr>cs_launched := cs_launched st1 @ [cancel]\<rparr>))
      else if dc_Type command = ''runtime.drain'' then st\<lparr>cs_node := snd (markDraining (cs_node st))\<rparr>
      else if dc_Type command = ''run.lease.revoked'' then
        (case dc_Revoke command of None \<Rightarrow> st | Some revoke \<Rightarrow> handleLeaseRevoke ce revoke st)
      else st)"

text \<open>The inner loop of \<^verbatim>\<open>commandLoop\<close>: whether every command was decoded.\<close>

fun handleCommands :: "'s cancel_env \<Rightarrow> pending_command list \<Rightarrow> 's cancel_state \<Rightarrow> bool \<times> 's cancel_state" where
  "handleCommands ce [] st = (True, st)"
| "handleCommands ce (command # rest) st =
     (case decodeRuntimePendingCommand (ca_decoders ce) command of
        Inl e \<Rightarrow> (False, cancelFatal e st)
      | Inr decoded \<Rightarrow> handleCommands ce rest (handleDecodedCommand ce decoded st))"

text \<open>\<open>n\<close> counts the polls.\<close>

partial_function (option) commandLoop :: "'s cancel_env \<Rightarrow> nat \<Rightarrow> 's cancel_state \<Rightarrow> 's cancel_state option" where
  "commandLoop ce n st =
     (if ca_contextErr ce n then Some st
      else case ca_poll ce n of
        Inl e \<Rightarrow>
          if runtimeErrorIsPermanent e \<or> durableRuntimeErrorIsFatal e then Some (cancelFatal (scrubRuntimeError e) st)
          else if \<not> ca_pollRetry ce n then Some st
          else commandLoop ce (n + 1) st
      | Inr None \<Rightarrow> Some (cancelFatal (WrapError ErrRuntimeProtocolMismatch ''command poll response'') st)
      | Inr (Some commands) \<Rightarrow>
          (case handleCommands ce commands st of
             (decoded, st1) \<Rightarrow> if decoded then commandLoop ce (n + 1) st1 else Some st1))"

section \<open>Renewal of leases\<close>

text \<open>\<^verbatim>\<open>LeaseTTLSeconds\<close> of the attached session, if any; durations in nanoseconds, with Go's wrap-around.\<close>

definition leaseRenewInterval :: "int option \<Rightarrow> int" where
  "leaseRenewInterval ttl =
     (case ttl of
        Some seconds \<Rightarrow>
          if seconds > 0 then
            let interval = goQuot (mul64 seconds (10 ^ 9)) 3
            in if interval < 250 * 10 ^ 6 then 250 * 10 ^ 6 else interval
          else 5 * 10 ^ 9
      | None \<Rightarrow> 5 * 10 ^ 9)"

definition leaseExpiry :: "string \<Rightarrow> 's cancel_state \<Rightarrow> time" where
  "leaseExpiry attemptID st = (case map_of (nd_leases (cs_node st)) attemptID of None \<Rightarrow> 0 | Some t \<Rightarrow> t)"

definition nowAt :: "'s cancel_env \<Rightarrow> 's cancel_state \<Rightarrow> time" where
  "nowAt ce st = ne_now (ca_node ce) (wk_turn (nd_worker (cs_node st)))"

definition leaseExpired :: "'s cancel_env \<Rightarrow> string \<Rightarrow> 's cancel_state \<Rightarrow> bool" where
  "leaseExpired ce attemptID st \<longleftrightarrow> \<not> isZeroTime (leaseExpiry attemptID st) \<and> \<not> nowAt ce st < leaseExpiry attemptID st"

text \<open>One round after the timer: the state, and the next retry count unless the loop ends.\<close>

definition renewRound ::
  "'s cancel_env \<Rightarrow> attempt_identity \<Rightarrow> nat \<Rightarrow> nat \<Rightarrow> 's cancel_state \<Rightarrow> nat option \<times> 's cancel_state" where
  "renewRound ce identity n retry st =
     (let attemptID = ai_AttemptID identity; messageID = ai_AssignmentMessageID identity; api = nodeStore (ca_node ce) in
      if leaseExpired ce attemptID st then
        (case cancelRead ce (sto_Assignment api messageID) (setCanceled attemptID st) of
           (Inl e, st1) \<Rightarrow> (None, st1) | (Inr record, st1) \<Rightarrow> (None, revokeLocal ce record st1))
      else case cancelRead ce (sto_Assignment api messageID) st of
        (Inl e, st1) \<Rightarrow>
          (None, if contextEnded ce st1 \<or> (attemptID \<in> set (cs_finished st1) \<and> errorIs e ErrAssignmentNotFound)
                 then st1 else cancelFatal e st1)
      | (Inr record, st1) \<Rightarrow>
      (case capacitySnapshot (ca_node ce) (cs_node st1) of
         ((capacity, inflight), nd2) \<Rightarrow>
           let st2 = st1\<lparr>cs_node := nd2\<rparr> in
           (case ca_renew ce n \<lparr>lw_AttemptIdentity = sdkAttemptIdentity identity, lw_LastClientEventSeq = jr_LastClientEventSeq record,
                    lw_Capacity = capacity, lw_Inflight = inflight\<rparr> of
              Inl err \<Rightarrow>
                if runtimeErrorCode err \<in> {''STALE_LEASE'', ''LEASE_EXPIRED'', ''RUN_CANCEL_REQUESTED''}
                then (None, revokeLocal ce record (setCanceled attemptID st2))
                else if runtimeErrorIsPermanent err then (None, setCanceled attemptID (cancelFatal (scrubRuntimeError err) st2))
                else if leaseExpired ce attemptID st2 then (None, revokeLocal ce record (setCanceled attemptID st2))
                else (Some (retry + 1), st2)
            | Inr renewed \<Rightarrow>
                let refused = (None, setCanceled attemptID
                      (cancelFatal (WrapError ErrRuntimeProtocolMismatch ''lease renewal'') st2)) in
                (case renewed of
                   None \<Rightarrow> refused
                 | Some r \<Rightarrow>
                     if lz_AttemptIdentity r \<noteq> sdkAttemptIdentity identity \<or> \<not> lz_LeaseExpiresAt r > nowAt ce st2 then refused
                     else
                       let st3 = st2\<lparr>cs_node := setLeaseExpiry attemptID (lz_LeaseExpiresAt r) (cs_node st2)\<rparr> in
                       (case lz_PendingCommand r of
                          None \<Rightarrow> (Some 0, st3)
                        | Some command \<Rightarrow>
                            (case decodeRuntimePendingCommand (ca_decoders ce) command of
                               Inl e \<Rightarrow> (None, cancelFatal e st3)
                             | Inr decoded \<Rightarrow> (Some 0, handleDecodedCommand ce decoded st3)))))))"

partial_function (option) renewAttemptLease ::
  "'s cancel_env \<Rightarrow> attempt_identity \<Rightarrow> nat \<Rightarrow> nat \<Rightarrow> 's cancel_state \<Rightarrow> 's cancel_state option" where
  "renewAttemptLease ce identity n retry st =
     (if \<not> ca_timerFires ce n then Some st
      else case renewRound ce identity n retry st of
        (None, st1) \<Rightarrow> Some st1
      | (Some retry1, st1) \<Rightarrow> renewAttemptLease ce identity (n + 1) retry1 st1)"

lemma leaseRenewInterval_bound: "250 * 10 ^ 6 \<le> leaseRenewInterval ttl"
  by (simp add: leaseRenewInterval_def Let_def split: option.split)

section \<open>What a cancellation does\<close>

text \<open>An acknowledgement was repeated some times, and answered if the loop succeeded.\<close>

definition ackedUntil :: "'s cancel_env \<Rightarrow> cancel_ack \<Rightarrow> 's cancel_state \<Rightarrow> go_error option \<times> 's cancel_state \<Rightarrow> bool" where
  "ackedUntil ce ack st y \<longleftrightarrow> (\<exists>k. snd y = st\<lparr>cs_acks := cs_acks st @ replicate (Suc k) ack\<rparr>
     \<and> (fst y = None \<longrightarrow> ca_ack ce (cs_acks st @ replicate k ack) ack = None))"

lemma ackedUntil_later:
  assumes "ackedUntil ce ack (st\<lparr>cs_acks := cs_acks st @ [ack]\<rparr>) y"
  shows "ackedUntil ce ack st y"
proof -
  from assms obtain k where "snd y = st\<lparr>cs_acks := cs_acks st @ [ack] @ replicate (Suc k) ack\<rparr>"
    "fst y = None \<longrightarrow> ca_ack ce (cs_acks st @ [ack] @ replicate k ack) ack = None"
    by (auto simp: ackedUntil_def)
  then show ?thesis unfolding ackedUntil_def by (intro exI [of _ "Suc k"]) simp
qed

lemma until_acks:
  assumes "ackCancelUntil ce command status errorCode n st = Some y"
  shows "ackedUntil ce (cancelAck command status errorCode) st y"
proof (rule ackCancelUntil.raw_induct [where P = "\<lambda>ce command status errorCode n st y.
    ackedUntil ce (cancelAck command status errorCode) st y", OF _ assms])
  fix f ce command status errorCode n st y
  let ?a = "cancelAck command status errorCode"
  assume IH: "\<And>ce command status errorCode n st y. f ce command status errorCode n st = Some y \<Longrightarrow>
      ackedUntil ce (cancelAck command status errorCode) st y"
    and step: "(case sendCancelAck ce (cancelAck command status errorCode) st of
        (None, st1) \<Rightarrow> Some (None, st1)
      | (Some e, st1) \<Rightarrow>
          if runtimeErrorIsPermanent e
             \<or> (\<not> isZeroTime (rl_DeadlineAt command) \<and> \<not> ca_clock ce (cs_acks st1) < rl_DeadlineAt command)
          then Some (Some e, st1)
          else case ca_waitRetry ce (cs_acks st1) n of
                 None \<Rightarrow> f ce command status errorCode (n + 1) st1
               | Some ctxErr \<Rightarrow> Some (Some ctxErr, st1)) = Some y"
  let ?st1 = "st\<lparr>cs_acks := cs_acks st @ [?a]\<rparr>"
  have once: "ackedUntil ce ?a st (r, ?st1)" if "r = None \<longrightarrow> ca_ack ce (cs_acks st) ?a = None" for r
    using that unfolding ackedUntil_def by (intro exI [of _ 0]) simp
  have "f ce command status errorCode (n + 1) ?st1 = Some y
      \<or> (\<exists>r. y = (r, ?st1) \<and> (r = None \<longrightarrow> ca_ack ce (cs_acks st) ?a = None))"
    using step by (auto simp: sendCancelAck_def split: if_splits option.splits)
  then show "ackedUntil ce ?a st y" using IH ackedUntil_later once by blast
qed

abbreviation cancelStore :: "'s cancel_state \<Rightarrow> 's" where
  "cancelStore st \<equiv> wk_store (nd_worker (cs_node st))"

text \<open>The permission to upload and the registered attempts.\<close>

abbreviation standing :: "'s cancel_state \<Rightarrow> (string, spool_permission) gomap \<times> string list" where
  "standing st \<equiv> (wk_spoolAllowed (nd_worker (cs_node st)), wk_active (nd_worker (cs_node st)))"

definition stoppedAck :: "run_cancel \<Rightarrow> cancel_ack" where
  "stoppedAck command = cancelAck command ''stopped'' []"

text \<open>The last acknowledgement says that the attempt has stopped, and it was answered.\<close>

definition stoppedConfirmed :: "'s cancel_env \<Rightarrow> run_cancel \<Rightarrow> 's cancel_state \<Rightarrow> bool" where
  "stoppedConfirmed ce command st' \<longleftrightarrow> cs_acks st' \<noteq> [] \<and> last (cs_acks st') = stoppedAck command
     \<and> ca_ack ce (butlast (cs_acks st')) (stoppedAck command) = None"

lemma cancelRead_effect:
  assumes "quiet_env a (ne_worker (ca_node ce))" and "sound_store (cancelStore st)" and "cancelRead ce f st = (r, st')"
  shows "store_reach (cancelStore st) (cancelStore st') \<and> standing st' = standing st \<and> cs_acks st' = cs_acks st"
  using assms by (auto simp: cancelRead_def nodeRead_def storeRead_def takeTurn_def quiet_env_def Let_def)

lemma retireCanceled_effect:
  assumes "quiet_env (attemptID_of record) (ne_worker (ca_node ce))" and "sound_store (cancelStore st)"
  shows "store_reach (cancelStore st) (cancelStore (retireCanceled ce record active st))
    \<and> cs_acks (retireCanceled ce record active st) = cs_acks st"
proof -
  let ?w = "(nd_worker (cs_node st))\<lparr>wk_spoolAllowed := AList.delete (attemptID_of record) (wk_spoolAllowed (nd_worker (cs_node st)))\<rparr>"
  obtain x v where p: "retireTerminalAttempt (ne_worker (ca_node ce)) record True ?w = (x, v)" by fastforce
  have "sound_store (wk_store ?w)" using assms(2) by simp
  from file_contract.retireTerminalAttempt_reach [OF quiet_env_quiet [OF assms(1)] this p]
  have "store_reach (cancelStore st) (wk_store v)" by simp
  then show ?thesis using p
    by (auto simp: retireCanceled_def nodeRetire_def retireActiveAttempt_def cancelFatal_def Let_def split: option.splits)
qed

lemma confirm_effect:
  assumes "quiet_env (attemptID_of record) (ne_worker (ca_node ce))" and "sound_store (cancelStore st)"
    and "confirmStopped ce command record active st = Some st'"
  shows "store_reach (cancelStore st) (cancelStore st')
    \<and> (\<exists>k. cs_acks st' = cs_acks st @ replicate (Suc k) (stoppedAck command))
    \<and> (stoppedConfirmed ce command st' \<or> standing st' = standing st)"
proof -
  from assms(3) obtain r u where until: "ackCancelUntil ce command ''stopped'' [] 0 st = Some (r, u)"
    and st': "st' = (case r of None \<Rightarrow> retireCanceled ce record active u | Some e \<Rightarrow> u)"
    by (auto simp: confirmStopped_def split: option.splits)
  from until_acks [OF until] obtain k where u: "u = st\<lparr>cs_acks := cs_acks st @ replicate (Suc k) (stoppedAck command)\<rparr>"
    and ok: "r = None \<longrightarrow> ca_ack ce (cs_acks st @ replicate k (stoppedAck command)) (stoppedAck command) = None"
    by (auto simp: ackedUntil_def stoppedAck_def)
  have s: "sound_store (cancelStore u)" using assms(2) u by simp
  show ?thesis
  proof (cases r)
    case None
    have acks: "cs_acks st' = (cs_acks st @ replicate k (stoppedAck command)) @ [stoppedAck command]"
      using None st' retireCanceled_effect [OF assms(1) s, of active] u by (simp flip: replicate_append_same)
    have "stoppedConfirmed ce command st'"
      using None ok unfolding stoppedConfirmed_def acks last_snoc butlast_snoc by blast
    with None st' retireCanceled_effect [OF assms(1) s, of active] u show ?thesis by auto
  next
    case (Some e)
    with st' u show ?thesis by (auto intro: store_reach.start)
  qed
qed

text \<open>The acknowledgements of one cancellation, in order.\<close>

definition cancelTrace :: "'s cancel_env \<Rightarrow> run_cancel \<Rightarrow> bool \<Rightarrow> cancel_ack list \<Rightarrow> bool" where
  "cancelTrace ce command active acks \<longleftrightarrow>
     (let stopping = cancelAck command ''stopping'' [] in
      (\<exists>k. acks = replicate (Suc k) (cancelAck command ''failed'' ''ATTEMPT_IDENTITY_MISMATCH''))
      \<or> active \<and> (acks = [stopping]
         \<or> (\<exists>k. acks = stopping # replicate (Suc k) (cancelAck command ''failed'' ''CANCEL_DEADLINE_EXCEEDED'')))
      \<or> (\<exists>k. acks = stopping # replicate (Suc k) (stoppedAck command))
        \<and> (active \<longrightarrow> (\<exists>t. ca_stopWait ce (sa_AttemptID (rl_AttemptIdentity command)) t = HandlerDone)))"

lemma failed_effect:
  assumes "map_option snd (ackCancelUntil ce command status errorCode 0 st) = Some st'"
  shows "cancelStore st' = cancelStore st \<and> standing st' = standing st
    \<and> (\<exists>k. cs_acks st' = cs_acks st @ replicate (Suc k) (cancelAck command status errorCode))"
  using assms until_acks by (fastforce simp: ackedUntil_def)

definition cancelEffect :: "store cancel_env \<Rightarrow> run_cancel \<Rightarrow> bool \<Rightarrow> store cancel_state \<Rightarrow> store cancel_state \<Rightarrow> bool" where
  "cancelEffect ce command active st st' \<longleftrightarrow> store_reach (cancelStore st) (cancelStore st')
     \<and> (stoppedConfirmed ce command st' \<or> standing st' = standing st)
     \<and> (\<exists>acks. cs_acks st' = cs_acks st @ acks \<and> cancelTrace ce command active acks)"

lemma handled_effect:
  assumes q: "\<And>a. quiet_env a (ne_worker (ca_node ce))" and s: "sound_store (cancelStore st1)"
    and id: "sdkAttemptIdentity (jr_Identity record) = rl_AttemptIdentity command"
    and active: "active = activeAttempt (attemptID_of record) (cs_node st1)"
    and run: "(if \<not> active then confirmStopped ce command record False st2 else
        case ca_stopWait ce (attemptID_of record) t of
          HandlerDone \<Rightarrow> confirmStopped ce command record True (setCanceled (attemptID_of record) st2)
        | StopTimerFired \<Rightarrow> map_option snd (ackCancelUntil ce command ''failed'' ''CANCEL_DEADLINE_EXCEEDED'' 0
                             (setCanceled (attemptID_of record) st2))
        | WorkerContextDone \<Rightarrow> Some (setCanceled (attemptID_of record) st2)) = Some st'"
    and st2: "st2 = st1\<lparr>cs_acks := cs_acks st1 @ [cancelAck command ''stopping'' []]\<rparr>"
  shows "cancelEffect ce command active st1 st'"
proof -
  have aid: "attemptID_of record = sa_AttemptID (rl_AttemptIdentity command)"
    unfolding id [symmetric] by (simp add: sdkAttemptIdentity_def)
  let ?st3 = "setCanceled (attemptID_of record) st2"
  have same: "cancelStore ?st3 = cancelStore st1" "standing ?st3 = standing st1" "cs_acks ?st3 = cs_acks st2"
    "cancelStore st2 = cancelStore st1" "standing st2 = standing st1"
    by (simp_all add: setCanceled_def st2)
  have stopped: "cancelEffect ce command active st1 st'"
    if "confirmStopped ce command record b v = Some st'" "v = st2 \<or> v = ?st3"
      "active \<longrightarrow> ca_stopWait ce (attemptID_of record) t = HandlerDone" for b v
  proof -
    have "sound_store (cancelStore v)" using that(2) same s by auto
    from confirm_effect [OF q this that(1)] that(2,3) same aid st2 show ?thesis
      by (fastforce simp: cancelEffect_def cancelTrace_def Let_def)
  qed
  show ?thesis
  proof (cases active)
    case False
    with run stopped [of False st2] show ?thesis by simp
  next
    case True
    show ?thesis
    proof (cases "ca_stopWait ce (attemptID_of record) t")
      case HandlerDone
      with run True stopped [of True ?st3] show ?thesis by simp
    next
      case StopTimerFired
      with run True have "map_option snd (ackCancelUntil ce command ''failed'' ''CANCEL_DEADLINE_EXCEEDED'' 0 ?st3) = Some st'" by simp
      from failed_effect [OF this] same st2 True show ?thesis
        by (auto simp: cancelEffect_def cancelTrace_def Let_def store_reach.start)
    next
      case WorkerContextDone
      with run True same st2 show ?thesis by (auto simp: cancelEffect_def cancelTrace_def Let_def store_reach.start)
    qed
  qed
qed

text \<open>
  C14. A cancellation retires its attempt only when the platform confirmed that it stopped:
  whatever the platform and the file system answer, the permission to upload and the registration
  of the attempt stay as they are unless the last acknowledgement, that the attempt has stopped,
  was answered. The acknowledgements of a cancellation are either a failure for an unknown
  attempt, or one that it is stopping, followed by a failure when the handler does not end in
  time or by one that it stopped when no handler was running or it ended; so an attempt is never
  reported both as stopped and as failed. The store is only changed by its operations.
\<close>

theorem cancel_retires_after_stopped_ack:
  assumes "live_store (wk_store (nd_worker (cs_node st)))" and "\<forall>a. quiet_env a (ne_worker (ca_node ce))"
    and "handleCancelCommand ce command st = Some st'"
  shows "cancelEffect ce command (activeAttempt (sa_AttemptID (rl_AttemptIdentity command)) (cs_node st)) st st'"
proof -
  let ?id = "sa_AttemptID (rl_AttemptIdentity command)"
  obtain r st1 where rd: "cancelRead ce (assignmentByAttempt (nodeStore (ca_node ce)) ?id) st = (r, st1)" by fastforce
  have q: "quiet_env a (ne_worker (ca_node ce))" for a using assms(2) by blast
  note eff = cancelRead_effect [OF q live_sound [OF assms(1)] rd]
  have s1: "sound_store (cancelStore st1)" using eff live_sound [OF assms(1)] file_contract.reach_good by blast
  have from1: "cancelEffect ce command b st st'" if "cancelEffect ce command b st1 st'" for b
    using that eff store_reach_trans by (fastforce simp: cancelEffect_def)
  show ?thesis
  proof (cases "\<exists>record. r = Inr record \<and> sdkAttemptIdentity (jr_Identity record) = rl_AttemptIdentity command")
    case False
    with assms(3) rd have "map_option snd (ackCancelUntil ce command ''failed'' ''ATTEMPT_IDENTITY_MISMATCH'' 0 st1) = Some st'"
      by (auto simp: handleCancelCommand_def Let_def split: sum.splits if_splits)
    from failed_effect [OF this] show ?thesis
      by (intro from1) (auto simp: cancelEffect_def cancelTrace_def Let_def store_reach.start)
  next
    case True
    then obtain rec where rec: "r = Inr rec" "sdkAttemptIdentity (jr_Identity rec) = rl_AttemptIdentity command" by blast
    then have aid: "attemptID_of rec = ?id" by (metis sdkAttemptIdentity_def sdk_identity.select_convs(2))
    let ?st2 = "st1\<lparr>cs_acks := cs_acks st1 @ [cancelAck command ''stopping'' []]\<rparr>"
    have act: "activeAttempt ?id (cs_node st) = activeAttempt (attemptID_of rec) (cs_node st1)"
      using eff aid by (simp add: activeAttempt_def)
    let ?t = "if isZeroTime (rl_DeadlineAt command) then ca_clock ce (cs_acks ?st2) + shutdownTimeout else rl_DeadlineAt command"
    have run: "(if \<not> activeAttempt (attemptID_of rec) (cs_node st1) then confirmStopped ce command rec False ?st2 else
        case ca_stopWait ce (attemptID_of rec) ?t of
          HandlerDone \<Rightarrow> confirmStopped ce command rec True (setCanceled (attemptID_of rec) ?st2)
        | StopTimerFired \<Rightarrow> map_option snd (ackCancelUntil ce command ''failed'' ''CANCEL_DEADLINE_EXCEEDED'' 0
                             (setCanceled (attemptID_of rec) ?st2))
        | WorkerContextDone \<Rightarrow> Some (setCanceled (attemptID_of rec) ?st2)) = Some st'"
      using assms(3) rd rec
      by (auto simp: handleCancelCommand_def ackCancelOnce_def sendCancelAck_def Let_def split: if_splits)
    show ?thesis unfolding act by (rule from1 [OF handled_effect [OF q s1 rec(2) refl run refl]])
  qed
qed

section \<open>A cancellation that is confirmed\<close>

definition agreeing_env :: "store cancel_env" where
  "agreeing_env = \<lparr>ca_node = foreign_env, ca_decoders = hv_command sample_client_env, ca_ack = (\<lambda>acks ack. None),
     ca_clock = (\<lambda>acks. 0), ca_waitRetry = (\<lambda>acks n. Some ContextCanceled), ca_stopWait = (\<lambda>attemptID t. HandlerDone),
     ca_timerFires = (\<lambda>n. False), ca_renew = (\<lambda>n r. Inr None), ca_contextErr = (\<lambda>n. True),
     ca_poll = (\<lambda>n. Inr None), ca_pollRetry = (\<lambda>n. False)\<rparr>"

definition sample_cancel :: run_cancel where
  "sample_cancel = \<lparr>rl_CancellationID = ''cancellation'', rl_AttemptIdentity = sdkAttemptIdentity sample_attempt,
     rl_ReasonCode = ''user'', rl_DeadlineAt = 0\<rparr>"

definition sample_cancel_state :: "store cancel_state" where
  "sample_cancel_state = \<lparr>cs_node = sample_node, cs_acks = [], cs_canceled = [], cs_finished = [], cs_cancellations = [],
     cs_launched = []\<rparr>"

lemma agreed: "ackCancelUntil agreeing_env command status errorCode n st
  = Some (None, st\<lparr>cs_acks := cs_acks st @ [cancelAck command status errorCode]\<rparr>)"
  by (subst ackCancelUntil.simps) (simp add: sendCancelAck_def agreeing_env_def)

theorem cancel_retires_after_stopped_ack_witness:
  "\<exists>st'. handleCancelCommand agreeing_env sample_cancel sample_cancel_state = Some st'
     \<and> cancelEffect agreeing_env sample_cancel True sample_cancel_state st'"
proof -
  have stop: "ca_stopWait agreeing_env a t = HandlerDone" for a t by (simp add: agreeing_env_def)
  obtain r st1 where rd: "cancelRead agreeing_env (assignmentByAttempt (nodeStore (ca_node agreeing_env))
      (sa_AttemptID (rl_AttemptIdentity sample_cancel))) sample_cancel_state = (r, st1)" by fastforce
  have confirmed: "\<exists>u. confirmStopped agreeing_env c rec b v = Some u" for c rec b v
    by (simp add: confirmStopped_def agreed)
  have "\<exists>u. handleCancelCommand agreeing_env sample_cancel sample_cancel_state = Some u"
    using confirmed by (cases r) (simp_all add: handleCancelCommand_def rd agreed stop ackCancelOnce_def sendCancelAck_def Let_def)
  then obtain st' where run: "handleCancelCommand agreeing_env sample_cancel sample_cancel_state = Some st'" by blast
  have live: "live_store (wk_store (nd_worker (cs_node sample_cancel_state)))"
    by (simp add: sample_cancel_state_def sample_node_def appended_worker_def appended_live)
  have quiet: "\<forall>a. quiet_env a (ne_worker (ca_node agreeing_env))"
    by (simp add: agreeing_env_def foreign_env_def cut_off_quiet)
  have "activeAttempt (sa_AttemptID (rl_AttemptIdentity sample_cancel)) (cs_node sample_cancel_state)"
    by (simp add: activeAttempt_def sample_cancel_def sample_cancel_state_def sample_node_def appended_worker_def
        sdkAttemptIdentity_def sample_attempt_def sample_identity_def)
  with cancel_retires_after_stopped_ack [OF live quiet run] run show ?thesis by simp
qed

end
