(* ===== verification/Worker_Drain.thy ===== *)
theory Worker_Drain
  imports Worker_Admission Runtime_Messages Transport_Policy
begin

text \<open>
  The graceful drain of the worker (runtime_worker_drain.go). Drain runs beside every other goroutine
  of the worker: before each of its critical sections \<open>de_step\<close> changes the state arbitrarily. The
  calls of the platform, the waits and the two joins are parameters of their moment. The history of
  drain calls and of the observations of the local state is kept beside the state.
\<close>

section \<open>State\<close>

datatype drain_error = DrainError go_error | RuntimeDrainTimeoutError duration spool_status

datatype drain_phase = NoDrain | DrainRunning | DrainFinished "drain_error option"

record 's drain_state =
  dn_node :: "'s node_state"
  dn_started :: bool
  dn_completed :: bool
  dn_stopRequested :: bool
  dn_drainOwnsStop :: bool
  dn_ready :: bool
  dn_client :: "bool option"    \<comment> \<open>whether the client implements the drain of a session\<close>
  dn_store :: bool              \<comment> \<open>whether the store is open\<close>
  dn_drain :: drain_phase

datatype drain_wait = TimerFired | ContextDone go_error | StopSeen

record observation =
  ob_Spool :: spool_status
  ob_Active :: nat
  ob_Reservations :: nat
  ob_AssignmentOps :: int

text \<open>
  \<open>de_provider\<close> is the \<^verbatim>\<open>SpoolStatus\<close> of the store, if it has one. A join gives the error of the
  context that ended first, \<^term>\<open>None\<close> when the channel was closed.
\<close>

record 's drain_env =
  de_node :: "'s node_env"
  de_policy :: worker_policy
  de_step :: "nat \<Rightarrow> 's drain_state \<Rightarrow> 's drain_state"
  de_provider :: "('s \<Rightarrow> go_error + spool_status) option"
  de_call :: "nat \<Rightarrow> string \<Rightarrow> drain_payload \<Rightarrow> go_error + drain_payload option"
  de_wait :: "nat \<Rightarrow> duration \<Rightarrow> drain_wait"
  de_join :: "nat \<Rightarrow> go_error option"
  de_deadline :: "duration \<Rightarrow> time"

record 's drain_run =
  dx_state :: "'s drain_state"
  dx_step :: nat
  dx_answers :: "drain_payload list"  \<comment> \<open>the valid answers of the platform\<close>
  dx_seen :: "observation list"
  dx_fences :: "bool list"            \<comment> \<open>for each drain call, whether admission was closed\<close>
  dx_owned :: bool                    \<comment> \<open>whether drain itself requested the stop\<close>

definition interfere :: "'s drain_env \<Rightarrow> 's drain_run \<Rightarrow> 's drain_run" where
  "interfere de x = x\<lparr>dx_state := de_step de (dx_step x) (dx_state x), dx_step := Suc (dx_step x)\<rparr>"

section \<open>Options\<close>

definition isControl :: "string \<Rightarrow> bool" where
  "isControl r =
     (case r of
        [c] \<Rightarrow> code c < 0x20 \<or> code c = 0x7f
      | [c, d] \<Rightarrow> code c = 0xc2 \<and> 0x80 \<le> code d \<and> code d \<le> 0x9f
      | _ \<Rightarrow> False)"

definition normalizeRuntimeDrainOptions :: "duration \<Rightarrow> string \<Rightarrow> go_error + duration \<times> string" where
  "normalizeRuntimeDrainOptions optTimeout optReason =
     (let timeout = (if optTimeout = 0 then 10000000000 else optTimeout);
          reasonCode = (if optReason = [] then ''SDK_GRACEFUL_SHUTDOWN'' else optReason)
      in if timeout < 1000000 \<or> timeout > 300000000000
         then Inl (TextError ''openlinker: Runtime Worker drain Timeout must be between 1ms and 5m'')
         else if \<not> runtimeText reasonCode 120 \<or> trimSpace reasonCode \<noteq> reasonCode \<or> list_ex isControl (utf8Runes reasonCode)
         then Inl (TextError ''openlinker: Runtime Worker drain ReasonCode is invalid'')
         else Inr (timeout, reasonCode))"

section \<open>Observations\<close>

fun spoolStatusLoop :: "'s runtime_store \<Rightarrow> 's \<Rightarrow> journal_record list \<Rightarrow> nat \<Rightarrow> nat \<Rightarrow> go_error + nat \<times> nat" where
  "spoolStatusLoop store s [] events results = Inr (events, results)"
| "spoolStatusLoop store s (r # rs) events results =
     (case sto_PendingEvents store (attemptID_of r) s of
        Inl e \<Rightarrow> Inl e
      | Inr pending \<Rightarrow>
        (case sto_PendingResult store (attemptID_of r) s of
           Inr res \<Rightarrow> spoolStatusLoop store s rs (events + length pending) (results + 1)
         | Inl e \<Rightarrow>
             if errorIs e ErrSpoolRecordNotFound then spoolStatusLoop store s rs (events + length pending) results
             else Inl e))"

definition runtimeStoreSpoolStatus ::
  "'s runtime_store \<Rightarrow> ('s \<Rightarrow> go_error + spool_status) option \<Rightarrow> 's \<Rightarrow> go_error + spool_status" where
  "runtimeStoreSpoolStatus store provider s =
     (case provider of
        Some status \<Rightarrow> status s
      | None \<Rightarrow>
        (case sto_Assignments store s of
           Inl e \<Rightarrow> Inl e
         | Inr records \<Rightarrow>
           (case spoolStatusLoop store s records 0 0 of
              Inl e \<Rightarrow> Inl e
            | Inr (events, results) \<Rightarrow>
                Inr \<lparr>ss_Assignments = length records, ss_Events = events, ss_Results = results,
                     ss_Empty = (length records = 0 \<and> events = 0 \<and> results = 0)\<rparr>)))"

definition emptySpool :: spool_status where
  "emptySpool = \<lparr>ss_Assignments = 0, ss_Events = 0, ss_Results = 0, ss_Empty = True\<rparr>"

definition runtimeDrainStatus :: "'s drain_env \<Rightarrow> 's drain_run \<Rightarrow> (go_error + observation) \<times> 's drain_run" where
  "runtimeDrainStatus de x =
     (let x1 = interfere de x; nd = dn_node (dx_state x1);
          seen = (\<lambda>status. \<lparr>ob_Spool = status, ob_Active = length (wk_active (nd_worker nd)),
            ob_Reservations = length (nd_reservations nd), ob_AssignmentOps = nd_assignmentOps nd\<rparr>)
      in if \<not> dn_store (dx_state x1) then (Inr (seen emptySpool), x1)
         else let x2 = interfere de x1 in
           case runtimeStoreSpoolStatus (nodeStore (de_node de)) (de_provider de) (wk_store (nd_worker (dn_node (dx_state x2)))) of
             Inl e \<Rightarrow> (Inl e, x2)
           | Inr status \<Rightarrow> (Inr (seen status), x2))"

definition runtimeDrainError :: "'s drain_env \<Rightarrow> go_error \<Rightarrow> duration \<Rightarrow> 's drain_run \<Rightarrow> drain_error \<times> 's drain_run" where
  "runtimeDrainError de e timeout x =
     (if \<not> errorIs e ContextDeadlineExceeded then (DrainError e, x)
      else case runtimeDrainStatus de x of
        (Inl statusErr, x1) \<Rightarrow> (DrainError statusErr, x1)
      | (Inr seen, x1) \<Rightarrow> (RuntimeDrainTimeoutError timeout (ob_Spool seen), x1))"

section \<open>The drain call\<close>

definition errRuntimeWorkerStoppedBeforeDrain :: go_error where
  "errRuntimeWorkerStoppedBeforeDrain = TextError ''openlinker: Runtime Worker stopped before its durable drain completed''"

definition waitRuntimeDrain :: "'s drain_env \<Rightarrow> duration \<Rightarrow> 's drain_run \<Rightarrow> go_error option \<times> 's drain_run" where
  "waitRuntimeDrain de delay x =
     (let x1 = interfere de x in
      case de_wait de (dx_step x) delay of
        TimerFired \<Rightarrow> (None, x1)
      | ContextDone e \<Rightarrow> (Some e, x1)
      | StopSeen \<Rightarrow> (Some errRuntimeWorkerStoppedBeforeDrain, x1))"

text \<open>The attached session with whether its client can drain, and whether the worker is stopped.\<close>

definition runtimeDrainAttachment :: "'s drain_env \<Rightarrow> 's drain_run \<Rightarrow> ((bool \<times> string) option \<times> bool) \<times> 's drain_run" where
  "runtimeDrainAttachment de x =
     (let x1 = interfere de x; stopped = (dn_stopRequested (dx_state x1) \<or> dn_completed (dx_state x1));
          x2 = interfere de x1; s = dx_state x2
      in case dn_client s of
           None \<Rightarrow> ((None, stopped), x2)
         | Some drainer \<Rightarrow>
             if stopped \<or> \<not> dn_ready s \<or> \<not> dn_store s then ((None, stopped), x2)
             else let sessionID = ri_RuntimeSessionID (sto_Identity (nodeStore (de_node de)) (wk_store (nd_worker (dn_node s))))
                  in if \<not> runtimeUUID sessionID then ((None, stopped), x2) else ((Some (drainer, sessionID), stopped), x2))"

text \<open>One attempt: the result to return, or \<^term>\<open>None\<close> to try again. The stop request cancels the call; its outcome is then the call's.\<close>

definition drainAttempt ::
  "'s drain_env \<Rightarrow> drain_payload \<Rightarrow> (bool \<times> string) option \<Rightarrow> 's drain_run \<Rightarrow> (go_error + drain_payload) option \<times> 's drain_run" where
  "drainAttempt de request attached x =
     (case attached of
        None \<Rightarrow> (None, x)
      | Some (drainer, sessionID) \<Rightarrow>
          if \<not> drainer then (Some (Inl (WrapError ErrRuntimeProtocolMismatch ''Runtime Client does not implement session drain'')), x)
          else let x1 = (interfere de x)\<lparr>dx_fences := dx_fences x @ [nd_draining (dn_node (dx_state (interfere de x)))]\<rparr> in
            case de_call de (dx_step x) sessionID request of
              Inr None \<Rightarrow> (Some (Inl (WrapError ErrRuntimeProtocolMismatch ''empty drain acknowledgement'')), x1)
            | Inr (Some response) \<Rightarrow>
                (case validateRuntimeDrain response of
                   Some e \<Rightarrow> (Some (Inl (WrapError ErrRuntimeProtocolMismatch ''openlinker: invalid runtime drain'')), x1)
                 | None \<Rightarrow> (Some (Inr response), x1\<lparr>dx_answers := dx_answers x1 @ [response]\<rparr>))
            | Inl e \<Rightarrow> (if runtimeErrorIsPermanent e \<or> durableRuntimeErrorIsFatal e then Some (Inl e) else None, x1))"

definition drainDelay :: "'s drain_env \<Rightarrow> nat \<Rightarrow> duration" where
  "drainDelay de attempt = min (retryDelay (int attempt) (de_policy de)) (100 * nanosMillisecond)"

partial_function (option) requestRuntimeDrain ::
  "'s drain_env \<Rightarrow> drain_payload \<Rightarrow> nat \<Rightarrow> 's drain_run \<Rightarrow> ((go_error + drain_payload) \<times> 's drain_run) option" where
  "requestRuntimeDrain de request attempt run =
     (case runtimeDrainAttachment de run of
        ((attached, stopped), x1) \<Rightarrow>
          if stopped then Some (Inl errRuntimeWorkerStoppedBeforeDrain, x1)
          else (case drainAttempt de request attached x1 of
                  (Some r, x2) \<Rightarrow> Some (r, x2)
                | (None, x2) \<Rightarrow>
                    (case waitRuntimeDrain de (drainDelay de attempt) x2 of
                       (Some e, x3) \<Rightarrow> Some (Inl e, x3)
                     | (None, x3) \<Rightarrow> requestRuntimeDrain de request (attempt + 1) x3)))"

section \<open>Stopping\<close>

definition stopWorker :: "'s drain_state \<Rightarrow> 's drain_state" where
  "stopWorker s = s\<lparr>dn_node := setStopping (dn_node s)\<rparr>"

definition requestStop :: "'s drain_state \<Rightarrow> 's drain_state" where
  "requestStop s =
     (let s = stopWorker s in
      if dn_started s \<and> \<not> dn_stopRequested s then s\<lparr>dn_stopRequested := True, dn_drainOwnsStop := False\<rparr> else s)"

definition requestDrainStop :: "'s drain_state \<Rightarrow> bool \<times> 's drain_state" where
  "requestDrainStop s =
     (if \<not> dn_started s \<or> dn_completed s \<or> dn_stopRequested s then (False, s)
      else (True, (stopWorker s)\<lparr>dn_stopRequested := True, dn_drainOwnsStop := True\<rparr>))"

definition drainFails :: "'s drain_env \<Rightarrow> go_error \<Rightarrow> duration \<Rightarrow> 's drain_run \<Rightarrow> drain_error option \<times> 's drain_run" where
  "drainFails de e timeout x = (case runtimeDrainError de e timeout x of (err, x1) \<Rightarrow> (Some err, x1))"

definition finishDrain :: "'s drain_env \<Rightarrow> duration \<Rightarrow> 's drain_run \<Rightarrow> drain_error option \<times> 's drain_run" where
  "finishDrain de timeout x =
     (let x1 = interfere de x in
      case requestDrainStop (dx_state x1) of
        (False, s) \<Rightarrow> (Some (DrainError errRuntimeWorkerStoppedBeforeDrain), x1)
      | (True, s) \<Rightarrow>
          let x2 = interfere de (x1\<lparr>dx_state := s, dx_owned := True\<rparr>) in
          (case de_join de (dx_step x2) of
             None \<Rightarrow> (None, x2)
           | Some e \<Rightarrow> drainFails de e timeout x2))"

section \<open>The drain\<close>

definition idle :: "observation \<Rightarrow> bool" where
  "idle seen \<longleftrightarrow> ss_Empty (ob_Spool seen) \<and> ob_Active seen = 0 \<and> ob_Reservations seen = 0 \<and> ob_AssignmentOps seen = 0"

text \<open>
  One round of the loop: what it returns, or the latest answer to go on with. \<^term>\<open>None\<close> is a drain
  call that never returns.
\<close>

definition drainWait ::
  "'s drain_env \<Rightarrow> duration \<Rightarrow> drain_payload \<Rightarrow> 's drain_run \<Rightarrow> drain_error option \<times> 's drain_run + drain_payload \<times> 's drain_run" where
  "drainWait de timeout serverDrain x =
     (case waitRuntimeDrain de (25 * nanosMillisecond) x of
        (Some e, x1) \<Rightarrow> Inl (drainFails de e timeout x1)
      | (None, x1) \<Rightarrow> Inr (serverDrain, x1))"

definition drainRound ::
  "'s drain_env \<Rightarrow> duration \<Rightarrow> drain_payload \<Rightarrow> drain_payload \<Rightarrow> 's drain_run
   \<Rightarrow> (drain_error option \<times> 's drain_run + drain_payload \<times> 's drain_run) option" where
  "drainRound de timeout request serverDrain x =
     (case runtimeDrainStatus de x of
        (Inl e, x1) \<Rightarrow> Some (Inl (Some (DrainError e), x1))
      | (Inr seen, x1) \<Rightarrow>
          let x1 = x1\<lparr>dx_seen := dx_seen x1 @ [seen]\<rparr> in
          if idle seen then
            (case (if dr_Inflight serverDrain > 0 then requestRuntimeDrain de request 0 x1 else Some (Inr serverDrain, x1)) of
               None \<Rightarrow> None
             | Some (Inl e, x2) \<Rightarrow> Some (Inl (drainFails de e timeout x2))
             | Some (Inr serverDrain, x2) \<Rightarrow>
                 if dr_Inflight serverDrain > 0 then Some (drainWait de timeout serverDrain x2)
                 else Some (Inl (finishDrain de timeout x2)))
          else Some (drainWait de timeout serverDrain x1))"

partial_function (option) drainLoop ::
  "'s drain_env \<Rightarrow> duration \<Rightarrow> drain_payload \<Rightarrow> drain_payload \<Rightarrow> 's drain_run \<Rightarrow> (drain_error option \<times> 's drain_run) option" where
  "drainLoop de timeout request serverDrain run =
     (case drainRound de timeout request serverDrain run of
        None \<Rightarrow> None
      | Some (Inl r) \<Rightarrow> Some r
      | Some (Inr (serverDrain2, run2)) \<Rightarrow> drainLoop de timeout request serverDrain2 run2)"

definition performRuntimeDrain ::
  "'s drain_env \<Rightarrow> duration \<Rightarrow> string \<Rightarrow> 's drain_run \<Rightarrow> (drain_error option \<times> 's drain_run) option" where
  "performRuntimeDrain de timeout reasonCode x =
     (let x1 = interfere de x in
      case capacitySnapshot (de_node de) (dn_node (dx_state x1)) of
        ((capacity, inflight), nd) \<Rightarrow>
          let x2 = x1\<lparr>dx_state := (dx_state x1)\<lparr>dn_node := nd\<rparr>\<rparr>;
              request = \<lparr>dr_DeadlineAt = de_deadline de timeout, dr_ReasonCode = reasonCode, dr_Capacity = 0, dr_Inflight = inflight\<rparr>
          in (case requestRuntimeDrain de request 0 x2 of
                None \<Rightarrow> None
              | Some (Inl e, x3) \<Rightarrow> Some (drainFails de e timeout x3)
              | Some (Inr serverDrain, x3) \<Rightarrow> drainLoop de timeout request serverDrain x3))"

definition drainBegin :: "'s drain_run \<Rightarrow> 's drain_run" where
  "drainBegin x = x\<lparr>dx_state := (dx_state x)\<lparr>dn_node := setDraining True (dn_node (dx_state x)), dn_drain := DrainRunning\<rparr>\<rparr>"

definition drainEnd :: "drain_error option \<Rightarrow> 's drain_run \<Rightarrow> 's drain_run" where
  "drainEnd err x =
     (let s = (if err \<noteq> None then requestStop (dx_state x) else dx_state x)
      in x\<lparr>dx_state := s\<lparr>dn_drain := DrainFinished err\<rparr>\<rparr>)"

definition drain ::
  "'s drain_env \<Rightarrow> duration \<Rightarrow> string \<Rightarrow> 's drain_run \<Rightarrow> (drain_error option \<times> 's drain_run) option" where
  "drain de optTimeout optReason x =
     (let x0 = interfere de x in
      if dn_drain (dx_state x0) \<noteq> NoDrain then
        (let x1 = interfere de x0 in
         case de_join de (dx_step x0) of
           Some e \<Rightarrow> Some (Some (DrainError e), x1)
         | None \<Rightarrow> (case dn_drain (dx_state x1) of DrainFinished err \<Rightarrow> Some (err, x1) | _ \<Rightarrow> None))
      else case normalizeRuntimeDrainOptions optTimeout optReason of
        Inl e \<Rightarrow> Some (Some (DrainError e), x0)
      | Inr (timeout, reasonCode) \<Rightarrow>
          let x1 = interfere de x0 in
          if \<not> dn_started (dx_state x1) \<or> dn_completed (dx_state x1)
          then Some (Some (DrainError (TextError ''openlinker: Runtime Worker must be running before it can drain'')), x1)
          else (case performRuntimeDrain de timeout reasonCode (drainBegin (interfere de x1)) of
                  None \<Rightarrow> None
                | Some (err, x2) \<Rightarrow> Some (err, drainEnd err (interfere de x2))))"

section \<open>What a drain shows\<close>

definition fenced :: "'s drain_run \<Rightarrow> bool" where
  "fenced x \<longleftrightarrow> nd_draining (dn_node (dx_state x)) \<and> list_all id (dx_fences x)"

text \<open>Nothing but a new start opens admission again.\<close>

definition keepsFence :: "'s drain_env \<Rightarrow> bool" where
  "keepsFence de \<longleftrightarrow> (\<forall>n s. nd_draining (dn_node s) \<longrightarrow> nd_draining (dn_node (de_step de n s)))"

definition placid :: "'s drain_run \<Rightarrow> 's drain_run \<Rightarrow> bool" where
  "placid x y \<longleftrightarrow> dx_step x \<le> dx_step y \<and> dx_answers y = dx_answers x \<and> dx_seen y = dx_seen x
     \<and> dx_owned y = dx_owned x \<and> (fenced x \<longrightarrow> fenced y)"

lemma placid_refl [simp]: "placid x x" and placid_trans [trans]: "placid x y \<Longrightarrow> placid y z \<Longrightarrow> placid x z"
  by (auto simp: placid_def)

lemma interfere_placid: "keepsFence de \<Longrightarrow> placid x (interfere de x) \<and> dx_step (interfere de x) = Suc (dx_step x)"
  by (auto simp: placid_def interfere_def fenced_def keepsFence_def)

lemma status_placid: "keepsFence de \<Longrightarrow> runtimeDrainStatus de x = (r, y) \<Longrightarrow> placid x y \<and> dx_step x < dx_step y"
  using interfere_placid [of de x] interfere_placid [of de "interfere de x"]
  by (auto simp: runtimeDrainStatus_def Let_def split: if_splits sum.splits intro: placid_trans)

lemma fails_placid: "keepsFence de \<Longrightarrow> drainFails de e timeout x = (r, y) \<Longrightarrow> r \<noteq> None \<and> placid x y"
  by (auto simp: drainFails_def runtimeDrainError_def split: if_splits prod.splits sum.splits dest: status_placid)

lemma wait_placid: "keepsFence de \<Longrightarrow> waitRuntimeDrain de d x = (r, y) \<Longrightarrow> placid x y \<and> dx_step x < dx_step y"
  using interfere_placid [of de x] by (auto simp: waitRuntimeDrain_def Let_def split: drain_wait.splits)

lemma attachment_placid: "keepsFence de \<Longrightarrow> runtimeDrainAttachment de x = (r, y) \<Longrightarrow> placid x y \<and> dx_step x < dx_step y"
  using interfere_placid [of de x] interfere_placid [of de "interfere de x"]
  by (auto simp: runtimeDrainAttachment_def Let_def split: if_splits option.splits intro: placid_trans)

definition asked :: "go_error + drain_payload \<Rightarrow> 's drain_run \<Rightarrow> 's drain_run \<Rightarrow> bool" where
  "asked r x y \<longleftrightarrow> dx_step x < dx_step y \<and> dx_seen y = dx_seen x \<and> dx_owned y = dx_owned x \<and> (fenced x \<longrightarrow> fenced y)
     \<and> (case r of Inl e \<Rightarrow> True | Inr answer \<Rightarrow> dx_answers y = dx_answers x @ [answer] \<and> 0 \<le> dr_Inflight answer)"

lemma attempt_asked:
  assumes "keepsFence de" and "drainAttempt de request attached x = (r, y)"
  shows "dx_step x \<le> dx_step y \<and> dx_seen y = dx_seen x \<and> dx_owned y = dx_owned x \<and> (fenced x \<longrightarrow> fenced y)
    \<and> (case r of Some (Inr answer) \<Rightarrow> dx_answers y = dx_answers x @ [answer] \<and> 0 \<le> dr_Inflight answer
       | _ \<Rightarrow> dx_answers y = dx_answers x)"
  using assms interfere_placid [OF assms(1), of x]
  by (auto simp: drainAttempt_def Let_def placid_def fenced_def validateRuntimeDrain_def invalidMessage_def
      split: option.splits sum.splits if_splits prod.splits)

lemma request_asked:
  fixes de :: "'s drain_env"
  assumes "keepsFence de" and "requestRuntimeDrain de request attempt x = Some (r, y)"
  shows "asked r x y"
proof -
  have "keepsFence de \<longrightarrow> asked (fst (r, y)) x (snd (r, y))"
  proof (rule requestRuntimeDrain.raw_induct [where P = "\<lambda>(de :: 's drain_env) request attempt x p. keepsFence de \<longrightarrow> asked (fst p) x (snd p)",
        OF _ assms(2)], intro impI)
    fix f and de :: "'s drain_env" and request attempt x p
    assume IH: "\<And>de request attempt x p. f de request attempt x = Some p \<Longrightarrow> keepsFence de \<longrightarrow> asked (fst p) x (snd p)"
      and body: "(case runtimeDrainAttachment de x of
        ((attached, stopped), x1) \<Rightarrow>
          if stopped then Some (Inl errRuntimeWorkerStoppedBeforeDrain, x1)
          else (case drainAttempt de request attached x1 of
                  (None, x2) \<Rightarrow>
                    (case waitRuntimeDrain de (drainDelay de attempt) x2 of
                       (None, x3) \<Rightarrow> f de request (attempt + 1) x3
                     | (Some e, x3) \<Rightarrow> Some (Inl e, x3))
                | (Some r, x2) \<Rightarrow> Some (r, x2))) = Some p"
      and k: "keepsFence de"
    obtain attached stopped x1 where a: "runtimeDrainAttachment de x = ((attached, stopped), x1)" by (metis surj_pair)
    obtain t x2 where t: "drainAttempt de request attached x1 = (t, x2)" by (metis surj_pair)
    obtain w x3 where w: "waitRuntimeDrain de (drainDelay de attempt) x2 = (w, x3)" by (metis surj_pair)
    note step = attachment_placid [OF k a] attempt_asked [OF k t] wait_placid [OF k w]
    show "asked (fst p) x (snd p)"
    proof (cases "stopped \<or> t \<noteq> None \<or> w \<noteq> None")
      case True
      with body a t w step show ?thesis
        by (auto simp: asked_def placid_def split: if_splits option.splits sum.splits)
    next
      case False
      with body a t w have "f de request (attempt + 1) x3 = Some p" by (auto split: if_splits)
      with IH k have "asked (fst p) x3 (snd p)" by blast
      with False step show ?thesis by (auto simp: asked_def placid_def split: sum.splits)
    qed
  qed
  with assms(1) show ?thesis by simp
qed

definition proven :: "drain_error option \<Rightarrow> 's drain_run \<Rightarrow> bool" where
  "proven err y \<longleftrightarrow> err = None \<longrightarrow>
     dx_owned y \<and> dx_seen y \<noteq> [] \<and> idle (last (dx_seen y)) \<and> dx_answers y \<noteq> [] \<and> dr_Inflight (last (dx_answers y)) = 0"

definition trusted :: "drain_payload \<Rightarrow> 's drain_run \<Rightarrow> bool" where
  "trusted server x \<longleftrightarrow> dx_answers x \<noteq> [] \<and> last (dx_answers x) = server \<and> 0 \<le> dr_Inflight server"

text \<open>What a round owes: a returned success is proven, a further round has a trusted answer and a later step.\<close>

definition roundOk :: "'s drain_run \<Rightarrow> drain_error option \<times> 's drain_run + drain_payload \<times> 's drain_run \<Rightarrow> bool" where
  "roundOk x r =
     (case r of
        Inl (err, y) \<Rightarrow> (fenced x \<longrightarrow> fenced y) \<and> proven err y
      | Inr (server, y) \<Rightarrow> (fenced x \<longrightarrow> fenced y) \<and> trusted server y \<and> dx_step x < dx_step y)"

lemma finish_ok:
  assumes "keepsFence de" and "trusted server x" and "dx_seen x = seens @ [seen]" and "idle seen" and "\<not> dr_Inflight server > 0"
  shows "roundOk x (Inl (finishDrain de timeout x))"
proof -
  obtain err y where fin: "finishDrain de timeout x = (err, y)" by (metis surj_pair)
  let ?x1 = "interfere de x"
  note i1 = interfere_placid [OF assms(1), of x]
  show ?thesis
  proof (cases "requestDrainStop (dx_state ?x1)")
    case (Pair took s)
    let ?x2 = "?x1\<lparr>dx_state := s, dx_owned := True\<rparr>"
    have fence: "fenced ?x1 \<Longrightarrow> took \<Longrightarrow> fenced ?x2"
      using Pair by (auto simp: fenced_def requestDrainStop_def stopWorker_def setStopping_def split: if_splits)
    show ?thesis
    proof (cases took)
      case False
      with Pair i1 show ?thesis by (auto simp: finishDrain_def Let_def proven_def placid_def roundOk_def)
    next
      case True
      note i2 = interfere_placid [OF assms(1), of ?x2]
      show ?thesis
        using Pair True fence i1 i2 assms fin fails_placid [OF assms(1), of _ timeout "interfere de ?x2" err y]
        by (auto simp: finishDrain_def Let_def proven_def placid_def roundOk_def trusted_def split: option.splits)
    qed
  qed
qed

lemma fails_ok: "keepsFence de \<Longrightarrow> roundOk x (Inl (drainFails de e timeout x))"
  using fails_placid [of de e timeout x] by (cases "drainFails de e timeout x") (auto simp: roundOk_def placid_def proven_def)

lemma round_later: "roundOk y r \<Longrightarrow> (fenced x \<longrightarrow> fenced y) \<Longrightarrow> dx_step x \<le> dx_step y \<Longrightarrow> roundOk x r"
  by (auto simp: roundOk_def split: sum.splits)

lemma wait_ok:
  assumes "keepsFence de" and "trusted server x"
  shows "roundOk x (drainWait de timeout server x)"
proof (cases "waitRuntimeDrain de (25 * nanosMillisecond) x")
  case (Pair r x1)
  note w = wait_placid [OF assms(1) this]
  show ?thesis
  proof (cases r)
    case None
    with w Pair assms(2) show ?thesis by (auto simp: drainWait_def roundOk_def trusted_def placid_def)
  next
    case (Some e)
    have "roundOk x (Inl (drainFails de e timeout x1))"
      using w by (intro round_later [OF fails_ok [OF assms(1)]]) (auto simp: placid_def)
    with Some Pair show ?thesis by (simp add: drainWait_def)
  qed
qed

lemma round_ok:
  assumes k: "keepsFence de" and srv: "trusted serverDrain x" and r: "drainRound de timeout request serverDrain x = Some r"
  shows "roundOk x r"
proof (cases "runtimeDrainStatus de x")
  case (Pair st x1)
  note s = status_placid [OF k this]
  show ?thesis
  proof (cases st)
    case (Inl e)
    with r Pair s show ?thesis by (auto simp: drainRound_def roundOk_def proven_def placid_def)
  next
    case (Inr seen)
    let ?x1 = "x1\<lparr>dx_seen := dx_seen x1 @ [seen]\<rparr>"
    have x1: "fenced x \<longrightarrow> fenced ?x1" "dx_step x \<le> dx_step ?x1" "trusted serverDrain ?x1"
      using s srv by (auto simp: placid_def fenced_def trusted_def)
    show ?thesis
    proof (cases "idle seen")
      case False
      have "roundOk x (drainWait de timeout serverDrain ?x1)" by (rule round_later [OF wait_ok [OF k x1(3)] x1(1,2)])
      with r Pair Inr False show ?thesis by (auto simp: drainRound_def Let_def)
    next
      case True
      obtain q where "(if dr_Inflight serverDrain > 0 then requestRuntimeDrain de request 0 ?x1
          else Some (Inr serverDrain, ?x1)) = Some q"
        using r Pair Inr True
        by (cases "if dr_Inflight serverDrain > 0 then requestRuntimeDrain de request 0 ?x1 else Some (Inr serverDrain, ?x1)")
          (simp_all add: drainRound_def Let_def)
      then obtain answer x2 where a: "(if dr_Inflight serverDrain > 0 then requestRuntimeDrain de request 0 ?x1
          else Some (Inr serverDrain, ?x1)) = Some (answer, x2)" by (cases q) simp
      have x2: "dx_seen x2 = dx_seen x1 @ [seen]" "fenced x \<longrightarrow> fenced x2" "dx_step x \<le> dx_step x2"
        and t: "\<And>server. answer = Inr server \<Longrightarrow> trusted server x2"
        using a x1 request_asked [OF k, of request 0 ?x1 answer x2]
        by (auto simp: asked_def trusted_def split: if_splits sum.splits)
      have "roundOk x2 r"
      proof (cases answer)
        case (Inl e)
        with r Pair Inr True a fails_ok [OF k] show ?thesis by (auto simp: drainRound_def Let_def)
      next
        case (Inr server)
        note t = t [OF this]
        with r Pair \<open>st = Inr seen\<close> True a Inr finish_ok [OF k t x2(1) True] wait_ok [OF k t]
        show ?thesis by (auto simp: drainRound_def Let_def split: if_splits)
      qed
      then show ?thesis by (rule round_later [OF _ x2(2,3)])
    qed
  qed
qed

lemma loop_proven:
  fixes de :: "'s drain_env"
  assumes "keepsFence de" and "drainLoop de timeout request serverDrain x = Some p" and "trusted serverDrain x"
  shows "roundOk x (Inl p)"
proof -
  have "keepsFence de \<longrightarrow> trusted serverDrain x \<longrightarrow> roundOk x (Inl p)"
  proof (rule drainLoop.raw_induct [where P = "\<lambda>(de :: 's drain_env) timeout request serverDrain x p.
        keepsFence de \<longrightarrow> trusted serverDrain x \<longrightarrow> roundOk x (Inl p)", OF _ assms(2)], intro impI)
    fix f and de :: "'s drain_env" and timeout request serverDrain x p
    assume IH: "\<And>de timeout request serverDrain x p. f de timeout request serverDrain x = Some p \<Longrightarrow>
        keepsFence de \<longrightarrow> trusted serverDrain x \<longrightarrow> roundOk x (Inl p)"
      and body: "(case drainRound de timeout request serverDrain x of
        None \<Rightarrow> None | Some (Inl r) \<Rightarrow> Some r | Some (Inr (server, y)) \<Rightarrow> f de timeout request server y) = Some p"
      and k: "keepsFence de" and t: "trusted serverDrain x"
    obtain r where r: "drainRound de timeout request serverDrain x = Some r" using body by (auto split: option.splits)
    note ok = round_ok [OF k t r]
    show "roundOk x (Inl p)"
    proof (cases r)
      case (Inl q)
      with body r ok show ?thesis by simp
    next
      case (Inr q)
      obtain server y where q: "q = (server, y)" by (cases q)
      with body r Inr have "f de timeout request server y = Some p" by simp
      from IH [OF this] k ok Inr q have "roundOk y (Inl p)" by (simp add: roundOk_def)
      then show ?thesis by (rule round_later) (use ok q Inr in \<open>auto simp: roundOk_def\<close>)
    qed
  qed
  with assms show ?thesis by blast
qed

section \<open>A drain returns\<close>

text \<open>The deadline of the drain ends every wait from some moment on.\<close>

definition contextEnds :: "'s drain_env \<Rightarrow> nat \<Rightarrow> bool" where
  "contextEnds de N \<longleftrightarrow> (\<forall>n d. N \<le> n \<longrightarrow> (\<exists>e. de_wait de n d = ContextDone e))"

lemma wait_before: "contextEnds de N \<Longrightarrow> waitRuntimeDrain de d x = (None, y) \<Longrightarrow> dx_step x < N"
  unfolding contextEnds_def waitRuntimeDrain_def Let_def
  by (rule ccontr) (metis (no_types, lifting) drain_wait.simps(9) not_less option.distinct(1) prod.inject)

lemma request_returns:
  assumes "keepsFence de" and "contextEnds de N"
  shows "\<exists>p. requestRuntimeDrain de request attempt x = Some p"
proof (induction "N - dx_step x" arbitrary: attempt x rule: less_induct)
  case less
  obtain attached stopped x1 where a: "runtimeDrainAttachment de x = ((attached, stopped), x1)" by (metis surj_pair)
  obtain t x2 where t: "drainAttempt de request attached x1 = (t, x2)" by (metis surj_pair)
  obtain w x3 where w: "waitRuntimeDrain de (drainDelay de attempt) x2 = (w, x3)" by (metis surj_pair)
  show ?case
  proof (cases "stopped \<or> t \<noteq> None \<or> w \<noteq> None")
    case True
    with a t w show ?thesis by (subst requestRuntimeDrain.simps) (auto split: option.split)
  next
    case False
    then have "dx_step x2 < N" using w wait_before [OF assms(2)] by auto
    with attachment_placid [OF assms(1) a] attempt_asked [OF assms(1) t] wait_placid [OF assms(1) w]
    have "N - dx_step x3 < N - dx_step x" by auto
    from less [OF this, of "attempt + 1"] False a t w show ?thesis by (subst requestRuntimeDrain.simps) auto
  qed
qed

lemma round_returns:
  assumes "keepsFence de" and "contextEnds de N"
  shows "\<exists>r. drainRound de timeout request serverDrain x = Some r"
proof (cases "runtimeDrainStatus de x")
  case (Pair st x1)
  show ?thesis
  proof (cases st)
    case (Inl e)
    with Pair show ?thesis by (simp add: drainRound_def)
  next
    case (Inr seen)
    obtain answer x2 where "requestRuntimeDrain de request 0 (x1\<lparr>dx_seen := dx_seen x1 @ [seen]\<rparr>) = Some (answer, x2)"
      using request_returns [OF assms] by (metis surj_pair)
    with Pair Inr show ?thesis by (auto simp: drainRound_def Let_def split: sum.split)
  qed
qed

lemma round_before:
  assumes "keepsFence de" and "contextEnds de N" and "drainRound de timeout request serverDrain x = Some (Inr (server, y))"
  shows "dx_step x < N"
proof (cases "runtimeDrainStatus de x")
  case (Pair st x1)
  have wait: "dx_step z < N" if "drainWait de timeout s z = Inr q" for s z q
    using that wait_before [OF assms(2), of _ z] by (auto simp: drainWait_def split: prod.splits option.splits)
  have request: "dx_step z < dx_step z'" if "requestRuntimeDrain de request 0 z = Some (r, z')" for z r z'
    using request_asked [OF assms(1) that] by (simp add: asked_def)
  have x1: "dx_step x < dx_step x1" using status_placid [OF assms(1) Pair] by simp
  show ?thesis
    using assms(3) Pair x1 by (auto simp: drainRound_def Let_def split: sum.splits option.splits if_splits dest!: wait request)
qed

lemma loop_returns:
  assumes "keepsFence de" and "contextEnds de N"
  shows "trusted serverDrain x \<Longrightarrow> \<exists>p. drainLoop de timeout request serverDrain x = Some p"
proof (induction "N - dx_step x" arbitrary: serverDrain x rule: less_induct)
  case less
  obtain r where r: "drainRound de timeout request serverDrain x = Some r" using round_returns [OF assms] by blast
  show ?case
  proof (cases r)
    case (Inl q)
    with r show ?thesis by (subst drainLoop.simps) simp
  next
    case (Inr q)
    obtain server y where q: "q = (server, y)" by (cases q)
    with round_ok [OF assms(1) less(2) r] Inr have "trusted server y" "dx_step x < dx_step y" by (auto simp: roundOk_def)
    moreover have "dx_step x < N" using round_before [OF assms] r Inr q by blast
    ultimately obtain p where "drainLoop de timeout request server y = Some p"
      using less(1) [of y server] diff_less_mono2 by blast
    with r Inr q show ?thesis by (subst drainLoop.simps) simp
  qed
qed

lemma perform_ok:
  assumes "keepsFence de" and "contextEnds de N"
  shows "\<exists>p. performRuntimeDrain de timeout reasonCode x = Some p \<and> roundOk x (Inl p)"
proof -
  let ?x1 = "interfere de x"
  obtain capacity inflight nd where c: "capacitySnapshot (de_node de) (dn_node (dx_state ?x1)) = ((capacity, inflight), nd)"
    by (metis surj_pair)
  let ?x2 = "?x1\<lparr>dx_state := (dx_state ?x1)\<lparr>dn_node := nd\<rparr>\<rparr>"
  let ?request = "\<lparr>dr_DeadlineAt = de_deadline de timeout, dr_ReasonCode = reasonCode, dr_Capacity = 0, dr_Inflight = inflight\<rparr>"
  have "nd_draining nd = nd_draining (dn_node (dx_state ?x1))"
    using c by (auto simp: capacitySnapshot_def nodeCall_def Let_def split: prod.splits)
  then have x2: "fenced x \<longrightarrow> fenced ?x2" "dx_step x \<le> dx_step ?x2"
    using interfere_placid [OF assms(1), of x] by (auto simp: placid_def fenced_def)
  obtain answer x3 where a: "requestRuntimeDrain de ?request 0 ?x2 = Some (answer, x3)"
    using request_returns [OF assms] by (metis surj_pair)
  note asked = request_asked [OF assms(1) a]
  have x3: "fenced x \<longrightarrow> fenced x3" "dx_step x \<le> dx_step x3" using asked x2 by (auto simp: asked_def)
  show ?thesis
  proof (cases answer)
    case (Inl e)
    have "roundOk x (Inl (drainFails de e timeout x3))" by (rule round_later [OF fails_ok [OF assms(1)] x3])
    with Inl a c show ?thesis by (simp add: performRuntimeDrain_def Let_def)
  next
    case (Inr server)
    with asked have t: "trusted server x3" by (simp add: asked_def trusted_def)
    obtain p where p: "drainLoop de timeout ?request server x3 = Some p" using loop_returns [OF assms t] by blast
    have "roundOk x (Inl p)" by (rule round_later [OF loop_proven [OF assms(1) p t] x3])
    with Inr a c p show ?thesis by (simp add: performRuntimeDrain_def Let_def)
  qed
qed

text \<open>
  C16. A drain fences admission first, returns, and succeeds only when the work is gone. Whatever the
  other goroutines do between its critical sections, as long as none of them opens admission again,
  and whatever the platform answers: the drain returns once its deadline ends its waits; admission
  was closed at every drain call it made; if it reports success, the last thing it observed locally
  was an empty spool with no handler, reservation or assignment under way, the last answer of the
  platform says that no run is in flight, and the drain itself, not another stop, ended the worker;
  if it fails after a drain call, the worker is left stopping and admits nothing.
\<close>

theorem drain_success_is_proven:
  assumes "keepsFence de" and "contextEnds de N" and "dn_drain (dx_state (interfere de x)) = NoDrain"
    and "dx_fences x = []"
  shows "\<exists>err y. drain de optTimeout optReason x = Some (err, y) \<and> list_all id (dx_fences y)
    \<and> (err = None \<longrightarrow> dx_owned y \<and> dx_seen y \<noteq> [] \<and> idle (last (dx_seen y))
        \<and> dx_answers y \<noteq> [] \<and> dr_Inflight (last (dx_answers y)) = 0)
    \<and> (err \<noteq> None \<and> dx_fences y \<noteq> [] \<longrightarrow> nd_stopping (dn_node (dx_state y)) \<and> nd_draining (dn_node (dx_state y)))"
proof -
  let ?x0 = "interfere de x" and ?x1 = "interfere de (interfere de x)"
  let ?b = "drainBegin (interfere de ?x1)"
  have none: "dx_fences ?x0 = []" "dx_fences ?x1 = []" using assms(4) by (simp_all add: interfere_def)
  have begun: "fenced ?b" using assms(4) by (simp add: fenced_def drainBegin_def setDraining_def interfere_def)
  show ?thesis
  proof (cases "normalizeRuntimeDrainOptions optTimeout optReason")
    case (Inl e)
    with assms(3) none show ?thesis by (simp add: drain_def Let_def)
  next
    case (Inr options)
    obtain timeout reasonCode where o: "options = (timeout, reasonCode)" by (cases options)
    show ?thesis
    proof (cases "\<not> dn_started (dx_state ?x1) \<or> dn_completed (dx_state ?x1)")
      case True
      with Inr o assms(3) none show ?thesis by (simp add: drain_def Let_def)
    next
      case False
      obtain err z where p: "performRuntimeDrain de timeout reasonCode ?b = Some (err, z)" and ok: "roundOk ?b (Inl (err, z))"
        using perform_ok [OF assms(1,2)] by (metis surj_pair)
      have z: "fenced (interfere de z)" "proven err (interfere de z)"
        using ok begun interfere_placid [OF assms(1), of z] by (auto simp: roundOk_def placid_def proven_def)
      have "drain de optTimeout optReason x = Some (err, drainEnd err (interfere de z))"
        using Inr o False p assms(3) by (simp add: drain_def Let_def)
      then show ?thesis using z
        by (auto simp: drainEnd_def fenced_def proven_def requestStop_def stopWorker_def setStopping_def Let_def)
    qed
  qed
qed

section \<open>A drain that succeeds\<close>

definition drained_run :: "store drain_run" where
  "drained_run = \<lparr>dx_state = \<lparr>dn_node = sample_node\<lparr>nd_worker := appended_worker\<lparr>wk_active := []\<rparr>\<rparr>, dn_started = True,
       dn_completed = False, dn_stopRequested = False, dn_drainOwnsStop = False, dn_ready = True, dn_client = Some True,
       dn_store = True, dn_drain = NoDrain\<rparr>, dx_step = 0, dx_answers = [], dx_seen = [], dx_fences = [], dx_owned = False\<rparr>"

definition drain_answer :: drain_payload where
  "drain_answer = \<lparr>dr_DeadlineAt = 1, dr_ReasonCode = ''x'', dr_Capacity = 0, dr_Inflight = 0\<rparr>"

definition drained_session :: runtime_identity where
  "drained_session = \<lparr>ri_WorkerID = ''worker'', ri_RuntimeSessionID = ''11111111-1111-4111-8111-111111111116'', ri_SessionEpoch = 1\<rparr>"

definition quiet_drain :: "store drain_env" where
  "quiet_drain = \<lparr>de_node = foreign_env\<lparr>ne_worker := cut_off_env\<lparr>we_store := (we_store cut_off_env)\<lparr>sto_Identity := \<lambda>s. drained_session\<rparr>\<rparr>\<rparr>,
     de_policy = sample_worker, de_step = (\<lambda>n s. s), de_provider = Some (\<lambda>s. Inr emptySpool),
     de_call = (\<lambda>n session request. Inr (Some drain_answer)),
     de_wait = (\<lambda>n d. ContextDone ContextCanceled), de_join = (\<lambda>n. None), de_deadline = (\<lambda>d. 1)\<rparr>"

lemma quiet_drain_ok: "keepsFence quiet_drain" "contextEnds quiet_drain 0" "dn_drain (dx_state (interfere quiet_drain drained_run)) = NoDrain"
  by (simp_all add: keepsFence_def contextEnds_def interfere_def quiet_drain_def drained_run_def)

lemma quiet_interfere [simp]: "interfere quiet_drain x = x\<lparr>dx_step := Suc (dx_step x)\<rparr>"
  by (simp add: interfere_def quiet_drain_def)

definition drainable :: "'s drain_run \<Rightarrow> bool" where
  "drainable x \<longleftrightarrow> dn_started (dx_state x) \<and> \<not> dn_stopRequested (dx_state x) \<and> \<not> dn_completed (dx_state x)
     \<and> dn_client (dx_state x) = Some True \<and> dn_ready (dx_state x) \<and> dn_store (dx_state x)
     \<and> wk_active (nd_worker (dn_node (dx_state x))) = [] \<and> nd_reservations (dn_node (dx_state x)) = []
     \<and> nd_assignmentOps (dn_node (dx_state x)) = 0"

lemma quiet_request:
  assumes "drainable x"
  shows "\<exists>y. requestRuntimeDrain quiet_drain request n x = Some (Inr drain_answer, y) \<and> drainable y"
proof -
  have facts: "runtimeUUID (ri_RuntimeSessionID drained_session)" "validateRuntimeDrain drain_answer = None" by code_simp+
  have env: "sto_Identity (nodeStore (de_node quiet_drain)) = (\<lambda>s. drained_session)"
    "de_call quiet_drain = (\<lambda>n session request. Inr (Some drain_answer))" by (simp_all add: quiet_drain_def)
  show ?thesis using assms facts
    by (subst requestRuntimeDrain.simps) (simp add: drainable_def runtimeDrainAttachment_def drainAttempt_def env Let_def)
qed

lemma quiet_loop:
  assumes "drainable x"
  shows "\<exists>y. drainLoop quiet_drain timeout request drain_answer x = Some (None, y)"
proof -
  have env: "de_provider quiet_drain = Some (\<lambda>s. Inr emptySpool)" "de_join quiet_drain = (\<lambda>n. None)" by (simp_all add: quiet_drain_def)
  show ?thesis using assms
    by (subst drainLoop.simps)
      (simp add: drainRound_def runtimeDrainStatus_def runtimeStoreSpoolStatus_def finishDrain_def requestDrainStop_def
        drainable_def idle_def emptySpool_def drain_answer_def env Let_def)
qed

lemma quiet_perform:
  assumes "drainable x"
  shows "\<exists>y. performRuntimeDrain quiet_drain timeout reason x = Some (None, y)"
proof -
  let ?x1 = "interfere quiet_drain x"
  obtain capacity inflight nd where c: "capacitySnapshot (de_node quiet_drain) (dn_node (dx_state ?x1)) = ((capacity, inflight), nd)"
    by (metis surj_pair)
  let ?x2 = "?x1\<lparr>dx_state := (dx_state ?x1)\<lparr>dn_node := nd\<rparr>\<rparr>"
  let ?request = "\<lparr>dr_DeadlineAt = de_deadline quiet_drain timeout, dr_ReasonCode = reason, dr_Capacity = 0, dr_Inflight = inflight\<rparr>"
  have "drainable ?x2"
    using c assms by (auto simp: drainable_def capacitySnapshot_def nodeCall_def storeCall_def takeTurn_def Let_def split: prod.splits)
  then obtain z where z: "requestRuntimeDrain quiet_drain ?request 0 ?x2 = Some (Inr drain_answer, z)" "drainable z"
    using quiet_request by blast
  obtain y where "drainLoop quiet_drain timeout ?request drain_answer z = Some (None, y)" using quiet_loop [OF z(2)] by blast
  with c z(1) have "performRuntimeDrain quiet_drain timeout reason x = Some (None, y)"
    by (simp add: performRuntimeDrain_def Let_def del: quiet_interfere)
  then show ?thesis by blast
qed

lemma quiet_drain_succeeds: "\<exists>y. drain quiet_drain 0 [] drained_run = Some (None, y)"
proof -
  have options: "normalizeRuntimeDrainOptions 0 [] = Inr (10000000000, ''SDK_GRACEFUL_SHUTDOWN'')" by code_simp
  let ?x = "drainBegin (interfere quiet_drain (interfere quiet_drain (interfere quiet_drain drained_run)))"
  have "drainable ?x" by (simp add: drainable_def drainBegin_def setDraining_def drained_run_def sample_node_def)
  then obtain y where y: "performRuntimeDrain quiet_drain 10000000000 ''SDK_GRACEFUL_SHUTDOWN'' ?x = Some (None, y)"
    using quiet_perform by blast
  have s: "dn_started (dx_state (interfere quiet_drain (interfere quiet_drain drained_run)))"
    "\<not> dn_completed (dx_state (interfere quiet_drain (interfere quiet_drain drained_run)))" by (simp_all add: drained_run_def)
  show ?thesis using options quiet_drain_ok(3) y s by (simp add: drain_def Let_def del: quiet_interfere)
qed

theorem drain_success_is_proven_witness:
  "\<exists>y. drain quiet_drain 0 [] drained_run = Some (None, y) \<and> idle (last (dx_seen y))
     \<and> dr_Inflight (last (dx_answers y)) = 0 \<and> dx_owned y \<and> list_all id (dx_fences y)"
proof -
  obtain y where y: "drain quiet_drain 0 [] drained_run = Some (None, y)" using quiet_drain_succeeds by blast
  have "dx_fences drained_run = []" by (simp add: drained_run_def)
  from drain_success_is_proven [OF quiet_drain_ok this, of 0 "[]"] y show ?thesis by auto
qed

end
