(* ===== verification/Go_Scanner.thy ===== *)
theory Go_Scanner
  imports Go_Strings Store_Errors
begin

text \<open>
  Prefixes and suffixes of strings, and the lines that \<^verbatim>\<open>bufio.Scanner\<close> delivers of a body, with the
  limit of its buffer. The lemmas show that it undoes the writing of lines.
\<close>

definition trimPrefix :: "string \<Rightarrow> string \<Rightarrow> string" where
  "trimPrefix s pre = (if isPrefix pre s then drop (length pre) s else s)"

definition trimSuffix :: "string \<Rightarrow> string \<Rightarrow> string" where
  "trimSuffix s suffix = (if hasSuffix s suffix then take (length s - length suffix) s else s)"

section \<open>Lines\<close>

definition dropCR :: "string \<Rightarrow> string" where
  "dropCR line = trimSuffix line [CHR 0x0D]"

definition errTooLong :: go_error where
  "errTooLong = TextError ''bufio.Scanner: token too long''"

text \<open>
  The lines of a body and the error of the scanner. A line that does not fit the buffer with its
  newline is an error; the last line needs no newline, and fills the buffer only when its end is
  known from the same read.
\<close>

function scanLines :: "nat \<Rightarrow> bool \<Rightarrow> bytes \<Rightarrow> go_error option \<Rightarrow> string list \<times> go_error option" where
  "scanLines maxTokenSize together body err =
     (let line = takeWhile (\<lambda>c. c \<noteq> CHR 0x0A) body; n = length line in
      if n < length body then
        (if n \<ge> maxTokenSize then ([], Some errTooLong)
         else let (lines, e) = scanLines maxTokenSize together (drop (n + 1) body) err in (dropCR line # lines, e))
      else if n = 0 then ([], err)
      else if n > maxTokenSize \<or> (n = maxTokenSize \<and> \<not> together) then ([], Some errTooLong)
      else ([dropCR line], err))"
  by auto
termination by (relation "measure (\<lambda>(m, t, body, e). length body)") auto

declare scanLines.simps [simp del]

definition newlined :: "string list \<Rightarrow> bytes" where
  "newlined ls = concat (map (\<lambda>l. l @ [CHR 0x0A]) ls)"

definition plainLine :: "nat \<Rightarrow> string \<Rightarrow> bool" where
  "plainLine m l \<longleftrightarrow> CHR 0x0A \<notin> set l \<and> \<not> hasSuffix l [CHR 0x0D] \<and> length l < m"

lemma takeWhile_line: "CHR 0x0A \<notin> set l \<Longrightarrow> takeWhile (\<lambda>c. c \<noteq> CHR 0x0A) (l @ CHR 0x0A # rest) = l"
  by (induction l) auto

lemma dropCR_plain: "\<not> hasSuffix l [CHR 0x0D] \<Longrightarrow> dropCR l = l"
  by (simp add: dropCR_def trimSuffix_def)

lemma scanLines_line:
  "plainLine m l \<Longrightarrow> scanLines m t (l @ CHR 0x0A # rest) err = (let (ls, e) = scanLines m t rest err in (l # ls, e))"
  by (subst scanLines.simps)
    (simp add: Let_def takeWhile_line dropCR_plain plainLine_def del: takeWhile_append)

lemma scanLines_newlined:
  "list_all (plainLine m) ls \<Longrightarrow>
   scanLines m t (newlined ls @ rest) err = (ls @ fst (scanLines m t rest err), snd (scanLines m t rest err))"
  by (induction ls) (simp_all add: newlined_def scanLines_line split_def)

lemma scanLines_nothing: "scanLines m t [] err = ([], err)"
  by (subst scanLines.simps) simp

lemma scanLines_last:
  assumes "CHR 0x0A \<notin> set l" and "length l < m"
  shows "scanLines m t l err = (if l = [] then [] else [dropCR l], err)"
proof -
  have whole: "takeWhile (\<lambda>c. c \<noteq> CHR 0x0A) l = l" using assms(1) by (auto simp: takeWhile_eq_all_conv)
  show ?thesis by (subst scanLines.simps, unfold whole) (use assms(2) in \<open>simp add: Let_def\<close>)
qed

lemma hasSuffix_single: "hasSuffix l [c] \<longleftrightarrow> l \<noteq> [] \<and> last l = c"
  by (cases l rule: rev_cases) (auto simp: hasSuffix_def)

lemma newlined_append: "newlined (xs @ ys) = newlined xs @ newlined ys"
  by (simp add: newlined_def)

lemma newlined_cut:
  "x @ y = newlined ls \<Longrightarrow> y \<noteq> [] \<Longrightarrow> \<exists>ms l m rs. ls = ms @ m # rs \<and> x = newlined ms @ l \<and> isPrefix l m"
proof (induction ls arbitrary: x)
  case (Cons k ls)
  show ?case
  proof (cases "length x \<le> length k")
    case True
    have "x @ y = k @ CHR 0x0A # newlined ls" using Cons.prems(1) by (simp add: newlined_def)
    with True have "isPrefix x k" by (auto simp: append_eq_append_conv2 isPrefix_iff)
    moreover have "k # ls = [] @ k # ls" "x = newlined [] @ x" by (simp_all add: newlined_def)
    ultimately show ?thesis by blast
  next
    case False
    then obtain x' where x': "x = (k @ [CHR 0x0A]) @ x'" "x' @ y = newlined ls"
      using Cons.prems(1) by (auto simp: newlined_def append_eq_append_conv2 append_eq_Cons_conv)
    from Cons.IH [OF x'(2) Cons.prems(2)] obtain ms l m rs
      where "ls = ms @ m # rs" "x' = newlined ms @ l" "isPrefix l m" by blast
    then have "k # ls = (k # ms) @ m # rs" "x = newlined (k # ms) @ l" "isPrefix l m" using x'(1) by (simp_all add: newlined_def)
    then show ?thesis by blast
  qed
qed (simp add: newlined_def)

end
