(* ===== verification/Client_Url.thy ===== *)
theory Client_Url
  imports Go_Scanner Go_Format
begin

text \<open>
  The URLs of the platform client (client.go: \<^verbatim>\<open>endpoint\<close>, \<^verbatim>\<open>normalizeBaseURL\<close>, the query setters)
  over what \<^verbatim>\<open>net/url\<close> does: escaping by mode, \<^verbatim>\<open>EscapedPath\<close>, \<^verbatim>\<open>URL.String\<close> and \<^verbatim>\<open>Values.Encode\<close>.
  \<^verbatim>\<open>url.Parse\<close> is a parameter; a parsed URL keeps its fragment as the text that is printed.
  The lemmas show what a path segment that the client escaped becomes on the wire.
\<close>

section \<open>Escaping\<close>

datatype escape_mode = EncodePath | EncodePathSegment | EncodeHost | EncodeQueryComponent

definition alnumByte :: "char \<Rightarrow> bool" where
  "alnumByte c \<longleftrightarrow> smallByte c \<or> upperByte c \<or> digitByte c"

definition shouldEscape :: "char \<Rightarrow> escape_mode \<Rightarrow> bool" where
  "shouldEscape c mode =
     (if alnumByte c then False
      else if mode = EncodeHost \<and> c \<in> set ''!$&()*+,;=:[]<>'' \<union> {CHR 0x22, CHR 0x27} then False
      else if c \<in> set ''-_.~'' then False
      else if c \<in> set ''$&+,/:;=?@'' then
        (case mode of
           EncodePath \<Rightarrow> c = CHR ''?''
         | EncodePathSegment \<Rightarrow> c \<in> set ''/;,?''
         | EncodeHost \<Rightarrow> True
         | EncodeQueryComponent \<Rightarrow> True)
      else True)"

definition upperHex :: "nat \<Rightarrow> char" where
  "upperHex n = ''0123456789ABCDEF'' ! n"

definition urlEscapeByte :: "escape_mode \<Rightarrow> char \<Rightarrow> string" where
  "urlEscapeByte mode c =
     (if c = CHR '' '' \<and> mode = EncodeQueryComponent then ''+''
      else if shouldEscape c mode then [CHR ''%'', upperHex (code c div 16), upperHex (code c mod 16)]
      else [c])"

definition urlEscape :: "escape_mode \<Rightarrow> string \<Rightarrow> string" where
  "urlEscape mode s = concat (map (urlEscapeByte mode) s)"

definition urlPathEscape :: "string \<Rightarrow> string" where
  "urlPathEscape s = urlEscape EncodePathSegment s"

text \<open>Undoing the escapes of a path: \<^term>\<open>None\<close> for an invalid escape.\<close>

fun pathUnescape :: "string \<Rightarrow> string option" where
  "pathUnescape [] = Some []"
| "pathUnescape (c # rest) =
     (if c \<noteq> CHR ''%'' then map_option ((#) c) (pathUnescape rest)
      else case rest of
        a # b # tail \<Rightarrow>
          (case (hexVal a, hexVal b) of
             (Some h, Some l) \<Rightarrow> map_option ((#) (char_of (16 * h + l))) (pathUnescape (drop 2 rest))
           | _ \<Rightarrow> None)
      | _ \<Rightarrow> None)"

definition validEncoded :: "string \<Rightarrow> bool" where
  "validEncoded s \<longleftrightarrow>
     list_all (\<lambda>c. c \<in> set ''!$&()*+,;=:@[]%'' \<union> {CHR 0x27} \<or> \<not> shouldEscape c EncodePath) s"

section \<open>URLs\<close>

record go_url =
  u_Scheme :: string
  u_User :: "string option"    \<comment> \<open>as \<^verbatim>\<open>Userinfo.String\<close> writes it\<close>
  u_Host :: string
  u_Path :: string
  u_RawPath :: string
  u_ForceQuery :: bool
  u_RawQuery :: string
  u_Fragment :: string         \<comment> \<open>as \<^verbatim>\<open>EscapedFragment\<close> writes it\<close>

definition escapedPath :: "go_url \<Rightarrow> string" where
  "escapedPath u =
     (if u_RawPath u \<noteq> [] \<and> validEncoded (u_RawPath u) \<and> pathUnescape (u_RawPath u) = Some (u_Path u) then u_RawPath u
      else if u_Path u = ''*'' then ''*''
      else urlEscape EncodePath (u_Path u))"

text \<open>\<^verbatim>\<open>URL.String\<close> of a URL with a scheme, parsed from a text with an authority.\<close>

definition urlAuthority :: "go_url \<Rightarrow> string" where
  "urlAuthority u =
     (if u_Host u \<noteq> [] \<or> u_Path u \<noteq> [] \<or> u_User u \<noteq> None
      then ''//'' @ (case u_User u of None \<Rightarrow> [] | Some ui \<Rightarrow> ui @ ''@'') @ urlEscape EncodeHost (u_Host u)
      else [])"

definition urlString :: "go_url \<Rightarrow> string" where
  "urlString u =
     u_Scheme u @ '':'' @ urlAuthority u
     @ (if escapedPath u \<noteq> [] \<and> hd (escapedPath u) \<noteq> CHR ''/'' \<and> u_Host u \<noteq> [] then ''/'' else [])
     @ escapedPath u
     @ (if u_ForceQuery u \<or> u_RawQuery u \<noteq> [] then ''?'' @ u_RawQuery u else [])
     @ (if u_Fragment u \<noteq> [] then ''#'' @ u_Fragment u else [])"

section \<open>Queries\<close>

type_synonym url_values = "(string, string list) gomap"

definition valuesSet :: "string \<Rightarrow> string \<Rightarrow> url_values \<Rightarrow> url_values" where
  "valuesSet k v q = AList.update k [v] q"

text \<open>\<^verbatim>\<open>Values.Encode\<close> visits the keys in the order of their bytes.\<close>

fun bytesLess :: "string \<Rightarrow> string \<Rightarrow> bool" where
  "bytesLess xs [] = False"
| "bytesLess [] (y # ys) = True"
| "bytesLess (x # xs) (y # ys) = (if code x = code y then bytesLess xs ys else code x < code y)"

fun insertKey :: "string \<times> 'a \<Rightarrow> (string \<times> 'a) list \<Rightarrow> (string \<times> 'a) list" where
  "insertKey p [] = [p]"
| "insertKey p (q # qs) = (if bytesLess (fst q) (fst p) then q # insertKey p qs else p # q # qs)"

definition sortKeys :: "(string \<times> 'a) list \<Rightarrow> (string \<times> 'a) list" where
  "sortKeys ps = foldr insertKey ps []"

definition encodeValues :: "url_values \<Rightarrow> string" where
  "encodeValues q =
     joinWith (CHR ''&'') (concat (map (\<lambda>(k, vs). map (\<lambda>v. urlEscape EncodeQueryComponent k @ ''='' @ urlEscape EncodeQueryComponent v) vs)
       (sortKeys q)))"

definition setQuery :: "string \<Rightarrow> string \<Rightarrow> url_values \<Rightarrow> url_values" where
  "setQuery key v query = (if trimSpace v \<noteq> [] then valuesSet key v query else query)"

definition setQueryInt :: "string \<Rightarrow> int \<Rightarrow> url_values \<Rightarrow> url_values" where
  "setQueryInt key v query = (if v > 0 then valuesSet key (formatInt v) query else query)"

definition setQueryInt32 :: "string \<Rightarrow> int \<Rightarrow> url_values \<Rightarrow> url_values" where
  "setQueryInt32 key v query = (if v > 0 then valuesSet key (formatInt v) query else query)"

section \<open>Endpoints\<close>

definition trimLeftSlash :: "string \<Rightarrow> string" where
  "trimLeftSlash s = dropWhile (\<lambda>c. c = CHR ''/'') s"

definition trimRightSlash :: "string \<Rightarrow> string" where
  "trimRightSlash s = rev (dropWhile (\<lambda>c. c = CHR ''/'') (rev s))"

definition normalizeBaseURL :: "string \<Rightarrow> string" where
  "normalizeBaseURL raw = trimSuffix (trimRightSlash (trimSpace raw)) ''/api/v1''"

definition isAbsoluteURL :: "string \<Rightarrow> bool" where
  "isAbsoluteURL raw \<longleftrightarrow> isPrefix ''http://'' raw \<or> isPrefix ''https://'' raw"

definition endpointURL :: "(string \<Rightarrow> go_error + go_url) \<Rightarrow> go_url \<Rightarrow> string \<Rightarrow> url_values \<Rightarrow> go_url" where
  "endpointURL parse baseURL path query =
     (let relative = (let normalizedPath = trimPrefix (trimLeftSlash path) ''api/v1/'' in
            baseURL\<lparr>u_Path := trimRightSlash (u_Path baseURL) @ ''/api/v1/'' @ normalizedPath,
              u_RawQuery := encodeValues query\<rparr>)
      in if isAbsoluteURL path
         then case parse path of Inr u \<Rightarrow> u\<lparr>u_RawQuery := encodeValues query\<rparr> | Inl e \<Rightarrow> relative
         else relative)"

definition endpoint :: "(string \<Rightarrow> go_error + go_url) \<Rightarrow> go_url \<Rightarrow> string \<Rightarrow> url_values \<Rightarrow> string" where
  "endpoint parse baseURL path query = urlString (endpointURL parse baseURL path query)"

section \<open>What the server decodes\<close>

lemma hexVal_upperHex:
  assumes "n < 16"
  shows "hexVal (upperHex n) = Some n"
proof -
  have "list_all (\<lambda>k. hexVal (upperHex k) = Some k) [0..<16]" by code_simp
  with assms show ?thesis by (simp add: list_all_iff)
qed

lemma percent_escaped: "shouldEscape (CHR ''%'') mode"
  by (simp add: shouldEscape_def alnumByte_def smallByte_def upperByte_def digitByte_def code_def)

lemma unescape_byte:
  "mode \<noteq> EncodeQueryComponent \<Longrightarrow> pathUnescape (urlEscapeByte mode c @ s) = map_option ((#) c) (pathUnescape s)"
  using percent_escaped [of mode] code_less_256 [of c]
  by (auto simp: urlEscapeByte_def hexVal_upperHex less_mult_imp_div_less)

lemma unescape_escape: "mode \<noteq> EncodeQueryComponent \<Longrightarrow> pathUnescape (urlEscape mode s) = Some s"
  by (induction s) (simp_all add: urlEscape_def unescape_byte)

lemma served_path: "pathUnescape (escapedPath u) = Some (u_Path u)"
  by (auto simp: escapedPath_def unescape_escape)

lemma urlEscape_same_iff: "urlEscape EncodePathSegment s = s \<longleftrightarrow> list_all (\<lambda>c. \<not> shouldEscape c EncodePathSegment) s"
proof (induction s)
  case (Cons c s)
  have len: "length s \<le> length (urlEscape EncodePathSegment s)" for s
    by (induction s) (auto simp: urlEscape_def urlEscapeByte_def)
  show ?case
  proof (cases "shouldEscape c EncodePathSegment")
    case True
    then have "length (urlEscape EncodePathSegment (c # s)) = 3 + length (urlEscape EncodePathSegment s)"
      by (simp add: urlEscape_def urlEscapeByte_def)
    moreover have "length (c # s) = 1 + length s" by simp
    ultimately have "urlEscape EncodePathSegment (c # s) \<noteq> c # s" using len [of s] by fastforce
    with True show ?thesis by simp
  next
    case False
    with Cons show ?thesis by (simp add: urlEscape_def urlEscapeByte_def)
  qed
qed (simp add: urlEscape_def)

lemma relative_path:
  assumes "hd path \<noteq> CHR ''/''" and "path \<noteq> []" and "\<not> isPrefix ''api/v1/'' path"
  shows "u_Path (endpointURL parse baseURL (CHR ''/'' # path) query) = trimRightSlash (u_Path baseURL) @ ''/api/v1/'' @ path"
proof -
  have "trimLeftSlash (CHR ''/'' # path) = path" using assms(1,2) by (cases path) (simp_all add: trimLeftSlash_def)
  with assms(3) show ?thesis by (simp add: endpointURL_def isAbsoluteURL_def trimPrefix_def Let_def)
qed

text \<open>
  C38. The path of a request for a run or an agent is escaped twice: the client escapes the
  identifier and puts the escaped text where the URL expects the plain path, which is escaped
  again when the URL is printed. Whatever the base URL, the path that a server decodes holds the
  escaped identifier in place of the identifier, and the two are equal exactly when no byte of the
  identifier needs escaping.
\<close>

theorem path_identifier_is_escaped_twice:
  "pathUnescape (escapedPath (endpointURL parse baseURL (''/runs/'' @ urlPathEscape runID @ suffix) query)) =
     Some (trimRightSlash (u_Path baseURL) @ ''/api/v1/runs/'' @ urlPathEscape runID @ suffix)
   \<and> pathUnescape (escapedPath (endpointURL parse baseURL (''/agents/'' @ urlPathEscape runID @ suffix) query)) =
     Some (trimRightSlash (u_Path baseURL) @ ''/api/v1/agents/'' @ urlPathEscape runID @ suffix)
   \<and> (urlPathEscape runID = runID \<longleftrightarrow> list_all (\<lambda>c. \<not> shouldEscape c EncodePathSegment) runID)"
  using relative_path [of "''runs/'' @ urlPathEscape runID @ suffix" parse baseURL query]
    relative_path [of "''agents/'' @ urlPathEscape runID @ suffix" parse baseURL query]
  by (simp add: served_path urlPathEscape_def urlEscape_same_iff)

end
