(* ===== verification/Client_Http.thy ===== *)
theory Client_Http
  imports Client_Url Platform_Client
begin

text \<open>
  The platform client (client.go): its construction from options, the headers of a request, the
  bounded reading of a response and the error built from it. The HTTP exchange, \<^verbatim>\<open>url.Parse\<close>, JSON
  decoding and the clock are parameters; a request body comes encoded or with its encoding error.
  A log of the requests sent so far is threaded through, and the exchange may depend on it.
\<close>

section \<open>Headers\<close>

type_synonym header = "(string, string list) gomap"

definition validHeaderFieldByte :: "char \<Rightarrow> bool" where
  "validHeaderFieldByte c \<longleftrightarrow> alnumByte c \<or> c \<in> set ''!#$%&*+-.^_`|~'' \<union> {CHR 0x27}"

definition upperOf :: "char \<Rightarrow> char" where
  "upperOf c = (if smallByte c then char_of (code c - 32) else c)"

fun canonicalKeyLoop :: "bool \<Rightarrow> string \<Rightarrow> string" where
  "canonicalKeyLoop upper [] = []"
| "canonicalKeyLoop upper (c # cs) =
     (let d = (if upper then upperOf c else lowerByte c) in d # canonicalKeyLoop (d = CHR ''-'') cs)"

definition canonicalHeaderKey :: "string \<Rightarrow> string" where
  "canonicalHeaderKey s = (if list_all validHeaderFieldByte s then canonicalKeyLoop True s else s)"

definition headerSet :: "string \<Rightarrow> string \<Rightarrow> header \<Rightarrow> header" where
  "headerSet key v h = AList.update (canonicalHeaderKey key) [v] h"

definition headerValues :: "string \<Rightarrow> header \<Rightarrow> string list" where
  "headerValues key h = (case map_of h (canonicalHeaderKey key) of None \<Rightarrow> [] | Some vs \<Rightarrow> vs)"

definition headerAdd :: "string \<Rightarrow> string \<Rightarrow> header \<Rightarrow> header" where
  "headerAdd key v h = AList.update (canonicalHeaderKey key) (headerValues key h @ [v]) h"

definition headerDel :: "string \<Rightarrow> header \<Rightarrow> header" where
  "headerDel key h = AList.delete (canonicalHeaderKey key) h"

definition headerGet :: "string \<Rightarrow> header \<Rightarrow> string" where
  "headerGet key h = (case headerValues key h of [] \<Rightarrow> [] | v # vs \<Rightarrow> v)"

fun firstHeader :: "header \<Rightarrow> string list \<Rightarrow> string" where
  "firstHeader headers [] = []"
| "firstHeader headers (name # names) =
     (let v = headerGet name headers in if v \<noteq> [] then v else firstHeader headers names)"

section \<open>The client\<close>

record platform_client =
  c_baseURL :: go_url
  c_httpClient :: nat      \<comment> \<open>which \<^verbatim>\<open>http.Client\<close>; 0 is the default one\<close>
  c_userToken :: string
  c_agentToken :: string
  c_sdkAgent :: string
  c_headers :: header
  c_runtime :: bool

datatype client_option =
    WithHTTPClient "nat option"
  | WithUserToken string
  | WithAgentToken string
  | WithSDKAgent string
  | WithHeader string string

definition applyOption :: "client_option \<Rightarrow> platform_client \<Rightarrow> platform_client" where
  "applyOption opt c =
     (case opt of
        WithHTTPClient None \<Rightarrow> c
      | WithHTTPClient (Some h) \<Rightarrow> c\<lparr>c_httpClient := h\<rparr>
      | WithUserToken token \<Rightarrow> c\<lparr>c_userToken := trimSpace token\<rparr>
      | WithAgentToken token \<Rightarrow> c\<lparr>c_agentToken := trimSpace token\<rparr>
      | WithSDKAgent agent \<Rightarrow> if trimSpace agent \<noteq> [] then c\<lparr>c_sdkAgent := trimSpace agent\<rparr> else c
      | WithHeader name v \<Rightarrow> if trimSpace name \<noteq> [] then c\<lparr>c_headers := headerSet name v (c_headers c)\<rparr> else c)"

definition defaultSDKAgent :: string where
  "defaultSDKAgent = ''openlinker-go/0.2.0-rc.1''"

definition newPlatformClient ::
  "(string \<Rightarrow> go_error + go_url) \<Rightarrow> string \<Rightarrow> bool \<Rightarrow> client_option list \<Rightarrow> go_error + platform_client" where
  "newPlatformClient parse baseURL runtime opts =
     (let normalized = normalizeBaseURL baseURL in
      if normalized = [] then Inl (TextError ''openlinker: base URL is required'')
      else case parse normalized of
        Inl e \<Rightarrow> Inl (WrapError e ''openlinker: parse base URL'')
      | Inr parsed \<Rightarrow>
          if u_Scheme parsed = [] \<or> u_Host parsed = []
          then Inl (TextError ''openlinker: base URL must include scheme and host'')
          else let c = fold applyOption opts
                 \<lparr>c_baseURL = parsed, c_httpClient = 0, c_userToken = [], c_agentToken = [],
                  c_sdkAgent = defaultSDKAgent, c_headers = [], c_runtime = runtime\<rparr>
          in if \<not> runtime \<and> c_agentToken c \<noteq> []
             then Inl (TextError ''openlinker: client does not accept agent token; use NewRuntime'')
             else if runtime \<and> c_userToken c \<noteq> []
             then Inl (TextError ''openlinker: runtime does not accept user token'')
             else if runtime \<and> c_agentToken c = []
             then Inl (TextError ''openlinker: runtime requires agent token'')
             else Inr c)"

definition requireRuntime :: "platform_client option \<Rightarrow> go_error option" where
  "requireRuntime c =
     (case c of
        None \<Rightarrow> Some (TextError ''openlinker: runtime client is nil'')
      | Some c \<Rightarrow>
          if \<not> c_runtime c then Some (TextError ''openlinker: client cannot call agent runtime endpoints; use NewRuntime'')
          else if c_agentToken c = [] then Some (TextError ''openlinker: runtime requires agent token'')
          else None)"

section \<open>Requests\<close>

record http_request =
  hr_Method :: string
  hr_URL :: string
  hr_Header :: header
  hr_Body :: "bytes option"

text \<open>
  A response body is what its reader delivers and the error it ends with, \<^term>\<open>None\<close> for the end of
  file. \<open>hs_Together\<close> tells whether the last bytes and the end come from the same read.
\<close>

record http_response =
  hs_StatusCode :: int
  hs_Status :: string
  hs_Header :: header
  hs_Body :: bytes
  hs_Error :: "go_error option"
  hs_Together :: bool

record error_fields =
  ef_Code :: string
  ef_Message :: string
  ef_Details :: "string option"

text \<open>
  \<open>pc_error\<close> gives the fields that decoding an error response leaves, whatever its outcome;
  \<open>pc_until\<close> is the time until an HTTP date, \<^term>\<open>None\<close> for a text that is no date.
\<close>

record platform_env =
  pc_parse :: "string \<Rightarrow> go_error + go_url"
  pc_newRequest :: "string \<Rightarrow> string \<Rightarrow> go_error option"
  pc_do :: "http_request list \<Rightarrow> nat \<Rightarrow> http_request \<Rightarrow> go_error + http_response"
  pc_error :: "bytes \<Rightarrow> error_fields"
  pc_until :: "string \<Rightarrow> int option"

definition addConfigured :: "header \<Rightarrow> header \<Rightarrow> header" where
  "addConfigured configured h = fold (\<lambda>(key, vs) h. fold (headerAdd key) vs h) configured h"

definition overrideHeaders :: "header \<Rightarrow> header \<Rightarrow> header" where
  "overrideHeaders headers h = fold (\<lambda>(key, vs) h. fold (headerAdd key) vs (headerDel key h)) headers h"

definition requestHeader :: "platform_client \<Rightarrow> bytes option \<Rightarrow> string \<Rightarrow> string \<Rightarrow> header \<Rightarrow> header" where
  "requestHeader c body accept token headers =
     (let h = headerSet ''X-OpenLinker-SDK'' (c_sdkAgent c) (headerSet ''Accept'' accept []);
          h = (if body \<noteq> None then headerSet ''Content-Type'' ''application/json'' h else h);
          h = (if token \<noteq> [] then headerSet ''Authorization'' (''Bearer '' @ token) h else h)
      in overrideHeaders headers (addConfigured (c_headers c) h))"

definition newRequestWithTokenAndHeadersBytes ::
  "platform_env \<Rightarrow> platform_client \<Rightarrow> string \<Rightarrow> string \<Rightarrow> url_values \<Rightarrow> bytes option \<Rightarrow> string \<Rightarrow> string \<Rightarrow> header
   \<Rightarrow> http_request list \<Rightarrow> (go_error + http_response) \<times> http_request list" where
  "newRequestWithTokenAndHeadersBytes pe c meth path query body accept token headers sent =
     (let target = endpoint (pc_parse pe) (c_baseURL c) path query in
      case pc_newRequest pe meth target of
        Some e \<Rightarrow> (Inl e, sent)
      | None \<Rightarrow>
          let req = \<lparr>hr_Method = meth, hr_URL = target, hr_Header = requestHeader c body accept token headers, hr_Body = body\<rparr>
          in (pc_do pe sent (c_httpClient c) req, sent @ [req]))"

definition newRequestWithTokenAndHeaders ::
  "platform_env \<Rightarrow> platform_client \<Rightarrow> string \<Rightarrow> string \<Rightarrow> url_values \<Rightarrow> (go_error + bytes) option \<Rightarrow> string \<Rightarrow> string \<Rightarrow> header
   \<Rightarrow> http_request list \<Rightarrow> (go_error + http_response) \<times> http_request list" where
  "newRequestWithTokenAndHeaders pe c meth path query body accept token headers sent =
     (case body of
        Some (Inl e) \<Rightarrow> (Inl (WrapError e ''openlinker: encode request''), sent)
      | Some (Inr raw) \<Rightarrow> newRequestWithTokenAndHeadersBytes pe c meth path query (Some raw) accept token headers sent
      | None \<Rightarrow> newRequestWithTokenAndHeadersBytes pe c meth path query None accept token headers sent)"

definition newRequestWithToken where
  "newRequestWithToken pe c meth path query body accept token sent =
     newRequestWithTokenAndHeaders pe c meth path query body accept token [] sent"

definition newRequest where
  "newRequest pe c meth path query body accept sent =
     newRequestWithToken pe c meth path query body accept (c_userToken c) sent"

definition newRequestWithHeaders where
  "newRequestWithHeaders pe c meth path query body accept headers sent =
     newRequestWithTokenAndHeaders pe c meth path query body accept (c_userToken c) headers sent"

definition newRuntimeRequest where
  "newRuntimeRequest pe c meth path query body accept sent =
     (case requireRuntime (Some c) of
        Some e \<Rightarrow> (Inl e, sent)
      | None \<Rightarrow> newRequestWithToken pe c meth path query body accept (c_agentToken c) sent)"

definition newRuntimeRequestWithHeaders where
  "newRuntimeRequestWithHeaders pe c meth path query body accept headers sent =
     (case requireRuntime (Some c) of
        Some e \<Rightarrow> (Inl e, sent)
      | None \<Rightarrow> newRequestWithTokenAndHeaders pe c meth path query body accept (c_agentToken c) headers sent)"

section \<open>Responses\<close>

definition maxResponseBodyBytes :: nat where "maxResponseBodyBytes = 4194304"

text \<open>
  \<^verbatim>\<open>io.ReadAll\<close> of a \<^verbatim>\<open>LimitReader\<close>: the limit ends the reading before an error that lies behind it.
\<close>

definition readLimited :: "http_response \<Rightarrow> go_error + bytes" where
  "readLimited r =
     (if length (hs_Body r) > maxResponseBodyBytes + 1 \<or> length (hs_Body r) = maxResponseBodyBytes + 1 \<and> \<not> hs_Together r
      then Inr (take (maxResponseBodyBytes + 1) (hs_Body r))
      else case hs_Error r of Some e \<Rightarrow> Inl e | None \<Rightarrow> Inr (hs_Body r))"

definition readLimitedResponseBody :: "http_response \<Rightarrow> go_error + bytes" where
  "readLimitedResponseBody r =
     (case readLimited r of
        Inl e \<Rightarrow> Inl e
      | Inr raw \<Rightarrow>
          if length raw > maxResponseBodyBytes then Inl (TextError ''openlinker: response body exceeds 4194304 bytes'')
          else Inr raw)"

definition readLimitedErrorResponseBody :: "http_response \<Rightarrow> bytes" where
  "readLimitedErrorResponseBody r =
     (case readLimited r of
        Inl e \<Rightarrow> []
      | Inr raw \<Rightarrow> if length raw > maxResponseBodyBytes then take maxResponseBodyBytes raw else raw)"

text \<open>\<open>decode\<close> is the decoder of the target, which keeps \<open>zero\<close> when the body is empty.\<close>

definition decodeJSONResponse :: "(bytes \<Rightarrow> go_error + 'a) \<Rightarrow> 'a \<Rightarrow> http_response \<Rightarrow> go_error + 'a" where
  "decodeJSONResponse decode zero r =
     (case readLimitedResponseBody r of
        Inl e \<Rightarrow> Inl e
      | Inr raw \<Rightarrow> if length raw = 0 then Inr zero else decode raw)"

record api_error =
  ae_StatusCode :: int
  ae_Code :: string
  ae_Message :: string
  ae_Details :: "string option"
  ae_RequestID :: string
  ae_RetryAfter :: int
  ae_ResponseBody :: bytes

datatype client_error = PlainError go_error | PlatformError api_error

fun digitsValue :: "int \<Rightarrow> string \<Rightarrow> int" where
  "digitsValue n [] = n"
| "digitsValue n (c # cs) = digitsValue (10 * n + int (code c - 48)) cs"

text \<open>\<^verbatim>\<open>strconv.Atoi\<close>\<close>

definition atoi :: "string \<Rightarrow> int option" where
  "atoi s =
     (let negative = isPrefix ''-'' s;
          digits = (if s \<noteq> [] \<and> (hd s = CHR ''-'' \<or> hd s = CHR ''+'') then tl s else s);
          n = (if negative then - digitsValue 0 digits else digitsValue 0 digits)
      in if digits \<noteq> [] \<and> list_all digitByte digits \<and> int64 n then Some n else None)"

definition retryAfter :: "platform_env \<Rightarrow> header \<Rightarrow> int" where
  "retryAfter pe headers =
     (let v = headerGet ''Retry-After'' headers;
          date = (case pc_until pe v of Some d \<Rightarrow> if d > 0 then d else 0 | None \<Rightarrow> 0)
      in if v = [] then 0
         else case atoi v of
           Some seconds \<Rightarrow> if seconds > 0 then mul64 seconds 1000000000 else date
         | None \<Rightarrow> date)"

definition parseError :: "platform_env \<Rightarrow> http_response \<Rightarrow> client_error" where
  "parseError pe r =
     (let raw = readLimitedErrorResponseBody r; parsed = pc_error pe raw
      in PlatformError
        \<lparr>ae_StatusCode = hs_StatusCode r,
         ae_Code = (if ef_Code parsed = [] then ''HTTP_'' @ formatInt (hs_StatusCode r) else ef_Code parsed),
         ae_Message = (if ef_Message parsed = [] then hs_Status r else ef_Message parsed),
         ae_Details = ef_Details parsed,
         ae_RequestID = firstHeader (hs_Header r) [''X-Request-Id'', ''X-Correlation-Id''],
         ae_RetryAfter = retryAfter pe (hs_Header r),
         ae_ResponseBody = raw\<rparr>)"

text \<open>\<open>target\<close> is the decoder of the target with its zero value, \<^term>\<open>None\<close> for a nil target.\<close>

definition client_do ::
  "platform_env \<Rightarrow> platform_client \<Rightarrow> string \<Rightarrow> string \<Rightarrow> url_values \<Rightarrow> (go_error + bytes) option
   \<Rightarrow> (bytes \<Rightarrow> go_error + 'a) option \<Rightarrow> 'a \<Rightarrow> http_request list \<Rightarrow> (client_error + 'a) \<times> http_request list" where
  "client_do pe c meth path query body target zero sent =
     (case newRequest pe c meth path query body ''application/json'' sent of
        (Inl e, sent) \<Rightarrow> (Inl (PlainError e), sent)
      | (Inr r, sent) \<Rightarrow>
          if hs_StatusCode r < 200 \<or> hs_StatusCode r \<ge> 300 then (Inl (parseError pe r), sent)
          else case target of
            None \<Rightarrow> (Inr zero, sent)
          | Some decode \<Rightarrow>
              if hs_StatusCode r = 204 then (Inr zero, sent)
              else (case decodeJSONResponse decode zero r of
                      Inl e \<Rightarrow> (Inl (PlainError (WrapError e ''openlinker: decode response'')), sent)
                    | Inr out \<Rightarrow> (Inr out, sent)))"

section \<open>Headers of a call replace configured ones\<close>

lemma headerValues_add:
  "headerValues k (headerAdd key v h) =
     headerValues k h @ (if canonicalHeaderKey k = canonicalHeaderKey key then [v] else [])"
  by (auto simp: headerValues_def headerAdd_def)

lemma headerValues_addAll:
  "headerValues k (fold (headerAdd key) vs h) =
     headerValues k h @ (if canonicalHeaderKey k = canonicalHeaderKey key then vs else [])"
  by (induction vs arbitrary: h) (auto simp: headerValues_add)

lemma headerValues_del:
  "headerValues k (headerDel key h) = (if canonicalHeaderKey k = canonicalHeaderKey key then [] else headerValues k h)"
  by (auto simp: headerValues_def headerDel_def)

lemma override_other:
  "canonicalHeaderKey k \<notin> set (map (canonicalHeaderKey \<circ> fst) headers) \<Longrightarrow>
   headerValues k (overrideHeaders headers h) = headerValues k h"
  unfolding overrideHeaders_def
  by (induction headers arbitrary: h) (auto simp: headerValues_addAll headerValues_del)

lemma override_given:
  "distinct (map (canonicalHeaderKey \<circ> fst) headers) \<Longrightarrow> (key, vs) \<in> set headers \<Longrightarrow>
   headerValues key (overrideHeaders headers h) = vs"
proof (induction headers arbitrary: h)
  case (Cons p headers)
  let ?h = "fold (headerAdd (fst p)) (snd p) (headerDel (fst p) h)"
  have step: "overrideHeaders (p # headers) h = overrideHeaders headers ?h"
    by (cases p) (simp add: overrideHeaders_def)
  show ?case
  proof (cases "(key, vs) \<in> set headers")
    case True
    with Cons step show ?thesis by simp
  next
    case False
    with Cons.prems have p: "p = (key, vs)" by auto
    with Cons.prems(1) override_other [of key headers ?h] step show ?thesis
      by (simp add: headerValues_addAll headerValues_del)
  qed
qed simp

section \<open>The retry delay of an error\<close>

text \<open>
  A number of seconds becomes nanoseconds without a check: up to 9223372036 seconds the delay is
  exact, beyond that the product wraps and may be negative.
\<close>

lemma retryAfter_seconds:
  assumes "headerGet ''Retry-After'' headers = v" and "atoi v = Some n" and "0 < n"
  shows "retryAfter pe headers = mul64 n 1000000000"
    and "n \<le> 9223372036 \<Longrightarrow> retryAfter pe headers = n * 1000000000"
    and "n = 9223372037 \<Longrightarrow> retryAfter pe headers = - 9223372036709551616"
proof -
  have "v \<noteq> []" using assms(2) by (auto simp: atoi_def)
  then show r: "retryAfter pe headers = mul64 n 1000000000" using assms by (simp add: retryAfter_def Let_def)
  show "n \<le> 9223372036 \<Longrightarrow> retryAfter pe headers = n * 1000000000"
    using assms(3) unfolding r by (intro mul64_exact) (simp add: int64_def minInt64_def maxInt64_def)
  show "n = 9223372037 \<Longrightarrow> retryAfter pe headers = - 9223372036709551616"
    unfolding r by (simp add: mul64_def wrap64_def)
qed

lemma retryAfter_sample: "atoi ''9223372037'' = Some 9223372037" by code_simp

end
