(* ===== verification/Client_Stream.thy ===== *)
theory Client_Stream
  imports Client_Http
begin

text \<open>
  Server-sent events (client.go: \<^verbatim>\<open>readSSE\<close>) over the lines that \<^verbatim>\<open>bufio.Scanner\<close> delivers, with a
  buffer of 1 MiB. The handler is a function on a state of its own. The lemmas relate the reader to
  a writer of the format: complete events are delivered in order, an interrupted one never.
\<close>

section \<open>Lines\<close>

record stream_event =
  se_ID :: string
  se_Event :: string
  se_Data :: bytes

definition maxScanTokenSize :: nat where "maxScanTokenSize = 1048576"

section \<open>Events\<close>

definition freshEvent :: stream_event where
  "freshEvent = \<lparr>se_ID = [], se_Event = ''message'', se_Data = []\<rparr>"

type_synonym 's sse_handler = "stream_event \<Rightarrow> 's \<Rightarrow> go_error option \<times> 's"

definition sseDispatch ::
  "'s sse_handler option \<Rightarrow> stream_event \<Rightarrow> string list \<Rightarrow> 's \<Rightarrow> go_error option \<times> 's" where
  "sseDispatch handle event dataLines s =
     (if dataLines = [] then (None, s)
      else case handle of
        None \<Rightarrow> (None, s)
      | Some h \<Rightarrow> h (event\<lparr>se_Data := joinWith (CHR 0x0A) dataLines\<rparr>) s)"

definition cutColon :: "string \<Rightarrow> string \<times> string" where
  "cutColon line =
     (let field = takeWhile (\<lambda>c. c \<noteq> CHR '':'') line
      in (field, if length field < length line then trimPrefix (drop (length field + 1) line) '' '' else []))"

definition sseField :: "string \<Rightarrow> stream_event \<times> string list \<Rightarrow> stream_event \<times> string list" where
  "sseField line st =
     (let (event, dataLines) = st; (field, v) = cutColon line
      in if field = ''event'' then (event\<lparr>se_Event := if v = [] then ''message'' else v\<rparr>, dataLines)
         else if field = ''id'' then (event\<lparr>se_ID := v\<rparr>, dataLines)
         else if field = ''data'' then (event, dataLines @ [v])
         else (event, dataLines))"

fun sseLoop ::
  "'s sse_handler option \<Rightarrow> string list \<Rightarrow> go_error option \<Rightarrow> stream_event \<times> string list \<Rightarrow> 's \<Rightarrow> go_error option \<times> 's" where
  "sseLoop handle [] err (event, dataLines) s =
     (case err of Some e \<Rightarrow> (Some e, s) | None \<Rightarrow> sseDispatch handle event dataLines s)"
| "sseLoop handle (token # tokens) err (event, dataLines) s =
     (let line = trimSuffix token [CHR 0x0D] in
      if line = [] then
        (case sseDispatch handle event dataLines s of
           (Some e, s) \<Rightarrow> (Some e, s)
         | (None, s) \<Rightarrow> sseLoop handle tokens err (freshEvent, []) s)
      else if isPrefix '':'' line then sseLoop handle tokens err (event, dataLines) s
      else sseLoop handle tokens err (sseField line (event, dataLines)) s)"

definition readSSE :: "'s sse_handler option \<Rightarrow> bool \<Rightarrow> bytes \<Rightarrow> go_error option \<Rightarrow> 's \<Rightarrow> go_error option \<times> 's" where
  "readSSE handle together body err s =
     (let (lines, e) = scanLines maxScanTokenSize together body err in sseLoop handle lines e (freshEvent, []) s)"

section \<open>Writing events\<close>

definition eventLines :: "stream_event \<Rightarrow> string list" where
  "eventLines ev =
     (if se_ID ev = [] then [] else [''id: '' @ se_ID ev]) @ (''event: '' @ se_Event ev)
     # map (\<lambda>d. ''data: '' @ d) (splitOn (CHR 0x0A) (se_Data ev))"

definition formatEvent :: "stream_event \<Rightarrow> bytes" where
  "formatEvent ev = newlined (eventLines ev @ [[]])"

definition formatStream :: "stream_event list \<Rightarrow> bytes" where
  "formatStream evs = concat (map formatEvent evs)"

text \<open>Events that the format can carry: one line per field, no line ends in a carriage return or is too long.\<close>

definition lineOk :: "string \<Rightarrow> bool" where
  "lineOk l \<longleftrightarrow> CHR 0x0A \<notin> set l \<and> \<not> hasSuffix l [CHR 0x0D] \<and> length l + 8 \<le> maxScanTokenSize"

definition sseEvent :: "stream_event \<Rightarrow> bool" where
  "sseEvent ev \<longleftrightarrow> se_Event ev \<noteq> [] \<and> lineOk (se_Event ev) \<and> lineOk (se_ID ev)
     \<and> list_all lineOk (splitOn (CHR 0x0A) (se_Data ev))"

fun deliver :: "'s sse_handler \<Rightarrow> stream_event list \<Rightarrow> 's \<Rightarrow> go_error option \<times> 's" where
  "deliver handle [] s = (None, s)"
| "deliver handle (ev # evs) s =
     (case handle ev s of (Some e, s) \<Rightarrow> (Some e, s) | (None, s) \<Rightarrow> deliver handle evs s)"

section \<open>The reader undoes the writer\<close>

lemma field_line:
  assumes "\<not> hasSuffix v [CHR 0x0D]" and "CHR '':'' \<notin> set field" and "field \<noteq> []"
  shows "trimSuffix (field @ '': '' @ v) [CHR 0x0D] = field @ '': '' @ v" and "\<not> isPrefix '':'' (field @ '': '' @ v)"
    and "cutColon (field @ '': '' @ v) = (field, v)"
proof -
  show "trimSuffix (field @ '': '' @ v) [CHR 0x0D] = field @ '': '' @ v"
    using assms(1) by (auto simp: trimSuffix_def hasSuffix_single)
  show "\<not> isPrefix '':'' (field @ '': '' @ v)" using assms(2,3) by (cases field) auto
  have "takeWhile (\<lambda>c. c \<noteq> CHR '':'') (field @ '': '' @ v) = field"
    using assms(2) by (subst takeWhile_append2) auto
  then show "cutColon (field @ '': '' @ v) = (field, v)" by (simp add: cutColon_def Let_def trimPrefix_def)
qed

lemma sse_data_lines:
  "list_all (\<lambda>d. \<not> hasSuffix d [CHR 0x0D]) ds \<Longrightarrow>
   sseLoop handle (map (\<lambda>d. ''data: '' @ d) ds @ rest) err (ev, acc) s = sseLoop handle rest err (ev, acc @ ds) s"
proof (induction ds arbitrary: acc)
  case (Cons d ds)
  with field_line [of d "''data''"] show ?case by (simp add: sseField_def)
qed simp

lemma sse_event_lines:
  assumes "sseEvent ev"
  shows "sseLoop (Some h) (eventLines ev @ [] # rest) err (freshEvent, []) s =
    (case h ev s of (Some e, s) \<Rightarrow> (Some e, s) | (None, s) \<Rightarrow> sseLoop (Some h) rest err (freshEvent, []) s)"
proof -
  let ?ds = "splitOn (CHR 0x0A) (se_Data ev)"
  have ok: "list_all (\<lambda>d. \<not> hasSuffix d [CHR 0x0D]) ?ds" "\<not> hasSuffix (se_ID ev) [CHR 0x0D]" "\<not> hasSuffix (se_Event ev) [CHR 0x0D]"
    "se_Event ev \<noteq> []"
    using assms by (auto simp: sseEvent_def lineOk_def list_all_iff)
  have same: "\<lparr>se_ID = se_ID ev, se_Event = se_Event ev, se_Data = se_Data ev\<rparr> = ev" by simp
  have data: "sseLoop (Some h) (map (\<lambda>d. ''data: '' @ d) ?ds @ [] # rest) err (\<lparr>se_ID = se_ID ev, se_Event = se_Event ev, se_Data = []\<rparr>, []) s
    = (case h ev s of (Some e, s) \<Rightarrow> (Some e, s) | (None, s) \<Rightarrow> sseLoop (Some h) rest err (freshEvent, []) s)"
    by (subst sse_data_lines [OF ok(1)]) (simp add: same sseDispatch_def join_splitOn trimSuffix_def hasSuffix_def)
  show ?thesis
    using data ok(4) field_line [OF ok(2), of "''id''"] field_line [OF ok(3), of "''event''"]
    by (cases "se_ID ev = []") (simp_all add: eventLines_def sseField_def freshEvent_def)
qed

lemma plainLine_empty: "plainLine maxScanTokenSize []"
  by (simp add: plainLine_def hasSuffix_def maxScanTokenSize_def)

lemma eventLines_plain: "sseEvent ev \<Longrightarrow> list_all (plainLine maxScanTokenSize) (eventLines ev)"
  by (auto simp: eventLines_def sseEvent_def lineOk_def plainLine_def list_all_iff hasSuffix_single)

lemma eventLines_start: "l \<in> set (eventLines ev) \<Longrightarrow> l \<noteq> [] \<and> hd l \<noteq> CHR 0x0D"
  by (auto simp: eventLines_def split: if_splits)

lemma sse_events:
  "list_all sseEvent evs \<Longrightarrow>
   sseLoop (Some h) (concat (map (\<lambda>ev. eventLines ev @ [[]]) evs) @ rest) err (freshEvent, []) s =
     (case deliver h evs s of (Some e, s) \<Rightarrow> (Some e, s) | (None, s) \<Rightarrow> sseLoop (Some h) rest err (freshEvent, []) s)"
proof (induction evs arbitrary: s)
  case (Cons ev evs)
  then show ?case by (simp add: sse_event_lines split: prod.splits option.splits)
qed simp

lemma formatStream_lines: "formatStream evs = newlined (concat (map (\<lambda>ev. eventLines ev @ [[]]) evs))"
  by (induction evs) (simp_all add: formatStream_def formatEvent_def newlined_append, simp_all add: newlined_def)

lemma stream_plain: "list_all sseEvent evs \<Longrightarrow> list_all (plainLine maxScanTokenSize) (concat (map (\<lambda>ev. eventLines ev @ [[]]) evs))"
  by (induction evs) (auto simp: eventLines_plain plainLine_empty)

lemma trim_start: "l \<noteq> [] \<Longrightarrow> hd l \<noteq> CHR 0x0D \<Longrightarrow> trimSuffix l [CHR 0x0D] \<noteq> [] \<and> hd (trimSuffix l [CHR 0x0D]) = hd l"
  by (cases l rule: rev_cases; cases l) (auto simp: trimSuffix_def hasSuffix_single hd_append)

lemma sse_interrupted:
  "list_all (\<lambda>t. trimSuffix t [CHR 0x0D] \<noteq> []) tokens \<Longrightarrow> sseLoop handle tokens (Some e) st s = (Some e, s)"
proof (induction tokens arbitrary: st)
  case (Cons t tokens)
  then show ?case by (cases st, cases "sseField (trimSuffix t [CHR 0x0D]) st") (auto simp: Let_def)
qed (metis option.simps(5) sseLoop.simps(1) surj_pair)

lemma sse_cut:
  assumes "sseEvent ev" and "formatEvent ev = torn @ y" and "y \<noteq> []"
  shows "\<exists>tokens. scanLines maxScanTokenSize t torn err = (tokens, err) \<and> list_all (\<lambda>t. trimSuffix t [CHR 0x0D] \<noteq> []) tokens"
proof -
  from newlined_cut [OF assms(2) [unfolded formatEvent_def, symmetric] assms(3)] obtain ms l m rs
    where lines: "eventLines ev @ [[]] = ms @ m # rs" and torn: "torn = newlined ms @ l" and m: "isPrefix l m" by blast
  have "set ms \<subseteq> set (eventLines ev)" "m \<in> set (eventLines ev) \<or> m = []"
    using lines by (cases rs rule: rev_cases; auto)+
  then have ms: "list_all (plainLine maxScanTokenSize) ms" "list_all (\<lambda>t. t \<noteq> [] \<and> hd t \<noteq> CHR 0x0D) ms" and pm: "plainLine maxScanTokenSize m"
    and start: "m = [] \<or> hd m \<noteq> CHR 0x0D"
    using eventLines_plain [OF assms(1)] eventLines_start [of _ ev]
    by (auto simp: list_all_iff plainLine_def hasSuffix_def maxScanTokenSize_def)
  have l: "CHR 0x0A \<notin> set l" "length l < maxScanTokenSize" "l = [] \<or> hd l \<noteq> CHR 0x0D"
    using pm start m by (auto simp: isPrefix_iff plainLine_def)
  have "scanLines maxScanTokenSize t torn err = (ms @ (if l = [] then [] else [dropCR l]), err)"
    by (simp add: torn scanLines_newlined [OF ms(1)] scanLines_last [OF l(1,2)])
  moreover have "list_all (\<lambda>t. trimSuffix t [CHR 0x0D] \<noteq> []) (ms @ (if l = [] then [] else [dropCR l]))"
    using ms(2) l(3) trim_start [of l] trim_start [of "dropCR l"] by (auto simp: list_all_iff dropCR_def dest: trim_start)
  ultimately show ?thesis by blast
qed

lemma sse_written:
  assumes "list_all sseEvent evs"
  shows "readSSE (Some handle) together (formatStream evs) None s = deliver handle evs s"
proof -
  have "scanLines maxScanTokenSize together (formatStream evs) None = (concat (map (\<lambda>ev. eventLines ev @ [[]]) evs), None)"
    using scanLines_newlined [OF stream_plain [OF assms], of together "[]" None]
    by (simp add: formatStream_lines scanLines_nothing)
  then show ?thesis
    using sse_events [OF assms, of handle "[]" None s]
    by (simp add: readSSE_def sseDispatch_def split: prod.splits option.splits)
qed

lemma sse_broken:
  assumes "list_all sseEvent evs" and "sseEvent ev" and "formatEvent ev = torn @ y" and "y \<noteq> []"
  shows "readSSE (Some handle) together (formatStream evs @ torn) (Some e) s =
    (case deliver handle evs s of (Some e', s') \<Rightarrow> (Some e', s') | (None, s') \<Rightarrow> (Some e, s'))"
proof -
  obtain tokens where "scanLines maxScanTokenSize together torn (Some e) = (tokens, Some e)"
    "list_all (\<lambda>t. trimSuffix t [CHR 0x0D] \<noteq> []) tokens" using sse_cut [OF assms(2,3,4)] by blast
  then show ?thesis
    using scanLines_newlined [OF stream_plain [OF assms(1)], of together torn "Some e"]
    by (simp add: readSSE_def formatStream_lines sse_events [OF assms(1)] sse_interrupted split: prod.splits option.splits)
qed

text \<open>
  C18. Reading a stream of server-sent events delivers exactly the events that were written, in
  order and with their names, identifiers and data of any number of lines, until the handler fails.
  A stream that breaks with an error anywhere inside an event delivers the events before it, nothing
  of the broken one, and returns the error.
\<close>

theorem sse_delivers_complete_events:
  assumes "list_all sseEvent evs" and "sseEvent ev" and "formatEvent ev = torn @ y" and "y \<noteq> []"
  shows "readSSE (Some handle) together (formatStream evs) None s = deliver handle evs s
    \<and> readSSE (Some handle) together (formatStream evs @ torn) (Some e) s =
       (case deliver handle evs s of (Some e', s') \<Rightarrow> (Some e', s') | (None, s') \<Rightarrow> (Some e, s'))"
  by (intro conjI sse_written [OF assms(1)] sse_broken [OF assms])

definition sample_events :: "stream_event list" where
  "sample_events = [\<lparr>se_ID = ''1'', se_Event = ''run.started'', se_Data = ''{}''\<rparr>,
     \<lparr>se_ID = [], se_Event = ''run.completed'', se_Data = ''a'' @ CHR 0x0A # ''b''\<rparr>]"

lemma sample_events_ok: "list_all sseEvent sample_events" "sseEvent (sample_events ! 0)"
  "formatEvent (sample_events ! 0) = ''id: 1'' @ drop 5 (formatEvent (sample_events ! 0))"
  "drop 5 (formatEvent (sample_events ! 0)) \<noteq> []"
proof -
  show "list_all sseEvent sample_events" "sseEvent (sample_events ! 0)"
    by (simp_all add: sample_events_def sseEvent_def lineOk_def maxScanTokenSize_def hasSuffix_def)
  show "formatEvent (sample_events ! 0) = ''id: 1'' @ drop 5 (formatEvent (sample_events ! 0))"
    "drop 5 (formatEvent (sample_events ! 0)) \<noteq> []" by code_simp+
qed

theorem sse_delivers_complete_events_witness:
  "readSSE (Some (\<lambda>ev s. (None, s @ [ev]))) True (formatStream sample_events @ ''id: 1'') (Some ContextCanceled) [] =
     (Some ContextCanceled, sample_events)"
proof -
  have "readSSE (Some (\<lambda>ev s. (None, s @ [ev]))) True (formatStream sample_events @ ''id: 1'') (Some ContextCanceled) [] =
     (case deliver (\<lambda>ev s. (None, s @ [ev])) sample_events [] of (Some e', s') \<Rightarrow> (Some e', s') | (None, s') \<Rightarrow> (Some ContextCanceled, s'))"
    by (rule conjunct2 [OF sse_delivers_complete_events [OF sample_events_ok]])
  then show ?thesis by (simp add: sample_events_def)
qed

end
