(* ===== verification/Client_Calls.thy ===== *)
theory Client_Calls
  imports Client_Stream
begin

text \<open>
  The calls of the platform client (client.go): agents, runs, their events and the callbacks that
  follow the stream of a run. Response types other than a run are type variables with their decoder
  and zero value. Callbacks are functions of the callbacks called so far; what cancelling a stream
  does to its body is part of the exchange.
\<close>

section \<open>Agents and runs\<close>

record list_agents_params =
  lp_Query :: string
  lp_Page :: int
  lp_Size :: int
  lp_CallableOnly :: bool
  lp_Tags :: "string list"

definition listAgents where
  "listAgents pe c params decode zero sent =
     (let query = setQueryInt ''size'' (lp_Size params) (setQueryInt ''page'' (lp_Page params) (setQuery ''q'' (lp_Query params) []));
          query = (if lp_CallableOnly params then valuesSet ''callable_only'' ''true'' query else query);
          query = (if lp_Tags params \<noteq> [] then valuesSet ''tags'' (joinWith (CHR '','') (lp_Tags params)) query else query)
      in client_do pe c ''GET'' ''/agents'' query None (Some decode) zero sent)"

definition getAgent where
  "getAgent pe c slug decode zero sent =
     client_do pe c ''GET'' (''/agents/'' @ urlPathEscape slug) [] None (Some decode) zero sent"

definition getAgentCard where
  "getAgentCard pe c slug extended decode zero sent =
     (let suffix = (if extended then ''agent-card.extended.json'' else ''agent-card.json'')
      in client_do pe c ''GET'' (''/agents/'' @ urlPathEscape slug @ ''/'' @ suffix) [] None (Some decode) zero sent)"

definition recommendTask where
  "recommendTask pe c req decode zero sent = client_do pe c ''POST'' ''/tasks/recommend'' [] (Some req) (Some decode) zero sent"

text \<open>A run: its ID, \<open>Replayed\<close> and the other decoded fields.\<close>

record run_response =
  rr_RunID :: string
  rr_Fields :: string
  rr_Replayed :: bool

definition emptyRun :: run_response where
  "emptyRun = \<lparr>rr_RunID = [], rr_Fields = [], rr_Replayed = False\<rparr>"

record run_env =
  rn_platform :: platform_env
  rn_run :: "bytes \<Rightarrow> go_error + run_response"
  rn_random :: "http_request list \<Rightarrow> go_error + bytes"

record run_request =
  rq_IdempotencyKey :: string
  rq_Body :: "go_error + bytes"

definition createRun ::
  "run_env \<Rightarrow> platform_client \<Rightarrow> string \<Rightarrow> run_request \<Rightarrow> http_request list \<Rightarrow> (client_error + run_response) \<times> http_request list" where
  "createRun re c path req sent =
     (case resolveRunIdempotencyKey (rn_random re sent) (rq_IdempotencyKey req) of
        Inl e \<Rightarrow> (Inl (PlainError e), sent)
      | Inr key \<Rightarrow>
        (case newRequestWithHeaders (rn_platform re) c ''POST'' path [] (Some (rq_Body req)) ''application/json''
                (headerSet ''Idempotency-Key'' key []) sent of
           (Inl e, sent) \<Rightarrow> (Inl (PlainError e), sent)
         | (Inr r, sent) \<Rightarrow>
             if hs_StatusCode r < 200 \<or> hs_StatusCode r \<ge> 300 then (Inl (parseError (rn_platform re) r), sent)
             else (case (if hs_StatusCode r \<noteq> 204 then decodeJSONResponse (rn_run re) emptyRun r else Inr emptyRun) of
                     Inl e \<Rightarrow> (Inl (PlainError (WrapError e ''openlinker: decode response'')), sent)
                   | Inr out \<Rightarrow>
                       (Inr (if equalFoldASCII (trimSpace (headerGet ''Idempotency-Replayed'' (hs_Header r))) ''true''
                             then out\<lparr>rr_Replayed := True\<rparr> else out), sent))))"

definition runAgent where
  "runAgent re c req sent = createRun re c ''/run'' req sent"

definition startAgentRun where
  "startAgentRun re c req sent = createRun re c ''/runs'' req sent"

definition getRun where
  "getRun re c runID sent =
     client_do (rn_platform re) c ''GET'' (''/runs/'' @ urlPathEscape runID) [] None (Some (rn_run re)) emptyRun sent"

definition cancelRun where
  "cancelRun re c runID sent =
     client_do (rn_platform re) c ''POST'' (''/runs/'' @ urlPathEscape runID @ ''/cancel'') [] None (Some (rn_run re)) emptyRun sent"

definition listRunEvents where
  "listRunEvents pe c runID afterSequence limit decode zero sent =
     client_do pe c ''GET'' (''/runs/'' @ urlPathEscape runID @ ''/events'')
       (setQueryInt32 ''limit'' limit (setQueryInt32 ''after_sequence'' afterSequence [])) None (Some decode) zero sent"

definition listRunChildren where
  "listRunChildren pe c runID decode zero sent =
     client_do pe c ''GET'' (''/runs/'' @ urlPathEscape runID @ ''/children'') [] None (Some decode) zero sent"

definition listRunArtifacts where
  "listRunArtifacts pe c runID decode zero sent =
     client_do pe c ''GET'' (''/runs/'' @ urlPathEscape runID @ ''/artifacts'') [] None (Some decode) zero sent"

definition listRunMessages where
  "listRunMessages pe c runID decode zero sent =
     client_do pe c ''GET'' (''/runs/'' @ urlPathEscape runID @ ''/messages'') [] None (Some decode) zero sent"

section \<open>Streams and callbacks\<close>

definition streamRunEvents ::
  "platform_env \<Rightarrow> platform_client \<Rightarrow> string \<Rightarrow> int \<Rightarrow> 's sse_handler option \<Rightarrow> 's \<Rightarrow> http_request list
   \<Rightarrow> client_error option \<times> 's \<times> http_request list" where
  "streamRunEvents pe c runID afterSequence handle s sent =
     (case newRequest pe c ''GET'' (''/runs/'' @ urlPathEscape runID @ ''/stream'')
             (setQueryInt32 ''after_sequence'' afterSequence []) None ''text/event-stream'' sent of
        (Inl e, sent) \<Rightarrow> (Some (PlainError e), s, sent)
      | (Inr r, sent) \<Rightarrow>
          if hs_StatusCode r < 200 \<or> hs_StatusCode r \<ge> 300 then (Some (parseError pe r), s, sent)
          else let (err, s) = readSSE handle (hs_Together r) (hs_Body r) (hs_Error r) s
               in (map_option PlainError err, s, sent))"

definition matchesPlatformCallbackEvent :: "string list \<Rightarrow> string \<Rightarrow> bool" where
  "matchesPlatformCallbackEvent eventTypes eventType = (if eventTypes = [] then True else eventType \<in> set eventTypes)"

definition isTerminalRunEvent :: "string \<Rightarrow> bool" where
  "isTerminalRunEvent eventType \<longleftrightarrow> eventType = ''run.completed'' \<or> eventType = ''run.failed'' \<or> eventType = ''run.canceled''"

datatype callback_call = EventCall stream_event | TerminalCall stream_event | CloseCall

record stream_callbacks =
  po_EventTypes :: "string list"
  po_AfterSequence :: int
  po_OnEvent :: "(callback_call list \<Rightarrow> go_error option) option"
  po_OnTerminal :: "(callback_call list \<Rightarrow> go_error option) option"
  po_OnClose :: "(callback_call list \<Rightarrow> go_error option) option"

record callback_state =
  cb_calls :: "callback_call list"
  cb_terminal :: "stream_event option"
  cb_canceled :: bool

text \<open>A callback is called with the calls up to and including its own; a nil callback is not called.\<close>

definition callBack ::
  "(callback_call list \<Rightarrow> go_error option) option \<Rightarrow> callback_call \<Rightarrow> callback_state \<Rightarrow> go_error option \<times> callback_state" where
  "callBack f call s =
     (case f of
        None \<Rightarrow> (None, s)
      | Some f \<Rightarrow> let s = s\<lparr>cb_calls := cb_calls s @ [call]\<rparr> in (f (cb_calls s), s))"

definition callbackHandler :: "stream_callbacks \<Rightarrow> bool \<Rightarrow> callback_state sse_handler" where
  "callbackHandler opts untilTerminal event s =
     (case (if matchesPlatformCallbackEvent (po_EventTypes opts) (se_Event event)
            then callBack (po_OnEvent opts) (EventCall event) s else (None, s)) of
        (Some e, s) \<Rightarrow> (Some e, s)
      | (None, s) \<Rightarrow>
          if isTerminalRunEvent (se_Event event) then
            (case callBack (po_OnTerminal opts) (TerminalCall event) (s\<lparr>cb_terminal := Some event\<rparr>) of
               (Some e, s) \<Rightarrow> (Some e, s)
             | (None, s) \<Rightarrow> (None, if untilTerminal then s\<lparr>cb_canceled := True\<rparr> else s))
          else (None, s))"

definition isCanceled :: "client_error \<Rightarrow> bool" where
  "isCanceled e = (case e of PlainError e \<Rightarrow> errorIs e ContextCanceled | PlatformError a \<Rightarrow> False)"

definition streamPlatformCallbacks ::
  "platform_env \<Rightarrow> platform_client \<Rightarrow> string \<Rightarrow> stream_callbacks \<Rightarrow> bool \<Rightarrow> http_request list
   \<Rightarrow> client_error option \<times> callback_state \<times> http_request list" where
  "streamPlatformCallbacks pe c runID opts untilTerminal sent =
     (let (err, s, sent) = streamRunEvents pe c runID (po_AfterSequence opts) (Some (callbackHandler opts untilTerminal))
            \<lparr>cb_calls = [], cb_terminal = None, cb_canceled = False\<rparr> sent
      in case err of
        Some e \<Rightarrow>
          if untilTerminal \<and> cb_terminal s \<noteq> None \<and> isCanceled e
          then let (e', s) = callBack (po_OnClose opts) CloseCall s in (map_option PlainError e', s, sent)
          else (Some e, s, sent)
      | None \<Rightarrow> let (e', s) = callBack (po_OnClose opts) CloseCall s in (map_option PlainError e', s, sent))"

definition runAgentWithCallbacks ::
  "run_env \<Rightarrow> platform_client \<Rightarrow> run_request \<Rightarrow> stream_callbacks \<Rightarrow> http_request list
   \<Rightarrow> (client_error + run_response) \<times> callback_call list \<times> http_request list" where
  "runAgentWithCallbacks re c req opts sent =
     (case startAgentRun re c req sent of
        (Inl e, sent) \<Rightarrow> (Inl e, [], sent)
      | (Inr started, sent) \<Rightarrow>
        (case streamPlatformCallbacks (rn_platform re) c (rr_RunID started) opts True sent of
           (Some e, s, sent) \<Rightarrow> (Inl e, cb_calls s, sent)
         | (None, s, sent) \<Rightarrow>
           (case getRun re c (rr_RunID started) sent of
              (Inl e, sent) \<Rightarrow> (Inl e, cb_calls s, sent)
            | (Inr run, sent) \<Rightarrow>
                (Inr (run\<lparr>rr_Replayed := rr_Replayed run \<or> rr_Replayed started\<rparr>), cb_calls s, sent))))"

text \<open>The started run is returned at once; the second part is what its goroutine does: the callbacks and the error given to \<^verbatim>\<open>OnError\<close>.\<close>

definition startAgentRunWithCallbacks ::
  "run_env \<Rightarrow> platform_client \<Rightarrow> run_request \<Rightarrow> stream_callbacks \<Rightarrow> http_request list
   \<Rightarrow> (client_error + run_response) \<times> (callback_call list \<times> client_error option) \<times> http_request list" where
  "startAgentRunWithCallbacks re c req opts sent =
     (case startAgentRun re c req sent of
        (Inl e, sent) \<Rightarrow> (Inl e, ([], None), sent)
      | (Inr started, sent) \<Rightarrow>
          let (err, s, sent) = streamPlatformCallbacks (rn_platform re) c (rr_RunID started) opts False sent
          in (Inr started, (cb_calls s, err), sent))"

section \<open>Callbacks follow the stream\<close>

definition callsOf :: "stream_callbacks \<Rightarrow> stream_event \<Rightarrow> callback_call list" where
  "callsOf opts ev =
     (if matchesPlatformCallbackEvent (po_EventTypes opts) (se_Event ev) \<and> po_OnEvent opts \<noteq> None then [EventCall ev] else [])
     @ (if isTerminalRunEvent (se_Event ev) \<and> po_OnTerminal opts \<noteq> None then [TerminalCall ev] else [])"

definition lastTerminal :: "stream_event list \<Rightarrow> stream_event option" where
  "lastTerminal evs = (case rev (filter (\<lambda>ev. isTerminalRunEvent (se_Event ev)) evs) of [] \<Rightarrow> None | ev # _ \<Rightarrow> Some ev)"

definition callbacksSucceed :: "stream_callbacks \<Rightarrow> bool" where
  "callbacksSucceed opts \<longleftrightarrow>
     set_option (po_OnEvent opts) \<union> set_option (po_OnTerminal opts) \<union> set_option (po_OnClose opts) \<subseteq> {\<lambda>calls. None}"

lemma callBack_succeeds:
  "set_option f \<subseteq> {\<lambda>calls. None} \<Longrightarrow>
   callBack f call s = (None, s\<lparr>cb_calls := cb_calls s @ (if f = None then [] else [call])\<rparr>)"
  by (cases f) (auto simp: callBack_def Let_def)

lemma handler_succeeds:
  assumes "callbacksSucceed opts"
  shows "\<exists>b. callbackHandler opts until ev s = (None, s\<lparr>cb_calls := cb_calls s @ callsOf opts ev,
    cb_terminal := (if isTerminalRunEvent (se_Event ev) then Some ev else cb_terminal s), cb_canceled := b\<rparr>)"
proof -
  have "set_option (po_OnEvent opts) \<subseteq> {\<lambda>calls. None}" "set_option (po_OnTerminal opts) \<subseteq> {\<lambda>calls. None}"
    using assms by (auto simp: callbacksSucceed_def)
  then show ?thesis by (cases s) (auto simp: callbackHandler_def callBack_succeeds callsOf_def ex_bool_eq)
qed

lemma callbacks_deliver:
  assumes "callbacksSucceed opts"
  shows "\<exists>b. deliver (callbackHandler opts until) evs s = (None, s\<lparr>cb_calls := cb_calls s @ concat (map (callsOf opts) evs),
    cb_terminal := (case lastTerminal evs of None \<Rightarrow> cb_terminal s | Some ev \<Rightarrow> Some ev), cb_canceled := b\<rparr>)"
proof (induction evs arbitrary: s)
  case Nil
  then show ?case by (cases s) (simp add: lastTerminal_def)
next
  case (Cons ev evs)
  obtain b where "callbackHandler opts until ev s = (None, s\<lparr>cb_calls := cb_calls s @ callsOf opts ev,
    cb_terminal := (if isTerminalRunEvent (se_Event ev) then Some ev else cb_terminal s), cb_canceled := b\<rparr>)"
    using handler_succeeds [OF assms] by blast
  with Cons.IH [of "s\<lparr>cb_calls := cb_calls s @ callsOf opts ev,
    cb_terminal := (if isTerminalRunEvent (se_Event ev) then Some ev else cb_terminal s), cb_canceled := b\<rparr>"]
  show ?case by (cases s) (auto simp: lastTerminal_def split: list.splits option.splits)
qed


definition sample_base :: go_url where
  "sample_base = \<lparr>u_Scheme = ''https'', u_User = None, u_Host = ''core.example'', u_Path = [], u_RawPath = [],
     u_ForceQuery = False, u_RawQuery = [], u_Fragment = []\<rparr>"

definition sample_platform_client :: platform_client where
  "sample_platform_client = \<lparr>c_baseURL = sample_base, c_httpClient = 0, c_userToken = ''token'', c_agentToken = [],
     c_sdkAgent = defaultSDKAgent, c_headers = [], c_runtime = False\<rparr>"

definition sample_stream_response :: http_response where
  "sample_stream_response = \<lparr>hs_StatusCode = 200, hs_Status = ''200 OK'', hs_Header = [],
     hs_Body = formatStream sample_events @ ''id: 1'', hs_Error = Some ContextCanceled, hs_Together = False\<rparr>"

definition sample_platform_env :: platform_env where
  "sample_platform_env = \<lparr>pc_parse = (\<lambda>u. Inr sample_base), pc_newRequest = (\<lambda>m u. None),
     pc_do = (\<lambda>sent h req. Inr sample_stream_response),
     pc_error = (\<lambda>raw. \<lparr>ef_Code = [], ef_Message = [], ef_Details = None\<rparr>), pc_until = (\<lambda>v. None)\<rparr>"

definition sample_callbacks :: stream_callbacks where
  "sample_callbacks = \<lparr>po_EventTypes = [''run.started''], po_AfterSequence = 0, po_OnEvent = Some (\<lambda>calls. None),
     po_OnTerminal = Some (\<lambda>calls. None), po_OnClose = Some (\<lambda>calls. None)\<rparr>"


end
