(* ===== verification/Runtime_Invocation.thy ===== *)
theory Runtime_Invocation
  imports Runtime_Client Client_Http
begin

text \<open>
  Delegated calls (runtime_invocation.go): the canonical text of a call, the proof computed from
  it and the request that carries it, sent by the platform client. SHA-256, HMAC and JSON encoding are
  parameters, as are the Unicode tables \<^verbatim>\<open>strings.ToUpper\<close> consults for a string that is not ASCII.
\<close>

section \<open>Upper case\<close>

definition toUpper :: "(string \<Rightarrow> string) \<Rightarrow> string \<Rightarrow> string" where
  "toUpper mapRunes s = (if list_all (\<lambda>c. code c < 0x80) s then map upperOf s else mapRunes s)"

section \<open>The canonical text\<close>

definition escapeByte :: "char \<Rightarrow> string" where
  "escapeByte c =
     (if c = CHR 0x08 then [CHR 0x5C, CHR ''b'']
      else if c = CHR 0x09 then [CHR 0x5C, CHR ''t'']
      else if c = CHR 0x0A then [CHR 0x5C, CHR ''n'']
      else if c = CHR 0x0C then [CHR 0x5C, CHR ''f'']
      else if c = CHR 0x0D then [CHR 0x5C, CHR ''r'']
      else if c = CHR 0x22 \<or> c = CHR 0x5C then [CHR 0x5C, c]
      else if code c < 0x20 then [CHR 0x5C, CHR ''u'', CHR ''0'', CHR ''0'', hexChar (code c div 16), hexChar (code c mod 16)]
      else [c])"

text \<open>A rune is given by its bytes; only runes of one byte are escaped.\<close>

definition escapeRune :: "string \<Rightarrow> string" where
  "escapeRune r = (case r of [c] \<Rightarrow> escapeByte c | _ \<Rightarrow> r)"

definition appendRuntimeCanonicalJSONString :: "bytes \<Rightarrow> string \<Rightarrow> go_error + bytes" where
  "appendRuntimeCanonicalJSONString dst v =
     (if \<not> utf8Valid v then Inl (TextError ''openlinker: runtime proof string is not valid Unicode'')
      else Inr (dst @ CHR 0x22 # concat (map escapeRune (utf8Runes v)) @ [CHR 0x22]))"

definition quotedName :: "string \<Rightarrow> string" where
  "quotedName name = CHR 0x22 # name @ [CHR 0x22, CHR '':'']"

definition runtimeInvocationProofDomain :: string where
  "runtimeInvocationProofDomain = ''openlinker/runtime-v2/invocation-proof''"

definition canonicalRuntimeInvocationProof ::
  "string \<Rightarrow> string \<Rightarrow> string \<Rightarrow> string \<Rightarrow> string \<Rightarrow> go_error + bytes" where
  "canonicalRuntimeInvocationProof bodyDigest contextValue idempotencyKey meth path =
     (case appendRuntimeCanonicalJSONString (CHR ''{'' # quotedName ''body_sha256'') bodyDigest of
        Inl e \<Rightarrow> Inl e
      | Inr c1 \<Rightarrow>
      (case appendRuntimeCanonicalJSONString (c1 @ CHR '','' # quotedName ''context'') contextValue of
        Inl e \<Rightarrow> Inl e
      | Inr c2 \<Rightarrow>
      (case appendRuntimeCanonicalJSONString (c2 @ CHR '','' # quotedName ''idempotency_key'') idempotencyKey of
        Inl e \<Rightarrow> Inl e
      | Inr c3 \<Rightarrow>
      (case appendRuntimeCanonicalJSONString (c3 @ CHR '','' # quotedName ''method'') meth of
        Inl e \<Rightarrow> Inl e
      | Inr c4 \<Rightarrow>
      (case appendRuntimeCanonicalJSONString (c4 @ CHR '','' # quotedName ''path'') path of
        Inl e \<Rightarrow> Inl e
      | Inr c5 \<Rightarrow>
      (case appendRuntimeCanonicalJSONString (c5 @ CHR '','' # quotedName ''version'') runtimeInvocationProofDomain of
        Inl e \<Rightarrow> Inl e
      | Inr c6 \<Rightarrow> Inr (c6 @ ''}'')))))))"

section \<open>The proof\<close>

record invocation_env =
  iv_upper :: "string \<Rightarrow> string"
  iv_sha256 :: "bytes \<Rightarrow> bytes"
  iv_hmac :: "bytes \<Rightarrow> bytes \<Rightarrow> bytes"

record proof_request =
  pq_Method :: string
  pq_Path :: string
  pq_IdempotencyKey :: string
  pq_Context :: string
  pq_Body :: bytes

definition buildRuntimeInvocationProof :: "invocation_env \<Rightarrow> string \<Rightarrow> proof_request \<Rightarrow> go_error + string" where
  "buildRuntimeInvocationProof iv token request =
     (let meth = toUpper (iv_upper iv) (trimSpace (pq_Method request)); path = trimSpace (pq_Path request);
          contextValue = trimSpace (pq_Context request)
      in if meth = [] \<or> path = [] \<or> \<not> isPrefix ''/'' path \<or> contextValue = [] \<or> \<not> isPrefix ''ol_inv_v2.'' token
         then Inl (TextError ''openlinker: invalid runtime invocation proof input'')
         else case validateIdempotencyKey (pq_IdempotencyKey request) of
           Some e \<Rightarrow> Inl e
         | None \<Rightarrow>
             (case canonicalRuntimeInvocationProof (hexEncode (iv_sha256 iv (pq_Body request))) contextValue
                     (pq_IdempotencyKey request) meth path of
                Inl e \<Rightarrow> Inl e
              | Inr canonical \<Rightarrow>
                  Inr (rawURLEncode (iv_hmac iv (iv_sha256 iv (runtimeInvocationProofDomain @ CHR 0x00 # token)) canonical))))"

section \<open>The call\<close>

definition runtimeOptionalText :: "string \<Rightarrow> nat \<Rightarrow> bool" where
  "runtimeOptionalText v maximum \<longleftrightarrow> v = [] \<or> (utf8Valid v \<and> length (utf8Runes v) \<le> maximum)"

definition validateRuntimeCallAgentAuthorization :: "agent_request \<Rightarrow> go_error option" where
  "validateRuntimeCallAgentAuthorization v =
     (if \<not> runtimeInvocationCapability (ag_NodeEnvelope v) ''ol_ctx_v2.''
         \<or> \<not> runtimeInvocationCapability (ag_AgentInvocationToken v) ''ol_inv_v2.''
      then invalidMessage ''invalid runtime delegated call authority''
      else validateIdempotencyKey (ag_IdempotencyKey v))"

definition validateRuntimeCallAgentRequest :: "agent_request \<Rightarrow> go_error option" where
  "validateRuntimeCallAgentRequest v =
     (if \<not> runtimeUUID (ag_TargetAgentID v) \<or> ag_Input v = None \<or> \<not> runtimeOptionalText (ag_Reason v) 500
      then invalidMessage ''invalid runtime delegated call'' else None)"

definition validateRuntimeRunSummary :: "run_summary \<Rightarrow> go_error option" where
  "validateRuntimeRunSummary v =
     (if \<not> runtimeUUID (su_RunID v) \<or> \<not> runtimeRunStatus (su_Status v) \<or> \<not> runtimeDispatchState (su_DispatchState v)
      then invalidMessage ''invalid runtime run summary''
      else if su_Status v = ''running'' then
        (if su_DispatchState v \<in> {''pending'', ''offered'', ''executing'', ''retry_wait''} then None
         else invalidMessage ''inconsistent runtime running summary'')
      else if su_Status v \<in> {''success'', ''timeout'', ''canceled''} then
        (if su_DispatchState v \<noteq> ''terminal'' then invalidMessage ''inconsistent runtime terminal summary'' else None)
      else if su_Status v = ''failed'' then
        (if su_DispatchState v \<noteq> ''terminal'' \<and> su_DispatchState v \<noteq> ''dead_letter''
         then invalidMessage ''inconsistent runtime failed summary'' else None)
      else None)"

definition runtimeCallAgentPath :: string where
  "runtimeCallAgentPath = ''/api/v1/agent-runtime/call-agent''"

definition runtimeInvocationHeader :: string where
  "runtimeInvocationHeader = ''OpenLinker-Invocation-Context''"

definition runtimeInvocationProofHeader :: string where
  "runtimeInvocationProofHeader = ''OpenLinker-Invocation-Proof''"

record call_env =
  ie_invocation :: invocation_env
  ie_platform :: platform_env
  ie_decoders :: client_env
  ie_encode :: "agent_request \<Rightarrow> bytes option"
  ie_summary :: "bytes \<Rightarrow> go_error + run_summary"

definition agentResponse :: "call_env \<Rightarrow> http_response \<Rightarrow> go_error + run_summary" where
  "agentResponse ie response =
     (if hs_StatusCode response < 200 \<or> hs_StatusCode response \<ge> 300 then
        (case readLimited response of
           Inl e \<Rightarrow> Inl (WrapError e ''openlinker: read runtime error response'')
         | Inr raw \<Rightarrow> Inl (parseRuntimeError (ie_decoders ie) (hs_StatusCode response) raw))
      else if hs_StatusCode response = 204 then Inl (TextError ''openlinker: runtime delegated call returned no run summary'')
      else
        (case (case readLimited response of Inl e \<Rightarrow> Inl e | Inr raw \<Rightarrow> decodeRuntimeResponse (ie_summary ie) raw) of
           Inl e \<Rightarrow> Inl (WrapError e ''openlinker: decode runtime delegated call'')
         | Inr summary \<Rightarrow>
             (case validateRuntimeRunSummary summary of Some e \<Rightarrow> Inl e | None \<Rightarrow> Inr summary)))"

definition callHeaders :: "agent_request \<Rightarrow> string \<Rightarrow> header" where
  "callHeaders request mac =
     headerSet runtimeInvocationProofHeader mac (headerSet runtimeInvocationHeader (ag_NodeEnvelope request)
       (headerSet ''Idempotency-Key'' (ag_IdempotencyKey request)
         (headerSet ''Authorization'' (''Bearer '' @ ag_AgentInvocationToken request) [])))"

definition proofRequest :: "agent_request \<Rightarrow> bytes \<Rightarrow> proof_request" where
  "proofRequest request body =
     \<lparr>pq_Method = ''POST'', pq_Path = runtimeCallAgentPath, pq_IdempotencyKey = ag_IdempotencyKey request,
      pq_Context = ag_NodeEnvelope request, pq_Body = body\<rparr>"

definition callRuntimeAgent ::
  "call_env \<Rightarrow> platform_client option \<Rightarrow> agent_request \<Rightarrow> http_request list \<Rightarrow> (go_error + run_summary) \<times> http_request list" where
  "callRuntimeAgent ie client request sent =
     (case client of
        None \<Rightarrow> (Inl (TextError ''openlinker: runtime client is nil''), sent)
      | Some c \<Rightarrow>
      (case requireRuntime (Some c) of
         Some e \<Rightarrow> (Inl e, sent)
       | None \<Rightarrow>
      (case validateRuntimeCallAgentAuthorization request of
         Some e \<Rightarrow> (Inl e, sent)
       | None \<Rightarrow>
      (case validateRuntimeCallAgentRequest request of
         Some e \<Rightarrow> (Inl e, sent)
       | None \<Rightarrow>
      (case ie_encode ie request of
         None \<Rightarrow> (Inl (WrapError jsonError ''openlinker: encode runtime delegated call''), sent)
       | Some body \<Rightarrow>
           if length body > runtimeMaxMessageBytes
           then (Inl (TextError ''openlinker: runtime delegated call exceeds 4194304 bytes''), sent)
           else case buildRuntimeInvocationProof (ie_invocation ie) (ag_AgentInvocationToken request) (proofRequest request body) of
             Inl e \<Rightarrow> (Inl e, sent)
           | Inr mac \<Rightarrow>
             (case newRequestWithTokenAndHeadersBytes (ie_platform ie) c ''POST'' runtimeCallAgentPath [] (Some body)
                     ''application/json'' (ag_AgentInvocationToken request) (callHeaders request mac) sent of
                (Inl e, sent) \<Rightarrow> (Inl e, sent)
              | (Inr response, sent) \<Rightarrow> (agentResponse ie response, sent)))))))"

section \<open>The text determines its parts\<close>

definition isRune :: "string \<Rightarrow> bool" where
  "isRune r \<longleftrightarrow> r \<noteq> [] \<and> (\<forall>x. runeSize (r @ x) = length r)"

lemma utf8Runes_isRune: "r \<in> set (utf8Runes s) \<Longrightarrow> isRune r"
proof (induction s rule: utf8Runes.induct)
  case (1 s)
  then have z: "s \<noteq> []" "runeSize s \<noteq> 0" by (subst (asm) utf8Runes.simps, simp split: if_splits)+
  then have "r = take (runeSize s) s \<or> r \<in> set (utf8Runes (drop (runeSize s) s))"
    using "1.prems" by (subst (asm) utf8Runes.simps) auto
  then show ?case
  proof
    assume "r = take (runeSize s) s"
    with runeSize_take [OF refl z(2)] runeSize_le [of s] z show ?thesis by (auto simp: isRune_def)
  next
    assume "r \<in> set (utf8Runes (drop (runeSize s) s))"
    with "1.IH" z show ?thesis by blast
  qed
qed

lemma isRune_cases:
  assumes "isRune r"
  obtains c where "r = [c]" "code c < 0x80" | c d cs where "r = c # d # cs" "0x80 \<le> code c"
proof -
  from assms obtain c cs where r: "r = c # cs" and size: "runeSize (c # cs) = Suc (length cs)"
    unfolding isRune_def by (metis append_Nil2 length_Cons list.exhaust)
  show thesis
  proof (cases "code c < 0x80")
    case True
    with size r that(1) show thesis by (simp add: Let_def)
  next
    case False
    with size have "cs \<noteq> []" by (auto simp: Let_def split: if_splits list.splits)
    with False r that(2) show thesis by (cases cs) auto
  qed
qed

lemma hexChar_inj: "a < 16 \<Longrightarrow> b < 16 \<Longrightarrow> hexChar a = hexChar b \<Longrightarrow> a = b"
  by (metis hexVal_hexChar mod_less option.inject)

lemma escapeByte_inj:
  assumes "escapeByte c @ x = escapeByte d @ y"
  shows "c = d \<and> x = y"
proof (cases "code c < 0x20 \<and> code d < 0x20 \<and> hexChar (code c div 16) = hexChar (code d div 16)
    \<and> hexChar (code c mod 16) = hexChar (code d mod 16)")
  case True
  then have "code c div 16 = code d div 16" "code c mod 16 = code d mod 16" by (auto intro: hexChar_inj)
  then have "code c = code d" by (metis div_mult_mod_eq)
  then have "c = d" by (simp add: code_def)
  with assms show ?thesis by simp
next
  case False
  with assms show ?thesis by (auto simp: escapeByte_def split: if_splits)
qed

lemma escapeByte_hd: "code c < 0x80 \<Longrightarrow> escapeByte c \<noteq> [] \<and> code (hd (escapeByte c)) < 0x80 \<and> hd (escapeByte c) \<noteq> CHR 0x22"
  by (auto simp: escapeByte_def code_def)

lemma escapeRune_inj:
  assumes "isRune r" and "isRune s" and eq: "escapeRune r @ x = escapeRune s @ y"
  shows "r = s \<and> x = y"
  using assms(1)
proof (cases rule: isRune_cases)
  case (1 c)
  note c = this
  from assms(2) show ?thesis
  proof (cases rule: isRune_cases)
    case (1 d)
    with c eq escapeByte_inj show ?thesis by (simp add: escapeRune_def)
  next
    case (2 d e es)
    with c eq escapeByte_hd [OF c(2)] show ?thesis by (cases "escapeByte c") (auto simp: escapeRune_def)
  qed
next
  case (2 c d cs)
  note c = this
  from assms(2) show ?thesis
  proof (cases rule: isRune_cases)
    case (1 e)
    with c eq escapeByte_hd [OF 1(2)] show ?thesis by (cases "escapeByte e") (auto simp: escapeRune_def)
  next
    case (2 e f es)
    with c eq have rs: "r @ x = s @ y" by (simp add: escapeRune_def)
    then have "length r = length s" using assms(1,2) by (metis isRune_def)
    with rs show ?thesis by simp
  qed
qed

lemma escapeRune_hd: "isRune r \<Longrightarrow> escapeRune r \<noteq> [] \<and> hd (escapeRune r) \<noteq> CHR 0x22"
  by (erule isRune_cases) (use escapeByte_hd in \<open>auto simp: escapeRune_def code_def\<close>)

lemma escaped_inj:
  "\<forall>r \<in> set rs. isRune r \<Longrightarrow> \<forall>s \<in> set ss. isRune s \<Longrightarrow>
   concat (map escapeRune rs) @ CHR 0x22 # x = concat (map escapeRune ss) @ CHR 0x22 # y \<Longrightarrow> rs = ss \<and> x = y"
proof (induction rs ss rule: list_induct2')
  case (2 r rs)
  with escapeRune_hd [of r] show ?case by (cases "escapeRune r") auto
next
  case (3 s ss)
  with escapeRune_hd [of s] show ?case by (cases "escapeRune s") auto
next
  case (4 r rs s ss)
  then have "escapeRune r @ (concat (map escapeRune rs) @ CHR 0x22 # x) = escapeRune s @ (concat (map escapeRune ss) @ CHR 0x22 # y)"
    by simp
  from escapeRune_inj [OF _ _ this] 4 show ?case by simp
qed simp

definition quoted :: "string \<Rightarrow> string" where
  "quoted v = CHR 0x22 # concat (map escapeRune (utf8Runes v)) @ [CHR 0x22]"

lemma quoted_inj:
  assumes "utf8Valid v" and "utf8Valid w" and "quoted v @ x = quoted w @ y"
  shows "v = w \<and> x = y"
proof -
  have "concat (map escapeRune (utf8Runes v)) @ CHR 0x22 # x = concat (map escapeRune (utf8Runes w)) @ CHR 0x22 # y"
    using assms(3) by (simp add: quoted_def)
  moreover have "\<forall>r \<in> set (utf8Runes v). isRune r" "\<forall>s \<in> set (utf8Runes w). isRune s"
    using utf8Runes_isRune by blast+
  ultimately have "utf8Runes v = utf8Runes w \<and> x = y" by (intro escaped_inj)
  with concat_utf8Runes [OF assms(1)] concat_utf8Runes [OF assms(2)] show ?thesis by metis
qed

lemma append_quoted:
  "appendRuntimeCanonicalJSONString dst v = Inr m \<longleftrightarrow> utf8Valid v \<and> m = dst @ quoted v"
  by (auto simp: appendRuntimeCanonicalJSONString_def quoted_def)

lemma canonical_text:
  assumes "canonicalRuntimeInvocationProof a b c d e = Inr m"
  shows "utf8Valid a \<and> utf8Valid b \<and> utf8Valid c \<and> utf8Valid d \<and> utf8Valid e
    \<and> m = (CHR ''{'' # quotedName ''body_sha256'') @ quoted a @ (CHR '','' # quotedName ''context'') @ quoted b
        @ (CHR '','' # quotedName ''idempotency_key'') @ quoted c @ (CHR '','' # quotedName ''method'') @ quoted d
        @ (CHR '','' # quotedName ''path'') @ quoted e @ (CHR '','' # quotedName ''version'') @ quoted runtimeInvocationProofDomain @ ''}''"
  using assms unfolding canonicalRuntimeInvocationProof_def by (simp add: append_quoted split: sum.splits)

lemma canonical_inj:
  assumes "canonicalRuntimeInvocationProof a b c d e = Inr m" and "canonicalRuntimeInvocationProof a' b' c' d' e' = Inr m"
  shows "a' = a \<and> b' = b \<and> c' = c \<and> d' = d \<and> e' = e"
proof -
  note t = canonical_text [OF assms(1)] and t' = canonical_text [OF assms(2)]
  let ?n = "\<lambda>name. CHR '','' # quotedName name"
  have "quoted a @ ?n ''context'' @ quoted b @ ?n ''idempotency_key'' @ quoted c @ ?n ''method'' @ quoted d @ ?n ''path'' @ quoted e
      @ ?n ''version'' @ quoted runtimeInvocationProofDomain @ ''}''
    = quoted a' @ ?n ''context'' @ quoted b' @ ?n ''idempotency_key'' @ quoted c' @ ?n ''method'' @ quoted d' @ ?n ''path'' @ quoted e'
      @ ?n ''version'' @ quoted runtimeInvocationProofDomain @ ''}''"
    using t t' by (metis same_append_eq)
  from quoted_inj [OF _ _ this] t t' have a: "a = a'"
    and "?n ''context'' @ quoted b @ ?n ''idempotency_key'' @ quoted c @ ?n ''method'' @ quoted d @ ?n ''path'' @ quoted e
      @ ?n ''version'' @ quoted runtimeInvocationProofDomain @ ''}''
    = ?n ''context'' @ quoted b' @ ?n ''idempotency_key'' @ quoted c' @ ?n ''method'' @ quoted d' @ ?n ''path'' @ quoted e'
      @ ?n ''version'' @ quoted runtimeInvocationProofDomain @ ''}''" by blast+
  from quoted_inj [OF _ _ iffD1 [OF same_append_eq this(2)]] t t' have b: "b = b'"
    and "?n ''idempotency_key'' @ quoted c @ ?n ''method'' @ quoted d @ ?n ''path'' @ quoted e
      @ ?n ''version'' @ quoted runtimeInvocationProofDomain @ ''}''
    = ?n ''idempotency_key'' @ quoted c' @ ?n ''method'' @ quoted d' @ ?n ''path'' @ quoted e'
      @ ?n ''version'' @ quoted runtimeInvocationProofDomain @ ''}''" by blast+
  from quoted_inj [OF _ _ iffD1 [OF same_append_eq this(2)]] t t' have c: "c = c'"
    and "?n ''method'' @ quoted d @ ?n ''path'' @ quoted e @ ?n ''version'' @ quoted runtimeInvocationProofDomain @ ''}''
    = ?n ''method'' @ quoted d' @ ?n ''path'' @ quoted e' @ ?n ''version'' @ quoted runtimeInvocationProofDomain @ ''}''" by blast+
  from quoted_inj [OF _ _ iffD1 [OF same_append_eq this(2)]] t t' have d: "d = d'"
    and "?n ''path'' @ quoted e @ ?n ''version'' @ quoted runtimeInvocationProofDomain @ ''}''
    = ?n ''path'' @ quoted e' @ ?n ''version'' @ quoted runtimeInvocationProofDomain @ ''}''" by blast+
  from quoted_inj [OF _ _ iffD1 [OF same_append_eq this(2)]] t t' have e: "e = e'" by blast
  from a b c d e show ?thesis by simp
qed

section \<open>The proof binds the call\<close>

lemma toUpper_POST: "toUpper up (trimSpace ''POST'') = ''POST''" "trimSpace runtimeCallAgentPath = runtimeCallAgentPath"
proof -
  have "trimSpace ''POST'' = ''POST''" "map upperOf ''POST'' = ''POST''" "list_all (\<lambda>c. code c < 0x80) ''POST''" by code_simp+
  then show "toUpper up (trimSpace ''POST'') = ''POST''" by (simp only: toUpper_def if_True)
  show "trimSpace runtimeCallAgentPath = runtimeCallAgentPath" by code_simp
qed

lemma authorized_context:
  "validateRuntimeCallAgentAuthorization request = None \<Longrightarrow> trimSpace (ag_NodeEnvelope request) = ag_NodeEnvelope request"
  by (auto simp: validateRuntimeCallAgentAuthorization_def runtimeInvocationCapability_def invalidMessage_def split: if_splits)

lemma request_sent:
  "newRequestWithTokenAndHeadersBytes pe c meth path query body accept token headers sent = (r, sent @ [req]) \<Longrightarrow>
   hr_Method req = meth \<and> hr_Body req = body \<and> hr_Header req = requestHeader c body accept token headers"
  by (auto simp: newRequestWithTokenAndHeadersBytes_def Let_def split: option.splits)

lemma call_sent:
  assumes "callRuntimeAgent ie client request sent = (r, sent @ [req])"
  shows "\<exists>c body mac. validateRuntimeCallAgentAuthorization request = None \<and> hr_Method req = ''POST'' \<and> hr_Body req = Some body
    \<and> buildRuntimeInvocationProof (ie_invocation ie) (ag_AgentInvocationToken request) (proofRequest request body) = Inr mac
    \<and> hr_Header req = requestHeader c (Some body) ''application/json'' (ag_AgentInvocationToken request) (callHeaders request mac)"
  using assms unfolding callRuntimeAgent_def
  by (auto split: option.splits sum.splits if_splits prod.splits dest: request_sent)

lemma callHeaders_given:
  "(key, v) \<in> set [(''Authorization'', ''Bearer '' @ ag_AgentInvocationToken request), (''Idempotency-Key'', ag_IdempotencyKey request),
     (runtimeInvocationHeader, ag_NodeEnvelope request), (runtimeInvocationProofHeader, mac)] \<Longrightarrow>
   headerValues key (requestHeader c body accept token (callHeaders request mac)) = [v]"
proof -
  have canonical: "canonicalHeaderKey ''Authorization'' = ''Authorization''" "canonicalHeaderKey ''Idempotency-Key'' = ''Idempotency-Key''"
    "canonicalHeaderKey runtimeInvocationHeader = ''Openlinker-Invocation-Context''"
    "canonicalHeaderKey runtimeInvocationProofHeader = ''Openlinker-Invocation-Proof''"
    "canonicalHeaderKey ''Openlinker-Invocation-Context'' = ''Openlinker-Invocation-Context''"
    "canonicalHeaderKey ''Openlinker-Invocation-Proof'' = ''Openlinker-Invocation-Proof''" by code_simp+
  have headers: "callHeaders request mac = [(''Authorization'', [''Bearer '' @ ag_AgentInvocationToken request]),
      (''Idempotency-Key'', [ag_IdempotencyKey request]), (''Openlinker-Invocation-Context'', [ag_NodeEnvelope request]),
      (''Openlinker-Invocation-Proof'', [mac])]"
    by (simp add: callHeaders_def headerSet_def canonical)
  have dist: "distinct (map (canonicalHeaderKey \<circ> fst) (callHeaders request mac))" by (simp add: headers canonical)
  assume "(key, v) \<in> set [(''Authorization'', ''Bearer '' @ ag_AgentInvocationToken request),
     (''Idempotency-Key'', ag_IdempotencyKey request), (runtimeInvocationHeader, ag_NodeEnvelope request), (runtimeInvocationProofHeader, mac)]"
  then have given: "(canonicalHeaderKey key, [v]) \<in> set (callHeaders request mac)"
    and same: "canonicalHeaderKey (canonicalHeaderKey key) = canonicalHeaderKey key"
    by (auto simp: headers canonical)
  from override_given [OF dist given] same show ?thesis by (simp add: requestHeader_def headerValues_def Let_def)
qed

text \<open>
  C17. A delegated call that is sent carries, whatever headers the client is configured with, exactly
  one authorization, idempotency key, context and proof header. The proof is the keyed digest, under
  a key derived from the invocation token, of a canonical text that determines the digest of exactly
  the body sent, the context, the key, the method and the path: no other digest, context, key,
  method or path has that text, whatever they contain.
\<close>

theorem invocation_proof_binds_call:
  assumes "callRuntimeAgent ie client request sent = (r, sent @ [req])"
  shows "\<exists>body m. hr_Method req = ''POST'' \<and> hr_Body req = Some body
    \<and> headerValues ''Authorization'' (hr_Header req) = [''Bearer '' @ ag_AgentInvocationToken request]
    \<and> headerValues ''Idempotency-Key'' (hr_Header req) = [ag_IdempotencyKey request]
    \<and> headerValues runtimeInvocationHeader (hr_Header req) = [ag_NodeEnvelope request]
    \<and> headerValues runtimeInvocationProofHeader (hr_Header req) =
       [rawURLEncode (iv_hmac (ie_invocation ie)
          (iv_sha256 (ie_invocation ie) (runtimeInvocationProofDomain @ CHR 0x00 # ag_AgentInvocationToken request)) m)]
    \<and> (\<forall>digest contextValue key meth path.
         canonicalRuntimeInvocationProof digest contextValue key meth path = Inr m \<longleftrightarrow>
         digest = hexEncode (iv_sha256 (ie_invocation ie) body) \<and> contextValue = ag_NodeEnvelope request
         \<and> key = ag_IdempotencyKey request \<and> meth = ''POST'' \<and> path = runtimeCallAgentPath)"
proof -
  from call_sent [OF assms] obtain c body mac where auth: "validateRuntimeCallAgentAuthorization request = None"
    and req: "hr_Method req = ''POST''" "hr_Body req = Some body"
      "hr_Header req = requestHeader c (Some body) ''application/json'' (ag_AgentInvocationToken request) (callHeaders request mac)"
    and built: "buildRuntimeInvocationProof (ie_invocation ie) (ag_AgentInvocationToken request) (proofRequest request body) = Inr mac"
    by blast
  obtain m where m: "canonicalRuntimeInvocationProof (hexEncode (iv_sha256 (ie_invocation ie) body))
      (ag_NodeEnvelope request) (ag_IdempotencyKey request) ''POST'' runtimeCallAgentPath = Inr m"
    and mac: "mac = rawURLEncode (iv_hmac (ie_invocation ie)
      (iv_sha256 (ie_invocation ie) (runtimeInvocationProofDomain @ CHR 0x00 # ag_AgentInvocationToken request)) m)"
    using built unfolding buildRuntimeInvocationProof_def proofRequest_def
    by (auto simp: Let_def authorized_context [OF auth] toUpper_POST split: if_splits option.splits sum.splits)
  have "canonicalRuntimeInvocationProof digest contextValue key meth path = Inr m \<longleftrightarrow>
      digest = hexEncode (iv_sha256 (ie_invocation ie) body) \<and> contextValue = ag_NodeEnvelope request
      \<and> key = ag_IdempotencyKey request \<and> meth = ''POST'' \<and> path = runtimeCallAgentPath" for digest contextValue key meth path
    using canonical_inj [OF m] m by blast
  then show ?thesis using req callHeaders_given [of _ _ request mac] mac
    by (intro exI [of _ body] exI [of _ m]) simp
qed

definition sample_agent_request :: agent_request where
  "sample_agent_request = \<lparr>ag_NodeEnvelope = ''ol_ctx_v2.a.b.c'', ag_AgentInvocationToken = ''ol_inv_v2.a.b.c'',
     ag_IdempotencyKey = ''key'', ag_TargetAgentID = ''11111111-1111-4111-8111-111111111115'', ag_Input = Some (Some ''{}''),
     ag_Metadata = None, ag_Reason = []\<rparr>"

definition sample_core :: go_url where
  "sample_core = \<lparr>u_Scheme = ''https'', u_User = None, u_Host = ''core.example'', u_Path = [], u_RawPath = [],
     u_ForceQuery = False, u_RawQuery = [], u_Fragment = []\<rparr>"

definition sample_runtime :: platform_client where
  "sample_runtime = \<lparr>c_baseURL = sample_core, c_httpClient = 0, c_userToken = [], c_agentToken = ''token'',
     c_sdkAgent = defaultSDKAgent, c_headers = [(''Authorization'', [''other''])], c_runtime = True\<rparr>"

definition sample_call_env :: call_env where
  "sample_call_env = \<lparr>ie_invocation = \<lparr>iv_upper = id, iv_sha256 = (\<lambda>b. replicate 32 (CHR ''d'')), iv_hmac = sampleHMAC\<rparr>,
     ie_platform = \<lparr>pc_parse = (\<lambda>u. Inr sample_core), pc_newRequest = (\<lambda>m u. None),
       pc_do = (\<lambda>sent h req. Inl ContextCanceled), pc_error = (\<lambda>raw. \<lparr>ef_Code = [], ef_Message = [], ef_Details = None\<rparr>),
       pc_until = (\<lambda>v. None)\<rparr>,
     ie_decoders = sample_client_env, ie_encode = (\<lambda>r. Some ''{}''), ie_summary = (\<lambda>b. Inl jsonError)\<rparr>"

lemma sample_agent_request_ok:
  "validateRuntimeCallAgentAuthorization sample_agent_request = None"
  "validateRuntimeCallAgentRequest sample_agent_request = None" by code_simp+

lemma sample_valid:
  "utf8Valid (hexEncode (replicate 32 (CHR ''d'')))" "utf8Valid ''ol_ctx_v2.a.b.c''" "utf8Valid ''key''" "utf8Valid ''POST''"
  "utf8Valid runtimeCallAgentPath" "utf8Valid runtimeInvocationProofDomain" by code_simp+

lemma sample_built:
  "\<exists>mac. buildRuntimeInvocationProof (ie_invocation sample_call_env) ''ol_inv_v2.a.b.c'' (proofRequest sample_agent_request ''{}'') = Inr mac"
proof -
  have "isPrefix ''/'' runtimeCallAgentPath" "runtimeCallAgentPath \<noteq> []" "isPrefix ''ol_inv_v2.'' ''ol_inv_v2.a.b.c''"
    "trimSpace ''ol_ctx_v2.a.b.c'' = ''ol_ctx_v2.a.b.c''" "validateIdempotencyKey ''key'' = None" by code_simp+
  then show ?thesis using sample_valid toUpper_POST
    by (simp add: sample_call_env_def sample_agent_request_def buildRuntimeInvocationProof_def proofRequest_def
        canonicalRuntimeInvocationProof_def appendRuntimeCanonicalJSONString_def Let_def)
qed

lemma sample_call_sent:
  "\<exists>req. callRuntimeAgent sample_call_env (Some sample_runtime) sample_agent_request [] = (Inl ContextCanceled, [] @ [req])"
proof -
  obtain mac where "buildRuntimeInvocationProof (ie_invocation sample_call_env) ''ol_inv_v2.a.b.c''
      (proofRequest sample_agent_request ''{}'') = Inr mac" using sample_built by blast
  moreover have "ag_AgentInvocationToken sample_agent_request = ''ol_inv_v2.a.b.c''" "ie_encode sample_call_env sample_agent_request = Some ''{}''"
    "requireRuntime (Some sample_runtime) = None"
    by (simp_all add: sample_agent_request_def sample_call_env_def requireRuntime_def sample_runtime_def)
  ultimately show ?thesis using sample_agent_request_ok
    by (simp add: callRuntimeAgent_def runtimeMaxMessageBytes_def newRequestWithTokenAndHeadersBytes_def Let_def)
      (simp add: sample_call_env_def)
qed

theorem invocation_proof_binds_call_witness:
  "\<exists>req m. callRuntimeAgent sample_call_env (Some sample_runtime) sample_agent_request [] = (Inl ContextCanceled, [req])
     \<and> headerValues ''Authorization'' (hr_Header req) = [''Bearer ol_inv_v2.a.b.c'']
     \<and> headerValues runtimeInvocationProofHeader (hr_Header req) = [rawURLEncode (sampleHMAC (replicate 32 (CHR ''d'')) m)]
     \<and> canonicalRuntimeInvocationProof (hexEncode (replicate 32 (CHR ''d''))) ''ol_ctx_v2.a.b.c'' ''key'' ''POST''
        runtimeCallAgentPath = Inr m"
proof -
  obtain req where call: "callRuntimeAgent sample_call_env (Some sample_runtime) sample_agent_request [] = (Inl ContextCanceled, [] @ [req])"
    using sample_call_sent by blast
  have "iv_hmac (ie_invocation sample_call_env) = sampleHMAC" "iv_sha256 (ie_invocation sample_call_env) = (\<lambda>b. replicate 32 (CHR ''d''))"
    "ag_AgentInvocationToken sample_agent_request = ''ol_inv_v2.a.b.c''" "ag_IdempotencyKey sample_agent_request = ''key''"
    "ag_NodeEnvelope sample_agent_request = ''ol_ctx_v2.a.b.c''"
    by (simp_all add: sample_call_env_def sample_agent_request_def)
  with invocation_proof_binds_call [OF call] call show ?thesis by auto
qed

end
