(* ===== verification/Store_Int.thy ===== *)
theory Store_Int
  imports "HOL-Library.Word"
begin

text \<open>
  The clamps of runtime_store_int.go at their machine width: a 64-bit signed integer (\<^verbatim>\<open>int64\<close> and,
  on 64-bit platforms, \<^verbatim>\<open>int\<close>) to a non-negative 32-bit one. The conversion at the end truncates to
  the low 32 bits; the lemma shows that it never loses anything.
\<close>

definition clampInt64ToInt32 :: "64 word \<Rightarrow> 32 word" where
  "clampInt64ToInt32 v = (if v <s 0 then 0 else if word_of_int 2147483647 <s v then word_of_int 2147483647 else ucast v)"

definition clampIntToInt32 :: "64 word \<Rightarrow> 32 word" where
  "clampIntToInt32 v = (if v <s 0 then 0 else if word_of_int 2147483647 <s v then word_of_int 2147483647 else ucast v)"

lemma clamp_same: "clampIntToInt32 v = clampInt64ToInt32 v"
  by (simp add: clampIntToInt32_def clampInt64ToInt32_def)

lemma sint_low:
  fixes v :: "64 word"
  assumes "0 \<le> sint v" and "sint v \<le> 2147483647"
  shows "sint (ucast v :: 32 word) = sint v"
proof -
  have "uint v = sint v mod 2 ^ 64" by (simp add: uint_sint take_bit_eq_mod)
  with assms have "uint v = sint v" by simp
  then have "sint (ucast v :: 32 word) = sint (word_of_int (sint v) :: 32 word)" by (metis ucast_eq)
  also have "\<dots> = (sint v + 2 ^ 31) mod 2 ^ 32 - 2 ^ 31" by (simp only: int_word_sint) simp
  finally show ?thesis using assms by simp
qed

lemma clamp_exact: "sint (clampInt64ToInt32 v) = max 0 (min 2147483647 (sint v))"
proof -
  have "sint (word_of_int 2147483647 :: 32 word) = 2147483647" "sint (word_of_int 2147483647 :: 64 word) = 2147483647"
    by (simp_all only: int_word_sint) simp_all
  with sint_low [of v] show ?thesis by (auto simp only: clampInt64ToInt32_def word_sless_alt sint_0 split: if_split)
qed

end
