(* ===== verification/Spec2Isabelle.thy ===== *)
theory Spec2Isabelle
  imports Worker_Admission Worker_RetryLog Transport_Policy Platform_Client Worker_Outcome Worker_Cancel
    Worker_Drain Client_Calls Runtime_Invocation Store_Int
begin

text \<open>
  Verification of the OpenLinker Go SDK.

  \<^bold>\<open>The program.\<close> An agent runs a \<^verbatim>\<open>RuntimeWorker\<close> (src/runtime\_worker*.go): it receives
  assignments from the platform over one of two transports, runs them and uploads their events
  and result. Whatever it accepted must survive a crash, so every assignment, event and result
  goes through a durable store (src/runtime\_store*.go): a write-ahead log with snapshots, one
  encrypted file per event, result and payload, and an index in memory. The worker talks to
  the platform through a switching client (src/runtime\_worker\_transport.go) whose transport is
  replaced while operations run, under a policy of the platform (src/runtime\_worker\_policy.go).

  \<^bold>\<open>Theories.\<close>

  \<^item> Go\_Prelude, Go\_Strings, Go\_Utf8, Go\_Format, Go\_Json: int64 arithmetic with its wrap-around, Go maps as
    association lists, byte strings, UTF-8, JSON text; the lemmas the components share.
  \<^item> Store\_Errors, Store\_Types: errors with wrapping and \<^verbatim>\<open>errors.Is\<close> (runtime\_store\_errors.go),
    identities, records and headers, UUIDs and digests (runtime\_store\_journal.go,
    runtime\_store\_identity.go, runtime\_store\_crypto.go).
  \<^item> Journal\_Machine: the state machine of an assignment, the acknowledgement window, the check
    of journal progress. Its properties: histories are bounded and stay in one branch, the
    window refines a set, progress never goes back.
  \<^item> Store\_State, Store\_Ops, Store\_Recovery: the store as one record (\<^verbatim>\<open>FileRuntimeStore\<close> and its
    disk), one definition per method, opening with replay, loading and reconciliation. Every
    answer of the file system, the clock and the random source is a value of an environment
    record, so each theorem holds for all of them.
  \<^item> Store\_Journal, Store\_Spool, Store\_Invariant, Store\_Steps, Store\_Safety, Store\_Calls: the
    invariant of the store and that every operation keeps it, whatever fails.
  \<^item> Store\_Reachable, Store\_Healthy, Store\_Properties, Store\_Guarantees: the store as a
    transition system, concrete runs, and its properties: invariant, atomicity in the log,
    exact accounting, durable events, exact pending events, idempotence, finality of deletion.
  \<^item> Transport\_Gate: \<^verbatim>\<open>switchingRuntimeClient\<close> as a state machine and the interleavings of its
    critical sections; fencing of operations and of stale transitions, draining, stopping.
  \<^item> Transport\_Policy: runtime\_worker\_policy.go whole and \<^verbatim>\<open>retryDelay\<close>.
  \<^item> Worker\_Spool, Worker\_Contract, Worker\_Durability: the upload of the spool and the
    retirement of attempts (runtime\_worker\_spool.go, runtime\_worker\_session.go) over the
    interface \<^verbatim>\<open>RuntimeStore\<close>. The interface is the locale \<^verbatim>\<open>runtime_store_contract\<close>, extended by
    \<^verbatim>\<open>runtime_store_delivery\<close>; the client's lemmas are proved there and the file store is shown
    to satisfy both. The properties span worker and store: no event is lost, a result follows
    its events, the worker keeps the store's invariant.
  \<^item> Worker\_Assignment, Worker\_Ranges, Worker\_Start, Worker\_Admission: taking on an assignment
    (admission, durable hand-shake, rejection, start of the handler) and resumption after a
    restart or a reconnect (runtime\_worker\_session.go, runtime\_worker\_attempt.go), with the
    remote runtime's answers as parameters. The locale \<^verbatim>\<open>runtime_store_start\<close> states what a launch
    needs of the store. Their properties: a handler is launched at most once, the announced
    ranges are exactly the pending events, admission respects the capacity, the acknowledgement
    returns; derived identifiers are well formed.
  \<^item> Worker\_RetryLog: the log of automatic retries (runtime\_worker\_retry\_log.go): rate limiter
    and text of its lines; a cause is logged once per interval, a line holds no message text.
  \<^item> Worker\_Authority: the authority in the metadata of an assignment (runtime\_worker\_authority.go)
    and what an accepted one guarantees.
  \<^item> Worker\_Attempt, Worker\_Result, Worker\_Outcome: the execution of a started attempt
    (runtime\_worker\_attempt.go). A handler is a tree of the calls it makes. The locale
    \<^verbatim>\<open>runtime_store_execution\<close> states what it needs of the store. Its properties: no outcome is
    dropped, the stored result passes the client's check, and the cases where an output is not
    reported.
  \<^item> Worker\_Cancel: commands of the platform for running attempts (runtime\_worker\_cancel.go):
    cancellation, revocation, the command loop, renewal of leases. An attempt is retired only after
    the platform confirmed that it stopped.
  \<^item> Runtime\_Messages, Runtime\_Client: the messages of the runtime protocol with their checks and
    the HTTP client (runtime\_http.go, runtime\_types.go). The exchange and the JSON decoders are
    parameters. Every request passed its check and carries an attachment the platform issued.
  \<^item> Worker\_Drain: the graceful drain (runtime\_worker\_drain.go) beside arbitrary other goroutines:
    it returns, and success means that nothing is left locally or at the platform.
  \<^item> Platform\_Client: idempotency keys (idempotency.go) and task callbacks (webhook.go).
  \<^item> Client\_Url, Client\_Http, Client\_Stream, Client\_Calls: the platform client (client.go). URLs and
    queries over what \<^verbatim>\<open>net/url\<close> does, construction, headers and bounded reading, server-sent events
    over the lines of \<^verbatim>\<open>bufio.Scanner\<close>, the calls and their callbacks. The exchange is a parameter.
    The stream reader undoes a writer of the format and drops a broken event; callbacks follow the
    stream; identifiers in paths are escaped twice.
  \<^item> Runtime\_Invocation: delegated calls (runtime\_invocation.go) sent through the platform client;
    the proof binds body, context, key, method and path.
  \<^item> Store\_Int: the clamps of runtime\_store\_int.go on machine words.

  \<^bold>\<open>Bounds.\<close> No fuel is used: a loop is structural, has a termination proof, or is a partial
  function whose value \<^term>\<open>None\<close> means that the call does not return (the retry loops, which the
  code bounds only by its context). The repair of missing events is tried at most once, as the
  code bounds it.

  \<^bold>\<open>Not modelled.\<close> Network I/O, timers and goroutine scheduling (their effects are parameters or
  interleavings), system calls and file locks, the encryption itself (a sealed record is an
  ideal blob that opens only under its key and header), JSON encoding and decoding of payloads
  (parameters), generated code and examples.
\<close>

end
